(* ===== verification/Tls_Prelude.thy ===== *)
theory Tls_Prelude
  imports Main "HOL-Library.Word" "HOL-Library.Sublist"
begin

text \<open>
  Vocabulary shared by every theory of the development: the machine integers of
  the Rust sources as words, byte strings, Rust's \<open>Result\<close> as a sum type
  (\<open>Inl\<close> is \<open>Err\<close>, \<open>Inr\<close> is \<open>Ok\<close>) with the \<open>?\<close> operator as \<open>bindR\<close>, big-endian
  conversions between words and bytes, and the list facts the component proofs
  use.
\<close>

unbundle bit_operations_syntax

type_synonym u8 = "8 word"
type_synonym u16 = "16 word"
type_synonym u32 = "32 word"
type_synonym u64 = "64 word"
type_synonym usize = nat
type_synonym bytes = "u8 list"

text \<open>\<open>usize::MAX\<close> on the 64-bit targets the model is about.\<close>

definition usize_MAX :: usize where
  "usize_MAX = 2 ^ 64 - 1"

named_theorems result_simps \<open>evaluation and inversion of the result type\<close>
named_theorems wire_simps \<open>evaluation rules of encoders and decoders\<close>
named_theorems wire_dest \<open>what a successful decoder tells about its input\<close>
named_theorems wf_simps \<open>well-formedness predicates of wire structures\<close>

subsection \<open>Results\<close>

text \<open>The \<open>?\<close> operator: return the error early, otherwise go on with the payload.\<close>

fun bindR :: "'e + 'a \<Rightarrow> ('a \<Rightarrow> 'e + 'b) \<Rightarrow> 'e + 'b" where
  "bindR (Inl e) f = Inl e"
| "bindR (Inr x) f = f x"

fun map_err :: "('e \<Rightarrow> 'f) \<Rightarrow> 'e + 'a \<Rightarrow> 'f + 'a" where
  "map_err f (Inl e) = Inl (f e)"
| "map_err f (Inr x) = Inr x"

fun ok_or :: "'e \<Rightarrow> 'a option \<Rightarrow> 'e + 'a" where
  "ok_or e None = Inl e"
| "ok_or e (Some x) = Inr x"

lemma bindR_Inr_iff [result_simps]:
  "bindR m f = Inr y \<longleftrightarrow> (\<exists>x. m = Inr x \<and> f x = Inr y)"
  by (cases m) auto

lemma bindR_Inl_iff [result_simps]:
  "bindR m f = Inl e \<longleftrightarrow> m = Inl e \<or> (\<exists>x. m = Inr x \<and> f x = Inl e)"
  by (cases m) auto

lemma bindR_InrE [elim!]:
  assumes "bindR m f = Inr y"
  obtains x where "m = Inr x" "f x = Inr y"
  using assms by (cases m) auto

lemma bindR_assoc: "bindR (bindR m f) g = bindR m (\<lambda>x. bindR (f x) g)"
  by (cases m) auto

lemma bindR_cong [fundef_cong]:
  "m = m' \<Longrightarrow> (\<And>x. m' = Inr x \<Longrightarrow> f x = f' x) \<Longrightarrow> bindR m f = bindR m' f'"
  by (cases m') auto

lemma map_err_Inr_iff [simp]: "map_err f m = Inr y \<longleftrightarrow> m = Inr y"
  by (cases m) auto

lemma ok_or_Inr_iff [simp]: "ok_or e m = Inr y \<longleftrightarrow> m = Some y"
  by (cases m) auto

subsection \<open>Big-endian byte strings\<close>

text \<open>
  \<open>to_be_bytes n v\<close> is the big-endian representation of \<open>v\<close> in \<open>n\<close> bytes (the low
  \<open>n\<close> bytes of \<open>v\<close>); \<open>be_nat\<close> reads a byte string back as a number.
\<close>

definition to_be_bytes :: "nat \<Rightarrow> nat \<Rightarrow> bytes" where
  "to_be_bytes n v = map (\<lambda>i. word_of_nat (v div 256 ^ i)) (rev [0..<n])"

definition be_nat :: "bytes \<Rightarrow> nat" where
  "be_nat bs = foldl (\<lambda>acc b. acc * 256 + unat b) 0 bs"

lemma length_to_be_bytes [simp]: "length (to_be_bytes n v) = n"
  by (simp add: to_be_bytes_def)

lemma be_nat_Nil [simp]: "be_nat [] = 0"
  by (simp add: be_nat_def)

lemma be_nat_foldl:
  "foldl (\<lambda>acc b. acc * 256 + unat (b :: u8)) a bs = a * 256 ^ length bs + be_nat bs"
proof (induction bs arbitrary: a)
  case (Cons b bs)
  show ?case
    using Cons [of "a * 256 + unat b"] Cons [of "unat b"]
    by (simp add: be_nat_def algebra_simps)
qed simp

lemma be_nat_Cons [simp]: "be_nat (b # bs) = unat b * 256 ^ length bs + be_nat bs"
  using be_nat_foldl [of "unat b" bs] by (simp add: be_nat_def)

lemma be_nat_append: "be_nat (xs @ ys) = be_nat xs * 256 ^ length ys + be_nat ys"
  by (induction xs) (simp_all add: algebra_simps power_add)

lemma be_nat_less: "be_nat bs < 256 ^ length bs"
proof (induction bs)
  case (Cons b bs)
  have "unat b < 256" using unsigned_less [of b] by simp
  hence "Suc (unat b) * 256 ^ length bs \<le> 256 * 256 ^ length bs"
    by (intro mult_right_mono) simp_all
  hence "unat b * 256 ^ length bs + 256 ^ length bs \<le> 256 * 256 ^ length bs"
    by (simp only: mult_Suc add.commute)
  thus ?case using Cons by (simp only: be_nat_Cons length_Cons power_Suc)
qed simp

lemma to_be_bytes_0 [simp]: "to_be_bytes 0 v = []"
  by (simp add: to_be_bytes_def)

lemma to_be_bytes_Suc:
  "to_be_bytes (Suc n) v = word_of_nat (v div 256 ^ n) # to_be_bytes n v"
  by (simp add: to_be_bytes_def)

lemma unat_word_of_nat_u8: "unat (word_of_nat v :: u8) = v mod 256"
  by (simp add: unat_of_nat take_bit_eq_mod)

lemma be_nat_to_be_bytes: "be_nat (to_be_bytes n v) = v mod 256 ^ n"
proof (induction n)
  case (Suc n)
  have "v mod (256 ^ n * 256) = 256 ^ n * (v div 256 ^ n mod 256) + v mod 256 ^ n"
    by (rule mod_mult2_eq)
  thus ?case using Suc
    by (simp add: to_be_bytes_Suc unat_word_of_nat_u8 mult.commute)
qed simp

lemma to_be_bytes_be_nat: "length bs = n \<Longrightarrow> to_be_bytes n (be_nat bs) = bs"
proof (induction bs arbitrary: n)
  case (Cons b bs)
  have lt: "be_nat bs < 256 ^ length bs" by (rule be_nat_less)
  have mod: "to_be_bytes k (a * 256 ^ k + c) = to_be_bytes k c" for k a c
  proof -
    have "word_of_nat ((a * 256 ^ k + c) div 256 ^ i) = (word_of_nat (c div 256 ^ i) :: u8)"
      if "i < k" for i
    proof -
      obtain d where d: "k = i + Suc d" using \<open>i < k\<close> less_imp_Suc_add by auto
      have "(a * 256 ^ k + c) div 256 ^ i = (c + 256 ^ i * (a * 256 ^ Suc d)) div 256 ^ i"
        by (simp add: d power_add algebra_simps)
      also have "\<dots> = a * 256 ^ Suc d + c div 256 ^ i"
        by (subst div_mult_self2) simp_all
      finally have "(a * 256 ^ k + c) div 256 ^ i = 256 * (a * 256 ^ d) + c div 256 ^ i"
        by simp
      moreover have "word_of_nat 256 = (0 :: u8)" by simp
      ultimately show ?thesis by (simp only: of_nat_add of_nat_mult mult_zero_left add_0)
    qed
    thus ?thesis by (simp add: to_be_bytes_def)
  qed
  show ?case using Cons lt
    by (auto simp: to_be_bytes_Suc mod)
qed simp

lemma to_be_bytes_mod [simp]: "to_be_bytes n (v mod 256 ^ n) = to_be_bytes n v"
  using to_be_bytes_be_nat [of "to_be_bytes n v" n] by (simp add: be_nat_to_be_bytes)

lemma to_be_bytes_eq_iff:
  "to_be_bytes n v = to_be_bytes n w \<longleftrightarrow> v mod 256 ^ n = w mod 256 ^ n"
  by (metis be_nat_to_be_bytes to_be_bytes_mod)

lemma drop_to_be_bytes: "drop k (to_be_bytes (k + n) v) = to_be_bytes n v"
  by (induction k) (simp_all add: to_be_bytes_Suc)

lemma unat_less_numeral [simp]:
  "unat (a :: u8) < 256" "unat (b :: u16) < 65536"
  "unat (c :: u32) < 4294967296" "unat (d :: u64) < 18446744073709551616"
  using unsigned_less [of a] unsigned_less [of b] unsigned_less [of c] unsigned_less [of d]
  by simp_all

lemma unat_word_of_nat_u16: "unat (word_of_nat v :: u16) = v mod 65536"
  by (simp add: unat_of_nat take_bit_eq_mod)

lemma unat_word_of_nat_u32: "unat (word_of_nat v :: u32) = v mod 4294967296"
  by (simp add: unat_of_nat take_bit_eq_mod)

lemma unat_word_of_nat_u64: "unat (word_of_nat v :: u64) = v mod 18446744073709551616"
  by (simp add: unat_of_nat take_bit_eq_mod)

lemmas unat_word_of_nat_simps =
  unat_word_of_nat_u8 unat_word_of_nat_u16 unat_word_of_nat_u32 unat_word_of_nat_u64

subsection \<open>Slices\<close>

text \<open>Overwriting a range of a buffer in place: \<open>buf[off..off + n].copy_from_slice(bs)\<close>.\<close>

definition write_at :: "nat \<Rightarrow> 'a list \<Rightarrow> 'a list \<Rightarrow> 'a list" where
  "write_at off bs buf = take off buf @ bs @ drop (off + length bs) buf"

text \<open>The range \<open>xs[a..b]\<close>.\<close>

definition slice :: "nat \<Rightarrow> nat \<Rightarrow> 'a list \<Rightarrow> 'a list" where
  "slice a b xs = take (b - a) (drop a xs)"

lemma length_write_at [simp]:
  "off + length bs \<le> length buf \<Longrightarrow> length (write_at off bs buf) = length buf"
  by (simp add: write_at_def)

lemma write_at_prefix [simp]:
  "length old = length bs \<Longrightarrow> write_at (length pre) bs (pre @ old @ post) = pre @ bs @ post"
  by (simp add: write_at_def)

lemma length_slice [simp]: "length (slice a b xs) = min (b - a) (length xs - a)"
  by (simp add: slice_def)

lemma slice_append_slice:
  "a \<le> b \<Longrightarrow> b \<le> c \<Longrightarrow> slice a b xs @ slice b c xs = slice a c xs"
proof -
  assume "a \<le> b" "b \<le> c"
  hence "c - a = (b - a) + (c - b)" and "drop (b - a) (drop a xs) = drop b xs" by simp_all
  thus ?thesis unfolding slice_def by (metis take_add)
qed

lemma slice_full [simp]: "slice 0 (length xs) xs = xs"
  by (simp add: slice_def)

lemma slice_empty [simp]: "b \<le> a \<Longrightarrow> slice a b xs = []"
  by (simp add: slice_def)

end
