(* ===== verification/Wire_Codec.thy ===== *)
theory Wire_Codec
  imports Tls_Prelude
begin

text \<open>
  The wire codec layer (\<open>rustls/src/msgs/codec.rs\<close>): the \<open>Reader\<close> cursor, the
  integer codecs, length prefixes, \<open>SizedPayload\<close>, \<open>LengthPrefixedBuffer\<close> and
  the list codec, with the \<open>InvalidMessage\<close> errors they return.

  A \<open>Reader\<close> is its remaining buffer.  A decoder takes that buffer and returns
  the decoded payload with the new remainder, or the error.  \<open>encode\<close> appends to
  a \<open>Vec<u8>\<close>; an encoder of the model is the appended byte string.  The one
  place that goes back into the vector, \<open>LengthPrefixedBuffer\<close>, is modelled on
  the vector itself and shown to append.

  The contract between a codec and its users is the locale \<open>wire_codec\<close>; its
  extensions are canonical codecs (what was read is the encoding) and
  list elements (\<open>TlsListElement\<close>).
\<close>

subsection \<open>Errors\<close>

datatype KeyExchangeAlgorithm = DHE | ECDHE

datatype InvalidMessage =
    CertificatePayloadTooLarge
  | HandshakePayloadTooLarge
  | InvalidCcs
  | InvalidContentType
  | InvalidCertificateStatusType
  | InvalidCertRequest
  | InvalidDhParams
  | InvalidEmptyPayload
  | InvalidKeyUpdate
  | InvalidServerName
  | MessageTooLarge
  | MessageTooShort
  | MisplacedExtension u16
  | MissingData string
  | MissingKeyExchange
  | NoSignatureSchemes
  | TrailingData string
  | UnexpectedMessage string
  | UnknownProtocolVersion
  | UnsupportedCompression
  | UnsupportedCurveType
  | UnsupportedKeyExchangeAlgorithm KeyExchangeAlgorithm
  | EmptyTicketValue
  | IllegalEmptyList string
  | DuplicateExtension u16
  | PreSharedKeyIsNotFinalExtension
  | UnknownHelloRetryRequestExtension
  | UnknownCertificateExtension
  | IllegalEmptyCertificateAuthoritiesExtension

type_synonym 'a decoder = "bytes \<Rightarrow> InvalidMessage + 'a \<times> bytes"

subsection \<open>The reader\<close>

type_synonym Reader = bytes

definition Reader_any_left :: "Reader \<Rightarrow> bool" where
  "Reader_any_left r = (r \<noteq> [])"

definition Reader_left :: "Reader \<Rightarrow> usize" where
  "Reader_left r = length r"

definition Reader_take :: "usize \<Rightarrow> Reader \<Rightarrow> (bytes \<times> Reader) option" where
  "Reader_take len r = (if len \<le> length r then Some (take len r, drop len r) else None)"

definition Reader_rest :: "Reader \<Rightarrow> bytes \<times> Reader" where
  "Reader_rest r = (r, [])"

definition Reader_sub :: "usize \<Rightarrow> Reader decoder" where
  "Reader_sub len r = ok_or MessageTooShort (Reader_take len r)"

definition Reader_take_array :: "nat \<Rightarrow> string \<Rightarrow> bytes decoder" where
  "Reader_take_array n ty r =
     (if n \<le> length r then Inr (take n r, drop n r) else Inl (MissingData ty))"

definition Reader_all :: "string \<Rightarrow> 'a decoder \<Rightarrow> 'a decoder" where
  "Reader_all type_name f r =
     bindR (f r) (\<lambda>(v, r). if Reader_any_left r then Inl (TrailingData type_name) else Inr (v, r))"

text \<open>\<open>Codec::read_bytes\<close>: decode a whole byte string with the decoder \<open>f\<close>.\<close>

definition read_bytes :: "'a decoder \<Rightarrow> bytes \<Rightarrow> InvalidMessage + 'a" where
  "read_bytes f bs = bindR (Reader_all ''read_bytes'' f bs) (\<lambda>(v, _). Inr v)"

lemma Reader_sub_append [wire_simps]:
  "length xs = n \<Longrightarrow> Reader_sub n (xs @ rest) = Inr (xs, rest)"
  by (auto simp: Reader_sub_def Reader_take_def)

lemma Reader_take_array_append [wire_simps]:
  "length xs = n \<Longrightarrow> Reader_take_array n ty (xs @ rest) = Inr (xs, rest)"
  by (auto simp: Reader_take_array_def)

lemma Reader_sub_InrD [wire_dest]:
  "Reader_sub n r = Inr (xs, rest) \<Longrightarrow> r = xs @ rest \<and> length xs = n"
  by (auto simp: Reader_sub_def Reader_take_def split: if_splits)

lemma Reader_take_array_InrD [wire_dest]:
  "Reader_take_array n ty r = Inr (xs, rest) \<Longrightarrow> r = xs @ rest \<and> length xs = n"
  by (auto simp: Reader_take_array_def split: if_splits)

lemma Reader_all_Inr_iff:
  "Reader_all ty f r = Inr (v, rest) \<longleftrightarrow> f r = Inr (v, []) \<and> rest = []"
  by (auto simp: Reader_all_def Reader_any_left_def result_simps split: prod.splits if_splits)

lemma Reader_all_Inr [wire_simps]: "f r = Inr (v, []) \<Longrightarrow> Reader_all ty f r = Inr (v, [])"
  by (simp add: Reader_all_Inr_iff)

lemma read_bytes_Inr_iff: "read_bytes f bs = Inr v \<longleftrightarrow> f bs = Inr (v, [])"
  by (auto simp: read_bytes_def result_simps Reader_all_Inr_iff)

subsection \<open>Codec contracts\<close>

locale wire_codec =
  fixes encode :: "'a \<Rightarrow> bytes" and read :: "'a decoder" and wf :: "'a \<Rightarrow> bool"
  assumes read_encode [wire_simps]: "wf x \<Longrightarrow> read (encode x @ rest) = Inr (x, rest)"
begin

lemma read_encode_nil [wire_simps]: "wf x \<Longrightarrow> read (encode x) = Inr (x, [])"
  using read_encode [of x "[]"] by simp

lemma read_bytes_encode: "wf x \<Longrightarrow> read_bytes read (encode x) = Inr x"
  by (simp add: read_bytes_Inr_iff read_encode_nil)

lemma encode_inj: "wf x \<Longrightarrow> wf y \<Longrightarrow> encode x = encode y \<Longrightarrow> x = y"
  by (metis read_encode_nil Inr_inject prod.inject)

text \<open>Encodings are prefix free: no well-formed encoding is a proper prefix of another.\<close>

lemma encode_prefix_free: "wf x \<Longrightarrow> wf y \<Longrightarrow> encode x @ r = encode y @ s \<Longrightarrow> x = y \<and> r = s"
  by (metis read_encode Inr_inject prod.inject)

end

text \<open>
  A weaker contract for payloads that fill an extension body or a message to its end: what
  was encoded is read back when nothing follows.
\<close>

locale body_codec =
  fixes encode :: "'a \<Rightarrow> bytes" and read :: "'a decoder" and wf :: "'a \<Rightarrow> bool"
  assumes read_body_encode [wire_simps]: "wf x \<Longrightarrow> read (encode x) = Inr (x, [])"
begin

lemma read_bytes_body: "wf x \<Longrightarrow> read_bytes read (encode x) = Inr x"
  by (simp add: read_bytes_Inr_iff read_body_encode)

lemma encode_body_inj: "wf x \<Longrightarrow> wf y \<Longrightarrow> encode x = encode y \<Longrightarrow> x = y"
  by (metis read_body_encode Inr_inject prod.inject)

end

sublocale wire_codec \<subseteq> body: body_codec encode read wf
  by unfold_locales (rule read_encode_nil)

locale canonical_codec = wire_codec +
  assumes encode_read [wire_dest]: "read r = Inr (x, rest) \<Longrightarrow> wf x \<and> r = encode x @ rest"
begin

lemma read_iff: "read r = Inr (x, rest) \<longleftrightarrow> wf x \<and> r = encode x @ rest"
  using encode_read read_encode by blast

lemma read_suffix: "read r = Inr (x, rest) \<Longrightarrow> suffix rest r"
  using encode_read by (auto simp: suffix_def)

lemma read_bytes_iff: "read_bytes read bs = Inr x \<longleftrightarrow> wf x \<and> bs = encode x"
  by (simp add: read_bytes_Inr_iff read_iff)

end

subsection \<open>Integers\<close>

definition u8_encode :: "u8 \<Rightarrow> bytes" where
  "u8_encode v = [v]"

definition u8_read :: "u8 decoder" where
  "u8_read r = bindR (Reader_take_array 1 ''u8'' r) (\<lambda>(bs, r). Inr (hd bs, r))"

text \<open>\<open>put_u16\<close> and \<open>put_u64\<close> overwrite the first bytes of a slice that is long enough.\<close>

definition put_u16 :: "u16 \<Rightarrow> bytes \<Rightarrow> bytes" where
  "put_u16 v out = write_at 0 (to_be_bytes 2 (unat v)) out"

definition put_u64 :: "u64 \<Rightarrow> bytes \<Rightarrow> bytes" where
  "put_u64 v out = write_at 0 (to_be_bytes 8 (unat v)) out"

definition u16_encode :: "u16 \<Rightarrow> bytes" where
  "u16_encode v = put_u16 v (replicate 2 0)"

definition u16_read :: "u16 decoder" where
  "u16_read r = bindR (Reader_take_array 2 ''u16'' r) (\<lambda>(bs, r). Inr (word_of_nat (be_nat bs), r))"

text \<open>\<open>U24\<close> wraps a \<open>u32\<close>; only its low three bytes travel.\<close>

type_synonym U24 = u32

definition U24_encode :: "U24 \<Rightarrow> bytes" where
  "U24_encode v = drop 1 (to_be_bytes 4 (unat v))"

definition U24_read :: "U24 decoder" where
  "U24_read r =
     bindR (Reader_take_array 3 ''u24'' r) (\<lambda>(bs, r). Inr (word_of_nat (be_nat (0 # bs)), r))"

definition u32_encode :: "u32 \<Rightarrow> bytes" where
  "u32_encode v = to_be_bytes 4 (unat v)"

definition u32_read :: "u32 decoder" where
  "u32_read r = bindR (Reader_take_array 4 ''u32'' r) (\<lambda>(bs, r). Inr (word_of_nat (be_nat bs), r))"

definition u64_encode :: "u64 \<Rightarrow> bytes" where
  "u64_encode v = put_u64 v (replicate 8 0)"

definition u64_read :: "u64 decoder" where
  "u64_read r = bindR (Reader_take_array 8 ''u64'' r) (\<lambda>(bs, r). Inr (word_of_nat (be_nat bs), r))"

definition unit_encode :: "unit \<Rightarrow> bytes" where
  "unit_encode u = []"

definition unit_read :: "unit decoder" where
  "unit_read = Reader_all ''Empty'' (\<lambda>r. Inr ((), r))"

definition U24_wf :: "U24 \<Rightarrow> bool" where
  "U24_wf v = (unat v < 2 ^ 24)"

lemma length_int_encode [simp]:
  "length (u8_encode a) = 1" "length (u16_encode b) = 2" "length (U24_encode c) = 3"
  "length (u32_encode c) = 4" "length (u64_encode d) = 8"
  by (simp_all add: u8_encode_def u16_encode_def U24_encode_def u32_encode_def u64_encode_def
      put_u16_def put_u64_def)

lemma u16_encode_alt: "u16_encode v = to_be_bytes 2 (unat v)"
  by (simp add: u16_encode_def put_u16_def write_at_def)

lemma u64_encode_alt: "u64_encode v = to_be_bytes 8 (unat v)"
  by (simp add: u64_encode_def put_u64_def write_at_def)

lemma U24_encode_alt: "U24_encode v = to_be_bytes 3 (unat v)"
  using drop_to_be_bytes [of 1 3 "unat v"] by (simp add: U24_encode_def)

text \<open>One fact for all widths: reading back the \<open>n\<close> big-endian bytes of a word of \<open>8 * n\<close> bits.\<close>

lemma read_be_word_iff:
  fixes x :: "'w :: len word"
  assumes "LENGTH('w) = 8 * n"
  shows "bindR (Reader_take_array n ty r) (\<lambda>(bs, r). Inr (word_of_nat (be_nat bs), r)) = Inr (x, rest)
    \<longleftrightarrow> r = to_be_bytes n (unat x) @ rest" (is "?l \<longleftrightarrow> ?r")
proof
  have pow: "(2 :: nat) ^ LENGTH('w) = 256 ^ n" using assms by (simp add: power_mult)
  show ?r if l: ?l
  proof -
    obtain bs where bs: "r = bs @ rest" "length bs = n" "x = word_of_nat (be_nat bs)"
      using l by (auto dest!: Reader_take_array_InrD)
    thus ?thesis using be_nat_less [of bs]
      by (simp add: unat_of_nat take_bit_nat_eq_self pow to_be_bytes_be_nat)
  qed
  have "unat x < 256 ^ n" using unsigned_less [of x] pow by metis
  thus ?l if ?r using that by (simp add: wire_simps be_nat_to_be_bytes)
qed

interpretation u8c: canonical_codec u8_encode u8_read "\<lambda>_. True"
proof unfold_locales
  show "u8_read (u8_encode x @ rest) = Inr (x, rest)" for x rest
    by (simp add: u8_read_def u8_encode_def Reader_take_array_def)
  show "True \<and> r = u8_encode x @ rest" if "u8_read r = Inr (x, rest)" for r x rest
    using that by (cases r) (auto simp: u8_read_def u8_encode_def Reader_take_array_def
        split: if_splits)
qed

interpretation u16c: canonical_codec u16_encode u16_read "\<lambda>_. True"
  by unfold_locales (simp_all add: u16_read_def u16_encode_alt read_be_word_iff)

interpretation u32c: canonical_codec u32_encode u32_read "\<lambda>_. True"
  by unfold_locales (simp_all add: u32_read_def u32_encode_def read_be_word_iff)

interpretation u64c: canonical_codec u64_encode u64_read "\<lambda>_. True"
  by unfold_locales (simp_all add: u64_read_def u64_encode_alt read_be_word_iff)

interpretation U24c: canonical_codec U24_encode U24_read U24_wf
proof unfold_locales
  show "U24_wf x \<Longrightarrow> U24_read (U24_encode x @ rest) = Inr (x, rest)" for x rest
    by (simp add: U24_read_def U24_encode_alt wire_simps be_nat_to_be_bytes U24_wf_def)
  show "U24_wf x \<and> r = U24_encode x @ rest" if l: "U24_read r = Inr (x, rest)" for r x rest
  proof -
    obtain bs where bs: "r = bs @ rest" "length bs = 3" "x = word_of_nat (be_nat bs)"
      using l by (auto simp: U24_read_def dest!: Reader_take_array_InrD)
    moreover have "be_nat bs < 2 ^ 24" using be_nat_less [of bs] bs(2) by simp
    ultimately show ?thesis
      by (simp add: U24_wf_def U24_encode_alt to_be_bytes_be_nat unat_word_of_nat_u32)
  qed
qed

subsection \<open>Length prefixes\<close>

datatype ListLength =
    NonZeroU8 InvalidMessage
  | U16
  | NonZeroU16 InvalidMessage
  | U24 nat InvalidMessage
  | NonZeroU24 nat InvalidMessage InvalidMessage

fun ListLength_read :: "ListLength \<Rightarrow> usize decoder" where
  "ListLength_read (NonZeroU8 empty_error) r =
     bindR (u8_read r) (\<lambda>(v, r). let len = unat v in
       if len = 0 then Inl empty_error else Inr (len, r))"
| "ListLength_read U16 r = bindR (u16_read r) (\<lambda>(v, r). Inr (unat v, r))"
| "ListLength_read (NonZeroU16 empty_error) r =
     bindR (u16_read r) (\<lambda>(v, r). let len = unat v in
       if len = 0 then Inl empty_error else Inr (len, r))"
| "ListLength_read (U24 max_len error) r =
     bindR (U24_read r) (\<lambda>(v, r). let len = unat v in
       if len > max_len then Inl error else Inr (len, r))"
| "ListLength_read (NonZeroU24 max_len empty_error too_many_error) r =
     bindR (U24_read r) (\<lambda>(v, r). let len = unat v in
       if len = 0 then Inl empty_error
       else if len > max_len then Inl too_many_error
       else Inr (len, r))"

text \<open>Number of bytes of the prefix, and the lengths a prefix of that kind admits.\<close>

fun ListLength_width :: "ListLength \<Rightarrow> nat" where
  "ListLength_width (NonZeroU8 _) = 1"
| "ListLength_width U16 = 2"
| "ListLength_width (NonZeroU16 _) = 2"
| "ListLength_width (U24 _ _) = 3"
| "ListLength_width (NonZeroU24 _ _ _) = 3"

fun ListLength_admits :: "ListLength \<Rightarrow> nat \<Rightarrow> bool" where
  "ListLength_admits (NonZeroU8 _) n = (0 < n \<and> n < 2 ^ 8)"
| "ListLength_admits U16 n = (n < 2 ^ 16)"
| "ListLength_admits (NonZeroU16 _) n = (0 < n \<and> n < 2 ^ 16)"
| "ListLength_admits (U24 m _) n = (n \<le> m \<and> n < 2 ^ 24)"
| "ListLength_admits (NonZeroU24 m _ _) n = (0 < n \<and> n \<le> m \<and> n < 2 ^ 24)"

lemma u8_read_iff: "u8_read r = Inr (v, rest) \<longleftrightarrow> r = to_be_bytes 1 (unat v) @ rest"
  by (simp add: u8c.read_iff u8_encode_def to_be_bytes_def)

lemma u16_read_iff: "u16_read r = Inr (v, rest) \<longleftrightarrow> r = to_be_bytes 2 (unat v) @ rest"
  by (simp add: u16c.read_iff u16_encode_alt)

lemma U24_read_iff:
  "U24_read r = Inr (v, rest) \<longleftrightarrow> unat v < 16777216 \<and> r = to_be_bytes 3 (unat v) @ rest"
  by (simp add: U24c.read_iff U24_encode_alt U24_wf_def)

lemma ListLength_read_iff:
  "ListLength_read sl r = Inr (n, rest) \<longleftrightarrow>
     ListLength_admits sl n \<and> r = to_be_bytes (ListLength_width sl) n @ rest" (is "?l \<longleftrightarrow> ?r")
proof
  show "?l \<Longrightarrow> ?r"
    by (cases sl) (auto simp: Let_def u8_read_iff u16_read_iff U24_read_iff split: if_splits)
  show "?l" if ?r
  proof -
    have "u8_read r = Inr (word_of_nat n, rest)" if "ListLength_width sl = 1"
      using \<open>?r\<close> that by (cases sl) (auto simp: u8_read_iff unat_word_of_nat_u8)
    moreover have "u16_read r = Inr (word_of_nat n, rest)" if "ListLength_width sl = 2"
      using \<open>?r\<close> that by (cases sl) (auto simp: u16_read_iff unat_word_of_nat_u16)
    moreover have "U24_read r = Inr (word_of_nat n, rest)" if "ListLength_width sl = 3"
      using \<open>?r\<close> that by (cases sl) (auto simp: U24_read_iff unat_word_of_nat_u32)
    ultimately show ?thesis using \<open>?r\<close>
      by (cases sl) (auto simp: Let_def unat_word_of_nat_simps)
  qed
qed

declare ListLength_read.simps [simp del]

subsection \<open>Sized payloads\<close>

text \<open>
  The type parameters of \<open>SizedPayload<L, C>\<close> are arguments here: \<open>PayloadSize\<close> is
  the integer type of the prefix, \<open>Cardinality\<close> the minimum length.  A payload is
  its bytes; the owned/borrowed distinction is not observable.
\<close>

datatype PayloadSize = Size_u8 | Size_u16 | Size_U24

datatype Cardinality = MaybeEmpty | NonEmpty

fun PayloadSize_MAX :: "PayloadSize \<Rightarrow> usize" where
  "PayloadSize_MAX Size_U24 = 0xFFFFFF"
| "PayloadSize_MAX Size_u16 = 0xFFFF"
| "PayloadSize_MAX Size_u8 = 0xFF"

fun Cardinality_MIN :: "Cardinality \<Rightarrow> usize" where
  "Cardinality_MIN MaybeEmpty = 0"
| "Cardinality_MIN NonEmpty = 1"

text \<open>\<open>L::length(inner).encode(bytes)\<close>, with the truncating cast of \<open>length\<close>.\<close>

fun PayloadSize_encode_length :: "PayloadSize \<Rightarrow> bytes \<Rightarrow> bytes" where
  "PayloadSize_encode_length Size_U24 inner = U24_encode (word_of_nat (length inner))"
| "PayloadSize_encode_length Size_u16 inner = u16_encode (word_of_nat (length inner))"
| "PayloadSize_encode_length Size_u8 inner = u8_encode (word_of_nat (length inner))"

fun PayloadSize_read :: "PayloadSize \<Rightarrow> usize decoder" where
  "PayloadSize_read Size_U24 r = bindR (U24_read r) (\<lambda>(v, r). Inr (unat v, r))"
| "PayloadSize_read Size_u16 r = bindR (u16_read r) (\<lambda>(v, r). Inr (unat v, r))"
| "PayloadSize_read Size_u8 r = bindR (u8_read r) (\<lambda>(v, r). Inr (unat v, r))"

definition SizedPayload_encode :: "PayloadSize \<Rightarrow> Cardinality \<Rightarrow> bytes \<Rightarrow> bytes" where
  "SizedPayload_encode L C inner = PayloadSize_encode_length L inner @ inner"

definition SizedPayload_read :: "PayloadSize \<Rightarrow> Cardinality \<Rightarrow> bytes decoder" where
  "SizedPayload_read L C r =
     bindR (PayloadSize_read L r) (\<lambda>(len, r).
       if len < Cardinality_MIN C then Inl (IllegalEmptyList ''SizedPayload'')
       else bindR (Reader_sub len r) (\<lambda>(sub, r). Inr (fst (Reader_rest sub), r)))"

definition SizedPayload_wf :: "PayloadSize \<Rightarrow> Cardinality \<Rightarrow> bytes \<Rightarrow> bool" where
  "SizedPayload_wf L C inner =
     (Cardinality_MIN C \<le> length inner \<and> length inner \<le> PayloadSize_MAX L)"

fun PayloadSize_width :: "PayloadSize \<Rightarrow> nat" where
  "PayloadSize_width Size_u8 = 1"
| "PayloadSize_width Size_u16 = 2"
| "PayloadSize_width Size_U24 = 3"

lemma PayloadSize_encode_length_alt:
  "length inner \<le> PayloadSize_MAX L \<Longrightarrow>
     PayloadSize_encode_length L inner = to_be_bytes (PayloadSize_width L) (length inner)"
  by (cases L) (simp_all add: U24_encode_alt u16_encode_alt u8_encode_def to_be_bytes_def
      unat_word_of_nat_simps)

lemma PayloadSize_read_iff:
  "PayloadSize_read L r = Inr (n, rest) \<longleftrightarrow>
     n \<le> PayloadSize_MAX L \<and> r = to_be_bytes (PayloadSize_width L) n @ rest" (is "?l \<longleftrightarrow> ?r")
proof
  show "?l \<Longrightarrow> ?r"
    by (cases L) (auto simp: u8_read_iff u16_read_iff U24_read_iff less_Suc_eq_le [symmetric])
  show "?r \<Longrightarrow> ?l"
    by (cases L) (auto simp: result_simps u8_read_iff u16_read_iff U24_read_iff
        unat_word_of_nat_simps intro!: exI [of _ "word_of_nat n"])
qed

lemma length_SizedPayload_encode:
  "length (SizedPayload_encode L C inner) = PayloadSize_width L + length inner"
  by (cases L) (simp_all add: SizedPayload_encode_def)

lemma sized_payload_canonical:
  "canonical_codec (SizedPayload_encode L C) (SizedPayload_read L C) (SizedPayload_wf L C)"
proof unfold_locales
  show "SizedPayload_read L C (SizedPayload_encode L C x @ rest) = Inr (x, rest)"
    if "SizedPayload_wf L C x" for x rest
  proof -
    have "PayloadSize_read L (SizedPayload_encode L C x @ rest) = Inr (length x, x @ rest)"
      using that by (simp add: SizedPayload_encode_def SizedPayload_wf_def
          PayloadSize_encode_length_alt PayloadSize_read_iff)
    thus ?thesis using that
      by (simp add: SizedPayload_read_def SizedPayload_wf_def wire_simps Reader_rest_def)
  qed
  show "SizedPayload_wf L C x \<and> r = SizedPayload_encode L C x @ rest"
    if "SizedPayload_read L C r = Inr (x, rest)" for r x rest
    using that
    by (auto simp: SizedPayload_read_def SizedPayload_wf_def SizedPayload_encode_def
        Reader_rest_def PayloadSize_read_iff PayloadSize_encode_length_alt
        split: if_splits dest!: Reader_sub_InrD)
qed

interpretation spc: canonical_codec
  "SizedPayload_encode L C" "SizedPayload_read L C" "SizedPayload_wf L C" for L C
  by (rule sized_payload_canonical)

subsection \<open>Single-pass length-prefixed encoding\<close>

record LengthPrefixedBuffer =
  lpb_buf :: bytes
  len_offset :: usize
  size_len :: ListLength

fun LengthPrefixedBuffer_dummy :: "ListLength \<Rightarrow> bytes" where
  "LengthPrefixedBuffer_dummy (NonZeroU8 _) = [0xff]"
| "LengthPrefixedBuffer_dummy U16 = [0xff, 0xff]"
| "LengthPrefixedBuffer_dummy (NonZeroU16 _) = [0xff, 0xff]"
| "LengthPrefixedBuffer_dummy (U24 _ _) = [0xff, 0xff, 0xff]"
| "LengthPrefixedBuffer_dummy (NonZeroU24 _ _ _) = [0xff, 0xff, 0xff]"

definition LengthPrefixedBuffer_new :: "ListLength \<Rightarrow> bytes \<Rightarrow> LengthPrefixedBuffer" where
  "LengthPrefixedBuffer_new sl b =
     \<lparr>lpb_buf = b @ LengthPrefixedBuffer_dummy sl, len_offset = length b, size_len = sl\<rparr>"

text \<open>
  \<open>drop\<close> computes the body length from the final size of the vector and patches
  the dummy prefix.  The casts truncate, as in a release build, where the
  \<open>debug_assert!\<close>s are absent.
\<close>

definition LengthPrefixedBuffer_drop :: "LengthPrefixedBuffer \<Rightarrow> bytes" where
  "LengthPrefixedBuffer_drop self =
     (let off = len_offset self; b = lpb_buf self in
      case size_len self of
        NonZeroU8 _ \<Rightarrow>
          let len = length b - off - 1 in b[off := word_of_nat len]
      | U16 \<Rightarrow>
          let len = length b - off - 2 in
          write_at off (to_be_bytes 2 (unat (word_of_nat len :: u16))) b
      | NonZeroU16 _ \<Rightarrow>
          let len = length b - off - 2 in
          write_at off (to_be_bytes 2 (unat (word_of_nat len :: u16))) b
      | U24 _ _ \<Rightarrow>
          let len = length b - off - 3 in
          write_at off (drop 1 (to_be_bytes 4 (unat (word_of_nat len :: u32)))) b
      | NonZeroU24 _ _ _ \<Rightarrow>
          let len = length b - off - 3 in
          write_at off (drop 1 (to_be_bytes 4 (unat (word_of_nat len :: u32)))) b)"

text \<open>
  The scope of a \<open>LengthPrefixedBuffer\<close>: create it on the output vector, append
  the body through it, drop it.
\<close>

definition nest_append :: "ListLength \<Rightarrow> bytes \<Rightarrow> bytes \<Rightarrow> bytes" where
  "nest_append sl body out =
     (let nest = LengthPrefixedBuffer_new sl out in
      LengthPrefixedBuffer_drop (nest\<lparr>lpb_buf := lpb_buf nest @ body\<rparr>))"

definition length_prefixed :: "ListLength \<Rightarrow> bytes \<Rightarrow> bytes" where
  "length_prefixed sl body = nest_append sl body []"

lemma to_be_bytes_u16_trunc: "to_be_bytes 2 (unat (word_of_nat n :: u16)) = to_be_bytes 2 n"
  using to_be_bytes_mod [of 2 n] by (simp add: unat_word_of_nat_u16)

lemma to_be_bytes_u24_trunc:
  "drop 1 (to_be_bytes 4 (unat (word_of_nat n :: u32))) = to_be_bytes 3 n"
  using to_be_bytes_mod [of 4 n] drop_to_be_bytes [of 1 3 n] by (simp add: unat_word_of_nat_u32)

lemma write_at_dummy:
  assumes "length pre = off" "length bs = 2"
  shows "write_at off bs (pre @ [x, y] @ body) = pre @ bs @ body"
  using write_at_prefix [of "[x, y]" bs pre body] assms by simp

lemma write_at_dummy3:
  assumes "length pre = off" "length bs = 3"
  shows "write_at off bs (pre @ [x, y, z] @ body) = pre @ bs @ body"
  using write_at_prefix [of "[x, y, z]" bs pre body] assms by simp

text \<open>
  Patching the length into the middle of the vector amounts to appending the
  prefix and the body, whatever the vector held before.
\<close>

lemma nest_append_eq:
  "nest_append sl body out = out @ to_be_bytes (ListLength_width sl) (length body) @ body"
proof -
  have one: "to_be_bytes (Suc 0) n = [word_of_nat n]" for n by (simp add: to_be_bytes_def)
  show ?thesis
    using write_at_dummy [of out "length out" "to_be_bytes 2 (length body)" "0xff" "0xff" body]
      write_at_dummy3 [of out "length out" "to_be_bytes 3 (length body)" "0xff" "0xff" "0xff" body]
    by (cases sl) (simp_all add: nest_append_def LengthPrefixedBuffer_new_def
        LengthPrefixedBuffer_drop_def Let_def one to_be_bytes_u16_trunc
        to_be_bytes_u24_trunc [unfolded One_nat_def])
qed

lemma length_prefixed_eq:
  "length_prefixed sl body = to_be_bytes (ListLength_width sl) (length body) @ body"
  by (simp add: length_prefixed_def nest_append_eq)

lemma length_length_prefixed [simp]:
  "length (length_prefixed sl body) = ListLength_width sl + length body"
  by (simp add: length_prefixed_eq)

lemma length_prefixed_nonempty: "length_prefixed sl body \<noteq> []"
  by (cases sl) (auto simp: length_prefixed_eq to_be_bytes_def)

lemma read_length_prefixed [wire_simps]:
  "ListLength_admits sl (length body) \<Longrightarrow>
     ListLength_read sl (length_prefixed sl body @ rest) = Inr (length body, body @ rest)"
  by (simp add: ListLength_read_iff length_prefixed_eq)

subsection \<open>Lists\<close>

text \<open>
  The loop of \<open>TlsListIter\<close>: while the sub-reader has bytes left, read an
  element, stop at the first error.  The source loop has no bound of its own; it
  ends because every element consumes a byte.  The recursion checks that, and
  \<open>read_items_loop\<close> below shows the check is never the one that decides for an
  element decoder that makes progress, which each list element of the
  program is proved to do.
\<close>

function read_items :: "'a decoder \<Rightarrow> bytes \<Rightarrow> InvalidMessage + 'a list" where
  "read_items f r =
     (if \<not> Reader_any_left r then Inr []
      else bindR (f r) (\<lambda>(x, r').
        if length r' < length r then bindR (read_items f r') (\<lambda>xs. Inr (x # xs))
        else Inl MessageTooShort))"
  by pat_completeness auto
termination by (relation "measure (\<lambda>(f, r). length r)") auto

declare read_items.simps [simp del]

definition TlsListIter_new :: "ListLength \<Rightarrow> Reader decoder" where
  "TlsListIter_new sl r = bindR (ListLength_read sl r) (\<lambda>(len, r). Reader_sub len r)"

definition Vec_encode :: "ListLength \<Rightarrow> ('a \<Rightarrow> bytes) \<Rightarrow> 'a list \<Rightarrow> bytes" where
  "Vec_encode sl enc xs = length_prefixed sl (concat (map enc xs))"

definition Vec_read :: "ListLength \<Rightarrow> 'a decoder \<Rightarrow> 'a list decoder" where
  "Vec_read sl f r =
     bindR (TlsListIter_new sl r) (\<lambda>(sub, r). bindR (read_items f sub) (\<lambda>xs. Inr (xs, r)))"

definition Vec_wf :: "ListLength \<Rightarrow> ('a \<Rightarrow> bytes) \<Rightarrow> ('a \<Rightarrow> bool) \<Rightarrow> 'a list \<Rightarrow> bool" where
  "Vec_wf sl enc wf_elem xs =
     (list_all wf_elem xs \<and> ListLength_admits sl (length (concat (map enc xs))))"

definition progressing :: "'a decoder \<Rightarrow> bool" where
  "progressing f = (\<forall>r x rest. f r = Inr (x, rest) \<longrightarrow> length rest < length r)"

text \<open>The loop equation of the source, without the progress check.\<close>

lemma read_items_loop:
  assumes "progressing f"
  shows "read_items f r =
    (if r = [] then Inr []
     else bindR (f r) (\<lambda>(x, r'). bindR (read_items f r') (\<lambda>xs. Inr (x # xs))))"
proof (cases "f r")
  case (Inr p)
  thus ?thesis using assms
    by (subst read_items.simps) (cases p; auto simp: progressing_def Reader_any_left_def)
qed (subst read_items.simps, simp add: Reader_any_left_def)

lemma TlsListIter_new_iff:
  "TlsListIter_new sl r = Inr (sub, rest) \<longleftrightarrow>
     ListLength_admits sl (length sub) \<and> r = length_prefixed sl sub @ rest"
  by (auto simp: TlsListIter_new_def result_simps ListLength_read_iff length_prefixed_eq
      wire_simps dest!: Reader_sub_InrD)

lemma TlsListIter_new_prefixed [wire_simps]:
  "ListLength_admits sl (length body) \<Longrightarrow>
     TlsListIter_new sl (length_prefixed sl body @ rest) = Inr (body, rest)"
  by (simp add: TlsListIter_new_iff)

locale tls_list_element = wire_codec +
  fixes size_len :: ListLength
  assumes read_progress: "read r = Inr (x, rest) \<Longrightarrow> length rest < length r"
begin

lemma progressing_read: "progressing read"
  using read_progress by (auto simp: progressing_def)

lemma encode_nonempty: "wf x \<Longrightarrow> encode x \<noteq> []"
  using read_encode_nil [of x] read_progress by fastforce

lemma read_items_encode:
  "list_all wf xs \<Longrightarrow> read_items read (concat (map encode xs)) = Inr xs"
proof (induction xs)
  case (Cons x xs)
  hence "encode x \<noteq> []" using encode_nonempty by simp
  thus ?case using Cons
    by (subst read_items_loop [OF progressing_read]) (simp add: read_encode)
qed (simp add: read_items_loop [OF progressing_read])

text \<open>\<open>Vec<T>\<close> is a codec whenever its elements are.\<close>

lemma Vec_codec:
  "wire_codec (Vec_encode size_len encode) (Vec_read size_len read) (Vec_wf size_len encode wf)"
  by unfold_locales
    (simp add: Vec_read_def Vec_encode_def Vec_wf_def wire_simps read_items_encode)

end

sublocale tls_list_element \<subseteq> vec: wire_codec
  "Vec_encode size_len encode" "Vec_read size_len read" "Vec_wf size_len encode wf"
  by (rule Vec_codec)

locale canonical_list_element = canonical_codec + tls_list_element
begin

lemma read_items_canonical:
  "read_items read r = Inr xs \<Longrightarrow> list_all wf xs \<and> r = concat (map encode xs)"
proof (induction r arbitrary: xs rule: length_induct)
  case (1 r)
  show ?case
  proof (cases "r = []")
    case False
    then obtain x r' ys where x: "read r = Inr (x, r')"
      and ys: "read_items read r' = Inr ys" "xs = x # ys"
      using 1(2) by (subst (asm) read_items_loop [OF progressing_read]) auto
    hence "list_all wf ys \<and> r' = concat (map encode ys)"
      using 1(1) read_progress by blast
    thus ?thesis using encode_read [OF x] ys by simp
  qed (use 1 in \<open>simp add: read_items_loop [OF progressing_read]\<close>)
qed

lemma Vec_canonical:
  "canonical_codec (Vec_encode size_len encode) (Vec_read size_len read)
     (Vec_wf size_len encode wf)"
proof unfold_locales
  show "Vec_wf size_len encode wf xs \<and> r = Vec_encode size_len encode xs @ rest"
    if "Vec_read size_len read r = Inr (xs, rest)" for r xs rest
    using that read_items_canonical
    by (fastforce simp: Vec_read_def Vec_wf_def Vec_encode_def TlsListIter_new_iff)
qed

end

sublocale canonical_list_element \<subseteq> cvec: canonical_codec
  "Vec_encode size_len encode" "Vec_read size_len read" "Vec_wf size_len encode wf"
  by (rule Vec_canonical)

end
