(* ===== verification/Wire_Enums.thy ===== *)
theory Wire_Enums
  imports Wire_Codec
begin

text \<open>
  Protocol enumerations (\<open>enums.rs\<close>, \<open>msgs/enums.rs\<close>, \<open>error/mod.rs\<close>,
  \<open>crypto/enums.rs\<close>, the macro \<open>enum_builder!\<close> of \<open>msgs/macros.rs\<close>).  The
  macro represents an enumeration by the integer on the wire with one named
  constant per known variant; so does the model.  Reading never fails on an
  unknown number, it fails only when bytes are missing, and then
  with the name of the enumeration.  ALPN protocol names
  (\<open>ApplicationProtocol\<close>) are a sum type with a catch-all, as in the source.
\<close>

definition enum_read :: "string \<Rightarrow> 'u decoder \<Rightarrow> 'u decoder" where
  "enum_read name uint_read r = map_err (\<lambda>_. MissingData name) (uint_read r)"

lemma enum_read_Inr_iff: "enum_read name f r = Inr p \<longleftrightarrow> f r = Inr p"
  by (simp add: enum_read_def)

lemma enum_canonical:
  assumes "canonical_codec enc f wf_x"
  shows "canonical_codec enc (enum_read name f) wf_x"
  using assms
  unfolding canonical_codec_def canonical_codec_axioms_def wire_codec_def enum_read_Inr_iff .

interpretation enum8: canonical_codec u8_encode "enum_read name u8_read" "\<lambda>_. True" for name
  by (rule enum_canonical) (rule u8c.canonical_codec_axioms)

interpretation enum16: canonical_codec u16_encode "enum_read name u16_read" "\<lambda>_. True" for name
  by (rule enum_canonical) (rule u16c.canonical_codec_axioms)

subsection \<open>Enumerations\<close>

type_synonym HandshakeType = u8

abbreviation (input) HandshakeType_HelloRequest :: HandshakeType where "HandshakeType_HelloRequest \<equiv> 0x00"
abbreviation (input) HandshakeType_ClientHello :: HandshakeType where "HandshakeType_ClientHello \<equiv> 0x01"
abbreviation (input) HandshakeType_ServerHello :: HandshakeType where "HandshakeType_ServerHello \<equiv> 0x02"
abbreviation (input) HandshakeType_HelloVerifyRequest :: HandshakeType where "HandshakeType_HelloVerifyRequest \<equiv> 0x03"
abbreviation (input) HandshakeType_NewSessionTicket :: HandshakeType where "HandshakeType_NewSessionTicket \<equiv> 0x04"
abbreviation (input) HandshakeType_EndOfEarlyData :: HandshakeType where "HandshakeType_EndOfEarlyData \<equiv> 0x05"
abbreviation (input) HandshakeType_HelloRetryRequest :: HandshakeType where "HandshakeType_HelloRetryRequest \<equiv> 0x06"
abbreviation (input) HandshakeType_EncryptedExtensions :: HandshakeType where "HandshakeType_EncryptedExtensions \<equiv> 0x08"
abbreviation (input) HandshakeType_Certificate :: HandshakeType where "HandshakeType_Certificate \<equiv> 0x0b"
abbreviation (input) HandshakeType_ServerKeyExchange :: HandshakeType where "HandshakeType_ServerKeyExchange \<equiv> 0x0c"
abbreviation (input) HandshakeType_CertificateRequest :: HandshakeType where "HandshakeType_CertificateRequest \<equiv> 0x0d"
abbreviation (input) HandshakeType_ServerHelloDone :: HandshakeType where "HandshakeType_ServerHelloDone \<equiv> 0x0e"
abbreviation (input) HandshakeType_CertificateVerify :: HandshakeType where "HandshakeType_CertificateVerify \<equiv> 0x0f"
abbreviation (input) HandshakeType_ClientKeyExchange :: HandshakeType where "HandshakeType_ClientKeyExchange \<equiv> 0x10"
abbreviation (input) HandshakeType_Finished :: HandshakeType where "HandshakeType_Finished \<equiv> 0x14"
abbreviation (input) HandshakeType_CertificateURL :: HandshakeType where "HandshakeType_CertificateURL \<equiv> 0x15"
abbreviation (input) HandshakeType_CertificateStatus :: HandshakeType where "HandshakeType_CertificateStatus \<equiv> 0x16"
abbreviation (input) HandshakeType_KeyUpdate :: HandshakeType where "HandshakeType_KeyUpdate \<equiv> 0x18"
abbreviation (input) HandshakeType_CompressedCertificate :: HandshakeType where "HandshakeType_CompressedCertificate \<equiv> 0x19"
abbreviation (input) HandshakeType_MessageHash :: HandshakeType where "HandshakeType_MessageHash \<equiv> 0xfe"

abbreviation HandshakeType_read :: "HandshakeType decoder" where
  "HandshakeType_read \<equiv> enum_read ''HandshakeType'' u8_read"

definition HandshakeType_known :: "HandshakeType list" where
  "HandshakeType_known = [
    HandshakeType_HelloRequest, HandshakeType_ClientHello, HandshakeType_ServerHello,
    HandshakeType_HelloVerifyRequest, HandshakeType_NewSessionTicket, HandshakeType_EndOfEarlyData,
    HandshakeType_HelloRetryRequest, HandshakeType_EncryptedExtensions, HandshakeType_Certificate,
    HandshakeType_ServerKeyExchange, HandshakeType_CertificateRequest, HandshakeType_ServerHelloDone,
    HandshakeType_CertificateVerify, HandshakeType_ClientKeyExchange, HandshakeType_Finished,
    HandshakeType_CertificateURL, HandshakeType_CertificateStatus, HandshakeType_KeyUpdate,
    HandshakeType_CompressedCertificate, HandshakeType_MessageHash]"

type_synonym ContentType = u8

abbreviation (input) ContentType_ChangeCipherSpec :: ContentType where "ContentType_ChangeCipherSpec \<equiv> 0x14"
abbreviation (input) ContentType_Alert :: ContentType where "ContentType_Alert \<equiv> 0x15"
abbreviation (input) ContentType_Handshake :: ContentType where "ContentType_Handshake \<equiv> 0x16"
abbreviation (input) ContentType_ApplicationData :: ContentType where "ContentType_ApplicationData \<equiv> 0x17"
abbreviation (input) ContentType_Heartbeat :: ContentType where "ContentType_Heartbeat \<equiv> 0x18"

abbreviation ContentType_read :: "ContentType decoder" where
  "ContentType_read \<equiv> enum_read ''ContentType'' u8_read"

definition ContentType_known :: "ContentType list" where
  "ContentType_known = [
    ContentType_ChangeCipherSpec, ContentType_Alert, ContentType_Handshake,
    ContentType_ApplicationData, ContentType_Heartbeat]"

type_synonym ProtocolVersion = u16

abbreviation (input) ProtocolVersion_SSLv2 :: ProtocolVersion where "ProtocolVersion_SSLv2 \<equiv> 0x0002"
abbreviation (input) ProtocolVersion_SSLv3 :: ProtocolVersion where "ProtocolVersion_SSLv3 \<equiv> 0x0300"
abbreviation (input) ProtocolVersion_TLSv1_0 :: ProtocolVersion where "ProtocolVersion_TLSv1_0 \<equiv> 0x0301"
abbreviation (input) ProtocolVersion_TLSv1_1 :: ProtocolVersion where "ProtocolVersion_TLSv1_1 \<equiv> 0x0302"
abbreviation (input) ProtocolVersion_TLSv1_2 :: ProtocolVersion where "ProtocolVersion_TLSv1_2 \<equiv> 0x0303"
abbreviation (input) ProtocolVersion_TLSv1_3 :: ProtocolVersion where "ProtocolVersion_TLSv1_3 \<equiv> 0x0304"
abbreviation (input) ProtocolVersion_DTLSv1_0 :: ProtocolVersion where "ProtocolVersion_DTLSv1_0 \<equiv> 0xfeff"
abbreviation (input) ProtocolVersion_DTLSv1_2 :: ProtocolVersion where "ProtocolVersion_DTLSv1_2 \<equiv> 0xfefd"
abbreviation (input) ProtocolVersion_DTLSv1_3 :: ProtocolVersion where "ProtocolVersion_DTLSv1_3 \<equiv> 0xfefc"

abbreviation ProtocolVersion_read :: "ProtocolVersion decoder" where
  "ProtocolVersion_read \<equiv> enum_read ''ProtocolVersion'' u16_read"

type_synonym CertificateCompressionAlgorithm = u16

abbreviation (input) CertificateCompressionAlgorithm_Zlib :: CertificateCompressionAlgorithm where "CertificateCompressionAlgorithm_Zlib \<equiv> 1"
abbreviation (input) CertificateCompressionAlgorithm_Brotli :: CertificateCompressionAlgorithm where "CertificateCompressionAlgorithm_Brotli \<equiv> 2"
abbreviation (input) CertificateCompressionAlgorithm_Zstd :: CertificateCompressionAlgorithm where "CertificateCompressionAlgorithm_Zstd \<equiv> 3"

abbreviation CertificateCompressionAlgorithm_read :: "CertificateCompressionAlgorithm decoder" where
  "CertificateCompressionAlgorithm_read \<equiv> enum_read ''CertificateCompressionAlgorithm'' u16_read"

type_synonym CertificateType = u8

abbreviation (input) CertificateType_X509 :: CertificateType where "CertificateType_X509 \<equiv> 0x00"
abbreviation (input) CertificateType_RawPublicKey :: CertificateType where "CertificateType_RawPublicKey \<equiv> 0x02"

abbreviation CertificateType_read :: "CertificateType decoder" where
  "CertificateType_read \<equiv> enum_read ''CertificateType'' u8_read"

type_synonym EchClientHelloType = u8

abbreviation (input) EchClientHelloType_ClientHelloOuter :: EchClientHelloType where "EchClientHelloType_ClientHelloOuter \<equiv> 0"
abbreviation (input) EchClientHelloType_ClientHelloInner :: EchClientHelloType where "EchClientHelloType_ClientHelloInner \<equiv> 1"

abbreviation EchClientHelloType_read :: "EchClientHelloType decoder" where
  "EchClientHelloType_read \<equiv> enum_read ''EchClientHelloType'' u8_read"

type_synonym ClientCertificateType = u8

abbreviation (input) ClientCertificateType_RSASign :: ClientCertificateType where "ClientCertificateType_RSASign \<equiv> 0x01"
abbreviation (input) ClientCertificateType_ECDSASign :: ClientCertificateType where "ClientCertificateType_ECDSASign \<equiv> 0x40"

abbreviation ClientCertificateType_read :: "ClientCertificateType decoder" where
  "ClientCertificateType_read \<equiv> enum_read ''ClientCertificateType'' u8_read"

type_synonym Compression = u8

abbreviation (input) Compression_Null :: Compression where "Compression_Null \<equiv> 0x00"

abbreviation Compression_read :: "Compression decoder" where
  "Compression_read \<equiv> enum_read ''Compression'' u8_read"

type_synonym AlertLevel = u8

abbreviation (input) AlertLevel_Warning :: AlertLevel where "AlertLevel_Warning \<equiv> 0x01"
abbreviation (input) AlertLevel_Fatal :: AlertLevel where "AlertLevel_Fatal \<equiv> 0x02"

abbreviation AlertLevel_read :: "AlertLevel decoder" where
  "AlertLevel_read \<equiv> enum_read ''AlertLevel'' u8_read"

definition AlertLevel_known :: "AlertLevel list" where
  "AlertLevel_known = [
    AlertLevel_Warning, AlertLevel_Fatal]"

type_synonym ExtensionType = u16

abbreviation (input) ExtensionType_ServerName :: ExtensionType where "ExtensionType_ServerName \<equiv> 0x0000"
abbreviation (input) ExtensionType_MaxFragmentLength :: ExtensionType where "ExtensionType_MaxFragmentLength \<equiv> 0x0001"
abbreviation (input) ExtensionType_ClientCertificateUrl :: ExtensionType where "ExtensionType_ClientCertificateUrl \<equiv> 0x0002"
abbreviation (input) ExtensionType_TrustedCAKeys :: ExtensionType where "ExtensionType_TrustedCAKeys \<equiv> 0x0003"
abbreviation (input) ExtensionType_TruncatedHMAC :: ExtensionType where "ExtensionType_TruncatedHMAC \<equiv> 0x0004"
abbreviation (input) ExtensionType_StatusRequest :: ExtensionType where "ExtensionType_StatusRequest \<equiv> 0x0005"
abbreviation (input) ExtensionType_UserMapping :: ExtensionType where "ExtensionType_UserMapping \<equiv> 0x0006"
abbreviation (input) ExtensionType_ClientAuthz :: ExtensionType where "ExtensionType_ClientAuthz \<equiv> 0x0007"
abbreviation (input) ExtensionType_ServerAuthz :: ExtensionType where "ExtensionType_ServerAuthz \<equiv> 0x0008"
abbreviation (input) ExtensionType_CertificateType :: ExtensionType where "ExtensionType_CertificateType \<equiv> 0x0009"
abbreviation (input) ExtensionType_EllipticCurves :: ExtensionType where "ExtensionType_EllipticCurves \<equiv> 0x000a"
abbreviation (input) ExtensionType_ECPointFormats :: ExtensionType where "ExtensionType_ECPointFormats \<equiv> 0x000b"
abbreviation (input) ExtensionType_SRP :: ExtensionType where "ExtensionType_SRP \<equiv> 0x000c"
abbreviation (input) ExtensionType_SignatureAlgorithms :: ExtensionType where "ExtensionType_SignatureAlgorithms \<equiv> 0x000d"
abbreviation (input) ExtensionType_UseSRTP :: ExtensionType where "ExtensionType_UseSRTP \<equiv> 0x000e"
abbreviation (input) ExtensionType_Heartbeat :: ExtensionType where "ExtensionType_Heartbeat \<equiv> 0x000f"
abbreviation (input) ExtensionType_ALProtocolNegotiation :: ExtensionType where "ExtensionType_ALProtocolNegotiation \<equiv> 0x0010"
abbreviation (input) ExtensionType_SCT :: ExtensionType where "ExtensionType_SCT \<equiv> 0x0012"
abbreviation (input) ExtensionType_ClientCertificateType :: ExtensionType where "ExtensionType_ClientCertificateType \<equiv> 0x0013"
abbreviation (input) ExtensionType_ServerCertificateType :: ExtensionType where "ExtensionType_ServerCertificateType \<equiv> 0x0014"
abbreviation (input) ExtensionType_Padding :: ExtensionType where "ExtensionType_Padding \<equiv> 0x0015"
abbreviation (input) ExtensionType_ExtendedMainSecret :: ExtensionType where "ExtensionType_ExtendedMainSecret \<equiv> 0x0017"
abbreviation (input) ExtensionType_CompressCertificate :: ExtensionType where "ExtensionType_CompressCertificate \<equiv> 0x001b"
abbreviation (input) ExtensionType_SessionTicket :: ExtensionType where "ExtensionType_SessionTicket \<equiv> 0x0023"
abbreviation (input) ExtensionType_PreSharedKey :: ExtensionType where "ExtensionType_PreSharedKey \<equiv> 0x0029"
abbreviation (input) ExtensionType_EarlyData :: ExtensionType where "ExtensionType_EarlyData \<equiv> 0x002a"
abbreviation (input) ExtensionType_SupportedVersions :: ExtensionType where "ExtensionType_SupportedVersions \<equiv> 0x002b"
abbreviation (input) ExtensionType_Cookie :: ExtensionType where "ExtensionType_Cookie \<equiv> 0x002c"
abbreviation (input) ExtensionType_PSKKeyExchangeModes :: ExtensionType where "ExtensionType_PSKKeyExchangeModes \<equiv> 0x002d"
abbreviation (input) ExtensionType_TicketEarlyDataInfo :: ExtensionType where "ExtensionType_TicketEarlyDataInfo \<equiv> 0x002e"
abbreviation (input) ExtensionType_CertificateAuthorities :: ExtensionType where "ExtensionType_CertificateAuthorities \<equiv> 0x002f"
abbreviation (input) ExtensionType_OIDFilters :: ExtensionType where "ExtensionType_OIDFilters \<equiv> 0x0030"
abbreviation (input) ExtensionType_PostHandshakeAuth :: ExtensionType where "ExtensionType_PostHandshakeAuth \<equiv> 0x0031"
abbreviation (input) ExtensionType_SignatureAlgorithmsCert :: ExtensionType where "ExtensionType_SignatureAlgorithmsCert \<equiv> 0x0032"
abbreviation (input) ExtensionType_KeyShare :: ExtensionType where "ExtensionType_KeyShare \<equiv> 0x0033"
abbreviation (input) ExtensionType_TransportParameters :: ExtensionType where "ExtensionType_TransportParameters \<equiv> 0x0039"
abbreviation (input) ExtensionType_TicketRequest :: ExtensionType where "ExtensionType_TicketRequest \<equiv> 0x003a"
abbreviation (input) ExtensionType_NextProtocolNegotiation :: ExtensionType where "ExtensionType_NextProtocolNegotiation \<equiv> 0x3374"
abbreviation (input) ExtensionType_ChannelId :: ExtensionType where "ExtensionType_ChannelId \<equiv> 0x754f"
abbreviation (input) ExtensionType_RenegotiationInfo :: ExtensionType where "ExtensionType_RenegotiationInfo \<equiv> 0xff01"
abbreviation (input) ExtensionType_EncryptedClientHello :: ExtensionType where "ExtensionType_EncryptedClientHello \<equiv> 0xfe0d"
abbreviation (input) ExtensionType_EncryptedClientHelloOuterExtensions :: ExtensionType where "ExtensionType_EncryptedClientHelloOuterExtensions \<equiv> 0xfd00"

abbreviation ExtensionType_read :: "ExtensionType decoder" where
  "ExtensionType_read \<equiv> enum_read ''ExtensionType'' u16_read"

definition ExtensionType_known :: "ExtensionType list" where
  "ExtensionType_known = [
    ExtensionType_ServerName, ExtensionType_MaxFragmentLength, ExtensionType_ClientCertificateUrl,
    ExtensionType_TrustedCAKeys, ExtensionType_TruncatedHMAC, ExtensionType_StatusRequest,
    ExtensionType_UserMapping, ExtensionType_ClientAuthz, ExtensionType_ServerAuthz,
    ExtensionType_CertificateType, ExtensionType_EllipticCurves, ExtensionType_ECPointFormats,
    ExtensionType_SRP, ExtensionType_SignatureAlgorithms, ExtensionType_UseSRTP,
    ExtensionType_Heartbeat, ExtensionType_ALProtocolNegotiation, ExtensionType_SCT,
    ExtensionType_ClientCertificateType, ExtensionType_ServerCertificateType, ExtensionType_Padding,
    ExtensionType_ExtendedMainSecret, ExtensionType_CompressCertificate, ExtensionType_SessionTicket,
    ExtensionType_PreSharedKey, ExtensionType_EarlyData, ExtensionType_SupportedVersions,
    ExtensionType_Cookie, ExtensionType_PSKKeyExchangeModes, ExtensionType_TicketEarlyDataInfo,
    ExtensionType_CertificateAuthorities, ExtensionType_OIDFilters, ExtensionType_PostHandshakeAuth,
    ExtensionType_SignatureAlgorithmsCert, ExtensionType_KeyShare, ExtensionType_TransportParameters,
    ExtensionType_TicketRequest, ExtensionType_NextProtocolNegotiation, ExtensionType_ChannelId,
    ExtensionType_RenegotiationInfo, ExtensionType_EncryptedClientHello, ExtensionType_EncryptedClientHelloOuterExtensions]"

type_synonym ServerNameType = u8

abbreviation (input) ServerNameType_HostName :: ServerNameType where "ServerNameType_HostName \<equiv> 0x00"

abbreviation ServerNameType_read :: "ServerNameType decoder" where
  "ServerNameType_read \<equiv> enum_read ''ServerNameType'' u8_read"

type_synonym ECPointFormat = u8

abbreviation (input) ECPointFormat_Uncompressed :: ECPointFormat where "ECPointFormat_Uncompressed \<equiv> 0x00"

abbreviation ECPointFormat_read :: "ECPointFormat decoder" where
  "ECPointFormat_read \<equiv> enum_read ''ECPointFormat'' u8_read"

type_synonym ECCurveType = u8

abbreviation (input) ECCurveType_NamedCurve :: ECCurveType where "ECCurveType_NamedCurve \<equiv> 0x03"

abbreviation ECCurveType_read :: "ECCurveType decoder" where
  "ECCurveType_read \<equiv> enum_read ''ECCurveType'' u8_read"

type_synonym PskKeyExchangeMode = u8

abbreviation (input) PskKeyExchangeMode_PSK_KE :: PskKeyExchangeMode where "PskKeyExchangeMode_PSK_KE \<equiv> 0x00"
abbreviation (input) PskKeyExchangeMode_PSK_DHE_KE :: PskKeyExchangeMode where "PskKeyExchangeMode_PSK_DHE_KE \<equiv> 0x01"

abbreviation PskKeyExchangeMode_read :: "PskKeyExchangeMode decoder" where
  "PskKeyExchangeMode_read \<equiv> enum_read ''PskKeyExchangeMode'' u8_read"

type_synonym KeyUpdateRequest = u8

abbreviation (input) KeyUpdateRequest_UpdateNotRequested :: KeyUpdateRequest where "KeyUpdateRequest_UpdateNotRequested \<equiv> 0x00"
abbreviation (input) KeyUpdateRequest_UpdateRequested :: KeyUpdateRequest where "KeyUpdateRequest_UpdateRequested \<equiv> 0x01"

abbreviation KeyUpdateRequest_read :: "KeyUpdateRequest decoder" where
  "KeyUpdateRequest_read \<equiv> enum_read ''KeyUpdateRequest'' u8_read"

type_synonym CertificateStatusType = u8

abbreviation (input) CertificateStatusType_OCSP :: CertificateStatusType where "CertificateStatusType_OCSP \<equiv> 0x01"

abbreviation CertificateStatusType_read :: "CertificateStatusType decoder" where
  "CertificateStatusType_read \<equiv> enum_read ''CertificateStatusType'' u8_read"

type_synonym EchVersion = u16

abbreviation (input) EchVersion_V18 :: EchVersion where "EchVersion_V18 \<equiv> 0xfe0d"

abbreviation EchVersion_read :: "EchVersion decoder" where
  "EchVersion_read \<equiv> enum_read ''EchVersion'' u16_read"

type_synonym AlertDescription = u8

abbreviation (input) AlertDescription_CloseNotify :: AlertDescription where "AlertDescription_CloseNotify \<equiv> 0x00"
abbreviation (input) AlertDescription_UnexpectedMessage :: AlertDescription where "AlertDescription_UnexpectedMessage \<equiv> 0x0a"
abbreviation (input) AlertDescription_BadRecordMac :: AlertDescription where "AlertDescription_BadRecordMac \<equiv> 0x14"
abbreviation (input) AlertDescription_DecryptionFailed :: AlertDescription where "AlertDescription_DecryptionFailed \<equiv> 0x15"
abbreviation (input) AlertDescription_RecordOverflow :: AlertDescription where "AlertDescription_RecordOverflow \<equiv> 0x16"
abbreviation (input) AlertDescription_DecompressionFailure :: AlertDescription where "AlertDescription_DecompressionFailure \<equiv> 0x1e"
abbreviation (input) AlertDescription_HandshakeFailure :: AlertDescription where "AlertDescription_HandshakeFailure \<equiv> 0x28"
abbreviation (input) AlertDescription_NoCertificate :: AlertDescription where "AlertDescription_NoCertificate \<equiv> 0x29"
abbreviation (input) AlertDescription_BadCertificate :: AlertDescription where "AlertDescription_BadCertificate \<equiv> 0x2a"
abbreviation (input) AlertDescription_UnsupportedCertificate :: AlertDescription where "AlertDescription_UnsupportedCertificate \<equiv> 0x2b"
abbreviation (input) AlertDescription_CertificateRevoked :: AlertDescription where "AlertDescription_CertificateRevoked \<equiv> 0x2c"
abbreviation (input) AlertDescription_CertificateExpired :: AlertDescription where "AlertDescription_CertificateExpired \<equiv> 0x2d"
abbreviation (input) AlertDescription_CertificateUnknown :: AlertDescription where "AlertDescription_CertificateUnknown \<equiv> 0x2e"
abbreviation (input) AlertDescription_IllegalParameter :: AlertDescription where "AlertDescription_IllegalParameter \<equiv> 0x2f"
abbreviation (input) AlertDescription_UnknownCa :: AlertDescription where "AlertDescription_UnknownCa \<equiv> 0x30"
abbreviation (input) AlertDescription_AccessDenied :: AlertDescription where "AlertDescription_AccessDenied \<equiv> 0x31"
abbreviation (input) AlertDescription_DecodeError :: AlertDescription where "AlertDescription_DecodeError \<equiv> 0x32"
abbreviation (input) AlertDescription_DecryptError :: AlertDescription where "AlertDescription_DecryptError \<equiv> 0x33"
abbreviation (input) AlertDescription_ExportRestriction :: AlertDescription where "AlertDescription_ExportRestriction \<equiv> 0x3c"
abbreviation (input) AlertDescription_ProtocolVersion :: AlertDescription where "AlertDescription_ProtocolVersion \<equiv> 0x46"
abbreviation (input) AlertDescription_InsufficientSecurity :: AlertDescription where "AlertDescription_InsufficientSecurity \<equiv> 0x47"
abbreviation (input) AlertDescription_InternalError :: AlertDescription where "AlertDescription_InternalError \<equiv> 0x50"
abbreviation (input) AlertDescription_InappropriateFallback :: AlertDescription where "AlertDescription_InappropriateFallback \<equiv> 0x56"
abbreviation (input) AlertDescription_UserCanceled :: AlertDescription where "AlertDescription_UserCanceled \<equiv> 0x5a"
abbreviation (input) AlertDescription_NoRenegotiation :: AlertDescription where "AlertDescription_NoRenegotiation \<equiv> 0x64"
abbreviation (input) AlertDescription_MissingExtension :: AlertDescription where "AlertDescription_MissingExtension \<equiv> 0x6d"
abbreviation (input) AlertDescription_UnsupportedExtension :: AlertDescription where "AlertDescription_UnsupportedExtension \<equiv> 0x6e"
abbreviation (input) AlertDescription_CertificateUnobtainable :: AlertDescription where "AlertDescription_CertificateUnobtainable \<equiv> 0x6f"
abbreviation (input) AlertDescription_UnrecognizedName :: AlertDescription where "AlertDescription_UnrecognizedName \<equiv> 0x70"
abbreviation (input) AlertDescription_BadCertificateStatusResponse :: AlertDescription where "AlertDescription_BadCertificateStatusResponse \<equiv> 0x71"
abbreviation (input) AlertDescription_BadCertificateHashValue :: AlertDescription where "AlertDescription_BadCertificateHashValue \<equiv> 0x72"
abbreviation (input) AlertDescription_UnknownPskIdentity :: AlertDescription where "AlertDescription_UnknownPskIdentity \<equiv> 0x73"
abbreviation (input) AlertDescription_CertificateRequired :: AlertDescription where "AlertDescription_CertificateRequired \<equiv> 0x74"
abbreviation (input) AlertDescription_GeneralError :: AlertDescription where "AlertDescription_GeneralError \<equiv> 0x75"
abbreviation (input) AlertDescription_NoApplicationProtocol :: AlertDescription where "AlertDescription_NoApplicationProtocol \<equiv> 0x78"
abbreviation (input) AlertDescription_EncryptedClientHelloRequired :: AlertDescription where "AlertDescription_EncryptedClientHelloRequired \<equiv> 0x79"

abbreviation AlertDescription_read :: "AlertDescription decoder" where
  "AlertDescription_read \<equiv> enum_read ''AlertDescription'' u8_read"

text \<open>Enumerations whose variants are used by number only.\<close>

type_synonym CipherSuite = u16
type_synonym SignatureScheme = u16
type_synonym NamedGroup = u16
type_synonym HpkeKem = u16
type_synonym HpkeKdf = u16
type_synonym HpkeAead = u16

abbreviation CipherSuite_read :: "CipherSuite decoder" where
  "CipherSuite_read \<equiv> enum_read ''CipherSuite'' u16_read"

abbreviation SignatureScheme_read :: "SignatureScheme decoder" where
  "SignatureScheme_read \<equiv> enum_read ''SignatureScheme'' u16_read"

abbreviation NamedGroup_read :: "NamedGroup decoder" where
  "NamedGroup_read \<equiv> enum_read ''NamedGroup'' u16_read"

definition ExtensionType_is_recognized :: "ExtensionType \<Rightarrow> bool" where
  "ExtensionType_is_recognized typ = (typ \<in> set ExtensionType_known)"

definition ExtensionType_ech_compress :: "ExtensionType \<Rightarrow> bool" where
  "ExtensionType_ech_compress typ = (typ \<in> {
     ExtensionType_StatusRequest, ExtensionType_EllipticCurves,
     ExtensionType_SignatureAlgorithms, ExtensionType_SignatureAlgorithmsCert,
     ExtensionType_ALProtocolNegotiation, ExtensionType_SupportedVersions,
     ExtensionType_Cookie, ExtensionType_KeyShare, ExtensionType_PSKKeyExchangeModes})"

definition NamedGroup_key_exchange_algorithm :: "NamedGroup \<Rightarrow> KeyExchangeAlgorithm" where
  "NamedGroup_key_exchange_algorithm g = (if 0x100 \<le> g \<and> g < 0x200 then DHE else ECDHE)"

subsection \<open>Application protocols\<close>

definition ascii :: "string \<Rightarrow> bytes" where
  "ascii s = map of_char s"

datatype ApplicationProtocol =
    AcmeTls1 | DoT | DoQ | Ftp | Http09 | Http10 | Http11 | Http2 | Http3
  | Imap | Mqtt | Pop3 | Postgresql | WebRtc
  | OtherProtocol bytes

fun ApplicationProtocol_as_ref :: "ApplicationProtocol \<Rightarrow> bytes" where
  "ApplicationProtocol_as_ref AcmeTls1 = ascii ''acme-tls/1''"
| "ApplicationProtocol_as_ref DoT = ascii ''dot''"
| "ApplicationProtocol_as_ref DoQ = ascii ''doq''"
| "ApplicationProtocol_as_ref Ftp = ascii ''ftp''"
| "ApplicationProtocol_as_ref Http09 = ascii ''http/0.9''"
| "ApplicationProtocol_as_ref Http10 = ascii ''http/1.0''"
| "ApplicationProtocol_as_ref Http11 = ascii ''http/1.1''"
| "ApplicationProtocol_as_ref Http2 = ascii ''h2''"
| "ApplicationProtocol_as_ref Http3 = ascii ''h3''"
| "ApplicationProtocol_as_ref Imap = ascii ''imap''"
| "ApplicationProtocol_as_ref Mqtt = ascii ''mqtt''"
| "ApplicationProtocol_as_ref Pop3 = ascii ''pop3''"
| "ApplicationProtocol_as_ref Postgresql = ascii ''postgresql''"
| "ApplicationProtocol_as_ref WebRtc = ascii ''webrtc''"
| "ApplicationProtocol_as_ref (OtherProtocol d) = d"

definition ApplicationProtocol_new :: "bytes \<Rightarrow> ApplicationProtocol" where
  "ApplicationProtocol_new d =
     (if d = ascii ''acme-tls/1'' then AcmeTls1
      else if d = ascii ''dot'' then DoT
      else if d = ascii ''doq'' then DoQ
      else if d = ascii ''ftp'' then Ftp
      else if d = ascii ''http/0.9'' then Http09
      else if d = ascii ''http/1.0'' then Http10
      else if d = ascii ''http/1.1'' then Http11
      else if d = ascii ''h2'' then Http2
      else if d = ascii ''h3'' then Http3
      else if d = ascii ''imap'' then Imap
      else if d = ascii ''mqtt'' then Mqtt
      else if d = ascii ''pop3'' then Pop3
      else if d = ascii ''postgresql'' then Postgresql
      else if d = ascii ''webrtc'' then WebRtc
      else OtherProtocol d)"

definition ApplicationProtocol_encode :: "ApplicationProtocol \<Rightarrow> bytes" where
  "ApplicationProtocol_encode p = SizedPayload_encode Size_u8 NonEmpty (ApplicationProtocol_as_ref p)"

definition ApplicationProtocol_read :: "ApplicationProtocol decoder" where
  "ApplicationProtocol_read r =
     bindR (SizedPayload_read Size_u8 NonEmpty r) (\<lambda>(d, r). Inr (ApplicationProtocol_new d, r))"

definition ApplicationProtocol_SIZE_LEN :: ListLength where
  "ApplicationProtocol_SIZE_LEN = NonZeroU16 (IllegalEmptyList ''ProtocolNames'')"

text \<open>
  The values \<open>new\<close> can build: \<open>Other\<close> never carries the bytes of a named variant.
\<close>

definition ApplicationProtocol_wf :: "ApplicationProtocol \<Rightarrow> bool" where
  "ApplicationProtocol_wf p =
     (p = ApplicationProtocol_new (ApplicationProtocol_as_ref p) \<and>
      SizedPayload_wf Size_u8 NonEmpty (ApplicationProtocol_as_ref p))"

lemma ApplicationProtocol_as_ref_new:
  "ApplicationProtocol_as_ref (ApplicationProtocol_new d) = d"
  by (simp add: ApplicationProtocol_new_def)

lemma ApplicationProtocol_new_as_ref:
  "(\<And>d. p \<noteq> OtherProtocol d) \<Longrightarrow> ApplicationProtocol_new (ApplicationProtocol_as_ref p) = p"
  by (cases p) (simp_all add: ApplicationProtocol_new_def ascii_def)

interpretation alpn: canonical_codec
  ApplicationProtocol_encode ApplicationProtocol_read ApplicationProtocol_wf
  by unfold_locales
    (auto simp: ApplicationProtocol_encode_def ApplicationProtocol_read_def ApplicationProtocol_wf_def
      wire_simps ApplicationProtocol_as_ref_new dest!: spc.encode_read)

lemma length_ApplicationProtocol_encode:
  "length (ApplicationProtocol_encode p) = 1 + length (ApplicationProtocol_as_ref p)"
  by (simp add: ApplicationProtocol_encode_def length_SizedPayload_encode)

interpretation alpn: canonical_list_element
  ApplicationProtocol_encode ApplicationProtocol_read ApplicationProtocol_wf
  ApplicationProtocol_SIZE_LEN
  by unfold_locales (auto simp: length_ApplicationProtocol_encode dest!: alpn.encode_read)

end
