(* ===== verification/Inline_Set.thy ===== *)
theory Inline_Set
  imports Wire_Enums
begin

text \<open>
  Duplicate detection (\<open>InlineSet\<close>, \<open>has_duplicates\<close> and
  \<open>DuplicateExtensionChecker\<close> of \<open>msgs/handshake.rs\<close>): a set of \<open>u16\<close> that keeps
  its first eight members in an array and then moves to a \<open>BTreeSet\<close>.  The
  locale \<open>member_set\<close> is what its users rely on; \<open>InlineSet\<close> is shown to
  provide it, and duplicate detection is proved inside the locale.
\<close>

subsection \<open>The set\<close>

datatype InlineSet =
    Small "u16 list" usize
  | Large "u16 set"

definition InlineSet_default :: InlineSet where
  "InlineSet_default = Small (replicate 8 0) 0"

text \<open>\<open>BTreeSet::insert\<close> tells whether the member is new.\<close>

definition BTreeSet_insert :: "u16 \<Rightarrow> u16 set \<Rightarrow> bool \<times> u16 set" where
  "BTreeSet_insert v s = (v \<notin> s, insert v s)"

fun InlineSet_insert :: "u16 \<Rightarrow> InlineSet \<Rightarrow> bool \<times> InlineSet" where
  "InlineSet_insert v (Large btree) = (let (new, btree) = BTreeSet_insert v btree in (new, Large btree))"
| "InlineSet_insert v (Small slots used) =
     (if v \<in> set (take used slots) then (False, Small slots used)
      else if used = length slots then
        (let upgraded = set (take used slots);
             (_, upgraded) = BTreeSet_insert v upgraded
         in (True, Large upgraded))
      else (True, Small (slots[used := v]) (used + 1)))"

fun BTreeSet_from_InlineSet :: "InlineSet \<Rightarrow> u16 set" where
  "BTreeSet_from_InlineSet (Small slots used) = set (take used slots)"
| "BTreeSet_from_InlineSet (Large btree) = btree"

fun InlineSet_invar :: "InlineSet \<Rightarrow> bool" where
  "InlineSet_invar (Small slots used) =
     (length slots = 8 \<and> used \<le> 8 \<and> distinct (take used slots))"
| "InlineSet_invar (Large btree) = (8 < card btree \<and> finite btree)"

subsection \<open>What users of the set rely on\<close>

locale member_set =
  fixes empty :: 's and add :: "'a \<Rightarrow> 's \<Rightarrow> bool \<times> 's"
    and abs :: "'s \<Rightarrow> 'a set" and invar :: "'s \<Rightarrow> bool"
  assumes invar_empty: "invar empty"
    and abs_empty: "abs empty = {}"
    and invar_add: "invar s \<Longrightarrow> invar (snd (add x s))"
    and abs_add: "invar s \<Longrightarrow> abs (snd (add x s)) = insert x (abs s)"
    and fst_add: "invar s \<Longrightarrow> fst (add x s) \<longleftrightarrow> x \<notin> abs s"
begin

text \<open>A scan that stops at the first member already seen.\<close>

fun scan :: "'s \<Rightarrow> 'a list \<Rightarrow> bool" where
  "scan s [] = False"
| "scan s (x # xs) = (let (new, s) = add x s in if \<not> new then True else scan s xs)"

lemma scan_iff: "invar s \<Longrightarrow> scan s xs \<longleftrightarrow> \<not> distinct xs \<or> set xs \<inter> abs s \<noteq> {}"
proof (induction xs arbitrary: s)
  case (Cons x xs)
  obtain new s' where add: "add x s = (new, s')" by fastforce
  show ?case
    using Cons.IH [of s'] invar_add [OF Cons.prems, of x] abs_add [OF Cons.prems, of x]
      fst_add [OF Cons.prems, of x]
    by (auto simp: add)
qed simp

lemma scan_empty: "scan empty xs \<longleftrightarrow> \<not> distinct xs"
  by (simp add: scan_iff invar_empty abs_empty)

text \<open>Adding a whole list collects exactly its members.\<close>

lemma fold_add: "invar s \<Longrightarrow>
    invar (fold (\<lambda>x s. snd (add x s)) xs s) \<and>
    abs (fold (\<lambda>x s. snd (add x s)) xs s) = set xs \<union> abs s"
  by (induction xs arbitrary: s) (simp_all add: invar_add abs_add)

end

lemma Small_insert_take:
  "used < length slots \<Longrightarrow> take (Suc used) (slots[used := v]) = take used slots @ [v]"
  by (simp add: take_Suc_conv_app_nth)

lemma InlineSet_invar_insert: "InlineSet_invar s \<Longrightarrow> InlineSet_invar (snd (InlineSet_insert v s))"
proof (cases s)
  case (Small slots used)
  assume "InlineSet_invar s"
  hence *: "length slots = 8" "used \<le> 8" "distinct (take used slots)" using Small by auto
  have "card (insert v (set (take used slots))) = 9"
    if "v \<notin> set (take used slots)" "used = 8"
    using that * distinct_card [of slots] by simp
  thus ?thesis using * Small
    by (auto simp: BTreeSet_insert_def Small_insert_take)
next
  case (Large b)
  assume "InlineSet_invar s"
  thus ?thesis using Large card_insert_le [of b v]
    by (auto simp: BTreeSet_insert_def)
qed

interpretation inline: member_set
  InlineSet_default InlineSet_insert BTreeSet_from_InlineSet InlineSet_invar
proof unfold_locales
  fix s :: InlineSet and x :: u16
  assume inv: "InlineSet_invar s"
  show "InlineSet_invar (snd (InlineSet_insert x s))"
    using inv by (rule InlineSet_invar_insert)
  show "BTreeSet_from_InlineSet (snd (InlineSet_insert x s)) = insert x (BTreeSet_from_InlineSet s)"
    using inv by (cases s) (auto simp: BTreeSet_insert_def Small_insert_take)
  show "fst (InlineSet_insert x s) \<longleftrightarrow> x \<notin> BTreeSet_from_InlineSet s"
    using inv by (cases s) (auto simp: BTreeSet_insert_def)
qed (simp_all add: InlineSet_default_def)

subsection \<open>Duplicate detection\<close>

fun has_duplicates_loop :: "InlineSet \<Rightarrow> u16 list \<Rightarrow> bool" where
  "has_duplicates_loop seen [] = False"
| "has_duplicates_loop seen (x # xs) =
     (let (new, seen) = InlineSet_insert x seen in
      if \<not> new then True else has_duplicates_loop seen xs)"

definition has_duplicates :: "u16 list \<Rightarrow> bool" where
  "has_duplicates xs = has_duplicates_loop InlineSet_default xs"

lemma has_duplicates_loop_scan: "has_duplicates_loop s xs = inline.scan s xs"
  by (induction xs arbitrary: s) simp_all

lemma has_duplicates_distinct: "has_duplicates xs \<longleftrightarrow> \<not> distinct xs"
  by (simp add: has_duplicates_def has_duplicates_loop_scan inline.scan_empty)

type_synonym DuplicateExtensionChecker = InlineSet

definition DuplicateExtensionChecker_new :: DuplicateExtensionChecker where
  "DuplicateExtensionChecker_new = InlineSet_default"

definition DuplicateExtensionChecker_check ::
  "ExtensionType \<Rightarrow> DuplicateExtensionChecker \<Rightarrow> InvalidMessage + DuplicateExtensionChecker" where
  "DuplicateExtensionChecker_check typ c =
     (let (new, c) = InlineSet_insert typ c in
      if new then Inr c else Inl (DuplicateExtension typ))"

definition DuplicateExtensionChecker_check_unprocessed ::
  "ExtensionType \<Rightarrow> ExtensionType list \<Rightarrow> DuplicateExtensionChecker
     \<Rightarrow> InvalidMessage + DuplicateExtensionChecker" where
  "DuplicateExtensionChecker_check_unprocessed typ permitted c =
     (if ExtensionType_is_recognized typ \<and> typ \<notin> set permitted
      then Inl (MisplacedExtension typ)
      else DuplicateExtensionChecker_check typ c)"

lemma DuplicateExtensionChecker_check_cases:
  assumes "InlineSet_invar c"
  shows "DuplicateExtensionChecker_check typ c =
    (if typ \<in> BTreeSet_from_InlineSet c then Inl (DuplicateExtension typ)
     else Inr (snd (InlineSet_insert typ c)))"
  using inline.fst_add [OF assms, of "typ"]
  by (auto simp: DuplicateExtensionChecker_check_def split: prod.splits)

end
