(* ===== verification/Ext_Struct.thy ===== *)
theory Ext_Struct
  imports Inline_Set
begin

text \<open>
  The macro \<open>extension_struct!\<close> (\<open>msgs/macros.rs\<close>): a structure with one optional
  slot per extension type, and the generated functions that read, encode, copy
  and clear slots.  The repetition \<open>$( ... )*\<close> over the items of the macro is
  a list of items here; an item is made from its extension type, the selector
  and update of its record field and the codec of its payload.

  The locale \<open>extension_struct\<close> collects what a structure owes to the reading
  loop; in it, decoding the encoding of a structure is shown to give the structure
  back, whatever order its extensions were written in.
\<close>

subsection \<open>Items\<close>

record 's ext_item =
  item_id :: ExtensionType
  item_present :: "'s \<Rightarrow> bool"
  item_encode :: "'s \<Rightarrow> bytes option"
  item_read :: "bytes \<Rightarrow> 's \<Rightarrow> InvalidMessage + 's \<times> bytes"
  item_copy :: "'s \<Rightarrow> 's \<Rightarrow> 's"
  item_clear :: "'s \<Rightarrow> 's"

definition ext_slot ::
  "ExtensionType \<Rightarrow> ('s \<Rightarrow> 'v option) \<Rightarrow> (('v option \<Rightarrow> 'v option) \<Rightarrow> 's \<Rightarrow> 's)
     \<Rightarrow> ('v \<Rightarrow> bytes) \<Rightarrow> 'v decoder \<Rightarrow> 's ext_item" where
  "ext_slot typ slot slot_update enc rd =
     \<lparr>item_id = typ,
      item_present = (\<lambda>s. slot s \<noteq> None),
      item_encode = (\<lambda>s. map_option enc (slot s)),
      item_read = (\<lambda>r s. bindR (rd r) (\<lambda>(v, r). Inr (slot_update (\<lambda>_. Some v) s, r))),
      item_copy = (\<lambda>source s. slot_update (\<lambda>_. slot source) s),
      item_clear = (\<lambda>s. slot_update (\<lambda>_. None) s)\<rparr>"

text \<open>The generated \<open>match typ { $($item_id => ...)* _ => ... }\<close>.\<close>

definition find_item :: "'s ext_item list \<Rightarrow> ExtensionType \<Rightarrow> 's ext_item option" where
  "find_item items typ = find (\<lambda>i. item_id i = typ) items"

subsection \<open>Generated functions\<close>

definition read_once :: "'s ext_item \<Rightarrow> bytes \<Rightarrow> 's \<Rightarrow> InvalidMessage + 's \<times> bytes" where
  "read_once item r s =
     (if item_present item s then Inl (DuplicateExtension (item_id item)) else item_read item r s)"

definition read_extension_body ::
  "'s ext_item list \<Rightarrow> ExtensionType \<Rightarrow> bytes \<Rightarrow> 's \<Rightarrow> InvalidMessage + (bool \<times> 's) \<times> bytes" where
  "read_extension_body items typ r s =
     (case find_item items typ of
        Some item \<Rightarrow> bindR (read_once item r s) (\<lambda>(s, r). Inr ((True, s), r))
      | None \<Rightarrow> Inr ((False, s), snd (Reader_rest r)))"

text \<open>
  \<open>read_one\<close> threads the structure and the state \<open>u\<close> captured by the \<open>unknown\<close> closure.
\<close>

definition read_one ::
  "'s ext_item list \<Rightarrow> string \<Rightarrow> (ExtensionType \<Rightarrow> 'u \<Rightarrow> InvalidMessage + 'u)
     \<Rightarrow> 's \<times> 'u \<Rightarrow> (ExtensionType \<times> 's \<times> 'u) decoder" where
  "read_one items struct_name unknown = (\<lambda>(s, u) r.
     bindR (ExtensionType_read r) (\<lambda>(typ, r).
     bindR (u16_read r) (\<lambda>(len, r).
     bindR (Reader_sub (unat len) r) (\<lambda>(sub, r).
     bindR (Reader_all struct_name (\<lambda>body.
       bindR (read_extension_body items typ body s) (\<lambda>((handled, s), body).
         if handled then Inr ((typ, s, u), body)
         else bindR (unknown typ u) (\<lambda>u. Inr ((typ, s, u), body)))) sub)
     (\<lambda>(res, _). Inr (res, r))))))"

definition encode_one :: "'s ext_item list \<Rightarrow> 's \<Rightarrow> ExtensionType \<Rightarrow> bytes" where
  "encode_one items s typ =
     (case find_item items typ of
        Some item \<Rightarrow>
          (case item_encode item s of
             Some body \<Rightarrow> u16_encode typ @ length_prefixed U16 body
           | None \<Rightarrow> [])
      | None \<Rightarrow> [])"

definition ALL_EXTENSIONS :: "'s ext_item list \<Rightarrow> ExtensionType list" where
  "ALL_EXTENSIONS items = map item_id items"

text \<open>\<open>for ext in Self::ALL_EXTENSIONS { self.encode_one(*ext, ..) }\<close>\<close>

definition encode_all :: "'s ext_item list \<Rightarrow> 's \<Rightarrow> bytes" where
  "encode_all items s = concat (map (encode_one items s) (ALL_EXTENSIONS items))"

definition extensions_fit :: "'s ext_item list \<Rightarrow> 's \<Rightarrow> bool" where
  "extensions_fit items s = (length (encode_all items s) < 2 ^ 16)"

definition collect_used :: "'s ext_item list \<Rightarrow> 's \<Rightarrow> ExtensionType list" where
  "collect_used items s = map item_id (filter (\<lambda>i. item_present i s) items)"

definition clone_one :: "'s ext_item list \<Rightarrow> 's \<Rightarrow> ExtensionType \<Rightarrow> 's \<Rightarrow> 's" where
  "clone_one items source typ s =
     (case find_item items typ of Some item \<Rightarrow> item_copy item source s | None \<Rightarrow> s)"

definition clear_one :: "'s ext_item list \<Rightarrow> ExtensionType \<Rightarrow> 's \<Rightarrow> 's" where
  "clear_one items typ s =
     (case find_item items typ of Some item \<Rightarrow> item_clear item s | None \<Rightarrow> s)"

definition only_contains :: "'s ext_item list \<Rightarrow> ExtensionType list \<Rightarrow> 's \<Rightarrow> bool" where
  "only_contains items allowed s =
     list_all (\<lambda>i. item_present i s \<longrightarrow> item_id i \<in> set allowed) items"

definition contains :: "'s ext_item list \<Rightarrow> 's \<Rightarrow> ExtensionType \<Rightarrow> bool" where
  "contains items s typ =
     (case find_item items typ of Some item \<Rightarrow> item_present item s | None \<Rightarrow> False)"

definition contains_any :: "'s ext_item list \<Rightarrow> ExtensionType list \<Rightarrow> 's \<Rightarrow> bool" where
  "contains_any items exts s = list_ex (contains items s) exts"

text \<open>
  \<open>while sub.any_left() { ... }\<close> over a reader, with the loop state \<open>st\<close>.  As for lists,
  the recursion insists that an iteration consumes input; \<open>read_while_loop\<close> is the
  equation of the source loop.
\<close>

function read_while ::
  "('st \<Rightarrow> bytes \<Rightarrow> InvalidMessage + 'st \<times> bytes) \<Rightarrow> 'st \<Rightarrow> bytes \<Rightarrow> InvalidMessage + 'st" where
  "read_while f st r =
     (if \<not> Reader_any_left r then Inr st
      else bindR (f st r) (\<lambda>(st, r').
        if length r' < length r then read_while f st r' else Inl MessageTooShort))"
  by pat_completeness auto
termination by (relation "measure (\<lambda>(f, st, r). length r)") auto

declare read_while.simps [simp del]

lemma read_while_loop:
  assumes "\<And>st r st' rest. f st r = Inr (st', rest) \<Longrightarrow> length rest < length r"
  shows "read_while f st r =
    (if r = [] then Inr st else bindR (f st r) (\<lambda>(st, r). read_while f st r))"
proof (cases "f st r")
  case (Inr p)
  thus ?thesis using assms
    by (subst read_while.simps) (cases p; auto simp: Reader_any_left_def)
qed (subst read_while.simps, simp add: Reader_any_left_def)

lemma read_u16_prefixed [wire_simps]:
  "length body < 2 ^ 16 \<Longrightarrow>
     u16_read (length_prefixed U16 body @ rest) = Inr (word_of_nat (length body), body @ rest)"
  by (simp add: u16_read_iff length_prefixed_eq unat_word_of_nat_u16)

text \<open>A \<open>u16\<close> length and the sub-reader it delimits, as every extension list starts.\<close>

definition read_u16_sub :: "Reader decoder" where
  "read_u16_sub r = bindR (u16_read r) (\<lambda>(len, r). Reader_sub (unat len) r)"

lemma read_u16_sub_prefixed [wire_simps]:
  "length body < 2 ^ 16 \<Longrightarrow> read_u16_sub (length_prefixed U16 body @ rest) = Inr (body, rest)"
  by (simp add: read_u16_sub_def wire_simps unat_word_of_nat_u16)

lemma read_u16_sub_InrD [wire_dest]:
  "read_u16_sub r = Inr (body, rest) \<Longrightarrow> length body < 2 ^ 16 \<and> r = length_prefixed U16 body @ rest"
  by (auto simp: read_u16_sub_def u16_read_iff length_prefixed_eq dest!: Reader_sub_InrD)

lemma u16_encode_nonempty: "u16_encode x \<noteq> []"
  using length_int_encode(2) [of x] by (metis list.size(3) zero_neq_numeral)

lemma read_one_progress:
  assumes "read_one items nm unknown st r = Inr (x, rest)"
  shows "length rest + 4 \<le> length r"
  using assms
  by (cases st)
    (auto simp: read_one_def dest!: Reader_sub_InrD enum16.encode_read u16c.encode_read
      split: prod.splits)

lemma find_item_in: "find_item items x = Some i \<Longrightarrow> i \<in> set items"
  by (auto simp: find_item_def find_Some_iff)

lemma encode_one_cong:
  "\<forall>i \<in> set items. item_encode i s = item_encode i t \<Longrightarrow> encode_one items s = encode_one items t"
  by (rule ext) (auto simp: encode_one_def split: option.splits dest: find_item_in)

lemma collect_used_cong:
  "\<forall>i \<in> set items. item_present i s = item_present i t \<Longrightarrow> collect_used items s = collect_used items t"
  by (simp add: collect_used_def cong: filter_cong)

subsection \<open>What a structure owes to the loop\<close>

text \<open>
  \<open>same i s t\<close>: the slot of item \<open>i\<close> agrees in \<open>s\<close> and \<open>t\<close>, said through the generated copy.
\<close>

definition same :: "'s ext_item \<Rightarrow> 's \<Rightarrow> 's \<Rightarrow> bool" where
  "same i s t = (item_copy i s t = t)"

lemma ext_slot_sel:
  "item_id (ext_slot typ slot slot_update enc rd) = typ"
  "item_present (ext_slot typ slot slot_update enc rd) s = (slot s \<noteq> None)"
  "item_encode (ext_slot typ slot slot_update enc rd) s = map_option enc (slot s)"
  "item_read (ext_slot typ slot slot_update enc rd) r s =
     bindR (rd r) (\<lambda>(v, r). Inr (slot_update (\<lambda>_. Some v) s, r))"
  "item_copy (ext_slot typ slot slot_update enc rd) source s = slot_update (\<lambda>_. slot source) s"
  "item_clear (ext_slot typ slot slot_update enc rd) s = slot_update (\<lambda>_. None) s"
  by (simp_all add: ext_slot_def)

lemma same_ext_slot:
  assumes "\<And>f s. slot (slot_update f s) = f (slot s)" "\<And>s. slot_update (\<lambda>_. slot s) s = s"
  shows "same (ext_slot typ slot slot_update enc rd) s t \<longleftrightarrow> slot s = slot t"
  using assms by (metis ext_slot_sel(5) same_def)

lemmas ext_slot_simps = ext_slot_sel same_ext_slot

locale extension_struct =
  fixes items :: "'s ext_item list" and default :: 's and frame :: "'s \<Rightarrow> 'm"
    and slots_ok :: "'s \<Rightarrow> bool"
  assumes ids_distinct: "distinct (map item_id items)"
    and present_default: "i \<in> set items \<Longrightarrow> \<not> item_present i default"
    and encode_present: "i \<in> set items \<Longrightarrow> item_encode i s = None \<longleftrightarrow> \<not> item_present i s"
    and read_body: "slots_ok s \<Longrightarrow> i \<in> set items \<Longrightarrow> item_encode i s = Some body \<Longrightarrow>
      item_read i body acc = Inr (item_copy i s acc, [])"
    and same_copy: "i \<in> set items \<Longrightarrow> same i s (item_copy i s acc)"
    and same_other: "i \<in> set items \<Longrightarrow> j \<in> set items \<Longrightarrow> item_id i \<noteq> item_id j \<Longrightarrow>
      same i t (item_copy j s acc) \<longleftrightarrow> same i t acc"
    and same_present: "i \<in> set items \<Longrightarrow> same i s t \<Longrightarrow> item_present i t \<longleftrightarrow> item_present i s"
    and absent_same: "i \<in> set items \<Longrightarrow> \<not> item_present i s \<Longrightarrow> \<not> item_present i t \<Longrightarrow> same i s t"
    and read_presence: "i \<in> set items \<Longrightarrow> j \<in> set items \<Longrightarrow> item_read i body acc = Inr (acc', rest) \<Longrightarrow>
      item_present j acc' \<longleftrightarrow> item_id j = item_id i \<or> item_present j acc"
    and frame_copy: "i \<in> set items \<Longrightarrow> frame (item_copy i s acc) = frame acc"
    and same_ext: "\<forall>i \<in> set items. same i s t \<Longrightarrow> frame s = frame t \<Longrightarrow> s = t"
begin

lemma find_item_eq: "i \<in> set items \<Longrightarrow> find_item items (item_id i) = Some i"
  using ids_distinct
  by (auto simp: find_item_def find_Some_iff in_set_conv_nth distinct_conv_nth)

lemma find_item_SomeD: "find_item items x = Some i \<Longrightarrow> i \<in> set items \<and> item_id i = x"
  by (auto simp: find_item_def find_Some_iff)

text \<open>The slots already read, and those still empty.\<close>

definition read_upto :: "'s \<Rightarrow> ExtensionType set \<Rightarrow> 's \<Rightarrow> bool" where
  "read_upto s done acc \<longleftrightarrow> frame acc = frame default \<and>
     (\<forall>i \<in> set items. if item_id i \<in> done then same i s acc else \<not> item_present i acc)"

lemma read_upto_default: "read_upto s {} default"
  by (simp add: read_upto_def present_default)

lemma read_upto_copy:
  assumes "read_upto s done acc" "i \<in> set items"
  shows "read_upto s (insert (item_id i) done) (item_copy i s acc)"
proof -
  have "same j s (item_copy i s acc)" if "j \<in> set items" "item_id j = item_id i" for j
  proof -
    have "j = i" using find_item_eq [OF that(1)] find_item_eq [OF assms(2)] that(2)
      by (metis option.inject)
    thus ?thesis using same_copy assms(2) by blast
  qed
  moreover have "\<not> item_present j (item_copy i s acc)"
    if "j \<in> set items" "item_id j \<noteq> item_id i" "\<not> item_present j acc" for j
  proof -
    have "same j default acc" using absent_same present_default that by blast
    hence "same j default (item_copy i s acc)" using same_other that assms(2) by blast
    thus ?thesis using same_present present_default that(1) by blast
  qed
  moreover have "same j s (item_copy i s acc)" if "j \<in> set items" "same j s acc" for j
    using that same_other [OF that(1) assms(2)] same_copy [OF assms(2)] calculation(1) by metis
  ultimately show ?thesis using assms
    unfolding read_upto_def by (auto simp: frame_copy)
qed

lemma read_one_encode_one:
  assumes "slots_ok s" "read_upto s done acc" "x \<notin> done" "contains items s x"
    and "length (encode_one items s x) < 2 ^ 16"
  shows "\<exists>acc'. read_one items nm unknown (acc, u) (encode_one items s x @ rest) = Inr ((x, acc', u), rest)
    \<and> read_upto s (insert x done) acc'"
proof -
  obtain i where i: "find_item items x = Some i" "i \<in> set items" "item_id i = x" "item_present i s"
    using assms(4) find_item_SomeD by (auto simp: contains_def split: option.splits)
  obtain body where body: "item_encode i s = Some body"
    using encode_present [OF i(2), of s] i(4) by auto
  hence len: "length body < 2 ^ 16" and rd: "item_read i body acc = Inr (item_copy i s acc, [])"
    using read_body [OF assms(1) i(2)] assms(5) i(1) by (auto simp: encode_one_def)
  have "\<not> item_present i acc" using assms(2,3) i by (auto simp: read_upto_def)
  hence "read_extension_body items x body acc = Inr ((True, item_copy i s acc), [])"
    by (simp add: read_extension_body_def read_once_def i rd)
  hence "read_one items nm unknown (acc, u) (encode_one items s x @ rest) =
      Inr ((x, item_copy i s acc, u), rest)"
    using len by (simp add: read_one_def encode_one_def i body wire_simps unat_word_of_nat_u16)
  thus ?thesis using read_upto_copy [OF assms(2) i(2)] i(3) by blast
qed

lemma encode_SomeD: "i \<in> set items \<Longrightarrow> item_encode i s = Some body \<Longrightarrow> item_present i s"
  using encode_present [of i s] by auto

lemma encode_one_absent: "\<not> contains items s x \<Longrightarrow> encode_one items s x = []"
  by (auto simp: contains_def encode_one_def split: option.splits
      dest!: find_item_SomeD encode_SomeD)

lemma encode_one_present: "contains items s x \<Longrightarrow> encode_one items s x \<noteq> []"
  by (auto simp: contains_def encode_one_def encode_present u16_encode_nonempty
      split: option.splits dest!: find_item_SomeD)

lemma contains_iff_used: "contains items s x \<longleftrightarrow> x \<in> set (collect_used items s)"
proof
  show "contains items s x \<Longrightarrow> x \<in> set (collect_used items s)"
    by (auto simp: contains_def collect_used_def split: option.splits dest!: find_item_SomeD)
  show "x \<in> set (collect_used items s) \<Longrightarrow> contains items s x"
    by (auto simp: contains_def collect_used_def find_item_eq)
qed

text \<open>
  The loop over any order of the extensions in use: \<open>body\<close> is the loop body of a particular
  structure, which on success of \<open>read_one\<close> only updates its own state \<open>st\<close> with \<open>post\<close>.
\<close>

lemma read_upto_all:
  assumes "read_upto s done acc" "set (collect_used items s) \<subseteq> done" "frame s = frame default"
  shows "acc = s"
proof -
  have "same i s acc" if "i \<in> set items" for i
  proof (cases "item_id i \<in> done")
    case False
    hence "\<not> item_present i s" using that assms(2) by (auto simp: collect_used_def)
    moreover have "\<not> item_present i acc" using assms(1) that False by (auto simp: read_upto_def)
    ultimately show ?thesis using absent_same that by blast
  qed (use assms(1) that in \<open>auto simp: read_upto_def\<close>)
  thus ?thesis using same_ext assms by (metis read_upto_def)
qed

end

text \<open>
  The common reading loop of the structures: \<open>read_one\<close> until the list is used up.  After an
  extension of type \<open>typ\<close> was read, a structure may do more: \<open>post typ left st\<close>, where
  \<open>left\<close> tells whether bytes remain, checks or records it in the loop state \<open>st\<close>.
\<close>

definition read_ext_step ::
  "'s ext_item list \<Rightarrow> string \<Rightarrow> (ExtensionType \<Rightarrow> 'u \<Rightarrow> InvalidMessage + 'u)
     \<Rightarrow> (ExtensionType \<Rightarrow> bool \<Rightarrow> 'st \<Rightarrow> InvalidMessage + 'st)
     \<Rightarrow> 's \<times> 'u \<times> 'st \<Rightarrow> bytes \<Rightarrow> InvalidMessage + ('s \<times> 'u \<times> 'st) \<times> bytes" where
  "read_ext_step items struct_name unknown post = (\<lambda>(s, u, st) r.
     bindR (read_one items struct_name unknown (s, u) r) (\<lambda>((typ, s, u), r).
     bindR (post typ (Reader_any_left r) st) (\<lambda>st. Inr ((s, u, st), r))))"

definition read_extensions ::
  "'s ext_item list \<Rightarrow> string \<Rightarrow> (ExtensionType \<Rightarrow> 'u \<Rightarrow> InvalidMessage + 'u)
     \<Rightarrow> (ExtensionType \<Rightarrow> bool \<Rightarrow> 'st \<Rightarrow> InvalidMessage + 'st)
     \<Rightarrow> 's \<times> 'u \<times> 'st \<Rightarrow> bytes \<Rightarrow> InvalidMessage + 's \<times> 'u \<times> 'st" where
  "read_extensions items struct_name unknown post =
     read_while (read_ext_step items struct_name unknown post)"

definition no_post :: "ExtensionType \<Rightarrow> bool \<Rightarrow> unit \<Rightarrow> InvalidMessage + unit" where
  "no_post typ left st = Inr st"

lemma read_ext_step_InrD:
  assumes "read_ext_step items nm unknown post (s, u, st) r = Inr ((s', u', st'), rest)"
  shows "\<exists>x. read_one items nm unknown (s, u) r = Inr ((x, s', u'), rest) \<and>
    post x (rest \<noteq> []) st = Inr st'"
  using assms by (auto simp: read_ext_step_def Reader_any_left_def split: prod.splits)

lemma read_extensions_loop:
  "read_extensions items nm unknown post st r =
     (if r = [] then Inr st
      else bindR (read_ext_step items nm unknown post st r)
        (\<lambda>(st, r). read_extensions items nm unknown post st r))"
  unfolding read_extensions_def
proof (rule read_while_loop)
  show "length rest < length r" if "read_ext_step items nm unknown post st r = Inr (st', rest)"
    for st r st' rest
    using that read_ext_step_InrD [of items nm unknown post _ _ _ r _ _ _ rest]
    by (cases st; cases st') (fastforce dest!: read_one_progress)
qed

text \<open>The effect of the checks on a sequence of extension types.\<close>

fun run_post ::
  "(ExtensionType \<Rightarrow> bool \<Rightarrow> 'st \<Rightarrow> InvalidMessage + 'st) \<Rightarrow> ExtensionType list \<Rightarrow> 'st
     \<Rightarrow> InvalidMessage + 'st" where
  "run_post post [] st = Inr st"
| "run_post post (x # xs) st = bindR (post x (xs \<noteq> []) st) (run_post post xs)"

lemma run_post_no_post [simp]: "run_post no_post xs st = Inr st"
  by (induction xs) (simp_all add: no_post_def)

context extension_struct
begin

lemma concat_encode_eq_Nil:
  "\<forall>x \<in> set xs. contains items s x \<Longrightarrow> concat (map (encode_one items s) xs) = [] \<longleftrightarrow> xs = []"
  using encode_one_present by (cases xs) auto

lemma read_extensions_encode:
  assumes "slots_ok s" "read_upto s done acc" "distinct xs" "set xs \<inter> done = {}"
    and "\<forall>x \<in> set xs. contains items s x"
    and "length (concat (map (encode_one items s) xs)) < 2 ^ 16"
  shows "\<exists>acc'. read_upto s (done \<union> set xs) acc' \<and>
    read_extensions items nm unknown post (acc, u, st) (concat (map (encode_one items s) xs)) =
      bindR (run_post post xs st) (\<lambda>st. Inr (acc', u, st))"
  using assms(2-6)
proof (induction xs arbitrary: "done" acc st)
  case Nil
  thus ?case by (subst read_extensions_loop) auto
next
  case (Cons x xs)
  let ?rest = "concat (map (encode_one items s) xs)"
  obtain acc' where acc': "read_upto s (insert x done) acc'"
    "read_one items nm unknown (acc, u) (encode_one items s x @ ?rest) = Inr ((x, acc', u), ?rest)"
  proof -
    have "x \<notin> done" "contains items s x" "length (encode_one items s x) < 2 ^ 16"
      using Cons.prems(3-5) by simp_all
    from read_one_encode_one [OF assms(1) Cons.prems(1) this, of nm unknown u ?rest] that
    show thesis by blast
  qed
  have any: "Reader_any_left ?rest \<longleftrightarrow> xs \<noteq> []"
    using concat_encode_eq_Nil [of xs s] Cons.prems(4) by (simp add: Reader_any_left_def)
  have ne: "encode_one items s x \<noteq> []" using encode_one_present Cons.prems(4) by simp
  have step: "read_ext_step items nm unknown post (acc, u, st) (encode_one items s x @ ?rest) =
      bindR (post x (xs \<noteq> []) st) (\<lambda>st. Inr ((acc', u, st), ?rest))"
    by (simp add: read_ext_step_def acc'(2) any)
  have IH: "\<exists>acc''. read_upto s (insert x done \<union> set xs) acc'' \<and>
      read_extensions items nm unknown post (acc', u, st') ?rest =
        bindR (run_post post xs st') (\<lambda>st. Inr (acc'', u, st))" for st'
    using Cons.IH [OF acc'(1)] Cons.prems(2-5) by simp
  show ?case
  proof (cases "post x (xs \<noteq> []) st")
    case (Inl e)
    thus ?thesis using IH ne
      by (subst read_extensions_loop) (simp add: step, blast)
  next
    case (Inr st')
    thus ?thesis using IH [of st'] ne
      by (subst read_extensions_loop) (simp add: step)
  qed
qed

lemma concat_encode_filter:
  "concat (map (encode_one items s) xs) =
     concat (map (encode_one items s) (filter (contains items s) xs))"
  by (induction xs) (simp_all add: encode_one_absent)

text \<open>
  Decoding the extensions of a structure, written in any order without repetition, gives it
  back, and runs the checks over the types in use in that order.
\<close>

lemma read_extensions_round_trip:
  assumes "slots_ok s" "distinct xs" "set (collect_used items s) \<subseteq> set xs"
    and "frame s = frame default"
    and "length (concat (map (encode_one items s) xs)) < 2 ^ 16"
  shows "read_extensions items nm unknown post (default, u, st)
      (concat (map (encode_one items s) xs)) =
    bindR (run_post post (filter (contains items s) xs) st) (\<lambda>st. Inr (s, u, st))"
proof -
  let ?ys = "filter (contains items s) xs"
  have "distinct ?ys" "set ?ys \<inter> {} = {}" "\<forall>x \<in> set ?ys. contains items s x"
    "length (concat (map (encode_one items s) ?ys)) < 2 ^ 16"
    using assms(2) assms(5) [unfolded concat_encode_filter [of s xs]] by simp_all
  from read_extensions_encode [OF assms(1) read_upto_default this,
      where nm = nm and unknown = unknown and post = post and u = u and st = st]
  obtain acc where acc: "read_upto s ({} \<union> set ?ys) acc"
    "read_extensions items nm unknown post (default, u, st) (concat (map (encode_one items s) ?ys)) =
      bindR (run_post post ?ys st) (\<lambda>st. Inr (acc, u, st))"
    by blast
  have "set (collect_used items s) \<subseteq> {} \<union> set ?ys"
    using assms(3) by (auto simp: contains_iff_used)
  from read_upto_all [OF acc(1) this assms(4)] acc(2) show ?thesis
    by (simp only: concat_encode_filter [of s xs])
qed

lemma ALL_EXTENSIONS_covers:
  "distinct (ALL_EXTENSIONS items)" "set (collect_used items s) \<subseteq> set (ALL_EXTENSIONS items)"
  using ids_distinct by (auto simp: ALL_EXTENSIONS_def collect_used_def)

lemma read_all_extensions:
  assumes "slots_ok s" "frame s = frame default" "extensions_fit items s"
  shows "read_extensions items nm unknown no_post (default, u, ())
      (encode_all items s) = Inr (s, u, ())"
  using assms(3) by (simp add: read_extensions_round_trip [OF assms(1) ALL_EXTENSIONS_covers assms(2)]
      encode_all_def extensions_fit_def)

end

subsection \<open>Structures that re-encode what was read\<close>

lemma read_one_InrD:
  assumes "read_one items nm unknown (s, u) r = Inr ((x, s', u'), rest)"
  shows "\<exists>body. r = u16_encode x @ length_prefixed U16 body @ rest \<and> length body < 2 ^ 16 \<and>
    (case find_item items x of
       Some i \<Rightarrow> \<not> item_present i s \<and> item_read i body s = Inr (s', []) \<and> u' = u
     | None \<Rightarrow> s' = s \<and> unknown x u = Inr u')"
  using assms
  by (auto simp: read_one_def Reader_all_Inr_iff read_extension_body_def read_once_def
      length_prefixed_eq u16_read_iff Reader_rest_def
      split: prod.splits option.splits if_splits dest!: Reader_sub_InrD enum16.encode_read)

text \<open>
  A structure that refuses unknown extensions and records the order of the known ones
  (\<open>post\<close> appends the type) can rebuild its input.
\<close>

definition push_order :: "ExtensionType \<Rightarrow> bool \<Rightarrow> ExtensionType list \<Rightarrow> InvalidMessage + ExtensionType list" where
  "push_order typ left order = Inr (order @ [typ])"

lemma run_post_push_order: "run_post push_order xs order = Inr (order @ xs)"
  by (induction xs arbitrary: order) (simp_all add: push_order_def)

locale canonical_extension_struct = extension_struct items default frame slots_ok
  for items :: "'s ext_item list" and default frame slots_ok +
  assumes canonical_body: "i \<in> set items \<Longrightarrow> item_read i body acc = Inr (acc', []) \<Longrightarrow>
      item_encode i acc' = Some body \<and> frame acc' = frame acc"
    and canonical_other: "i \<in> set items \<Longrightarrow> j \<in> set items \<Longrightarrow> item_id i \<noteq> item_id j \<Longrightarrow>
      item_read i body acc = Inr (acc', []) \<Longrightarrow> item_encode j acc' = item_encode j acc"
begin

definition rebuilds :: "'s \<Rightarrow> 's \<Rightarrow> ExtensionType list \<Rightarrow> bytes \<Rightarrow> bool" where
  "rebuilds acc acc' xs r \<longleftrightarrow>
     r = concat (map (encode_one items acc') xs) \<and> distinct xs \<and> frame acc' = frame acc \<and>
     (\<forall>i \<in> set items. item_id i \<notin> set xs \<longrightarrow> item_encode i acc' = item_encode i acc) \<and>
     (\<forall>x \<in> set xs. \<exists>i \<in> set items. item_id i = x \<and> item_encode i acc = None)"

lemma rebuilds_Cons:
  assumes "rebuilds acc1 acc' xs r" "i \<in> set items" "\<not> item_present i acc"
    and "item_read i body acc = Inr (acc1, [])"
  shows "rebuilds acc acc' (item_id i # xs) (u16_encode (item_id i) @ length_prefixed U16 body @ r)"
proof -
  have some: "item_encode i acc1 = Some body" "frame acc1 = frame acc"
    using canonical_body assms(2,4) by blast+
  have notin: "item_id i \<notin> set xs"
    using assms(1,2) some(1) find_item_eq unfolding rebuilds_def by (metis option.distinct(1) option.inject)
  hence "item_encode i acc' = Some body"
    using assms(1,2) some(1) unfolding rebuilds_def by metis
  hence enc: "encode_one items acc' (item_id i) = u16_encode (item_id i) @ length_prefixed U16 body"
    using find_item_eq assms(2) by (simp add: encode_one_def)
  have other: "item_encode j acc1 = item_encode j acc" if "j \<in> set items" "item_id j \<noteq> item_id i" for j
    using canonical_other [OF assms(2) that(1)] that(2) assms(4) by metis
  show ?thesis
    using assms(1) enc notin some(2) other
    unfolding rebuilds_def
    by (auto simp: encode_present assms(2,3)) (metis assms(2) assms(3) encode_present other)
qed

lemma read_extensions_rebuilds:
  assumes "read_extensions items nm (\<lambda>_ _. Inl e) push_order (acc, u, order) r = Inr (acc', u', order')"
  shows "\<exists>xs. order' = order @ xs \<and> rebuilds acc acc' xs r"
  using assms
proof (induction r arbitrary: acc u order rule: length_induct)
  case (1 r)
  show ?case
  proof (cases "r = []")
    case True
    thus ?thesis using 1(2) by (subst (asm) read_extensions_loop) (auto simp: rebuilds_def)
  next
    case False
    then obtain acc1 u1 order1 rest where
      step: "read_ext_step items nm (\<lambda>_ _. Inl e) push_order (acc, u, order) r =
        Inr ((acc1, u1, order1), rest)" and
      more: "read_extensions items nm (\<lambda>_ _. Inl e) push_order (acc1, u1, order1) rest =
        Inr (acc', u', order')"
      using 1(2) by (subst (asm) read_extensions_loop) auto
    from read_ext_step_InrD [OF step] obtain x where
      one: "read_one items nm (\<lambda>_ _. Inl e) (acc, u) r = Inr ((x, acc1, u1), rest)" and
      ord: "order1 = order @ [x]" by (auto simp: push_order_def)
    from read_one_InrD [OF one] obtain body i where
      body: "r = u16_encode x @ length_prefixed U16 body @ rest" and
      i: "find_item items x = Some i" "\<not> item_present i acc" "item_read i body acc = Inr (acc1, [])"
      by (auto split: option.splits)
    have "length rest < length r" using read_one_progress [OF one] by simp
    then obtain xs where "order' = order1 @ xs" "rebuilds acc1 acc' xs rest"
      using 1(1) more by blast
    thus ?thesis
      using rebuilds_Cons [of acc1 acc' xs rest i acc body] find_item_SomeD [OF i(1)] i ord body
      by (intro exI [of _ "x # xs"]) auto
  qed
qed

end

subsection \<open>What a successful read says about the wire\<close>

definition tlv :: "ExtensionType \<times> bytes \<Rightarrow> bytes" where
  "tlv = (\<lambda>(typ, body). u16_encode typ @ length_prefixed U16 body)"

fun run_unknown ::
  "(ExtensionType \<Rightarrow> 'u \<Rightarrow> InvalidMessage + 'u) \<Rightarrow> ExtensionType list \<Rightarrow> 'u \<Rightarrow> InvalidMessage + 'u" where
  "run_unknown f [] u = Inr u"
| "run_unknown f (x # xs) u = bindR (f x u) (run_unknown f xs)"

context extension_struct
begin

abbreviation known :: "ExtensionType \<Rightarrow> bool" where
  "known x \<equiv> find_item items x \<noteq> None"

text \<open>
  The bytes are a sequence of types and bodies; the known types are new and pairwise distinct,
  the unknown ones passed the callback, all passed the checks, and exactly the known types seen
  are present afterwards.
\<close>

definition reads_as ::
  "(ExtensionType \<Rightarrow> 'u \<Rightarrow> InvalidMessage + 'u) \<Rightarrow> (ExtensionType \<Rightarrow> bool \<Rightarrow> 'st \<Rightarrow> InvalidMessage + 'st)
     \<Rightarrow> 's \<times> 'u \<times> 'st \<Rightarrow> 's \<times> 'u \<times> 'st \<Rightarrow> (ExtensionType \<times> bytes) list \<Rightarrow> bool" where
  "reads_as unknown post = (\<lambda>(s, u, st) (s', u', st') xs.
     (let ts = map fst xs in
      run_post post ts st = Inr st' \<and>
      run_unknown unknown (filter (\<lambda>x. \<not> known x) ts) u = Inr u' \<and>
      distinct (filter known ts) \<and>
      (\<forall>x \<in> set ts. \<not> contains items s x) \<and>
      (\<forall>x. contains items s' x \<longleftrightarrow> contains items s x \<or> known x \<and> x \<in> set ts)))"

lemma contains_read:
  assumes "find_item items x = Some i" "item_read i body s = Inr (s', r)"
  shows "contains items s' y \<longleftrightarrow> y = x \<or> contains items s y"
proof (cases "find_item items y")
  case None
  thus ?thesis using assms(1) by (auto simp: contains_def)
next
  case (Some j)
  thus ?thesis using read_presence [OF _ _ assms(2), of j] find_item_SomeD assms(1)
    by (auto simp: contains_def)
qed

lemma reads_as_Cons:
  assumes one: "read_one items nm unknown (s, u) r = Inr ((x, s1, u1), rest)"
    and post: "post x (xs \<noteq> []) st = Inr st1"
    and rest: "reads_as unknown post (s1, u1, st1) res xs" "rest = concat (map tlv xs)"
  shows "\<exists>body. r = concat (map tlv ((x, body) # xs)) \<and> reads_as unknown post (s, u, st) res ((x, body) # xs)"
proof -
  obtain s' u' st' where res: "res = (s', u', st')" using prod_cases3 by blast
  obtain body where body: "r = tlv (x, body) @ rest" and
    eff: "case find_item items x of
       Some i \<Rightarrow> \<not> item_present i s \<and> item_read i body s = Inr (s1, []) \<and> u1 = u
     | None \<Rightarrow> s1 = s \<and> unknown x u = Inr u1"
    using read_one_InrD [OF one] by (auto simp: tlv_def)
  have "reads_as unknown post (s, u, st) res ((x, body) # xs)"
  proof (cases "find_item items x")
    case None
    hence "\<not> contains items s x" by (simp add: contains_def)
    thus ?thesis using rest(1) eff None post unfolding res by (auto simp: reads_as_def Let_def)
  next
    case (Some i)
    hence c: "contains items s1 y \<longleftrightarrow> y = x \<or> contains items s y" for y
      using contains_read eff by auto
    have "\<not> contains items s x" using eff Some by (simp add: contains_def)
    thus ?thesis using rest(1) eff Some post c unfolding res by (auto simp: reads_as_def Let_def)
  qed
  thus ?thesis using body rest(2) by auto
qed

lemma read_extensions_trace:
  assumes "read_extensions items nm unknown post (s, u, st) r = Inr res"
  shows "\<exists>xs. r = concat (map tlv xs) \<and> reads_as unknown post (s, u, st) res xs"
  using assms
proof (induction r arbitrary: s u st rule: length_induct)
  case (1 r)
  show ?case
  proof (cases "r = []")
    case True
    hence "res = (s, u, st)" using 1(2) by (subst (asm) read_extensions_loop) auto
    thus ?thesis using True by (intro exI [of _ "[]"]) (auto simp: reads_as_def)
  next
    case False
    then obtain s1 u1 st1 rest where
      step: "read_ext_step items nm unknown post (s, u, st) r = Inr ((s1, u1, st1), rest)" and
      more: "read_extensions items nm unknown post (s1, u1, st1) rest = Inr res"
      using 1(2) by (subst (asm) read_extensions_loop) auto
    from read_ext_step_InrD [OF step] obtain x where
      one: "read_one items nm unknown (s, u) r = Inr ((x, s1, u1), rest)" and
      post: "post x (rest \<noteq> []) st = Inr st1" by blast
    have "length rest < length r" using read_one_progress [OF one] by simp
    then obtain xs where xs: "rest = concat (map tlv xs)" "reads_as unknown post (s1, u1, st1) res xs"
      using 1(1) more by blast
    have "rest \<noteq> [] \<longleftrightarrow> xs \<noteq> []"
      using xs(1) u16_encode_nonempty by (cases xs) (auto simp: tlv_def)
    hence "post x (xs \<noteq> []) st = Inr st1" using post by simp
    from reads_as_Cons [OF one this xs(2,1)] show ?thesis by blast
  qed
qed

end

lemma run_unknown_check_distinct:
  assumes "run_unknown DuplicateExtensionChecker_check xs c = Inr c'" "InlineSet_invar c"
  shows "distinct xs \<and> set xs \<inter> BTreeSet_from_InlineSet c = {} \<and>
    BTreeSet_from_InlineSet c' = set xs \<union> BTreeSet_from_InlineSet c"
  using assms
proof (induction xs arbitrary: c)
  case (Cons x xs)
  hence new: "x \<notin> BTreeSet_from_InlineSet c"
    and run: "run_unknown DuplicateExtensionChecker_check xs (snd (InlineSet_insert x c)) = Inr c'"
    by (auto simp: DuplicateExtensionChecker_check_cases split: if_splits)
  from Cons.IH [OF run] inline.invar_add [OF Cons.prems(2)] inline.abs_add [OF Cons.prems(2)]
  show ?case using new by auto
qed simp

lemma run_unknown_weaken:
  assumes "run_unknown f xs u = Inr u'" "\<And>x u u'. f x u = Inr u' \<Longrightarrow> g x u = Inr u' \<and> P x"
  shows "run_unknown g xs u = Inr u' \<and> (\<forall>x \<in> set xs. P x)"
  using assms(1) by (induction xs arbitrary: u) (use assms(2) in \<open>auto\<close>)

lemma distinct_filter_split:
  "distinct xs \<longleftrightarrow> distinct (filter P xs) \<and> distinct (filter (\<lambda>x. \<not> P x) xs)"
proof
  show "distinct (filter P xs) \<and> distinct (filter (\<lambda>x. \<not> P x) xs) \<Longrightarrow> distinct xs"
    by (induction xs) (auto simp del: distinct_filter split: if_splits)
qed simp

context extension_struct
begin

lemma known_iff: "known x \<longleftrightarrow> x \<in> set (ALL_EXTENSIONS items)"
proof
  show "known x \<Longrightarrow> x \<in> set (ALL_EXTENSIONS items)"
    using find_item_SomeD unfolding ALL_EXTENSIONS_def by fastforce
  show "x \<in> set (ALL_EXTENSIONS items) \<Longrightarrow> known x"
    using find_item_eq unfolding ALL_EXTENSIONS_def by fastforce
qed

lemma contains_default: "\<not> contains items default x"
  by (auto simp: contains_def present_default split: option.splits dest!: find_item_SomeD)

text \<open>With plain duplicate checking, used and unknown types together are what was sent.\<close>

lemma reads_as_check:
  assumes "reads_as DuplicateExtensionChecker_check post (default, DuplicateExtensionChecker_new, st) (s, c, st') xs"
  shows "distinct (map fst xs) \<and>
    set (collect_used items s) \<union> BTreeSet_from_InlineSet c = set (map fst xs)"
proof -
  let ?ts = "map fst xs"
  from assms have unk: "run_unknown DuplicateExtensionChecker_check (filter (\<lambda>t. \<not> known t) ?ts)
      DuplicateExtensionChecker_new = Inr c" and dis: "distinct (filter known ?ts)"
    and cont: "contains items s t \<longleftrightarrow> known t \<and> t \<in> set ?ts" for t
    by (auto simp: reads_as_def Let_def contains_default)
  have "distinct (filter (\<lambda>t. \<not> known t) ?ts)"
    and c: "BTreeSet_from_InlineSet c = set (filter (\<lambda>t. \<not> known t) ?ts)"
    using run_unknown_check_distinct [OF unk] inline.invar_empty inline.abs_empty
    by (simp_all add: DuplicateExtensionChecker_new_def)
  hence "distinct ?ts" using dis distinct_filter_split [of ?ts known] by blast
  moreover have "set (collect_used items s) = {t \<in> set ?ts. known t}"
    using cont contains_iff_used by blast
  moreover have "BTreeSet_from_InlineSet c = {t \<in> set ?ts. \<not> known t}"
    unfolding c by (rule set_filter)
  ultimately show ?thesis by blast
qed

lemma reads_as_weaken:
  assumes "reads_as unknown post (s, u, st) (s', u', st') xs"
    and "\<And>x u u'. unknown x u = Inr u' \<Longrightarrow> unknown' x u = Inr u' \<and> P x"
  shows "reads_as unknown' post (s, u, st) (s', u', st') xs \<and>
    (\<forall>x \<in> set (map fst xs). x \<in> set (ALL_EXTENSIONS items) \<or> P x)"
proof -
  let ?us = "filter (\<lambda>x. \<not> known x) (map fst xs)"
  have "run_unknown unknown ?us u = Inr u'"
    using assms(1) unfolding reads_as_def Let_def prod.case by blast
  with assms(2) run_unknown_weaken [of unknown ?us u u' unknown' P]
  have "run_unknown unknown' ?us u = Inr u'" "\<forall>x \<in> set ?us. P x" by blast+
  moreover from this(2) have "x \<in> set (ALL_EXTENSIONS items) \<or> P x" if "x \<in> set (map fst xs)" for x
    using known_iff [of x] that by (cases "known x") simp_all
  ultimately show ?thesis using assms(1) unfolding reads_as_def Let_def prod.case by blast
qed

end

end
