(* ===== verification/Wire_Handshake.thy ===== *)
theory Wire_Handshake
  imports Ext_Struct
begin

text \<open>
  Handshake structures shared by both directions (\<open>msgs/handshake.rs\<close>, and
  \<open>DigitallySignedStruct\<close> and \<open>DistinguishedName\<close> of \<open>verify.rs\<close>): for each
  structure its record or datatype, its encoder, its decoder, the values
  that can travel (\<open>_wf\<close>), and the interpretation of the codec contract that
  the messages built from it rest on.
\<close>

subsection \<open>List elements\<close>

text \<open>Enumerations and sized payloads are list elements under any length prefix.\<close>

interpretation enum8l: canonical_list_element
  u8_encode "enum_read name u8_read" "\<lambda>_. True" sl for name sl
  by unfold_locales (auto dest!: enum8.encode_read)

interpretation enum16l: canonical_list_element
  u16_encode "enum_read name u16_read" "\<lambda>_. True" sl for name sl
  by unfold_locales (auto dest!: enum16.encode_read)

lemma SizedPayload_progress:
  "SizedPayload_read L C r = Inr (x, rest) \<Longrightarrow> length rest < length r"
  by (cases L) (auto dest!: spc.encode_read simp: length_SizedPayload_encode)

interpretation spl: canonical_list_element
  "SizedPayload_encode L C" "SizedPayload_read L C" "SizedPayload_wf L C" sl for L C sl
  by unfold_locales (rule SizedPayload_progress)

definition ECPointFormat_SIZE_LEN :: ListLength where
  "ECPointFormat_SIZE_LEN = NonZeroU8 (IllegalEmptyList ''ECPointFormats'')"

definition NamedGroup_SIZE_LEN :: ListLength where
  "NamedGroup_SIZE_LEN = NonZeroU16 (IllegalEmptyList ''NamedGroups'')"

definition SignatureScheme_SIZE_LEN :: ListLength where
  "SignatureScheme_SIZE_LEN = NonZeroU16 NoSignatureSchemes"

definition ProtocolVersion_SIZE_LEN :: ListLength where
  "ProtocolVersion_SIZE_LEN = NonZeroU8 (IllegalEmptyList ''ProtocolVersions'')"

definition CertificateType_SIZE_LEN :: ListLength where
  "CertificateType_SIZE_LEN = NonZeroU8 (IllegalEmptyList ''CertificateTypes'')"

definition CertificateCompressionAlgorithm_SIZE_LEN :: ListLength where
  "CertificateCompressionAlgorithm_SIZE_LEN =
     NonZeroU8 (IllegalEmptyList ''CertificateCompressionAlgorithms'')"

definition CipherSuite_SIZE_LEN :: ListLength where
  "CipherSuite_SIZE_LEN = NonZeroU16 (IllegalEmptyList ''CipherSuites'')"

definition Compression_SIZE_LEN :: ListLength where
  "Compression_SIZE_LEN = NonZeroU8 (IllegalEmptyList ''Compressions'')"

definition ExtensionType_SIZE_LEN :: ListLength where
  "ExtensionType_SIZE_LEN = NonZeroU8 (IllegalEmptyList ''ExtensionTypes'')"

definition ClientCertificateType_SIZE_LEN :: ListLength where
  "ClientCertificateType_SIZE_LEN = NonZeroU8 (IllegalEmptyList ''ClientCertificateTypes'')"

definition DistinguishedName_SIZE_LEN :: ListLength where
  "DistinguishedName_SIZE_LEN = U16"

lemmas size_len_defs [wf_simps] =
  ECPointFormat_SIZE_LEN_def NamedGroup_SIZE_LEN_def SignatureScheme_SIZE_LEN_def
  ProtocolVersion_SIZE_LEN_def CertificateType_SIZE_LEN_def
  CertificateCompressionAlgorithm_SIZE_LEN_def CipherSuite_SIZE_LEN_def Compression_SIZE_LEN_def
  ExtensionType_SIZE_LEN_def ClientCertificateType_SIZE_LEN_def DistinguishedName_SIZE_LEN_def

subsection \<open>Random and session identifiers\<close>

type_synonym Random = bytes

definition HELLO_RETRY_REQUEST_RANDOM :: Random where
  "HELLO_RETRY_REQUEST_RANDOM = [
     0xcf, 0x21, 0xad, 0x74, 0xe5, 0x9a, 0x61, 0x11, 0xbe, 0x1d, 0x8c, 0x02, 0x1e, 0x65, 0xb8, 0x91,
     0xc2, 0xa2, 0x11, 0x16, 0x7a, 0xbb, 0x8c, 0x5e, 0x07, 0x9e, 0x09, 0xe2, 0xc8, 0xa8, 0x33, 0x9c]"

definition Random_encode :: "Random \<Rightarrow> bytes" where
  "Random_encode x = x"

definition Random_read :: "Random decoder" where
  "Random_read r = Reader_take_array 32 ''Random'' r"

definition Random_wf :: "Random \<Rightarrow> bool" where
  "Random_wf x = (length x = 32)"

interpretation randc: canonical_codec Random_encode Random_read Random_wf
  by unfold_locales (auto simp: Random_encode_def Random_read_def Random_wf_def wire_simps
      dest!: wire_dest)

record SessionId =
  sid_data :: bytes
  sid_len :: usize

definition SessionId_empty :: SessionId where
  "SessionId_empty = \<lparr>sid_data = replicate 32 0, sid_len = 0\<rparr>"

definition SessionId_is_empty :: "SessionId \<Rightarrow> bool" where
  "SessionId_is_empty s = (sid_len s = 0)"

definition SessionId_as_ref :: "SessionId \<Rightarrow> bytes" where
  "SessionId_as_ref s = take (sid_len s) (sid_data s)"

definition SessionId_encode :: "SessionId \<Rightarrow> bytes" where
  "SessionId_encode s = word_of_nat (sid_len s) # SessionId_as_ref s"

definition SessionId_read :: "SessionId decoder" where
  "SessionId_read r =
     bindR (u8_read r) (\<lambda>(len, r). let len = unat len in
       if len > 32 then Inl (TrailingData ''SessionID'')
       else bindR (ok_or (MissingData ''SessionID'') (Reader_take len r)) (\<lambda>(bs, r).
         Inr (\<lparr>sid_data = write_at 0 (take len bs) (replicate 32 0), sid_len = len\<rparr>, r)))"

text \<open>
  \<open>PartialEq\<close>: lengths first, then a comparison over the bytes in use that does not stop
  at the first difference.
\<close>

definition SessionId_eq :: "SessionId \<Rightarrow> SessionId \<Rightarrow> bool" where
  "SessionId_eq self other =
     (if sid_len self \<noteq> sid_len other then False
      else fold (\<lambda>i diff. diff OR (sid_data self ! i XOR sid_data other ! i)) [0..<sid_len self] 0 = 0)"

definition SessionId_wf :: "SessionId \<Rightarrow> bool" where
  "SessionId_wf s =
     (sid_len s \<le> 32 \<and> length (sid_data s) = 32 \<and>
      drop (sid_len s) (sid_data s) = replicate (32 - sid_len s) 0)"

lemma SessionId_data_cases:
  assumes "SessionId_wf s"
  shows "s = \<lparr>sid_data = SessionId_as_ref s @ replicate (32 - sid_len s) 0, sid_len = sid_len s\<rparr>"
  using assms append_take_drop_id [of "sid_len s" "sid_data s"]
  by (simp add: SessionId_wf_def SessionId_as_ref_def)

interpretation sidc: canonical_codec SessionId_encode SessionId_read SessionId_wf
proof unfold_locales
  fix s :: SessionId and rest
  assume wf_s: "SessionId_wf s"
  hence len: "sid_len s \<le> 32" "length (SessionId_as_ref s) = sid_len s"
    by (simp_all add: SessionId_wf_def SessionId_as_ref_def)
  have "u8_read (SessionId_encode s @ rest) =
      Inr (word_of_nat (sid_len s), SessionId_as_ref s @ rest)"
    by (simp add: SessionId_encode_def u8c.read_iff u8_encode_def)
  thus "SessionId_read (SessionId_encode s @ rest) = Inr (s, rest)"
    using len SessionId_data_cases [OF wf_s]
    by (simp add: SessionId_read_def unat_word_of_nat_u8 Reader_take_def write_at_def)
next
  fix r s rest
  assume "SessionId_read r = Inr (s, rest)"
  then obtain n bs where *: "r = n # bs" "unat n \<le> 32" "unat n \<le> length bs"
    "rest = drop (unat n) bs"
    "s = \<lparr>sid_data = take (unat n) bs @ replicate (32 - unat n) 0, sid_len = unat n\<rparr>"
    by (auto simp: SessionId_read_def Let_def Reader_take_def write_at_def u8_encode_def
        split: if_splits dest!: u8c.encode_read)
  thus "SessionId_wf s \<and> r = SessionId_encode s @ rest"
    by (simp add: SessionId_wf_def SessionId_encode_def SessionId_as_ref_def)
qed

lemma fold_or_eq_0: "fold (\<lambda>i d. d OR f i) xs (d :: u8) = 0 \<longleftrightarrow> d = 0 \<and> (\<forall>i \<in> set xs. f i = 0)"
proof (induction xs arbitrary: d)
  case (Cons x xs)
  have "d OR f x = 0 \<longleftrightarrow> d = 0 \<and> f x = 0"
    by (auto simp: or_eq_0_iff)
  thus ?case by (simp add: Cons)
qed simp

lemma xor_eq_0_iff_u8: "a XOR b = 0 \<longleftrightarrow> a = (b :: u8)"
  by (auto simp: bit_eq_iff bit_xor_iff)

text \<open>The comparison decides equality of the identifiers, not of the backing arrays.\<close>

lemma SessionId_eq_iff:
  assumes "sid_len a \<le> length (sid_data a)" "sid_len b \<le> length (sid_data b)"
  shows "SessionId_eq a b \<longleftrightarrow> SessionId_as_ref a = SessionId_as_ref b"
proof -
  have "(\<forall>i \<in> {0..<n}. x ! i = y ! i) \<longleftrightarrow> take n x = take n y"
    if "n \<le> length x" "n \<le> length y" for n and x y :: bytes
    using that by (auto simp: list_eq_iff_nth_eq)
  moreover have "SessionId_as_ref a = SessionId_as_ref b \<Longrightarrow> sid_len a = sid_len b"
    using assms by (metis SessionId_as_ref_def length_take min.absorb2)
  ultimately show ?thesis using assms
    by (simp add: SessionId_eq_def fold_or_eq_0 SessionId_as_ref_def xor_eq_0_iff_u8 cong: conj_cong)
      blast
qed

subsection \<open>Lists decoded to flags\<close>

text \<open>
  \<open>SupportedEcPointFormats\<close> and \<open>SupportedProtocolVersions\<close> keep only which of the
  values they know occurred.  A structure with no flag set encodes as an empty list,
  which the decoder refuses, so it cannot travel.
\<close>

record SupportedEcPointFormats =
  uncompressed :: bool

definition SupportedEcPointFormats_encode :: "SupportedEcPointFormats \<Rightarrow> bytes" where
  "SupportedEcPointFormats_encode s =
     length_prefixed ECPointFormat_SIZE_LEN
       (if uncompressed s then u8_encode ECPointFormat_Uncompressed else [])"

definition SupportedEcPointFormats_read :: "SupportedEcPointFormats decoder" where
  "SupportedEcPointFormats_read r =
     bindR (TlsListIter_new ECPointFormat_SIZE_LEN r) (\<lambda>(sub, r).
     bindR (read_items ECPointFormat_read sub) (\<lambda>pfs.
       Inr (\<lparr>uncompressed = (ECPointFormat_Uncompressed \<in> set pfs)\<rparr>, r)))"

definition SupportedEcPointFormats_wf :: "SupportedEcPointFormats \<Rightarrow> bool" where
  "SupportedEcPointFormats_wf s = uncompressed s"

record SupportedProtocolVersions =
  tls13 :: bool
  tls12 :: bool

definition SupportedProtocolVersions_any ::
  "(ProtocolVersion \<Rightarrow> bool) \<Rightarrow> SupportedProtocolVersions \<Rightarrow> bool" where
  "SupportedProtocolVersions_any f s =
     (if tls13 s \<and> f ProtocolVersion_TLSv1_3 then True
      else if tls12 s \<and> f ProtocolVersion_TLSv1_2 then True
      else False)"

definition SupportedProtocolVersions_encode :: "SupportedProtocolVersions \<Rightarrow> bytes" where
  "SupportedProtocolVersions_encode s =
     length_prefixed (NonZeroU8 (IllegalEmptyList ''ProtocolVersions''))
       ((if tls13 s then u16_encode ProtocolVersion_TLSv1_3 else []) @
        (if tls12 s then u16_encode ProtocolVersion_TLSv1_2 else []))"

definition SupportedProtocolVersions_read :: "SupportedProtocolVersions decoder" where
  "SupportedProtocolVersions_read r =
     bindR (TlsListIter_new ProtocolVersion_SIZE_LEN r) (\<lambda>(sub, r).
     bindR (read_items ProtocolVersion_read sub) (\<lambda>pvs.
       Inr (\<lparr>tls13 = (ProtocolVersion_TLSv1_3 \<in> set pvs),
             tls12 = (ProtocolVersion_TLSv1_2 \<in> set pvs)\<rparr>, r)))"

definition SupportedProtocolVersions_wf :: "SupportedProtocolVersions \<Rightarrow> bool" where
  "SupportedProtocolVersions_wf s = (tls13 s \<or> tls12 s)"

lemma read_enum8_items: "read_items (enum_read nm u8_read) (concat (map u8_encode xs)) = Inr xs"
  by (rule enum8l.read_items_encode) (simp add: list_all_iff)

lemma read_enum16_items: "read_items (enum_read nm u16_read) (concat (map u16_encode xs)) = Inr xs"
  by (rule enum16l.read_items_encode) (simp add: list_all_iff)

interpretation ecpfc: wire_codec
  SupportedEcPointFormats_encode SupportedEcPointFormats_read SupportedEcPointFormats_wf
proof unfold_locales
  fix s :: SupportedEcPointFormats and rest
  assume "SupportedEcPointFormats_wf s"
  thus "SupportedEcPointFormats_read (SupportedEcPointFormats_encode s @ rest) = Inr (s, rest)"
    using read_enum8_items [of "''ECPointFormat''" "[ECPointFormat_Uncompressed]"]
    by (simp add: SupportedEcPointFormats_encode_def SupportedEcPointFormats_read_def
        SupportedEcPointFormats_wf_def wire_simps ECPointFormat_SIZE_LEN_def)
qed

interpretation verc: wire_codec
  SupportedProtocolVersions_encode SupportedProtocolVersions_read SupportedProtocolVersions_wf
proof unfold_locales
  fix s :: SupportedProtocolVersions and rest
  let ?vs = "(if tls13 s then [ProtocolVersion_TLSv1_3] else []) @
    (if tls12 s then [ProtocolVersion_TLSv1_2] else [])"
  assume "SupportedProtocolVersions_wf s"
  thus "SupportedProtocolVersions_read (SupportedProtocolVersions_encode s @ rest) = Inr (s, rest)"
    using read_enum16_items [of "''ProtocolVersion''" ?vs]
    by (auto simp: SupportedProtocolVersions_encode_def SupportedProtocolVersions_read_def
        SupportedProtocolVersions_wf_def wire_simps ProtocolVersion_SIZE_LEN_def)
qed

subsection \<open>Single protocol name and key shares\<close>

definition SingleProtocolName_encode :: "ApplicationProtocol \<Rightarrow> bytes" where
  "SingleProtocolName_encode p =
     length_prefixed ApplicationProtocol_SIZE_LEN (ApplicationProtocol_encode p)"

definition SingleProtocolName_read :: "ApplicationProtocol decoder" where
  "SingleProtocolName_read r =
     bindR (ListLength_read ApplicationProtocol_SIZE_LEN r) (\<lambda>(len, r).
     bindR (Reader_sub len r) (\<lambda>(sub, r).
     bindR (Reader_all ''SingleProtocolName'' ApplicationProtocol_read sub) (\<lambda>(p, _). Inr (p, r))))"

lemma ApplicationProtocol_encode_admits:
  "ApplicationProtocol_wf p \<Longrightarrow>
     ListLength_admits ApplicationProtocol_SIZE_LEN (length (ApplicationProtocol_encode p))"
  by (simp add: ApplicationProtocol_SIZE_LEN_def ApplicationProtocol_wf_def SizedPayload_wf_def
      length_ApplicationProtocol_encode)

interpretation spnc: canonical_codec
  SingleProtocolName_encode SingleProtocolName_read ApplicationProtocol_wf
proof unfold_locales
  fix p rest
  assume "ApplicationProtocol_wf p"
  thus "SingleProtocolName_read (SingleProtocolName_encode p @ rest) = Inr (p, rest)"
    by (simp add: SingleProtocolName_encode_def SingleProtocolName_read_def wire_simps
        ApplicationProtocol_encode_admits)
next
  fix r p rest
  assume "SingleProtocolName_read r = Inr (p, rest)"
  thus "ApplicationProtocol_wf p \<and> r = SingleProtocolName_encode p @ rest"
    by (auto simp: SingleProtocolName_read_def SingleProtocolName_encode_def Reader_all_Inr_iff
        ListLength_read_iff length_prefixed_eq dest!: Reader_sub_InrD alpn.encode_read)
qed

record KeyShareEntry =
  kse_group :: NamedGroup
  kse_payload :: bytes

definition KeyShareEntry_encode :: "KeyShareEntry \<Rightarrow> bytes" where
  "KeyShareEntry_encode e =
     u16_encode (kse_group e) @ SizedPayload_encode Size_u16 NonEmpty (kse_payload e)"

definition KeyShareEntry_read :: "KeyShareEntry decoder" where
  "KeyShareEntry_read r =
     bindR (NamedGroup_read r) (\<lambda>(g, r).
     bindR (SizedPayload_read Size_u16 NonEmpty r) (\<lambda>(p, r).
       Inr (\<lparr>kse_group = g, kse_payload = p\<rparr>, r)))"

definition KeyShareEntry_wf :: "KeyShareEntry \<Rightarrow> bool" where
  "KeyShareEntry_wf e = SizedPayload_wf Size_u16 NonEmpty (kse_payload e)"

definition KeyShareEntry_SIZE_LEN :: ListLength where
  "KeyShareEntry_SIZE_LEN = U16"

interpretation ksec: canonical_list_element
  KeyShareEntry_encode KeyShareEntry_read KeyShareEntry_wf KeyShareEntry_SIZE_LEN
  by unfold_locales (auto simp: KeyShareEntry_encode_def KeyShareEntry_read_def
      KeyShareEntry_wf_def wire_simps dest!: wire_dest)

subsection \<open>Signatures and names\<close>

record DigitallySignedStruct =
  dss_scheme :: SignatureScheme
  dss_sig :: bytes

definition DigitallySignedStruct_encode :: "DigitallySignedStruct \<Rightarrow> bytes" where
  "DigitallySignedStruct_encode d =
     u16_encode (dss_scheme d) @ SizedPayload_encode Size_u16 MaybeEmpty (dss_sig d)"

definition DigitallySignedStruct_read :: "DigitallySignedStruct decoder" where
  "DigitallySignedStruct_read r =
     bindR (SignatureScheme_read r) (\<lambda>(s, r).
     bindR (SizedPayload_read Size_u16 MaybeEmpty r) (\<lambda>(p, r).
       Inr (\<lparr>dss_scheme = s, dss_sig = p\<rparr>, r)))"

definition DigitallySignedStruct_wf :: "DigitallySignedStruct \<Rightarrow> bool" where
  "DigitallySignedStruct_wf d = SizedPayload_wf Size_u16 MaybeEmpty (dss_sig d)"

interpretation dssc: canonical_codec
  DigitallySignedStruct_encode DigitallySignedStruct_read DigitallySignedStruct_wf
  by unfold_locales (auto simp: DigitallySignedStruct_encode_def DigitallySignedStruct_read_def
      DigitallySignedStruct_wf_def wire_simps dest!: wire_dest)

text \<open>\<open>wrapped_payload!\<close> types are their bytes with the codec of the wrapped payload.\<close>

type_synonym DistinguishedName = bytes

abbreviation DistinguishedName_encode :: "DistinguishedName \<Rightarrow> bytes" where
  "DistinguishedName_encode \<equiv> SizedPayload_encode Size_u16 NonEmpty"

abbreviation DistinguishedName_read :: "DistinguishedName decoder" where
  "DistinguishedName_read \<equiv> SizedPayload_read Size_u16 NonEmpty"

subsection \<open>Certificates\<close>

definition CERTIFICATE_MAX_SIZE_LIMIT :: usize where
  "CERTIFICATE_MAX_SIZE_LIMIT = 0x10000"

definition CertificateDer_SIZE_LEN :: ListLength where
  "CertificateDer_SIZE_LEN = U24 CERTIFICATE_MAX_SIZE_LIMIT CertificatePayloadTooLarge"

definition CertificateDer_encode :: "bytes \<Rightarrow> bytes" where
  "CertificateDer_encode c = length_prefixed CertificateDer_SIZE_LEN c"

definition CertificateDer_read :: "bytes decoder" where
  "CertificateDer_read r =
     bindR (ListLength_read (NonZeroU24 CERTIFICATE_MAX_SIZE_LIMIT
       (IllegalEmptyList ''CertificateDer'') CertificatePayloadTooLarge) r) (\<lambda>(len, r).
     bindR (Reader_sub len r) (\<lambda>(sub, r). Inr (fst (Reader_rest sub), r)))"

definition CertificateDer_wf :: "bytes \<Rightarrow> bool" where
  "CertificateDer_wf c = (0 < length c \<and> length c \<le> 0x10000)"

definition SubjectPublicKeyInfoDer_encode :: "bytes \<Rightarrow> bytes" where
  "SubjectPublicKeyInfoDer_encode c = length_prefixed CertificateDer_SIZE_LEN c"

definition SubjectPublicKeyInfoDer_read :: "bytes decoder" where
  "SubjectPublicKeyInfoDer_read r =
     bindR (ListLength_read CertificateDer_SIZE_LEN r) (\<lambda>(len, r).
     bindR (Reader_sub len r) (\<lambda>(sub, r). Inr (fst (Reader_rest sub), r)))"

lemmas cert_defs =
  CertificateDer_encode_def CertificateDer_read_def CertificateDer_wf_def
  CertificateDer_SIZE_LEN_def CERTIFICATE_MAX_SIZE_LIMIT_def
  SubjectPublicKeyInfoDer_encode_def SubjectPublicKeyInfoDer_read_def Reader_rest_def

interpretation certc: canonical_list_element
  CertificateDer_encode CertificateDer_read CertificateDer_wf CertificateDer_SIZE_LEN
proof unfold_locales
  fix c rest
  assume "CertificateDer_wf c"
  moreover from this have "ListLength_read (NonZeroU24 65536 (IllegalEmptyList ''CertificateDer'')
      CertificatePayloadTooLarge) (CertificateDer_encode c @ rest) = Inr (length c, c @ rest)"
    by (simp add: ListLength_read_iff cert_defs length_prefixed_eq)
  ultimately show "CertificateDer_read (CertificateDer_encode c @ rest) = Inr (c, rest)"
    by (simp add: CertificateDer_read_def CERTIFICATE_MAX_SIZE_LIMIT_def Reader_rest_def wire_simps)
next
  fix r c rest
  assume read: "CertificateDer_read r = Inr (c, rest)"
  show "CertificateDer_wf c \<and> r = CertificateDer_encode c @ rest"
    using read by (auto simp: cert_defs ListLength_read_iff length_prefixed_eq
        dest!: Reader_sub_InrD)
  show "length rest < length r"
    using read by (auto simp: cert_defs ListLength_read_iff
        dest!: Reader_sub_InrD)
qed

interpretation spkic: canonical_codec
  SubjectPublicKeyInfoDer_encode SubjectPublicKeyInfoDer_read "\<lambda>c. length c \<le> 0x10000"
proof unfold_locales
  show "SubjectPublicKeyInfoDer_read (SubjectPublicKeyInfoDer_encode c @ rest) = Inr (c, rest)"
    if "length c \<le> 0x10000" for c rest
    using that by (simp add: cert_defs wire_simps)
  show "length c \<le> 0x10000 \<and> r = SubjectPublicKeyInfoDer_encode c @ rest"
    if "SubjectPublicKeyInfoDer_read r = Inr (c, rest)" for r c rest
    using that by (auto simp: cert_defs ListLength_read_iff length_prefixed_eq dest!: Reader_sub_InrD)
qed

type_synonym CertificateChain = "bytes list"

definition CertificateChain_encode :: "CertificateChain \<Rightarrow> bytes" where
  "CertificateChain_encode chain = Vec_encode CertificateDer_SIZE_LEN CertificateDer_encode chain"

definition CertificateChain_read :: "CertificateChain decoder" where
  "CertificateChain_read r =
     bindR (TlsListIter_new CertificateDer_SIZE_LEN r) (\<lambda>(sub, r).
     bindR (read_items CertificateDer_read sub) (\<lambda>certs. Inr (certs, r)))"

definition CertificateChain_wf :: "CertificateChain \<Rightarrow> bool" where
  "CertificateChain_wf = Vec_wf CertificateDer_SIZE_LEN CertificateDer_encode CertificateDer_wf"

lemma CertificateChain_read_Vec:
  "CertificateChain_read = Vec_read CertificateDer_SIZE_LEN CertificateDer_read"
  by (rule ext) (simp add: CertificateChain_read_def Vec_read_def)

interpretation chainc: canonical_codec
  CertificateChain_encode CertificateChain_read CertificateChain_wf
  unfolding CertificateChain_read_Vec CertificateChain_wf_def CertificateChain_encode_def
  by (rule certc.Vec_canonical)

subsection \<open>Certificate status and the TLS 1.3 certificate message\<close>

record CertificateStatus =
  ocsp_response :: bytes

definition CertificateStatus_encode :: "CertificateStatus \<Rightarrow> bytes" where
  "CertificateStatus_encode s =
     u8_encode CertificateStatusType_OCSP @ SizedPayload_encode Size_U24 NonEmpty (ocsp_response s)"

definition CertificateStatus_read :: "CertificateStatus decoder" where
  "CertificateStatus_read r =
     bindR (CertificateStatusType_read r) (\<lambda>(typ, r).
       if typ = CertificateStatusType_OCSP then
         bindR (SizedPayload_read Size_U24 NonEmpty r) (\<lambda>(p, r). Inr (\<lparr>ocsp_response = p\<rparr>, r))
       else Inl InvalidCertificateStatusType)"

definition CertificateStatus_wf :: "CertificateStatus \<Rightarrow> bool" where
  "CertificateStatus_wf s = SizedPayload_wf Size_U24 NonEmpty (ocsp_response s)"

interpretation csc: canonical_codec
  CertificateStatus_encode CertificateStatus_read CertificateStatus_wf
  by unfold_locales (auto simp: CertificateStatus_encode_def CertificateStatus_read_def
      CertificateStatus_wf_def wire_simps dest!: wire_dest split: if_splits)

record CertificateExtensions =
  cext_status :: "CertificateStatus option"

definition CertificateExtensions_default :: CertificateExtensions where
  "CertificateExtensions_default = \<lparr>cext_status = None\<rparr>"

definition CertificateExtensions_items :: "CertificateExtensions ext_item list" where
  "CertificateExtensions_items =
     [ext_slot ExtensionType_StatusRequest cext_status cext_status_update
        CertificateStatus_encode CertificateStatus_read]"

definition CertificateExtensions_encode :: "CertificateExtensions \<Rightarrow> bytes" where
  "CertificateExtensions_encode s = length_prefixed U16 (encode_all CertificateExtensions_items s)"

definition CertificateExtensions_read :: "CertificateExtensions decoder" where
  "CertificateExtensions_read r =
     bindR (read_u16_sub r) (\<lambda>(sub, r).
     bindR (read_extensions CertificateExtensions_items ''CertificateExtensions''
       (\<lambda>_ _. Inl UnknownCertificateExtension) no_post (CertificateExtensions_default, (), ()) sub)
     (\<lambda>(out, _, _). Inr (out, r)))"

definition CertificateExtensions_slots_wf :: "CertificateExtensions \<Rightarrow> bool" where
  "CertificateExtensions_slots_wf s = pred_option CertificateStatus_wf (cext_status s)"

definition CertificateExtensions_wf :: "CertificateExtensions \<Rightarrow> bool" where
  "CertificateExtensions_wf s =
     (CertificateExtensions_slots_wf s \<and> extensions_fit CertificateExtensions_items s)"

interpretation cexts: extension_struct
  CertificateExtensions_items CertificateExtensions_default "\<lambda>_. ()" CertificateExtensions_slots_wf
  by unfold_locales
    (auto simp: CertificateExtensions_items_def CertificateExtensions_default_def ext_slot_simps
      CertificateExtensions_slots_wf_def wire_simps)

interpretation cextc: wire_codec
  CertificateExtensions_encode CertificateExtensions_read CertificateExtensions_wf
  by unfold_locales
    (simp add: CertificateExtensions_encode_def CertificateExtensions_read_def
      CertificateExtensions_wf_def wire_simps extensions_fit_def cexts.read_all_extensions)

record CertificateEntry =
  ce_cert :: bytes
  ce_extensions :: CertificateExtensions

definition CertificateEntry_encode :: "CertificateEntry \<Rightarrow> bytes" where
  "CertificateEntry_encode e =
     CertificateDer_encode (ce_cert e) @ CertificateExtensions_encode (ce_extensions e)"

definition CertificateEntry_read :: "CertificateEntry decoder" where
  "CertificateEntry_read r =
     bindR (CertificateDer_read r) (\<lambda>(c, r).
     bindR (CertificateExtensions_read r) (\<lambda>(x, r).
       Inr (\<lparr>ce_cert = c, ce_extensions = x\<rparr>, r)))"

definition CertificateEntry_wf :: "CertificateEntry \<Rightarrow> bool" where
  "CertificateEntry_wf e =
     (CertificateDer_wf (ce_cert e) \<and> CertificateExtensions_wf (ce_extensions e))"

definition CertificateEntry_SIZE_LEN :: ListLength where
  "CertificateEntry_SIZE_LEN = U24 CERTIFICATE_MAX_SIZE_LIMIT CertificatePayloadTooLarge"

definition CertificateEntry_new :: "bytes \<Rightarrow> CertificateEntry" where
  "CertificateEntry_new cert = \<lparr>ce_cert = cert, ce_extensions = CertificateExtensions_default\<rparr>"

lemma CertificateExtensions_read_length:
  "CertificateExtensions_read r = Inr (x, rest) \<Longrightarrow> length rest < length r"
  by (auto simp: CertificateExtensions_read_def dest!: wire_dest split: prod.splits)

interpretation cec: tls_list_element
  CertificateEntry_encode CertificateEntry_read CertificateEntry_wf CertificateEntry_SIZE_LEN
proof unfold_locales
  show "CertificateEntry_wf x \<Longrightarrow> CertificateEntry_read (CertificateEntry_encode x @ rest) = Inr (x, rest)"
    for x rest
    by (simp add: CertificateEntry_encode_def CertificateEntry_read_def CertificateEntry_wf_def
        wire_simps)
  show "length rest < length r" if "CertificateEntry_read r = Inr (x, rest)" for r x rest
    using that by (auto simp: CertificateEntry_read_def dest!: certc.read_progress
        CertificateExtensions_read_length)
qed

record CertificatePayloadTls13 =
  cp13_context :: bytes
  cp13_entries :: "CertificateEntry list"

text \<open>
  \<open>new\<close> pairs the certificates with the OCSP response followed by \<open>None\<close> for ever: only the
  end-entity certificate, the first one, gets the response, and an empty response is none.
\<close>

definition CertificatePayloadTls13_new :: "bytes list \<Rightarrow> bytes option \<Rightarrow> CertificatePayloadTls13" where
  "CertificatePayloadTls13_new certs ocsp =
     (let ocsp = (case ocsp of None \<Rightarrow> None | Some b \<Rightarrow> if b = [] then None else Some b);
          entry = (\<lambda>cert o'. (case o' of
             None \<Rightarrow> CertificateEntry_new cert
           | Some b \<Rightarrow> (CertificateEntry_new cert)\<lparr>ce_extensions :=
               CertificateExtensions_default\<lparr>cext_status := Some \<lparr>ocsp_response = b\<rparr>\<rparr>\<rparr>))
      in \<lparr>cp13_context = [],
          cp13_entries = (case certs of
             [] \<Rightarrow> []
           | c # cs \<Rightarrow> entry c ocsp # map (\<lambda>c. entry c None) cs)\<rparr>)"

definition CertificatePayloadTls13_end_entity_ocsp :: "CertificatePayloadTls13 \<Rightarrow> bytes" where
  "CertificatePayloadTls13_end_entity_ocsp p =
     (case cp13_entries p of
        [] \<Rightarrow> []
      | e # _ \<Rightarrow> (case cext_status (ce_extensions e) of
           None \<Rightarrow> [] | Some st \<Rightarrow> ocsp_response st))"

definition CertificatePayloadTls13_into_certificate_chain ::
  "CertificatePayloadTls13 \<Rightarrow> CertificateChain" where
  "CertificatePayloadTls13_into_certificate_chain p = map ce_cert (cp13_entries p)"

definition CertificatePayloadTls13_encode :: "CertificatePayloadTls13 \<Rightarrow> bytes" where
  "CertificatePayloadTls13_encode p =
     SizedPayload_encode Size_u8 MaybeEmpty (cp13_context p) @
     Vec_encode CertificateEntry_SIZE_LEN CertificateEntry_encode (cp13_entries p)"

definition CertificatePayloadTls13_read :: "CertificatePayloadTls13 decoder" where
  "CertificatePayloadTls13_read r =
     bindR (SizedPayload_read Size_u8 MaybeEmpty r) (\<lambda>(c, r).
     bindR (Vec_read CertificateEntry_SIZE_LEN CertificateEntry_read r) (\<lambda>(es, r).
       Inr (\<lparr>cp13_context = c, cp13_entries = es\<rparr>, r)))"

definition CertificatePayloadTls13_wf :: "CertificatePayloadTls13 \<Rightarrow> bool" where
  "CertificatePayloadTls13_wf p =
     (SizedPayload_wf Size_u8 MaybeEmpty (cp13_context p) \<and>
      Vec_wf CertificateEntry_SIZE_LEN CertificateEntry_encode CertificateEntry_wf (cp13_entries p))"

interpretation cp13c: wire_codec
  CertificatePayloadTls13_encode CertificatePayloadTls13_read CertificatePayloadTls13_wf
  by unfold_locales (simp add: CertificatePayloadTls13_encode_def CertificatePayloadTls13_read_def
      CertificatePayloadTls13_wf_def wire_simps)

text \<open>What was put into the message comes out of it: the chain, and the end-entity response.\<close>

lemma CertificatePayloadTls13_new_chain:
  "CertificatePayloadTls13_into_certificate_chain (CertificatePayloadTls13_new certs ocsp) = certs"
  by (cases certs) (auto simp: CertificatePayloadTls13_into_certificate_chain_def
      CertificatePayloadTls13_new_def CertificateEntry_new_def Let_def comp_def split: option.splits)

lemma CertificatePayloadTls13_new_ocsp:
  "certs \<noteq> [] \<Longrightarrow> CertificatePayloadTls13_end_entity_ocsp (CertificatePayloadTls13_new certs ocsp) =
     (case ocsp of None \<Rightarrow> [] | Some b \<Rightarrow> b)"
  by (cases certs) (auto simp: CertificatePayloadTls13_end_entity_ocsp_def
      CertificatePayloadTls13_new_def CertificateEntry_new_def CertificateExtensions_default_def
      Let_def split: option.splits)

subsection \<open>Key exchange messages of TLS 1.2\<close>

record EcParameters =
  ecp_curve_type :: ECCurveType
  ecp_named_group :: NamedGroup

definition EcParameters_encode :: "EcParameters \<Rightarrow> bytes" where
  "EcParameters_encode p = u8_encode (ecp_curve_type p) @ u16_encode (ecp_named_group p)"

definition EcParameters_read :: "EcParameters decoder" where
  "EcParameters_read r =
     bindR (ECCurveType_read r) (\<lambda>(ct, r).
       if ct \<noteq> ECCurveType_NamedCurve then Inl UnsupportedCurveType
       else bindR (NamedGroup_read r) (\<lambda>(grp, r).
         Inr (\<lparr>ecp_curve_type = ct, ecp_named_group = grp\<rparr>, r)))"

definition EcParameters_wf :: "EcParameters \<Rightarrow> bool" where
  "EcParameters_wf p = (ecp_curve_type p = ECCurveType_NamedCurve)"

interpretation ecpc: canonical_codec EcParameters_encode EcParameters_read EcParameters_wf
  by unfold_locales (auto simp: EcParameters_encode_def EcParameters_read_def EcParameters_wf_def
      wire_simps dest!: wire_dest split: if_splits)

datatype ClientKeyExchangeParams = ClientEcdh bytes | ClientDh bytes

fun ClientKeyExchangeParams_pub_key :: "ClientKeyExchangeParams \<Rightarrow> bytes" where
  "ClientKeyExchangeParams_pub_key (ClientEcdh p) = p"
| "ClientKeyExchangeParams_pub_key (ClientDh p) = p"

fun ClientKeyExchangeParams_encode :: "ClientKeyExchangeParams \<Rightarrow> bytes" where
  "ClientKeyExchangeParams_encode (ClientEcdh p) = SizedPayload_encode Size_u8 NonEmpty p"
| "ClientKeyExchangeParams_encode (ClientDh p) = SizedPayload_encode Size_u16 NonEmpty p"

fun ClientKeyExchangeParams_decode :: "KeyExchangeAlgorithm \<Rightarrow> ClientKeyExchangeParams decoder" where
  "ClientKeyExchangeParams_decode ECDHE r =
     bindR (SizedPayload_read Size_u8 NonEmpty r) (\<lambda>(p, r). Inr (ClientEcdh p, r))"
| "ClientKeyExchangeParams_decode DHE r =
     bindR (SizedPayload_read Size_u16 NonEmpty r) (\<lambda>(p, r). Inr (ClientDh p, r))"

fun ClientKeyExchangeParams_wf :: "KeyExchangeAlgorithm \<Rightarrow> ClientKeyExchangeParams \<Rightarrow> bool" where
  "ClientKeyExchangeParams_wf ECDHE (ClientEcdh p) = SizedPayload_wf Size_u8 NonEmpty p"
| "ClientKeyExchangeParams_wf DHE (ClientDh p) = SizedPayload_wf Size_u16 NonEmpty p"
| "ClientKeyExchangeParams_wf _ _ = False"

interpretation ckxc: canonical_codec ClientKeyExchangeParams_encode
  "ClientKeyExchangeParams_decode algo" "ClientKeyExchangeParams_wf algo" for algo
proof unfold_locales
  fix x rest assume "ClientKeyExchangeParams_wf algo x"
  thus "ClientKeyExchangeParams_decode algo (ClientKeyExchangeParams_encode x @ rest) = Inr (x, rest)"
    by (cases algo; cases x) (simp_all add: wire_simps)
next
  fix r x rest assume "ClientKeyExchangeParams_decode algo r = Inr (x, rest)"
  thus "ClientKeyExchangeParams_wf algo x \<and> r = ClientKeyExchangeParams_encode x @ rest"
    by (cases algo) (auto dest!: wire_dest)
qed

record ServerEcdhParams =
  sep_curve_params :: EcParameters
  sep_public :: bytes

record ServerDhParams =
  sdp_p :: bytes
  sdp_g :: bytes
  sdp_ys :: bytes

datatype ServerKeyExchangeParams = ServerEcdh ServerEcdhParams | ServerDh ServerDhParams

fun ServerKeyExchangeParams_pub_key :: "ServerKeyExchangeParams \<Rightarrow> bytes" where
  "ServerKeyExchangeParams_pub_key (ServerEcdh p) = sep_public p"
| "ServerKeyExchangeParams_pub_key (ServerDh p) = sdp_ys p"

definition ServerEcdhParams_encode :: "ServerEcdhParams \<Rightarrow> bytes" where
  "ServerEcdhParams_encode p =
     EcParameters_encode (sep_curve_params p) @ SizedPayload_encode Size_u8 NonEmpty (sep_public p)"

definition ServerEcdhParams_read :: "ServerEcdhParams decoder" where
  "ServerEcdhParams_read r =
     bindR (EcParameters_read r) (\<lambda>(cp, r).
     bindR (SizedPayload_read Size_u8 NonEmpty r) (\<lambda>(pb, r).
       Inr (\<lparr>sep_curve_params = cp, sep_public = pb\<rparr>, r)))"

definition ServerDhParams_encode :: "ServerDhParams \<Rightarrow> bytes" where
  "ServerDhParams_encode p =
     SizedPayload_encode Size_u16 NonEmpty (sdp_p p) @
     SizedPayload_encode Size_u16 NonEmpty (sdp_g p) @
     SizedPayload_encode Size_u16 NonEmpty (sdp_ys p)"

definition ServerDhParams_read :: "ServerDhParams decoder" where
  "ServerDhParams_read r =
     bindR (SizedPayload_read Size_u16 NonEmpty r) (\<lambda>(p, r).
     bindR (SizedPayload_read Size_u16 NonEmpty r) (\<lambda>(g, r).
     bindR (SizedPayload_read Size_u16 NonEmpty r) (\<lambda>(ys, r).
       Inr (\<lparr>sdp_p = p, sdp_g = g, sdp_ys = ys\<rparr>, r))))"

fun ServerKeyExchangeParams_encode :: "ServerKeyExchangeParams \<Rightarrow> bytes" where
  "ServerKeyExchangeParams_encode (ServerEcdh p) = ServerEcdhParams_encode p"
| "ServerKeyExchangeParams_encode (ServerDh p) = ServerDhParams_encode p"

fun ServerKeyExchangeParams_decode :: "KeyExchangeAlgorithm \<Rightarrow> ServerKeyExchangeParams decoder" where
  "ServerKeyExchangeParams_decode ECDHE r =
     bindR (ServerEcdhParams_read r) (\<lambda>(p, r). Inr (ServerEcdh p, r))"
| "ServerKeyExchangeParams_decode DHE r =
     bindR (ServerDhParams_read r) (\<lambda>(p, r). Inr (ServerDh p, r))"

definition ServerEcdhParams_wf :: "ServerEcdhParams \<Rightarrow> bool" where
  "ServerEcdhParams_wf p =
     (EcParameters_wf (sep_curve_params p) \<and> SizedPayload_wf Size_u8 NonEmpty (sep_public p))"

definition ServerDhParams_wf :: "ServerDhParams \<Rightarrow> bool" where
  "ServerDhParams_wf p =
     (SizedPayload_wf Size_u16 NonEmpty (sdp_p p) \<and> SizedPayload_wf Size_u16 NonEmpty (sdp_g p) \<and>
      SizedPayload_wf Size_u16 NonEmpty (sdp_ys p))"

fun ServerKeyExchangeParams_wf :: "KeyExchangeAlgorithm \<Rightarrow> ServerKeyExchangeParams \<Rightarrow> bool" where
  "ServerKeyExchangeParams_wf ECDHE (ServerEcdh p) = ServerEcdhParams_wf p"
| "ServerKeyExchangeParams_wf DHE (ServerDh p) = ServerDhParams_wf p"
| "ServerKeyExchangeParams_wf _ _ = False"

interpretation sepc: canonical_codec
  ServerEcdhParams_encode ServerEcdhParams_read ServerEcdhParams_wf
  by unfold_locales (auto simp: ServerEcdhParams_encode_def ServerEcdhParams_read_def
      ServerEcdhParams_wf_def wire_simps dest!: wire_dest)

interpretation sdpc: canonical_codec ServerDhParams_encode ServerDhParams_read ServerDhParams_wf
  by unfold_locales (auto simp: ServerDhParams_encode_def ServerDhParams_read_def
      ServerDhParams_wf_def wire_simps dest!: wire_dest)

interpretation skxpc: canonical_codec ServerKeyExchangeParams_encode
  "ServerKeyExchangeParams_decode algo" "ServerKeyExchangeParams_wf algo" for algo
proof unfold_locales
  fix x rest assume "ServerKeyExchangeParams_wf algo x"
  thus "ServerKeyExchangeParams_decode algo (ServerKeyExchangeParams_encode x @ rest) = Inr (x, rest)"
    by (cases algo; cases x) (simp_all add: wire_simps)
next
  fix r x rest assume "ServerKeyExchangeParams_decode algo r = Inr (x, rest)"
  thus "ServerKeyExchangeParams_wf algo x \<and> r = ServerKeyExchangeParams_encode x @ rest"
    by (cases algo) (auto dest!: wire_dest)
qed

record ServerKeyExchange =
  skx_params :: ServerKeyExchangeParams
  skx_dss :: DigitallySignedStruct

definition ServerKeyExchange_encode :: "ServerKeyExchange \<Rightarrow> bytes" where
  "ServerKeyExchange_encode k =
     ServerKeyExchangeParams_encode (skx_params k) @ DigitallySignedStruct_encode (skx_dss k)"

datatype ServerKeyExchangePayload = SkxKnown ServerKeyExchange | SkxUnknown bytes

fun ServerKeyExchangePayload_encode :: "ServerKeyExchangePayload \<Rightarrow> bytes" where
  "ServerKeyExchangePayload_encode (SkxKnown x) = ServerKeyExchange_encode x"
| "ServerKeyExchangePayload_encode (SkxUnknown x) = x"

definition ServerKeyExchangePayload_read :: "ServerKeyExchangePayload decoder" where
  "ServerKeyExchangePayload_read r = (let (p, r) = Reader_rest r in Inr (SkxUnknown p, r))"

text \<open>\<open>.ok()?\<close> turns a decoding error into \<open>None\<close>.\<close>

fun ServerKeyExchangePayload_unwrap_given_kxa ::
  "KeyExchangeAlgorithm \<Rightarrow> ServerKeyExchangePayload \<Rightarrow> ServerKeyExchange option" where
  "ServerKeyExchangePayload_unwrap_given_kxa kxa (SkxKnown _) = None"
| "ServerKeyExchangePayload_unwrap_given_kxa kxa (SkxUnknown unk) =
     (case ServerKeyExchangeParams_decode kxa unk of
        Inl _ \<Rightarrow> None
      | Inr (params, rd) \<Rightarrow>
          (case DigitallySignedStruct_read rd of
             Inl _ \<Rightarrow> None
           | Inr (dss, rd) \<Rightarrow>
               if \<not> Reader_any_left rd then Some \<lparr>skx_params = params, skx_dss = dss\<rparr> else None))"

definition ServerKeyExchange_wf :: "KeyExchangeAlgorithm \<Rightarrow> ServerKeyExchange \<Rightarrow> bool" where
  "ServerKeyExchange_wf kxa k =
     (ServerKeyExchangeParams_wf kxa (skx_params k) \<and> DigitallySignedStruct_wf (skx_dss k))"

text \<open>
  A message read before the algorithm is known can be unwrapped exactly when it is the
  encoding of a key exchange for that algorithm.
\<close>

lemma unwrap_given_kxa_iff:
  "ServerKeyExchangePayload_unwrap_given_kxa kxa (SkxUnknown bs) = Some k \<longleftrightarrow>
     ServerKeyExchange_wf kxa k \<and> bs = ServerKeyExchange_encode k" (is "?l \<longleftrightarrow> ?r")
proof
  show "?l \<Longrightarrow> ?r"
    by (auto simp: ServerKeyExchange_wf_def ServerKeyExchange_encode_def Reader_any_left_def
        split: sum.splits prod.splits if_splits dest!: wire_dest)
  show "?r \<Longrightarrow> ?l"
    by (simp add: ServerKeyExchange_wf_def ServerKeyExchange_encode_def Reader_any_left_def wire_simps)
qed

subsection \<open>Certificate requests\<close>

abbreviation SignatureSchemes_encode :: "SignatureScheme list \<Rightarrow> bytes" where
  "SignatureSchemes_encode \<equiv> Vec_encode SignatureScheme_SIZE_LEN u16_encode"

abbreviation SignatureSchemes_read :: "SignatureScheme list decoder" where
  "SignatureSchemes_read \<equiv> Vec_read SignatureScheme_SIZE_LEN SignatureScheme_read"

abbreviation DistinguishedNames_encode :: "DistinguishedName list \<Rightarrow> bytes" where
  "DistinguishedNames_encode \<equiv> Vec_encode DistinguishedName_SIZE_LEN DistinguishedName_encode"

abbreviation DistinguishedNames_read :: "DistinguishedName list decoder" where
  "DistinguishedNames_read \<equiv> Vec_read DistinguishedName_SIZE_LEN DistinguishedName_read"

abbreviation DistinguishedNames_wf :: "DistinguishedName list \<Rightarrow> bool" where
  "DistinguishedNames_wf \<equiv>
     Vec_wf DistinguishedName_SIZE_LEN DistinguishedName_encode (SizedPayload_wf Size_u16 NonEmpty)"

abbreviation enums8_wf :: "ListLength \<Rightarrow> u8 list \<Rightarrow> bool" where
  "enums8_wf sl \<equiv> Vec_wf sl u8_encode (\<lambda>_. True)"

abbreviation enums16_wf :: "ListLength \<Rightarrow> u16 list \<Rightarrow> bool" where
  "enums16_wf sl \<equiv> Vec_wf sl u16_encode (\<lambda>_. True)"

record CertificateRequestPayload =
  crp_certtypes :: "ClientCertificateType list"
  crp_sigschemes :: "SignatureScheme list"
  crp_canames :: "DistinguishedName list"

definition CertificateRequestPayload_encode :: "CertificateRequestPayload \<Rightarrow> bytes" where
  "CertificateRequestPayload_encode p =
     Vec_encode ClientCertificateType_SIZE_LEN u8_encode (crp_certtypes p) @
     SignatureSchemes_encode (crp_sigschemes p) @
     DistinguishedNames_encode (crp_canames p)"

definition CertificateRequestPayload_read :: "CertificateRequestPayload decoder" where
  "CertificateRequestPayload_read r =
     bindR (Vec_read ClientCertificateType_SIZE_LEN ClientCertificateType_read r) (\<lambda>(ct, r).
     bindR (SignatureSchemes_read r) (\<lambda>(ss, r).
     bindR (DistinguishedNames_read r) (\<lambda>(ca, r).
       if ss = [] then Inl NoSignatureSchemes
       else Inr (\<lparr>crp_certtypes = ct, crp_sigschemes = ss, crp_canames = ca\<rparr>, r))))"

definition CertificateRequestPayload_wf :: "CertificateRequestPayload \<Rightarrow> bool" where
  "CertificateRequestPayload_wf p =
     (enums8_wf ClientCertificateType_SIZE_LEN (crp_certtypes p) \<and>
      enums16_wf SignatureScheme_SIZE_LEN (crp_sigschemes p) \<and>
      DistinguishedNames_wf (crp_canames p))"

lemma enums16_wf_nonempty: "\<not> enums16_wf (NonZeroU16 e) []"
  by (simp add: Vec_wf_def)

interpretation crpc: canonical_codec
  CertificateRequestPayload_encode CertificateRequestPayload_read CertificateRequestPayload_wf
proof unfold_locales
  show "CertificateRequestPayload_read (CertificateRequestPayload_encode p @ rest) = Inr (p, rest)"
    if "CertificateRequestPayload_wf p" for p rest
    using that enums16_wf_nonempty [of NoSignatureSchemes]
    by (auto simp: CertificateRequestPayload_encode_def CertificateRequestPayload_read_def
        CertificateRequestPayload_wf_def SignatureScheme_SIZE_LEN_def wire_simps)
  show "CertificateRequestPayload_wf p \<and> r = CertificateRequestPayload_encode p @ rest"
    if "CertificateRequestPayload_read r = Inr (p, rest)" for r p rest
    using that
    by (auto simp: CertificateRequestPayload_encode_def CertificateRequestPayload_read_def
        CertificateRequestPayload_wf_def split: if_splits
        dest!: enum8l.cvec.encode_read enum16l.cvec.encode_read spl.cvec.encode_read)
qed

record CertificateRequestExtensions =
  cre_signature_algorithms :: "SignatureScheme list option"
  cre_authority_names :: "DistinguishedName list option"
  cre_certificate_compression_algorithms :: "CertificateCompressionAlgorithm list option"

definition CertificateRequestExtensions_default :: CertificateRequestExtensions where
  "CertificateRequestExtensions_default =
     \<lparr>cre_signature_algorithms = None, cre_authority_names = None,
      cre_certificate_compression_algorithms = None\<rparr>"

definition CertificateRequestExtensions_items :: "CertificateRequestExtensions ext_item list" where
  "CertificateRequestExtensions_items =
     [ext_slot ExtensionType_SignatureAlgorithms
        cre_signature_algorithms cre_signature_algorithms_update
        SignatureSchemes_encode SignatureSchemes_read,
      ext_slot ExtensionType_CertificateAuthorities
        cre_authority_names cre_authority_names_update
        DistinguishedNames_encode DistinguishedNames_read,
      ext_slot ExtensionType_CompressCertificate
        cre_certificate_compression_algorithms cre_certificate_compression_algorithms_update
        (Vec_encode CertificateCompressionAlgorithm_SIZE_LEN u16_encode)
        (Vec_read CertificateCompressionAlgorithm_SIZE_LEN CertificateCompressionAlgorithm_read)]"

definition CertificateRequestExtensions_UNPROCESSED :: "ExtensionType list" where
  "CertificateRequestExtensions_UNPROCESSED =
     [ExtensionType_ServerName, ExtensionType_StatusRequest, ExtensionType_SCT,
      ExtensionType_OIDFilters, ExtensionType_SignatureAlgorithmsCert]"

definition CertificateRequestExtensions_encode :: "CertificateRequestExtensions \<Rightarrow> bytes" where
  "CertificateRequestExtensions_encode s =
     length_prefixed U16 (encode_all CertificateRequestExtensions_items s)"

definition CertificateRequestExtensions_read :: "CertificateRequestExtensions decoder" where
  "CertificateRequestExtensions_read r =
     bindR (read_u16_sub r) (\<lambda>(sub, r).
     bindR (read_extensions CertificateRequestExtensions_items ''CertificateRequestExtensions''
       (\<lambda>unk checker.
          DuplicateExtensionChecker_check_unprocessed unk CertificateRequestExtensions_UNPROCESSED checker)
       no_post (CertificateRequestExtensions_default, DuplicateExtensionChecker_new, ()) sub)
     (\<lambda>(out, _, _).
       if cre_signature_algorithms out = Some [] then Inl NoSignatureSchemes
       else if cre_authority_names out = Some []
       then Inl IllegalEmptyCertificateAuthoritiesExtension
       else Inr (out, r)))"

definition CertificateRequestExtensions_slots_wf :: "CertificateRequestExtensions \<Rightarrow> bool" where
  "CertificateRequestExtensions_slots_wf s =
     (pred_option (enums16_wf SignatureScheme_SIZE_LEN) (cre_signature_algorithms s) \<and>
      pred_option DistinguishedNames_wf (cre_authority_names s) \<and>
      pred_option (enums16_wf CertificateCompressionAlgorithm_SIZE_LEN)
        (cre_certificate_compression_algorithms s))"

definition CertificateRequestExtensions_wf :: "CertificateRequestExtensions \<Rightarrow> bool" where
  "CertificateRequestExtensions_wf s =
     (CertificateRequestExtensions_slots_wf s \<and> cre_authority_names s \<noteq> Some [] \<and>
      extensions_fit CertificateRequestExtensions_items s)"

interpretation crexts: extension_struct
  CertificateRequestExtensions_items CertificateRequestExtensions_default "\<lambda>_. ()"
  CertificateRequestExtensions_slots_wf
  by unfold_locales
    (auto simp: CertificateRequestExtensions_items_def CertificateRequestExtensions_default_def
      ext_slot_simps CertificateRequestExtensions_slots_wf_def wire_simps)

interpretation crextc: wire_codec
  CertificateRequestExtensions_encode CertificateRequestExtensions_read
  CertificateRequestExtensions_wf
proof unfold_locales
  fix s :: CertificateRequestExtensions and rest
  assume wf_s: "CertificateRequestExtensions_wf s"
  hence "cre_signature_algorithms s \<noteq> Some []"
    using enums16_wf_nonempty [of NoSignatureSchemes]
    by (auto simp: CertificateRequestExtensions_wf_def CertificateRequestExtensions_slots_wf_def
        SignatureScheme_SIZE_LEN_def)
  thus "CertificateRequestExtensions_read (CertificateRequestExtensions_encode s @ rest) = Inr (s, rest)"
    using wf_s
    by (simp add: CertificateRequestExtensions_encode_def CertificateRequestExtensions_read_def
        CertificateRequestExtensions_wf_def wire_simps crexts.read_all_extensions)
      (simp add: extensions_fit_def wire_simps crexts.read_all_extensions)
qed

record CertificateRequestPayloadTls13 =
  crp13_context :: bytes
  crp13_extensions :: CertificateRequestExtensions

definition CertificateRequestPayloadTls13_encode :: "CertificateRequestPayloadTls13 \<Rightarrow> bytes" where
  "CertificateRequestPayloadTls13_encode p =
     SizedPayload_encode Size_u8 MaybeEmpty (crp13_context p) @
     CertificateRequestExtensions_encode (crp13_extensions p)"

definition CertificateRequestPayloadTls13_read :: "CertificateRequestPayloadTls13 decoder" where
  "CertificateRequestPayloadTls13_read r =
     bindR (SizedPayload_read Size_u8 MaybeEmpty r) (\<lambda>(c, r).
     bindR (CertificateRequestExtensions_read r) (\<lambda>(x, r).
       Inr (\<lparr>crp13_context = c, crp13_extensions = x\<rparr>, r)))"

definition CertificateRequestPayloadTls13_wf :: "CertificateRequestPayloadTls13 \<Rightarrow> bool" where
  "CertificateRequestPayloadTls13_wf p =
     (SizedPayload_wf Size_u8 MaybeEmpty (crp13_context p) \<and>
      CertificateRequestExtensions_wf (crp13_extensions p))"

interpretation crp13c: wire_codec
  CertificateRequestPayloadTls13_encode CertificateRequestPayloadTls13_read
  CertificateRequestPayloadTls13_wf
  by unfold_locales (simp add: CertificateRequestPayloadTls13_encode_def
      CertificateRequestPayloadTls13_read_def CertificateRequestPayloadTls13_wf_def wire_simps)

subsection \<open>Session tickets\<close>

text \<open>A \<open>Duration\<close> is a number of nanoseconds.\<close>

type_synonym Duration = nat

definition Duration_as_secs :: "Duration \<Rightarrow> nat" where
  "Duration_as_secs d = d div 1000000000"

definition Duration_from_secs :: "nat \<Rightarrow> Duration" where
  "Duration_from_secs s = s * 1000000000"

definition whole_u32_secs :: "Duration \<Rightarrow> bool" where
  "whole_u32_secs d = (d mod 1000000000 = 0 \<and> Duration_as_secs d < 2 ^ 32)"

lemma Duration_secs_round_trip:
  "whole_u32_secs d \<Longrightarrow> Duration_from_secs (unat (word_of_nat (Duration_as_secs d) :: u32)) = d"
  by (auto simp: whole_u32_secs_def Duration_from_secs_def Duration_as_secs_def unat_word_of_nat_u32
      elim!: dvdE simp flip: dvd_eq_mod_eq_0)

lemma Duration_from_u32_secs:
  "whole_u32_secs (Duration_from_secs (unat (v :: u32)))"
  "word_of_nat (Duration_as_secs (Duration_from_secs (unat (v :: u32)))) = v"
  by (simp_all add: whole_u32_secs_def Duration_from_secs_def Duration_as_secs_def)

record NewSessionTicketPayload =
  nst_lifetime_hint :: Duration
  nst_ticket :: bytes

definition NewSessionTicketPayload_encode :: "NewSessionTicketPayload \<Rightarrow> bytes" where
  "NewSessionTicketPayload_encode t =
     u32_encode (word_of_nat (Duration_as_secs (nst_lifetime_hint t))) @
     SizedPayload_encode Size_u16 MaybeEmpty (nst_ticket t)"

definition NewSessionTicketPayload_read :: "NewSessionTicketPayload decoder" where
  "NewSessionTicketPayload_read r =
     bindR (u32_read r) (\<lambda>(secs, r).
     bindR (SizedPayload_read Size_u16 MaybeEmpty r) (\<lambda>(t, r).
       Inr (\<lparr>nst_lifetime_hint = Duration_from_secs (unat secs), nst_ticket = t\<rparr>, r)))"

definition NewSessionTicketPayload_wf :: "NewSessionTicketPayload \<Rightarrow> bool" where
  "NewSessionTicketPayload_wf t =
     (whole_u32_secs (nst_lifetime_hint t) \<and> SizedPayload_wf Size_u16 MaybeEmpty (nst_ticket t))"

interpretation nstc: canonical_codec
  NewSessionTicketPayload_encode NewSessionTicketPayload_read NewSessionTicketPayload_wf
  by unfold_locales (auto simp: NewSessionTicketPayload_encode_def NewSessionTicketPayload_read_def
      NewSessionTicketPayload_wf_def wire_simps Duration_secs_round_trip Duration_from_u32_secs
      dest!: wire_dest)

record NewSessionTicketExtensions =
  nste_max_early_data_size :: "u32 option"

definition NewSessionTicketExtensions_default :: NewSessionTicketExtensions where
  "NewSessionTicketExtensions_default = \<lparr>nste_max_early_data_size = None\<rparr>"

definition NewSessionTicketExtensions_items :: "NewSessionTicketExtensions ext_item list" where
  "NewSessionTicketExtensions_items =
     [ext_slot ExtensionType_EarlyData nste_max_early_data_size nste_max_early_data_size_update
        u32_encode u32_read]"

definition NewSessionTicketExtensions_encode :: "NewSessionTicketExtensions \<Rightarrow> bytes" where
  "NewSessionTicketExtensions_encode s =
     length_prefixed U16 (encode_all NewSessionTicketExtensions_items s)"

definition NewSessionTicketExtensions_read :: "NewSessionTicketExtensions decoder" where
  "NewSessionTicketExtensions_read r =
     bindR (read_u16_sub r) (\<lambda>(sub, r).
     bindR (read_extensions NewSessionTicketExtensions_items ''NewSessionTicketExtensions''
       (\<lambda>unk checker. DuplicateExtensionChecker_check_unprocessed unk [] checker)
       no_post (NewSessionTicketExtensions_default, DuplicateExtensionChecker_new, ()) sub)
     (\<lambda>(out, _, _). Inr (out, r)))"

interpretation nstexts: extension_struct
  NewSessionTicketExtensions_items NewSessionTicketExtensions_default "\<lambda>_. ()" "\<lambda>_. True"
  by unfold_locales
    (auto simp: NewSessionTicketExtensions_items_def NewSessionTicketExtensions_default_def
      ext_slot_simps wire_simps)

lemma NewSessionTicketExtensions_fit: "extensions_fit NewSessionTicketExtensions_items s"
  by (simp add: extensions_fit_def encode_all_def NewSessionTicketExtensions_items_def
      ALL_EXTENSIONS_def encode_one_def find_item_def ext_slot_sel split: option.split)

interpretation nstextc: wire_codec
  NewSessionTicketExtensions_encode NewSessionTicketExtensions_read "\<lambda>_. True"
  using NewSessionTicketExtensions_fit
  by unfold_locales
    (simp add: NewSessionTicketExtensions_encode_def NewSessionTicketExtensions_read_def
      wire_simps extensions_fit_def nstexts.read_all_extensions NewSessionTicketExtensions_fit)

record NewSessionTicketPayloadTls13 =
  nst13_lifetime :: Duration
  nst13_age_add :: u32
  nst13_nonce :: bytes
  nst13_ticket :: bytes
  nst13_extensions :: NewSessionTicketExtensions

definition NewSessionTicketPayloadTls13_new ::
  "Duration \<Rightarrow> u32 \<Rightarrow> bytes \<Rightarrow> bytes \<Rightarrow> NewSessionTicketPayloadTls13" where
  "NewSessionTicketPayloadTls13_new lifetime age_add nonce ticket =
     \<lparr>nst13_lifetime = lifetime, nst13_age_add = age_add, nst13_nonce = nonce,
      nst13_ticket = ticket, nst13_extensions = NewSessionTicketExtensions_default\<rparr>"

definition NewSessionTicketPayloadTls13_encode :: "NewSessionTicketPayloadTls13 \<Rightarrow> bytes" where
  "NewSessionTicketPayloadTls13_encode t =
     u32_encode (word_of_nat (Duration_as_secs (nst13_lifetime t))) @
     u32_encode (nst13_age_add t) @
     SizedPayload_encode Size_u8 MaybeEmpty (nst13_nonce t) @
     SizedPayload_encode Size_u16 MaybeEmpty (nst13_ticket t) @
     NewSessionTicketExtensions_encode (nst13_extensions t)"

text \<open>The ticket is read as non-empty; an empty one has an error of its own.\<close>

definition read_nonempty_ticket :: "bytes decoder" where
  "read_nonempty_ticket r =
     map_err (\<lambda>err. case err of IllegalEmptyList _ \<Rightarrow> EmptyTicketValue | _ \<Rightarrow> err)
       (SizedPayload_read Size_u16 NonEmpty r)"

definition NewSessionTicketPayloadTls13_read :: "NewSessionTicketPayloadTls13 decoder" where
  "NewSessionTicketPayloadTls13_read r =
     bindR (u32_read r) (\<lambda>(secs, r).
     bindR (u32_read r) (\<lambda>(age_add, r).
     bindR (SizedPayload_read Size_u8 MaybeEmpty r) (\<lambda>(nonce, r).
     bindR (read_nonempty_ticket r) (\<lambda>(ticket, r).
     bindR (NewSessionTicketExtensions_read r) (\<lambda>(x, r).
       Inr (\<lparr>nst13_lifetime = Duration_from_secs (unat secs), nst13_age_add = age_add,
             nst13_nonce = nonce, nst13_ticket = ticket, nst13_extensions = x\<rparr>, r))))))"

definition NewSessionTicketPayloadTls13_wf :: "NewSessionTicketPayloadTls13 \<Rightarrow> bool" where
  "NewSessionTicketPayloadTls13_wf t =
     (whole_u32_secs (nst13_lifetime t) \<and>
      SizedPayload_wf Size_u8 MaybeEmpty (nst13_nonce t) \<and>
      SizedPayload_wf Size_u16 NonEmpty (nst13_ticket t))"

lemma read_nonempty_ticket_encode:
  "SizedPayload_wf Size_u16 NonEmpty t \<Longrightarrow>
     read_nonempty_ticket (SizedPayload_encode Size_u16 C t @ rest) = Inr (t, rest)"
  using spc.read_encode [of Size_u16 NonEmpty t rest]
  by (simp add: read_nonempty_ticket_def SizedPayload_encode_def)

interpretation nst13c: wire_codec
  NewSessionTicketPayloadTls13_encode NewSessionTicketPayloadTls13_read NewSessionTicketPayloadTls13_wf
  by unfold_locales
    (simp add: NewSessionTicketPayloadTls13_encode_def NewSessionTicketPayloadTls13_read_def
      NewSessionTicketPayloadTls13_wf_def wire_simps Duration_secs_round_trip
      read_nonempty_ticket_encode)

subsection \<open>Compressed certificates\<close>

record CompressedCertificatePayload =
  ccp_alg :: CertificateCompressionAlgorithm
  ccp_uncompressed_len :: u32
  ccp_compressed :: bytes

definition CompressedCertificatePayload_encode :: "CompressedCertificatePayload \<Rightarrow> bytes" where
  "CompressedCertificatePayload_encode p =
     u16_encode (ccp_alg p) @ U24_encode (ccp_uncompressed_len p) @
     SizedPayload_encode Size_U24 NonEmpty (ccp_compressed p)"

definition CompressedCertificatePayload_read :: "CompressedCertificatePayload decoder" where
  "CompressedCertificatePayload_read r =
     bindR (CertificateCompressionAlgorithm_read r) (\<lambda>(alg, r).
     bindR (U24_read r) (\<lambda>(len, r).
     bindR (SizedPayload_read Size_U24 NonEmpty r) (\<lambda>(c, r).
       Inr (\<lparr>ccp_alg = alg, ccp_uncompressed_len = len, ccp_compressed = c\<rparr>, r))))"

definition CompressedCertificatePayload_wf :: "CompressedCertificatePayload \<Rightarrow> bool" where
  "CompressedCertificatePayload_wf p =
     (U24_wf (ccp_uncompressed_len p) \<and> SizedPayload_wf Size_U24 NonEmpty (ccp_compressed p))"

interpretation ccpc: canonical_codec
  CompressedCertificatePayload_encode CompressedCertificatePayload_read
  CompressedCertificatePayload_wf
  by unfold_locales (auto simp: CompressedCertificatePayload_encode_def
      CompressedCertificatePayload_read_def CompressedCertificatePayload_wf_def wire_simps
      dest!: wire_dest)

subsection \<open>HelloRetryRequest\<close>

datatype Encoding =
    Standard
  | EchConfirmation
  | EchInnerHello "ExtensionType list"

record HelloRetryRequestExtensions =
  hrre_key_share :: "NamedGroup option"
  hrre_cookie :: "bytes option"
  hrre_supported_versions :: "ProtocolVersion option"
  hrre_encrypted_client_hello :: "bytes option"
  hrre_order :: "ExtensionType list option"

definition HelloRetryRequestExtensions_default :: HelloRetryRequestExtensions where
  "HelloRetryRequestExtensions_default =
     \<lparr>hrre_key_share = None, hrre_cookie = None, hrre_supported_versions = None,
      hrre_encrypted_client_hello = None, hrre_order = None\<rparr>"

text \<open>\<open>Payload\<close> as an extension body: all that is left of the body.\<close>

definition Payload_encode :: "bytes \<Rightarrow> bytes" where
  "Payload_encode p = p"

definition Payload_read :: "bytes decoder" where
  "Payload_read r = Inr (Reader_rest r)"

definition HelloRetryRequestExtensions_items :: "HelloRetryRequestExtensions ext_item list" where
  "HelloRetryRequestExtensions_items =
     [ext_slot ExtensionType_KeyShare hrre_key_share hrre_key_share_update
        u16_encode NamedGroup_read,
      ext_slot ExtensionType_Cookie hrre_cookie hrre_cookie_update
        (SizedPayload_encode Size_u16 NonEmpty) (SizedPayload_read Size_u16 NonEmpty),
      ext_slot ExtensionType_SupportedVersions hrre_supported_versions hrre_supported_versions_update
        u16_encode ProtocolVersion_read,
      ext_slot ExtensionType_EncryptedClientHello
        hrre_encrypted_client_hello hrre_encrypted_client_hello_update
        Payload_encode Payload_read]"

definition HelloRetryRequestExtensions_encoding_order ::
  "HelloRetryRequestExtensions \<Rightarrow> ExtensionType list" where
  "HelloRetryRequestExtensions_encoding_order s =
     (case hrre_order s of
        Some order \<Rightarrow> order
      | None \<Rightarrow> ALL_EXTENSIONS HelloRetryRequestExtensions_items)"

definition HelloRetryRequestExtensions_encode :: "HelloRetryRequestExtensions \<Rightarrow> bytes" where
  "HelloRetryRequestExtensions_encode s =
     length_prefixed U16
       (concat (map (encode_one HelloRetryRequestExtensions_items s)
         (HelloRetryRequestExtensions_encoding_order s)))"

definition HelloRetryRequestExtensions_read :: "HelloRetryRequestExtensions decoder" where
  "HelloRetryRequestExtensions_read r =
     bindR (read_u16_sub r) (\<lambda>(sub, r).
     bindR (read_extensions HelloRetryRequestExtensions_items ''HelloRetryRequestExtensions''
       (\<lambda>_ _. Inl UnknownHelloRetryRequestExtension) push_order
       (HelloRetryRequestExtensions_default, (), []) sub)
     (\<lambda>(out, _, order). Inr (out\<lparr>hrre_order := Some order\<rparr>, r)))"

definition HelloRetryRequestExtensions_slots_wf :: "HelloRetryRequestExtensions \<Rightarrow> bool" where
  "HelloRetryRequestExtensions_slots_wf s =
     pred_option (SizedPayload_wf Size_u16 NonEmpty) (hrre_cookie s)"

lemmas HelloRetryRequestExtensions_simps =
  HelloRetryRequestExtensions_items_def HelloRetryRequestExtensions_default_def
  HelloRetryRequestExtensions_slots_wf_def Payload_encode_def Payload_read_def Reader_rest_def

interpretation hrrexts: canonical_extension_struct
  HelloRetryRequestExtensions_items HelloRetryRequestExtensions_default hrre_order
  HelloRetryRequestExtensions_slots_wf
proof unfold_locales
  fix i j :: "HelloRetryRequestExtensions ext_item" and body acc acc'
  assume i: "i \<in> set HelloRetryRequestExtensions_items"
    and rd: "item_read i body acc = Inr (acc', [])"
  show "item_encode i acc' = Some body \<and> hrre_order acc' = hrre_order acc"
    using i rd by (auto simp: HelloRetryRequestExtensions_simps ext_slot_simps dest!: wire_dest)
  assume "j \<in> set HelloRetryRequestExtensions_items" "item_id i \<noteq> item_id j"
  thus "item_encode j acc' = item_encode j acc"
    using i rd by (auto simp: HelloRetryRequestExtensions_simps ext_slot_simps)
qed (auto simp: HelloRetryRequestExtensions_simps ext_slot_simps wire_simps)

lemma HelloRetryRequestExtensions_encode_one_order:
  "encode_one HelloRetryRequestExtensions_items (s\<lparr>hrre_order := x\<rparr>) =
     encode_one HelloRetryRequestExtensions_items s"
  by (rule ext) (auto simp: encode_one_def find_item_def HelloRetryRequestExtensions_items_def
      ext_slot_sel)

text \<open>
  What a decoder has read re-encodes to the very bytes it came from: the recorded order is
  the order on the wire.
\<close>

lemma HelloRetryRequestExtensions_reencode:
  assumes "HelloRetryRequestExtensions_read r = Inr (x, rest)"
  shows "r = HelloRetryRequestExtensions_encode x @ rest"
proof -
  obtain sub out order where sub: "read_u16_sub r = Inr (sub, rest)"
    and loop: "read_extensions HelloRetryRequestExtensions_items ''HelloRetryRequestExtensions''
       (\<lambda>_ _. Inl UnknownHelloRetryRequestExtension) push_order
       (HelloRetryRequestExtensions_default, (), []) sub = Inr (out, (), order)"
    and x: "x = out\<lparr>hrre_order := Some order\<rparr>"
    using assms by (auto simp: HelloRetryRequestExtensions_read_def)
  from hrrexts.read_extensions_rebuilds [OF loop]
  have "sub = concat (map (encode_one HelloRetryRequestExtensions_items out) order)"
    by (auto simp: hrrexts.rebuilds_def)
  moreover have "r = length_prefixed U16 sub @ rest"
    using read_u16_sub_InrD [OF sub] by simp
  ultimately show ?thesis
    by (simp add: x HelloRetryRequestExtensions_encode_def
        HelloRetryRequestExtensions_encoding_order_def HelloRetryRequestExtensions_encode_one_order)
qed

definition HelloRetryRequestExtensions_wf :: "HelloRetryRequestExtensions \<Rightarrow> bool" where
  "HelloRetryRequestExtensions_wf s =
     (HelloRetryRequestExtensions_slots_wf s \<and>
      (\<exists>order. hrre_order s = Some order \<and> distinct order \<and>
         set order = set (collect_used HelloRetryRequestExtensions_items s)) \<and>
      length (concat (map (encode_one HelloRetryRequestExtensions_items s)
        (HelloRetryRequestExtensions_encoding_order s))) < 2 ^ 16)"

interpretation hrrextc: wire_codec
  HelloRetryRequestExtensions_encode HelloRetryRequestExtensions_read HelloRetryRequestExtensions_wf
proof unfold_locales
  fix s :: HelloRetryRequestExtensions and rest
  let ?s = "s\<lparr>hrre_order := None\<rparr>" and ?items = HelloRetryRequestExtensions_items
  assume "HelloRetryRequestExtensions_wf s"
  then obtain order where o: "hrre_order s = Some order" "distinct order"
    "set order = set (collect_used ?items s)" and slots: "HelloRetryRequestExtensions_slots_wf ?s"
    and len: "length (concat (map (encode_one ?items ?s) order)) < 2 ^ 16"
    by (auto simp: HelloRetryRequestExtensions_wf_def HelloRetryRequestExtensions_encoding_order_def
        HelloRetryRequestExtensions_slots_wf_def HelloRetryRequestExtensions_encode_one_order)
  have used: "collect_used ?items ?s = collect_used ?items s"
    by (simp add: collect_used_def HelloRetryRequestExtensions_items_def ext_slot_sel)
  hence all: "filter (contains ?items ?s) order = order"
    using o(3) by (simp add: filter_id_conv hrrexts.contains_iff_used)
  have "read_extensions ?items ''HelloRetryRequestExtensions''
      (\<lambda>_ _. Inl UnknownHelloRetryRequestExtension) push_order
      (HelloRetryRequestExtensions_default, (), []) (concat (map (encode_one ?items ?s) order)) =
      Inr (?s, (), order)"
    using hrrexts.read_extensions_round_trip [OF slots o(2) _ _ len, where post = push_order
        and unknown = "\<lambda>_ _. Inl UnknownHelloRetryRequestExtension" and u = "()" and st = "[]"
        and nm = "''HelloRetryRequestExtensions''"] o(3) used
    by (simp add: all run_post_push_order HelloRetryRequestExtensions_default_def)
  thus "HelloRetryRequestExtensions_read (HelloRetryRequestExtensions_encode s @ rest) = Inr (s, rest)"
    using len
    by (simp add: HelloRetryRequestExtensions_read_def HelloRetryRequestExtensions_encode_def
        HelloRetryRequestExtensions_encoding_order_def wire_simps o(1)
        HelloRetryRequestExtensions_encode_one_order)
qed

record HelloRetryRequest =
  hrr_legacy_version :: ProtocolVersion
  hrr_session_id :: SessionId
  hrr_cipher_suite :: CipherSuite
  hrr_extensions :: HelloRetryRequestExtensions

text \<open>
  \<open>read\<close> starts after the version and the random, which the dispatch of the handshake message
  consumed; the version is put in place by the caller.
\<close>

definition HelloRetryRequest_read :: "HelloRetryRequest decoder" where
  "HelloRetryRequest_read r =
     bindR (SessionId_read r) (\<lambda>(sid, r).
     bindR (CipherSuite_read r) (\<lambda>(cs, r).
     bindR (Compression_read r) (\<lambda>(compression, r).
       if compression \<noteq> Compression_Null then Inl UnsupportedCompression
       else bindR (HelloRetryRequestExtensions_read r) (\<lambda>(x, r).
         Inr (\<lparr>hrr_legacy_version = 0, hrr_session_id = sid, hrr_cipher_suite = cs,
               hrr_extensions = x\<rparr>, r)))))"

definition HelloRetryRequest_payload_encode :: "Encoding \<Rightarrow> HelloRetryRequest \<Rightarrow> bytes" where
  "HelloRetryRequest_payload_encode purpose h =
     u16_encode (hrr_legacy_version h) @
     Random_encode HELLO_RETRY_REQUEST_RANDOM @
     SessionId_encode (hrr_session_id h) @
     u16_encode (hrr_cipher_suite h) @
     u8_encode Compression_Null @
     HelloRetryRequestExtensions_encode
       (if purpose = EchConfirmation \<and> hrre_encrypted_client_hello (hrr_extensions h) \<noteq> None
        then (hrr_extensions h)\<lparr>hrre_encrypted_client_hello := Some (replicate 8 0)\<rparr>
        else hrr_extensions h)"

definition HelloRetryRequest_wf :: "HelloRetryRequest \<Rightarrow> bool" where
  "HelloRetryRequest_wf h =
     (SessionId_wf (hrr_session_id h) \<and> HelloRetryRequestExtensions_wf (hrr_extensions h))"

lemma HelloRetryRequest_read_encode:
  assumes "HelloRetryRequest_wf h"
  shows "HelloRetryRequest_read (drop 34 (HelloRetryRequest_payload_encode Standard h) @ rest) =
    Inr (h\<lparr>hrr_legacy_version := 0\<rparr>, rest)"
  using assms
  by (simp add: HelloRetryRequest_read_def HelloRetryRequest_payload_encode_def
      HelloRetryRequest_wf_def wire_simps Random_encode_def HELLO_RETRY_REQUEST_RANDOM_def)

lemma HelloRetryRequest_reencode:
  assumes "HelloRetryRequest_read r = Inr (h, rest)"
  shows "HelloRetryRequest_payload_encode Standard (h\<lparr>hrr_legacy_version := v\<rparr>) @ rest =
    u16_encode v @ HELLO_RETRY_REQUEST_RANDOM @ r"
  using assms
  by (auto simp: HelloRetryRequest_read_def HelloRetryRequest_payload_encode_def Random_encode_def
      split: if_splits dest!: HelloRetryRequestExtensions_reencode enum8.encode_read
      enum16.encode_read sidc.encode_read)

end
