(* ===== verification/Wire_ServerHello.thy ===== *)
theory Wire_ServerHello
  imports Wire_Handshake
begin

text \<open>
  Messages of the server (\<open>msgs/server_hello.rs\<close>, and \<open>HpkeSymmetricCipherSuite\<close> of
  \<open>crypto/hpke.rs\<close>): ServerHello, its extensions, EncryptedExtensions and the ECH
  configurations they may carry.

  The grammar of DNS names belongs to the \<open>pki_types\<close> package.  It is the
  parameter \<open>dns_ok\<close>: whether \<open>DnsName::try_from\<close> accepts a byte string.  An
  accepted name is the byte string itself.
\<close>

subsection \<open>ECH configurations\<close>

record HpkeSymmetricCipherSuite =
  hss_kdf_id :: HpkeKdf
  hss_aead_id :: HpkeAead

definition HpkeSymmetricCipherSuite_encode :: "HpkeSymmetricCipherSuite \<Rightarrow> bytes" where
  "HpkeSymmetricCipherSuite_encode s = u16_encode (hss_kdf_id s) @ u16_encode (hss_aead_id s)"

definition HpkeSymmetricCipherSuite_read :: "HpkeSymmetricCipherSuite decoder" where
  "HpkeSymmetricCipherSuite_read r =
     bindR (enum_read ''HpkeKdf'' u16_read r) (\<lambda>(kdf, r).
     bindR (enum_read ''HpkeAead'' u16_read r) (\<lambda>(aead, r).
       Inr (\<lparr>hss_kdf_id = kdf, hss_aead_id = aead\<rparr>, r)))"

definition HpkeSymmetricCipherSuite_SIZE_LEN :: ListLength where
  "HpkeSymmetricCipherSuite_SIZE_LEN = NonZeroU16 (IllegalEmptyList ''HpkeSymmetricCipherSuites'')"

interpretation hssc: canonical_list_element
  HpkeSymmetricCipherSuite_encode HpkeSymmetricCipherSuite_read "\<lambda>_. True"
  HpkeSymmetricCipherSuite_SIZE_LEN
  by unfold_locales (auto simp: HpkeSymmetricCipherSuite_encode_def
      HpkeSymmetricCipherSuite_read_def wire_simps dest!: enum16.encode_read)

record HpkeKeyConfig =
  hkc_config_id :: u8
  hkc_kem_id :: HpkeKem
  hkc_public_key :: bytes
  hkc_symmetric_cipher_suites :: "HpkeSymmetricCipherSuite list"

definition HpkeKeyConfig_encode :: "HpkeKeyConfig \<Rightarrow> bytes" where
  "HpkeKeyConfig_encode c =
     u8_encode (hkc_config_id c) @ u16_encode (hkc_kem_id c) @
     SizedPayload_encode Size_u16 NonEmpty (hkc_public_key c) @
     Vec_encode HpkeSymmetricCipherSuite_SIZE_LEN HpkeSymmetricCipherSuite_encode
       (hkc_symmetric_cipher_suites c)"

definition HpkeKeyConfig_read :: "HpkeKeyConfig decoder" where
  "HpkeKeyConfig_read r =
     bindR (u8_read r) (\<lambda>(cid, r).
     bindR (enum_read ''HpkeKem'' u16_read r) (\<lambda>(kem, r).
     bindR (SizedPayload_read Size_u16 NonEmpty r) (\<lambda>(pk, r).
     bindR (Vec_read HpkeSymmetricCipherSuite_SIZE_LEN HpkeSymmetricCipherSuite_read r) (\<lambda>(ss, r).
       Inr (\<lparr>hkc_config_id = cid, hkc_kem_id = kem, hkc_public_key = pk,
             hkc_symmetric_cipher_suites = ss\<rparr>, r)))))"

definition HpkeKeyConfig_wf :: "HpkeKeyConfig \<Rightarrow> bool" where
  "HpkeKeyConfig_wf c =
     (SizedPayload_wf Size_u16 NonEmpty (hkc_public_key c) \<and>
      Vec_wf HpkeSymmetricCipherSuite_SIZE_LEN HpkeSymmetricCipherSuite_encode (\<lambda>_. True)
        (hkc_symmetric_cipher_suites c))"

interpretation hkcc: canonical_codec HpkeKeyConfig_encode HpkeKeyConfig_read HpkeKeyConfig_wf
  by unfold_locales (auto simp: HpkeKeyConfig_encode_def HpkeKeyConfig_read_def HpkeKeyConfig_wf_def
      wire_simps dest!: u8c.encode_read enum16.encode_read spc.encode_read hssc.cvec.encode_read)

text \<open>\<open>EchConfigExtension::Unknown(UnknownExtension)\<close> is the only variant.\<close>

record EchConfigExtension =
  ece_typ :: ExtensionType
  ece_payload :: bytes

definition EchConfigExtension_encode :: "EchConfigExtension \<Rightarrow> bytes" where
  "EchConfigExtension_encode e = u16_encode (ece_typ e) @ length_prefixed U16 (ece_payload e)"

definition EchConfigExtension_read :: "EchConfigExtension decoder" where
  "EchConfigExtension_read r =
     bindR (ExtensionType_read r) (\<lambda>(typ, r).
     bindR (read_u16_sub r) (\<lambda>(sub, r).
     bindR (Reader_all ''EchConfigExtension'' (\<lambda>sub.
       let (p, sub) = Reader_rest sub in Inr (\<lparr>ece_typ = typ, ece_payload = p\<rparr>, sub)) sub)
     (\<lambda>(e, _). Inr (e, r))))"

definition EchConfigExtension_wf :: "EchConfigExtension \<Rightarrow> bool" where
  "EchConfigExtension_wf e = (length (ece_payload e) < 2 ^ 16)"

definition EchConfigExtension_SIZE_LEN :: ListLength where
  "EchConfigExtension_SIZE_LEN = U16"

interpretation ecec: canonical_list_element
  EchConfigExtension_encode EchConfigExtension_read EchConfigExtension_wf EchConfigExtension_SIZE_LEN
  by unfold_locales (auto simp: EchConfigExtension_encode_def EchConfigExtension_read_def
      EchConfigExtension_wf_def wire_simps Reader_rest_def Reader_all_Inr_iff
      dest!: enum16.encode_read read_u16_sub_InrD)

record EchConfigContents =
  ecc_key_config :: HpkeKeyConfig
  ecc_maximum_name_length :: u8
  ecc_public_name :: bytes
  ecc_extensions :: "EchConfigExtension list"

definition EchConfigContents_has_duplicate_extension :: "EchConfigContents \<Rightarrow> bool" where
  "EchConfigContents_has_duplicate_extension c = has_duplicates (map ece_typ (ecc_extensions c))"

definition EchConfigContents_has_unknown_mandatory_extension :: "EchConfigContents \<Rightarrow> bool" where
  "EchConfigContents_has_unknown_mandatory_extension c =
     list_ex (\<lambda>e. ece_typ e AND 0x8000 \<noteq> 0) (ecc_extensions c)"

definition EchConfigContents_encode :: "EchConfigContents \<Rightarrow> bytes" where
  "EchConfigContents_encode c =
     HpkeKeyConfig_encode (ecc_key_config c) @
     u8_encode (ecc_maximum_name_length c) @
     SizedPayload_encode Size_u8 MaybeEmpty (ecc_public_name c) @
     Vec_encode EchConfigExtension_SIZE_LEN EchConfigExtension_encode (ecc_extensions c)"

definition EchConfigContents_read :: "(bytes \<Rightarrow> bool) \<Rightarrow> EchConfigContents decoder" where
  "EchConfigContents_read dns_ok r =
     bindR (HpkeKeyConfig_read r) (\<lambda>(kc, r).
     bindR (u8_read r) (\<lambda>(mnl, r).
     bindR (SizedPayload_read Size_u8 MaybeEmpty r) (\<lambda>(nm, r).
       if \<not> dns_ok nm then Inl InvalidServerName
       else bindR (Vec_read EchConfigExtension_SIZE_LEN EchConfigExtension_read r) (\<lambda>(xs, r).
         Inr (\<lparr>ecc_key_config = kc, ecc_maximum_name_length = mnl, ecc_public_name = nm,
               ecc_extensions = xs\<rparr>, r)))))"

definition EchConfigContents_wf :: "(bytes \<Rightarrow> bool) \<Rightarrow> EchConfigContents \<Rightarrow> bool" where
  "EchConfigContents_wf dns_ok c =
     (HpkeKeyConfig_wf (ecc_key_config c) \<and>
      SizedPayload_wf Size_u8 MaybeEmpty (ecc_public_name c) \<and> dns_ok (ecc_public_name c) \<and>
      Vec_wf EchConfigExtension_SIZE_LEN EchConfigExtension_encode EchConfigExtension_wf
        (ecc_extensions c))"

interpretation eccc: canonical_codec
  EchConfigContents_encode "EchConfigContents_read dns_ok" "EchConfigContents_wf dns_ok" for dns_ok
  by unfold_locales (auto simp: EchConfigContents_encode_def EchConfigContents_read_def
      EchConfigContents_wf_def wire_simps split: if_splits
      dest!: u8c.encode_read hkcc.encode_read spc.encode_read ecec.cvec.encode_read)

datatype EchConfigPayload =
    EchConfig_V18 EchConfigContents
  | EchConfig_Unknown EchVersion bytes

fun EchConfigPayload_encode :: "EchConfigPayload \<Rightarrow> bytes" where
  "EchConfigPayload_encode (EchConfig_V18 c) =
     u16_encode EchVersion_V18 @ length_prefixed U16 (EchConfigContents_encode c)"
| "EchConfigPayload_encode (EchConfig_Unknown version contents) =
     u16_encode version @ SizedPayload_encode Size_u16 MaybeEmpty contents"

definition EchConfigPayload_read :: "(bytes \<Rightarrow> bool) \<Rightarrow> EchConfigPayload decoder" where
  "EchConfigPayload_read dns_ok r =
     bindR (EchVersion_read r) (\<lambda>(version, r).
     bindR (read_u16_sub r) (\<lambda>(contents, r).
       if version = EchVersion_V18 then
         bindR (Reader_all ''EchConfigContents'' (EchConfigContents_read dns_ok) contents)
           (\<lambda>(c, _). Inr (EchConfig_V18 c, r))
       else Inr (EchConfig_Unknown version (fst (Reader_rest contents)), r)))"

fun EchConfigPayload_wf :: "(bytes \<Rightarrow> bool) \<Rightarrow> EchConfigPayload \<Rightarrow> bool" where
  "EchConfigPayload_wf dns_ok (EchConfig_V18 c) =
     (EchConfigContents_wf dns_ok c \<and> length (EchConfigContents_encode c) < 2 ^ 16)"
| "EchConfigPayload_wf dns_ok (EchConfig_Unknown version contents) =
     (version \<noteq> EchVersion_V18 \<and> SizedPayload_wf Size_u16 MaybeEmpty contents)"

definition EchConfigPayload_SIZE_LEN :: ListLength where
  "EchConfigPayload_SIZE_LEN = U16"

lemma SizedPayload_u16_length_prefixed:
  "SizedPayload_wf Size_u16 C p \<Longrightarrow> SizedPayload_encode Size_u16 C p = length_prefixed U16 p"
  by (simp add: SizedPayload_wf_def SizedPayload_encode_def length_prefixed_eq u16_encode_alt
      unat_word_of_nat_u16)

lemma SizedPayload_u16_MaybeEmpty_wf: "SizedPayload_wf Size_u16 MaybeEmpty p \<longleftrightarrow> length p < 2 ^ 16"
  by (auto simp: SizedPayload_wf_def)

interpretation ecpyc: canonical_list_element
  EchConfigPayload_encode "EchConfigPayload_read dns_ok" "EchConfigPayload_wf dns_ok"
  EchConfigPayload_SIZE_LEN for dns_ok
proof unfold_locales
  show "EchConfigPayload_read dns_ok (EchConfigPayload_encode p @ rest) = Inr (p, rest)"
    if "EchConfigPayload_wf dns_ok p" for p rest
    using that by (cases p) (auto simp: EchConfigPayload_read_def wire_simps Reader_rest_def
        SizedPayload_u16_length_prefixed SizedPayload_u16_MaybeEmpty_wf)
next
  fix r p rest
  assume rd: "EchConfigPayload_read dns_ok r = Inr (p, rest)"
  show "EchConfigPayload_wf dns_ok p \<and> r = EchConfigPayload_encode p @ rest"
    using rd by (auto simp: EchConfigPayload_read_def Reader_rest_def Reader_all_Inr_iff
        SizedPayload_u16_length_prefixed SizedPayload_u16_MaybeEmpty_wf split: if_splits
        dest!: enum16.encode_read read_u16_sub_InrD eccc.encode_read)
  show "length rest < length r"
    using rd by (auto simp: EchConfigPayload_read_def split: if_splits
        dest!: enum16.encode_read read_u16_sub_InrD)
qed

text \<open>\<open>ServerEncryptedClientHello\<close>: the list of retry configurations.\<close>

type_synonym ServerEncryptedClientHello = "EchConfigPayload list"

definition ServerEncryptedClientHello_encode :: "ServerEncryptedClientHello \<Rightarrow> bytes" where
  "ServerEncryptedClientHello_encode cs = Vec_encode EchConfigPayload_SIZE_LEN EchConfigPayload_encode cs"

definition ServerEncryptedClientHello_read ::
  "(bytes \<Rightarrow> bool) \<Rightarrow> ServerEncryptedClientHello decoder" where
  "ServerEncryptedClientHello_read dns_ok r =
     Vec_read EchConfigPayload_SIZE_LEN (EchConfigPayload_read dns_ok) r"

definition ServerEncryptedClientHello_wf ::
  "(bytes \<Rightarrow> bool) \<Rightarrow> ServerEncryptedClientHello \<Rightarrow> bool" where
  "ServerEncryptedClientHello_wf dns_ok cs =
     Vec_wf EchConfigPayload_SIZE_LEN EchConfigPayload_encode (EchConfigPayload_wf dns_ok) cs"

interpretation sechc: canonical_codec
  ServerEncryptedClientHello_encode "ServerEncryptedClientHello_read dns_ok"
  "ServerEncryptedClientHello_wf dns_ok" for dns_ok
  by unfold_locales (auto simp: ServerEncryptedClientHello_encode_def
      ServerEncryptedClientHello_read_def ServerEncryptedClientHello_wf_def wire_simps
      dest!: ecpyc.cvec.encode_read)

subsection \<open>Extensions of ServerHello\<close>

type_synonym ServerTicketRequestHint = u8

abbreviation ServerTicketRequestHint_encode :: "ServerTicketRequestHint \<Rightarrow> bytes" where
  "ServerTicketRequestHint_encode \<equiv> u8_encode"

abbreviation ServerTicketRequestHint_read :: "ServerTicketRequestHint decoder" where
  "ServerTicketRequestHint_read \<equiv> u8_read"

record ServerExtensions =
  se_ec_point_formats :: "SupportedEcPointFormats option"
  se_server_name_ack :: "unit option"
  se_session_ticket_ack :: "unit option"
  se_renegotiation_info :: "bytes option"
  se_selected_protocol :: "ApplicationProtocol option"
  se_key_share :: "KeyShareEntry option"
  se_preshared_key :: "u16 option"
  se_client_certificate_type :: "CertificateType option"
  se_server_certificate_type :: "CertificateType option"
  se_extended_main_secret_ack :: "unit option"
  se_certificate_status_request_ack :: "unit option"
  se_selected_version :: "ProtocolVersion option"
  se_transport_parameters :: "bytes option"
  se_early_data_ack :: "unit option"
  se_ticket_request :: "ServerTicketRequestHint option"
  se_encrypted_client_hello_ack :: "ServerEncryptedClientHello option"
  se_unknown_extensions :: "u16 set"

definition ServerExtensions_default :: ServerExtensions where
  "ServerExtensions_default =
     \<lparr>se_ec_point_formats = None, se_server_name_ack = None, se_session_ticket_ack = None,
      se_renegotiation_info = None, se_selected_protocol = None, se_key_share = None,
      se_preshared_key = None, se_client_certificate_type = None,
      se_server_certificate_type = None, se_extended_main_secret_ack = None,
      se_certificate_status_request_ack = None, se_selected_version = None,
      se_transport_parameters = None, se_early_data_ack = None, se_ticket_request = None,
      se_encrypted_client_hello_ack = None, se_unknown_extensions = {}\<rparr>"

definition ServerExtensions_items :: "(bytes \<Rightarrow> bool) \<Rightarrow> ServerExtensions ext_item list" where
  "ServerExtensions_items dns_ok =
     [ext_slot ExtensionType_ECPointFormats se_ec_point_formats se_ec_point_formats_update
        SupportedEcPointFormats_encode SupportedEcPointFormats_read,
      ext_slot ExtensionType_ServerName se_server_name_ack se_server_name_ack_update
        unit_encode unit_read,
      ext_slot ExtensionType_SessionTicket se_session_ticket_ack se_session_ticket_ack_update
        unit_encode unit_read,
      ext_slot ExtensionType_RenegotiationInfo se_renegotiation_info se_renegotiation_info_update
        (SizedPayload_encode Size_u8 MaybeEmpty) (SizedPayload_read Size_u8 MaybeEmpty),
      ext_slot ExtensionType_ALProtocolNegotiation se_selected_protocol se_selected_protocol_update
        SingleProtocolName_encode SingleProtocolName_read,
      ext_slot ExtensionType_KeyShare se_key_share se_key_share_update
        KeyShareEntry_encode KeyShareEntry_read,
      ext_slot ExtensionType_PreSharedKey se_preshared_key se_preshared_key_update
        u16_encode u16_read,
      ext_slot ExtensionType_ClientCertificateType
        se_client_certificate_type se_client_certificate_type_update
        u8_encode CertificateType_read,
      ext_slot ExtensionType_ServerCertificateType
        se_server_certificate_type se_server_certificate_type_update
        u8_encode CertificateType_read,
      ext_slot ExtensionType_ExtendedMainSecret
        se_extended_main_secret_ack se_extended_main_secret_ack_update
        unit_encode unit_read,
      ext_slot ExtensionType_StatusRequest
        se_certificate_status_request_ack se_certificate_status_request_ack_update
        unit_encode unit_read,
      ext_slot ExtensionType_SupportedVersions se_selected_version se_selected_version_update
        u16_encode ProtocolVersion_read,
      ext_slot ExtensionType_TransportParameters
        se_transport_parameters se_transport_parameters_update
        Payload_encode Payload_read,
      ext_slot ExtensionType_EarlyData se_early_data_ack se_early_data_ack_update
        unit_encode unit_read,
      ext_slot ExtensionType_TicketRequest se_ticket_request se_ticket_request_update
        ServerTicketRequestHint_encode ServerTicketRequestHint_read,
      ext_slot ExtensionType_EncryptedClientHello
        se_encrypted_client_hello_ack se_encrypted_client_hello_ack_update
        ServerEncryptedClientHello_encode (ServerEncryptedClientHello_read dns_ok)]"

definition ServerExtensions_encode :: "(bytes \<Rightarrow> bool) \<Rightarrow> ServerExtensions \<Rightarrow> bytes" where
  "ServerExtensions_encode dns_ok s =
     length_prefixed U16 (encode_all (ServerExtensions_items dns_ok) s)"

definition ServerExtensions_read :: "(bytes \<Rightarrow> bool) \<Rightarrow> ServerExtensions decoder" where
  "ServerExtensions_read dns_ok r =
     bindR (read_u16_sub r) (\<lambda>(sub, r).
     bindR (read_extensions (ServerExtensions_items dns_ok) ''ServerExtensions''
       DuplicateExtensionChecker_check no_post
       (ServerExtensions_default, DuplicateExtensionChecker_new, ()) sub)
     (\<lambda>(out, checker, _).
       Inr (out\<lparr>se_unknown_extensions := BTreeSet_from_InlineSet checker\<rparr>, r)))"

definition ServerExtensions_received_types :: "(bytes \<Rightarrow> bool) \<Rightarrow> ServerExtensions \<Rightarrow> ExtensionType set" where
  "ServerExtensions_received_types dns_ok s =
     set (collect_used (ServerExtensions_items dns_ok) s) \<union> se_unknown_extensions s"

definition ServerExtensions_slots_wf :: "(bytes \<Rightarrow> bool) \<Rightarrow> ServerExtensions \<Rightarrow> bool" where
  "ServerExtensions_slots_wf dns_ok s =
     (pred_option SupportedEcPointFormats_wf (se_ec_point_formats s) \<and>
      pred_option (SizedPayload_wf Size_u8 MaybeEmpty) (se_renegotiation_info s) \<and>
      pred_option ApplicationProtocol_wf (se_selected_protocol s) \<and>
      pred_option KeyShareEntry_wf (se_key_share s) \<and>
      pred_option (ServerEncryptedClientHello_wf dns_ok) (se_encrypted_client_hello_ack s))"

definition ServerExtensions_wf :: "(bytes \<Rightarrow> bool) \<Rightarrow> ServerExtensions \<Rightarrow> bool" where
  "ServerExtensions_wf dns_ok s =
     (ServerExtensions_slots_wf dns_ok s \<and> se_unknown_extensions s = {} \<and>
      extensions_fit (ServerExtensions_items dns_ok) s)"

lemma unit_read_Nil [wire_simps]: "unit_read [] = Inr ((), [])"
  by (simp add: unit_read_def Reader_all_Inr_iff)

lemma Payload_read_encode [wire_simps]: "Payload_read (Payload_encode p) = Inr (p, [])"
  by (simp add: Payload_read_def Payload_encode_def Reader_rest_def)

lemmas ServerExtensions_simps = ServerExtensions_items_def ext_slot_simps

lemma ServerExtensions_same_other:
  "\<forall>i \<in> set (ServerExtensions_items dns_ok). \<forall>j \<in> set (ServerExtensions_items dns_ok).
     item_id i \<noteq> item_id j \<longrightarrow> (\<forall>t s acc. same i t (item_copy j s acc) \<longleftrightarrow> same i t acc)"
  by (simp add: ServerExtensions_simps)

lemma ServerExtensions_read_presence:
  "\<forall>i \<in> set (ServerExtensions_items dns_ok). \<forall>j \<in> set (ServerExtensions_items dns_ok).
     \<forall>body acc acc' rest. item_read i body acc = Inr (acc', rest) \<longrightarrow>
       (item_present j acc' \<longleftrightarrow> item_id j = item_id i \<or> item_present j acc)"
  by (simp add: ServerExtensions_simps result_simps case_prod_unfold) (intro conjI; clarsimp)

lemma ServerExtensions_read_body:
  "ServerExtensions_slots_wf dns_ok s \<Longrightarrow>
     \<forall>i \<in> set (ServerExtensions_items dns_ok). \<forall>body acc. item_encode i s = Some body \<longrightarrow>
       item_read i body acc = Inr (item_copy i s acc, [])"
  by (simp add: ServerExtensions_simps ServerExtensions_slots_wf_def wire_simps unit_encode_def
      pred_option_def) (intro conjI allI impI; force simp: wire_simps)

interpretation sexts: extension_struct
  "ServerExtensions_items dns_ok" ServerExtensions_default se_unknown_extensions
  "ServerExtensions_slots_wf dns_ok" for dns_ok
proof unfold_locales
  fix i j :: "ServerExtensions ext_item" and s t acc body
  let ?items = "set (ServerExtensions_items dns_ok)"
  show "distinct (map item_id (ServerExtensions_items dns_ok))"
    by (simp add: ServerExtensions_simps)
  show "\<forall>i \<in> ?items. same i s t \<Longrightarrow> se_unknown_extensions s = se_unknown_extensions t \<Longrightarrow> s = t"
    by (simp add: ServerExtensions_simps)
  assume i: "i \<in> ?items"
  show "\<not> item_present i ServerExtensions_default"
    using i by (auto simp: ServerExtensions_simps ServerExtensions_default_def)
  show "item_encode i s = None \<longleftrightarrow> \<not> item_present i s"
    using i by (auto simp: ServerExtensions_simps simp del: not_None_eq)
  show "ServerExtensions_slots_wf dns_ok s \<Longrightarrow> item_encode i s = Some body \<Longrightarrow>
      item_read i body acc = Inr (item_copy i s acc, [])"
    using ServerExtensions_read_body i by blast
  show "same i s (item_copy i s acc)" using i by (auto simp: ServerExtensions_simps)
  show "j \<in> ?items \<Longrightarrow> item_id i \<noteq> item_id j \<Longrightarrow> same i t (item_copy j s acc) \<longleftrightarrow> same i t acc"
    using ServerExtensions_same_other i by blast
  show "j \<in> ?items \<Longrightarrow> item_read i body acc = Inr (acc', rest) \<Longrightarrow>
      item_present j acc' \<longleftrightarrow> item_id j = item_id i \<or> item_present j acc" for acc' rest
    using ServerExtensions_read_presence i by blast
  show "same i s t \<Longrightarrow> item_present i t \<longleftrightarrow> item_present i s"
    using i by (auto simp: ServerExtensions_simps simp del: not_None_eq)
  show "\<not> item_present i s \<Longrightarrow> \<not> item_present i t \<Longrightarrow> same i s t"
    using i by (auto simp: ServerExtensions_simps simp del: not_None_eq)
  show "se_unknown_extensions (item_copy i s acc) = se_unknown_extensions acc"
    using i by (auto simp: ServerExtensions_simps simp del: not_None_eq)
qed

lemma ServerExtensions_encode_unknown:
  "encode_all (ServerExtensions_items dns_ok) (s\<lparr>se_unknown_extensions := u\<rparr>) =
     encode_all (ServerExtensions_items dns_ok) s"
  by (simp add: encode_all_def ALL_EXTENSIONS_def encode_one_def find_item_def ServerExtensions_items_def
      ext_slot_sel)

interpretation sextc: wire_codec
  "ServerExtensions_encode dns_ok" "ServerExtensions_read dns_ok" "ServerExtensions_wf dns_ok" for dns_ok
proof unfold_locales
  fix s :: ServerExtensions and rest
  assume wf_s: "ServerExtensions_wf dns_ok s"
  hence "length (encode_all (ServerExtensions_items dns_ok) s) < 2 ^ 16"
    by (simp add: ServerExtensions_wf_def extensions_fit_def)
  moreover have "read_extensions (ServerExtensions_items dns_ok) ''ServerExtensions''
      DuplicateExtensionChecker_check no_post (ServerExtensions_default, DuplicateExtensionChecker_new, ())
      (encode_all (ServerExtensions_items dns_ok) s) = Inr (s, DuplicateExtensionChecker_new, ())"
    using wf_s by (intro sexts.read_all_extensions)
      (simp_all add: ServerExtensions_wf_def ServerExtensions_default_def)
  ultimately show "ServerExtensions_read dns_ok (ServerExtensions_encode dns_ok s @ rest) = Inr (s, rest)"
    using wf_s
    by (simp add: ServerExtensions_read_def ServerExtensions_encode_def wire_simps
        DuplicateExtensionChecker_new_def inline.abs_empty ServerExtensions_wf_def)
qed

subsection \<open>EncryptedExtensions\<close>

record EncryptedExtensions =
  ee_server_name_ack :: "unit option"
  ee_selected_protocol :: "ApplicationProtocol option"
  ee_client_certificate_type :: "CertificateType option"
  ee_server_certificate_type :: "CertificateType option"
  ee_transport_parameters :: "bytes option"
  ee_early_data_ack :: "unit option"
  ee_ticket_request :: "ServerTicketRequestHint option"
  ee_encrypted_client_hello_ack :: "ServerEncryptedClientHello option"
  ee_unknown_extensions :: "u16 set"

definition EncryptedExtensions_default :: EncryptedExtensions where
  "EncryptedExtensions_default =
     \<lparr>ee_server_name_ack = None, ee_selected_protocol = None, ee_client_certificate_type = None,
      ee_server_certificate_type = None, ee_transport_parameters = None, ee_early_data_ack = None,
      ee_ticket_request = None, ee_encrypted_client_hello_ack = None,
      ee_unknown_extensions = {}\<rparr>"

definition EncryptedExtensions_items :: "(bytes \<Rightarrow> bool) \<Rightarrow> EncryptedExtensions ext_item list" where
  "EncryptedExtensions_items dns_ok =
     [ext_slot ExtensionType_ServerName ee_server_name_ack ee_server_name_ack_update
        unit_encode unit_read,
      ext_slot ExtensionType_ALProtocolNegotiation ee_selected_protocol ee_selected_protocol_update
        SingleProtocolName_encode SingleProtocolName_read,
      ext_slot ExtensionType_ClientCertificateType
        ee_client_certificate_type ee_client_certificate_type_update
        u8_encode CertificateType_read,
      ext_slot ExtensionType_ServerCertificateType
        ee_server_certificate_type ee_server_certificate_type_update
        u8_encode CertificateType_read,
      ext_slot ExtensionType_TransportParameters
        ee_transport_parameters ee_transport_parameters_update
        Payload_encode Payload_read,
      ext_slot ExtensionType_EarlyData ee_early_data_ack ee_early_data_ack_update
        unit_encode unit_read,
      ext_slot ExtensionType_TicketRequest ee_ticket_request ee_ticket_request_update
        ServerTicketRequestHint_encode ServerTicketRequestHint_read,
      ext_slot ExtensionType_EncryptedClientHello
        ee_encrypted_client_hello_ack ee_encrypted_client_hello_ack_update
        ServerEncryptedClientHello_encode (ServerEncryptedClientHello_read dns_ok)]"

definition EncryptedExtensions_UNPROCESSED :: "ExtensionType list" where
  "EncryptedExtensions_UNPROCESSED =
     [ExtensionType_MaxFragmentLength, ExtensionType_EllipticCurves, ExtensionType_UseSRTP,
      ExtensionType_Heartbeat]"

definition EncryptedExtensions_received_types ::
  "(bytes \<Rightarrow> bool) \<Rightarrow> EncryptedExtensions \<Rightarrow> ExtensionType set" where
  "EncryptedExtensions_received_types dns_ok s =
     set (collect_used (EncryptedExtensions_items dns_ok) s) \<union> ee_unknown_extensions s"

definition EncryptedExtensions_encode :: "(bytes \<Rightarrow> bool) \<Rightarrow> EncryptedExtensions \<Rightarrow> bytes" where
  "EncryptedExtensions_encode dns_ok s =
     length_prefixed U16 (encode_all (EncryptedExtensions_items dns_ok) s)"

definition EncryptedExtensions_read :: "(bytes \<Rightarrow> bool) \<Rightarrow> EncryptedExtensions decoder" where
  "EncryptedExtensions_read dns_ok r =
     bindR (read_u16_sub r) (\<lambda>(sub, r).
     bindR (read_extensions (EncryptedExtensions_items dns_ok) ''EncryptedExtensions''
       (\<lambda>unk checker.
          DuplicateExtensionChecker_check_unprocessed unk EncryptedExtensions_UNPROCESSED checker)
       no_post (EncryptedExtensions_default, DuplicateExtensionChecker_new, ()) sub)
     (\<lambda>(out, checker, _).
       Inr (out\<lparr>ee_unknown_extensions := BTreeSet_from_InlineSet checker\<rparr>, r)))"

definition EncryptedExtensions_slots_wf :: "(bytes \<Rightarrow> bool) \<Rightarrow> EncryptedExtensions \<Rightarrow> bool" where
  "EncryptedExtensions_slots_wf dns_ok s =
     (pred_option ApplicationProtocol_wf (ee_selected_protocol s) \<and>
      pred_option (ServerEncryptedClientHello_wf dns_ok) (ee_encrypted_client_hello_ack s))"

definition EncryptedExtensions_wf :: "(bytes \<Rightarrow> bool) \<Rightarrow> EncryptedExtensions \<Rightarrow> bool" where
  "EncryptedExtensions_wf dns_ok s =
     (EncryptedExtensions_slots_wf dns_ok s \<and> ee_unknown_extensions s = {} \<and>
      extensions_fit (EncryptedExtensions_items dns_ok) s)"

lemmas EncryptedExtensions_simps = EncryptedExtensions_items_def ext_slot_simps

lemma EncryptedExtensions_same_other:
  "\<forall>i \<in> set (EncryptedExtensions_items dns_ok). \<forall>j \<in> set (EncryptedExtensions_items dns_ok).
     item_id i \<noteq> item_id j \<longrightarrow> (\<forall>t s acc. same i t (item_copy j s acc) \<longleftrightarrow> same i t acc)"
  by (simp add: EncryptedExtensions_simps)

lemma EncryptedExtensions_read_presence:
  "\<forall>i \<in> set (EncryptedExtensions_items dns_ok). \<forall>j \<in> set (EncryptedExtensions_items dns_ok).
     \<forall>body acc acc' rest. item_read i body acc = Inr (acc', rest) \<longrightarrow>
       (item_present j acc' \<longleftrightarrow> item_id j = item_id i \<or> item_present j acc)"
  by (simp add: EncryptedExtensions_simps result_simps case_prod_unfold) (intro conjI; clarsimp)

lemma EncryptedExtensions_read_body:
  "EncryptedExtensions_slots_wf dns_ok s \<Longrightarrow>
     \<forall>i \<in> set (EncryptedExtensions_items dns_ok). \<forall>body acc. item_encode i s = Some body \<longrightarrow>
       item_read i body acc = Inr (item_copy i s acc, [])"
  by (simp add: EncryptedExtensions_simps EncryptedExtensions_slots_wf_def wire_simps unit_encode_def
      pred_option_def) (intro conjI allI impI; force simp: wire_simps)

interpretation eexts: extension_struct
  "EncryptedExtensions_items dns_ok" EncryptedExtensions_default ee_unknown_extensions
  "EncryptedExtensions_slots_wf dns_ok" for dns_ok
proof unfold_locales
  fix i j :: "EncryptedExtensions ext_item" and s t acc body
  let ?items = "set (EncryptedExtensions_items dns_ok)"
  show "distinct (map item_id (EncryptedExtensions_items dns_ok))"
    by (simp add: EncryptedExtensions_simps)
  show "\<forall>i \<in> ?items. same i s t \<Longrightarrow> ee_unknown_extensions s = ee_unknown_extensions t \<Longrightarrow> s = t"
    by (simp add: EncryptedExtensions_simps)
  assume i: "i \<in> ?items"
  show "\<not> item_present i EncryptedExtensions_default"
    using i by (auto simp: EncryptedExtensions_simps EncryptedExtensions_default_def)
  show "item_encode i s = None \<longleftrightarrow> \<not> item_present i s"
    using i by (auto simp: EncryptedExtensions_simps simp del: not_None_eq)
  show "EncryptedExtensions_slots_wf dns_ok s \<Longrightarrow> item_encode i s = Some body \<Longrightarrow>
      item_read i body acc = Inr (item_copy i s acc, [])"
    using EncryptedExtensions_read_body i by blast
  show "same i s (item_copy i s acc)" using i by (auto simp: EncryptedExtensions_simps)
  show "j \<in> ?items \<Longrightarrow> item_id i \<noteq> item_id j \<Longrightarrow> same i t (item_copy j s acc) \<longleftrightarrow> same i t acc"
    using EncryptedExtensions_same_other i by blast
  show "j \<in> ?items \<Longrightarrow> item_read i body acc = Inr (acc', rest) \<Longrightarrow>
      item_present j acc' \<longleftrightarrow> item_id j = item_id i \<or> item_present j acc" for acc' rest
    using EncryptedExtensions_read_presence i by blast
  show "same i s t \<Longrightarrow> item_present i t \<longleftrightarrow> item_present i s"
    using i by (auto simp: EncryptedExtensions_simps simp del: not_None_eq)
  show "\<not> item_present i s \<Longrightarrow> \<not> item_present i t \<Longrightarrow> same i s t"
    using i by (auto simp: EncryptedExtensions_simps simp del: not_None_eq)
  show "ee_unknown_extensions (item_copy i s acc) = ee_unknown_extensions acc"
    using i by (auto simp: EncryptedExtensions_simps)
qed

interpretation eextc: wire_codec
  "EncryptedExtensions_encode dns_ok" "EncryptedExtensions_read dns_ok"
  "EncryptedExtensions_wf dns_ok" for dns_ok
proof unfold_locales
  fix s :: EncryptedExtensions and rest
  assume wf_s: "EncryptedExtensions_wf dns_ok s"
  hence "length (encode_all (EncryptedExtensions_items dns_ok) s) < 2 ^ 16"
    by (simp add: EncryptedExtensions_wf_def extensions_fit_def)
  moreover have "read_extensions (EncryptedExtensions_items dns_ok) ''EncryptedExtensions''
      (\<lambda>unk. DuplicateExtensionChecker_check_unprocessed unk EncryptedExtensions_UNPROCESSED) no_post
      (EncryptedExtensions_default, DuplicateExtensionChecker_new, ())
      (encode_all (EncryptedExtensions_items dns_ok) s) = Inr (s, DuplicateExtensionChecker_new, ())"
    using wf_s by (intro eexts.read_all_extensions)
      (simp_all add: EncryptedExtensions_wf_def EncryptedExtensions_default_def)
  ultimately show
    "EncryptedExtensions_read dns_ok (EncryptedExtensions_encode dns_ok s @ rest) = Inr (s, rest)"
    using wf_s
    by (simp add: EncryptedExtensions_read_def EncryptedExtensions_encode_def wire_simps
        DuplicateExtensionChecker_new_def inline.abs_empty EncryptedExtensions_wf_def)
qed

subsection \<open>ServerHello\<close>

record ServerHelloPayload =
  sh_legacy_version :: ProtocolVersion
  sh_random :: Random
  sh_session_id :: SessionId
  sh_cipher_suite :: CipherSuite
  sh_compression_method :: Compression
  sh_extensions :: ServerExtensions

definition ZERO_RANDOM :: Random where
  "ZERO_RANDOM = replicate 32 0"

text \<open>The version and the random have been read before; the caller puts them in place.\<close>

definition ServerHelloPayload_read :: "(bytes \<Rightarrow> bool) \<Rightarrow> ServerHelloPayload decoder" where
  "ServerHelloPayload_read dns_ok =
     Reader_all ''ServerHelloPayload'' (\<lambda>r.
       bindR (SessionId_read r) (\<lambda>(sid, r).
       bindR (CipherSuite_read r) (\<lambda>(suite, r).
       bindR (Compression_read r) (\<lambda>(compression, r).
       bindR (if Reader_any_left r then ServerExtensions_read dns_ok r
              else Inr (ServerExtensions_default, r)) (\<lambda>(x, r).
         Inr (\<lparr>sh_legacy_version = 0, sh_random = ZERO_RANDOM, sh_session_id = sid,
               sh_cipher_suite = suite, sh_compression_method = compression,
               sh_extensions = x\<rparr>, r))))))"

definition ServerHelloPayload_encode :: "(bytes \<Rightarrow> bool) \<Rightarrow> ServerHelloPayload \<Rightarrow> bytes" where
  "ServerHelloPayload_encode dns_ok h =
     u16_encode (sh_legacy_version h) @
     Random_encode (sh_random h) @
     SessionId_encode (sh_session_id h) @
     u16_encode (sh_cipher_suite h) @
     u8_encode (sh_compression_method h) @
     ServerExtensions_encode dns_ok (sh_extensions h)"

definition ServerHelloPayload_wf :: "(bytes \<Rightarrow> bool) \<Rightarrow> ServerHelloPayload \<Rightarrow> bool" where
  "ServerHelloPayload_wf dns_ok h =
     (Random_wf (sh_random h) \<and> SessionId_wf (sh_session_id h) \<and>
      ServerExtensions_wf dns_ok (sh_extensions h))"

lemma ServerExtensions_encode_nonempty: "ServerExtensions_encode dns_ok s \<noteq> []"
  by (simp add: ServerExtensions_encode_def length_prefixed_nonempty)

lemma ServerHelloPayload_read_encode:
  assumes "ServerHelloPayload_wf dns_ok h"
  shows "ServerHelloPayload_read dns_ok (drop 34 (ServerHelloPayload_encode dns_ok h)) =
    Inr (h\<lparr>sh_legacy_version := 0, sh_random := ZERO_RANDOM\<rparr>, [])"
  using assms ServerExtensions_encode_nonempty [of dns_ok "sh_extensions h"]
  by (simp add: ServerHelloPayload_read_def ServerHelloPayload_encode_def ServerHelloPayload_wf_def
      Random_wf_def Random_encode_def Reader_all_Inr_iff Reader_any_left_def wire_simps)

subsection \<open>Types received from the server\<close>

text \<open>
  The types reported for a ServerHello or EncryptedExtensions are exactly those on the wire,
  and none occurs twice.
\<close>

lemma ServerExtensions_read_trace:
  assumes "ServerExtensions_read dns_ok r = Inr (x, rest)"
  shows "\<exists>xs. r = length_prefixed U16 (concat (map tlv xs)) @ rest \<and> distinct (map fst xs) \<and>
    ServerExtensions_received_types dns_ok x = set (map fst xs)"
proof -
  let ?items = "ServerExtensions_items dns_ok"
  obtain sub out c where r: "r = length_prefixed U16 sub @ rest"
    and loop: "read_extensions ?items ''ServerExtensions'' DuplicateExtensionChecker_check no_post
      (ServerExtensions_default, DuplicateExtensionChecker_new, ()) sub = Inr (out, c, ())"
    and x: "x = out\<lparr>se_unknown_extensions := BTreeSet_from_InlineSet c\<rparr>"
    using assms by (auto simp: ServerExtensions_read_def dest!: read_u16_sub_InrD)
  from sexts.read_extensions_trace [OF loop] obtain xs where xs: "sub = concat (map tlv xs)"
    "sexts.reads_as dns_ok DuplicateExtensionChecker_check no_post
      (ServerExtensions_default, DuplicateExtensionChecker_new, ()) (out, c, ()) xs" by blast
  have "collect_used ?items x = collect_used ?items out"
    unfolding x by (rule collect_used_cong) (simp add: ServerExtensions_items_def ext_slot_sel)
  with sexts.reads_as_check [OF xs(2)] r xs(1) x show ?thesis
    by (auto simp: ServerExtensions_received_types_def)
qed

lemma EncryptedExtensions_read_trace:
  assumes "EncryptedExtensions_read dns_ok r = Inr (x, rest)"
  shows "\<exists>xs. r = length_prefixed U16 (concat (map tlv xs)) @ rest \<and> distinct (map fst xs) \<and>
    EncryptedExtensions_received_types dns_ok x = set (map fst xs) \<and>
    (\<forall>t \<in> set (map fst xs). ExtensionType_is_recognized t \<longrightarrow>
       t \<in> set (ALL_EXTENSIONS (EncryptedExtensions_items dns_ok)) \<union>
         set EncryptedExtensions_UNPROCESSED)"
proof -
  let ?items = "EncryptedExtensions_items dns_ok"
  let ?unk = "\<lambda>u. DuplicateExtensionChecker_check_unprocessed u EncryptedExtensions_UNPROCESSED"
  let ?ok = "\<lambda>t. ExtensionType_is_recognized t \<longrightarrow> t \<in> set EncryptedExtensions_UNPROCESSED"
  obtain sub out c where r: "r = length_prefixed U16 sub @ rest"
    and loop: "read_extensions ?items ''EncryptedExtensions'' ?unk no_post
      (EncryptedExtensions_default, DuplicateExtensionChecker_new, ()) sub = Inr (out, c, ())"
    and x: "x = out\<lparr>ee_unknown_extensions := BTreeSet_from_InlineSet c\<rparr>"
    using assms by (auto simp: EncryptedExtensions_read_def dest!: read_u16_sub_InrD)
  from eexts.read_extensions_trace [OF loop] obtain xs where xs: "sub = concat (map tlv xs)"
    "eexts.reads_as dns_ok ?unk no_post
      (EncryptedExtensions_default, DuplicateExtensionChecker_new, ()) (out, c, ()) xs" by blast
  have weak: "?unk t u = Inr u' \<Longrightarrow> DuplicateExtensionChecker_check t u = Inr u' \<and> ?ok t" for t u u'
    by (auto simp: DuplicateExtensionChecker_check_unprocessed_def split: if_splits)
  from eexts.reads_as_weaken [where unknown' = DuplicateExtensionChecker_check and P = ?ok,
      OF xs(2) weak]
  have ra: "eexts.reads_as dns_ok DuplicateExtensionChecker_check no_post
      (EncryptedExtensions_default, DuplicateExtensionChecker_new, ()) (out, c, ()) xs"
    and ok: "\<forall>t \<in> set (map fst xs). t \<in> set (ALL_EXTENSIONS ?items) \<or> ?ok t" by blast+
  have "collect_used ?items x = collect_used ?items out"
    unfolding x by (rule collect_used_cong) (simp add: EncryptedExtensions_items_def ext_slot_sel)
  with eexts.reads_as_check [OF ra] r xs(1) x ok show ?thesis
    by (auto simp: EncryptedExtensions_received_types_def)
qed

end
