(* ===== verification/Wire_ClientHello.thy ===== *)
theory Wire_ClientHello
  imports Wire_ServerHello
begin

text \<open>
  The ClientHello message and its extensions (\<open>msgs/client_hello.rs\<close>), with the
  order in which extensions are written and the structural checks of the reader:
  no duplicates, \<open>pre_shared_key\<close> last, misplaced extensions refused.

  Parsing a server name belongs to the \<open>pki_types\<close> package; it is the
  parameter \<open>classify\<close>, which says whether \<open>ServerName::try_from\<close> gives a DNS
  name, an IP address or neither.  A DNS name is its byte string.
\<close>

subsection \<open>Server names\<close>

datatype ServerNameKind = ServerName_DnsName | ServerName_IpAddress | ServerName_Other

datatype ServerNamePayload = SingleDnsName bytes | SniIpAddress | SniInvalid

datatype HostNamePayload = HostName bytes | HostName_IpAddress bytes | HostName_Invalid bytes

definition ServerNamePayload_SIZE_LEN :: ListLength where
  "ServerNamePayload_SIZE_LEN = NonZeroU16 (IllegalEmptyList ''ServerNames'')"

definition ServerNamePayload_encode :: "ServerNamePayload \<Rightarrow> bytes" where
  "ServerNamePayload_encode p =
     length_prefixed ServerNamePayload_SIZE_LEN
       (case p of
          SingleDnsName dns_name \<Rightarrow>
            u8_encode ServerNameType_HostName @ u16_encode (word_of_nat (length dns_name)) @ dns_name
        | _ \<Rightarrow> [])"

definition HostNamePayload_read :: "(bytes \<Rightarrow> ServerNameKind) \<Rightarrow> HostNamePayload decoder" where
  "HostNamePayload_read classify r =
     bindR (SizedPayload_read Size_u16 NonEmpty r) (\<lambda>(raw, r).
       Inr (case classify raw of
              ServerName_DnsName \<Rightarrow> HostName raw
            | ServerName_IpAddress \<Rightarrow> HostName_IpAddress raw
            | ServerName_Other \<Rightarrow> HostName_Invalid raw, r))"

text \<open>
  One round of the loop over the name list.  A name of an unknown type ends it: the rest of
  the list is consumed.
\<close>

definition ServerNamePayload_step ::
  "(bytes \<Rightarrow> ServerNameKind) \<Rightarrow> ServerNamePayload option \<Rightarrow> bytes
     \<Rightarrow> InvalidMessage + ServerNamePayload option \<times> bytes" where
  "ServerNamePayload_step classify found sub =
     bindR (ServerNameType_read sub) (\<lambda>(typ, sub).
       if typ = ServerNameType_HostName then
         bindR (HostNamePayload_read classify sub) (\<lambda>(payload, sub).
           if found \<noteq> None then Inl InvalidServerName
           else Inr (Some (case payload of
                  HostName d \<Rightarrow> SingleDnsName d
                | HostName_IpAddress _ \<Rightarrow> SniIpAddress
                | HostName_Invalid _ \<Rightarrow> SniInvalid), sub))
       else Inr (found, snd (Reader_rest sub)))"

definition ServerNamePayload_read :: "(bytes \<Rightarrow> ServerNameKind) \<Rightarrow> ServerNamePayload decoder" where
  "ServerNamePayload_read classify r =
     bindR (TlsListIter_new ServerNamePayload_SIZE_LEN r) (\<lambda>(sub, r).
     bindR (read_while (ServerNamePayload_step classify) None sub) (\<lambda>found.
       Inr (case found of Some p \<Rightarrow> p | None \<Rightarrow> SniInvalid, r)))"

fun ServerNamePayload_wf :: "(bytes \<Rightarrow> ServerNameKind) \<Rightarrow> ServerNamePayload \<Rightarrow> bool" where
  "ServerNamePayload_wf classify (SingleDnsName d) =
     (0 < length d \<and> length d < 65533 \<and> classify d = ServerName_DnsName)"
| "ServerNamePayload_wf classify _ = False"

lemma ServerNamePayload_step_progress:
  "ServerNamePayload_step classify st r = Inr (st', rest) \<Longrightarrow> length rest < length r"
  by (auto simp: ServerNamePayload_step_def HostNamePayload_read_def Reader_rest_def
      split: if_splits dest!: enum8.encode_read spc.encode_read)

interpretation snc: wire_codec
  ServerNamePayload_encode "ServerNamePayload_read classify" "ServerNamePayload_wf classify" for classify
proof unfold_locales
  fix p rest
  assume "ServerNamePayload_wf classify p"
  then obtain d where p: "p = SingleDnsName d" and d: "0 < length d" "length d < 65533"
    "classify d = ServerName_DnsName" by (cases p) auto
  let ?body = "u8_encode ServerNameType_HostName @ u16_encode (word_of_nat (length d)) @ d"
  have "SizedPayload_wf Size_u16 NonEmpty d" using d by (cases d) (simp_all add: SizedPayload_wf_def)
  from spc.read_encode_nil [OF this]
  have "HostNamePayload_read classify (u16_encode (word_of_nat (length d)) @ d) = Inr (HostName d, [])"
    using d(3) by (simp add: HostNamePayload_read_def SizedPayload_encode_def)
  hence "ServerNamePayload_step classify None ?body = Inr (Some p, [])"
    by (simp add: ServerNamePayload_step_def wire_simps p)
  hence "read_while (ServerNamePayload_step classify) None ?body = Inr (Some p)"
    by (subst read_while_loop [OF ServerNamePayload_step_progress])
      (auto simp: u8_encode_def read_while_loop [OF ServerNamePayload_step_progress])
  moreover have "ListLength_admits ServerNamePayload_SIZE_LEN (length ?body)"
    using d by (simp add: ServerNamePayload_SIZE_LEN_def)
  ultimately show "ServerNamePayload_read classify (ServerNamePayload_encode p @ rest) = Inr (p, rest)"
    by (simp add: ServerNamePayload_read_def ServerNamePayload_encode_def p TlsListIter_new_prefixed)
qed

subsection \<open>Certificate status requests\<close>

record OcspCertificateStatusRequest =
  ocsr_responder_ids :: "bytes list"
  ocsr_extensions :: bytes

datatype CertificateStatusRequest =
    StatusReq_Ocsp OcspCertificateStatusRequest
  | StatusReq_Unknown CertificateStatusType bytes

definition ResponderId_SIZE_LEN :: ListLength where
  "ResponderId_SIZE_LEN = U16"

definition OcspCertificateStatusRequest_encode :: "OcspCertificateStatusRequest \<Rightarrow> bytes" where
  "OcspCertificateStatusRequest_encode q =
     u8_encode CertificateStatusType_OCSP @
     Vec_encode ResponderId_SIZE_LEN (SizedPayload_encode Size_u16 NonEmpty) (ocsr_responder_ids q) @
     SizedPayload_encode Size_u16 MaybeEmpty (ocsr_extensions q)"

definition OcspCertificateStatusRequest_read :: "OcspCertificateStatusRequest decoder" where
  "OcspCertificateStatusRequest_read r =
     bindR (Vec_read ResponderId_SIZE_LEN (SizedPayload_read Size_u16 NonEmpty) r) (\<lambda>(ids, r).
     bindR (SizedPayload_read Size_u16 MaybeEmpty r) (\<lambda>(x, r).
       Inr (\<lparr>ocsr_responder_ids = ids, ocsr_extensions = x\<rparr>, r)))"

fun CertificateStatusRequest_encode :: "CertificateStatusRequest \<Rightarrow> bytes" where
  "CertificateStatusRequest_encode (StatusReq_Ocsp q) = OcspCertificateStatusRequest_encode q"
| "CertificateStatusRequest_encode (StatusReq_Unknown typ payload) =
     u8_encode typ @ Payload_encode payload"

definition CertificateStatusRequest_read :: "CertificateStatusRequest decoder" where
  "CertificateStatusRequest_read r =
     bindR (CertificateStatusType_read r) (\<lambda>(typ, r).
       if typ = CertificateStatusType_OCSP then
         bindR (OcspCertificateStatusRequest_read r) (\<lambda>(q, r). Inr (StatusReq_Ocsp q, r))
       else bindR (Payload_read r) (\<lambda>(d, r). Inr (StatusReq_Unknown typ d, r)))"

definition CertificateStatusRequest_build_ocsp :: CertificateStatusRequest where
  "CertificateStatusRequest_build_ocsp =
     StatusReq_Ocsp \<lparr>ocsr_responder_ids = [], ocsr_extensions = []\<rparr>"

fun CertificateStatusRequest_wf :: "CertificateStatusRequest \<Rightarrow> bool" where
  "CertificateStatusRequest_wf (StatusReq_Ocsp q) =
     (Vec_wf ResponderId_SIZE_LEN (SizedPayload_encode Size_u16 NonEmpty)
        (SizedPayload_wf Size_u16 NonEmpty) (ocsr_responder_ids q) \<and>
      SizedPayload_wf Size_u16 MaybeEmpty (ocsr_extensions q))"
| "CertificateStatusRequest_wf (StatusReq_Unknown typ payload) =
     (typ \<noteq> CertificateStatusType_OCSP)"

interpretation csrc: body_codec
  CertificateStatusRequest_encode CertificateStatusRequest_read CertificateStatusRequest_wf
proof unfold_locales
  show "CertificateStatusRequest_read (CertificateStatusRequest_encode x) = Inr (x, [])"
    if "CertificateStatusRequest_wf x" for x
    using that by (cases x) (simp_all add: CertificateStatusRequest_read_def wire_simps
        OcspCertificateStatusRequest_encode_def OcspCertificateStatusRequest_read_def)
qed

subsection \<open>Pre-shared keys\<close>

record PresharedKeyIdentity =
  pski_identity :: bytes
  pski_obfuscated_ticket_age :: u32

definition PresharedKeyIdentity_encode :: "PresharedKeyIdentity \<Rightarrow> bytes" where
  "PresharedKeyIdentity_encode i =
     SizedPayload_encode Size_u16 NonEmpty (pski_identity i) @
     u32_encode (pski_obfuscated_ticket_age i)"

definition PresharedKeyIdentity_read :: "PresharedKeyIdentity decoder" where
  "PresharedKeyIdentity_read r =
     bindR (SizedPayload_read Size_u16 NonEmpty r) (\<lambda>(p, r).
     bindR (u32_read r) (\<lambda>(age, r).
       Inr (\<lparr>pski_identity = p, pski_obfuscated_ticket_age = age\<rparr>, r)))"

definition PresharedKeyIdentity_wf :: "PresharedKeyIdentity \<Rightarrow> bool" where
  "PresharedKeyIdentity_wf i = SizedPayload_wf Size_u16 NonEmpty (pski_identity i)"

definition PresharedKeyIdentity_SIZE_LEN :: ListLength where
  "PresharedKeyIdentity_SIZE_LEN = NonZeroU16 (IllegalEmptyList ''PskIdentities'')"

definition PresharedKeyBinder_SIZE_LEN :: ListLength where
  "PresharedKeyBinder_SIZE_LEN = NonZeroU16 (IllegalEmptyList ''PskBinders'')"

interpretation pskic: canonical_list_element
  PresharedKeyIdentity_encode PresharedKeyIdentity_read PresharedKeyIdentity_wf
  PresharedKeyIdentity_SIZE_LEN
  by unfold_locales (auto simp: PresharedKeyIdentity_encode_def PresharedKeyIdentity_read_def
      PresharedKeyIdentity_wf_def wire_simps dest!: spc.encode_read u32c.encode_read)

abbreviation PresharedKeyBinder_encode :: "bytes \<Rightarrow> bytes" where
  "PresharedKeyBinder_encode \<equiv> SizedPayload_encode Size_u8 NonEmpty"

abbreviation PresharedKeyBinder_read :: "bytes decoder" where
  "PresharedKeyBinder_read \<equiv> SizedPayload_read Size_u8 NonEmpty"

record PresharedKeyOffer =
  psko_identities :: "PresharedKeyIdentity list"
  psko_binders :: "bytes list"

definition PresharedKeyOffer_new :: "PresharedKeyIdentity \<Rightarrow> bytes \<Rightarrow> PresharedKeyOffer" where
  "PresharedKeyOffer_new i b = \<lparr>psko_identities = [i], psko_binders = [b]\<rparr>"

definition PresharedKeyOffer_encode :: "PresharedKeyOffer \<Rightarrow> bytes" where
  "PresharedKeyOffer_encode q =
     Vec_encode PresharedKeyIdentity_SIZE_LEN PresharedKeyIdentity_encode (psko_identities q) @
     Vec_encode PresharedKeyBinder_SIZE_LEN PresharedKeyBinder_encode (psko_binders q)"

definition PresharedKeyOffer_read :: "PresharedKeyOffer decoder" where
  "PresharedKeyOffer_read r =
     bindR (Vec_read PresharedKeyIdentity_SIZE_LEN PresharedKeyIdentity_read r) (\<lambda>(ids, r).
     bindR (Vec_read PresharedKeyBinder_SIZE_LEN PresharedKeyBinder_read r) (\<lambda>(bs, r).
       Inr (\<lparr>psko_identities = ids, psko_binders = bs\<rparr>, r)))"

definition PresharedKeyOffer_wf :: "PresharedKeyOffer \<Rightarrow> bool" where
  "PresharedKeyOffer_wf q =
     (Vec_wf PresharedKeyIdentity_SIZE_LEN PresharedKeyIdentity_encode PresharedKeyIdentity_wf
        (psko_identities q) \<and>
      Vec_wf PresharedKeyBinder_SIZE_LEN PresharedKeyBinder_encode
        (SizedPayload_wf Size_u8 NonEmpty) (psko_binders q))"

interpretation pskoc: canonical_codec
  PresharedKeyOffer_encode PresharedKeyOffer_read PresharedKeyOffer_wf
  by unfold_locales (auto simp: PresharedKeyOffer_encode_def PresharedKeyOffer_read_def
      PresharedKeyOffer_wf_def wire_simps dest!: pskic.cvec.encode_read spl.cvec.encode_read)

record PskKeyExchangeModes =
  psk_dhe :: bool
  psk :: bool

definition PskKeyExchangeMode_SIZE_LEN :: ListLength where
  "PskKeyExchangeMode_SIZE_LEN = NonZeroU8 (IllegalEmptyList ''PskKeyExchangeModes'')"

definition PskKeyExchangeModes_encode :: "PskKeyExchangeModes \<Rightarrow> bytes" where
  "PskKeyExchangeModes_encode m =
     length_prefixed PskKeyExchangeMode_SIZE_LEN
       ((if psk_dhe m then u8_encode PskKeyExchangeMode_PSK_DHE_KE else []) @
        (if psk m then u8_encode PskKeyExchangeMode_PSK_KE else []))"

definition PskKeyExchangeModes_read :: "PskKeyExchangeModes decoder" where
  "PskKeyExchangeModes_read r =
     bindR (TlsListIter_new PskKeyExchangeMode_SIZE_LEN r) (\<lambda>(sub, r).
     bindR (read_items PskKeyExchangeMode_read sub) (\<lambda>kes.
       Inr (\<lparr>psk_dhe = (PskKeyExchangeMode_PSK_DHE_KE \<in> set kes),
             psk = (PskKeyExchangeMode_PSK_KE \<in> set kes)\<rparr>, r)))"

definition PskKeyExchangeModes_wf :: "PskKeyExchangeModes \<Rightarrow> bool" where
  "PskKeyExchangeModes_wf m = (psk_dhe m \<or> psk m)"

interpretation pskmc: wire_codec
  PskKeyExchangeModes_encode PskKeyExchangeModes_read PskKeyExchangeModes_wf
proof unfold_locales
  fix m :: PskKeyExchangeModes and rest
  let ?ms = "(if psk_dhe m then [PskKeyExchangeMode_PSK_DHE_KE] else []) @
    (if psk m then [PskKeyExchangeMode_PSK_KE] else [])"
  assume "PskKeyExchangeModes_wf m"
  thus "PskKeyExchangeModes_read (PskKeyExchangeModes_encode m @ rest) = Inr (m, rest)"
    using read_enum8_items [of "''PskKeyExchangeMode''" ?ms]
    by (auto simp: PskKeyExchangeModes_encode_def PskKeyExchangeModes_read_def
        PskKeyExchangeModes_wf_def wire_simps PskKeyExchangeMode_SIZE_LEN_def)
qed

subsection \<open>Session tickets and ticket requests\<close>

datatype ClientSessionTicket = TicketRequest | TicketOffer bytes

fun ClientSessionTicket_encode :: "ClientSessionTicket \<Rightarrow> bytes" where
  "ClientSessionTicket_encode TicketRequest = []"
| "ClientSessionTicket_encode (TicketOffer p) = Payload_encode p"

definition ClientSessionTicket_read :: "ClientSessionTicket decoder" where
  "ClientSessionTicket_read r =
     (if Reader_left r = 0 then Inr (TicketRequest, r)
      else bindR (Payload_read r) (\<lambda>(p, r). Inr (TicketOffer p, r)))"

fun ClientSessionTicket_wf :: "ClientSessionTicket \<Rightarrow> bool" where
  "ClientSessionTicket_wf TicketRequest = True"
| "ClientSessionTicket_wf (TicketOffer p) = (p \<noteq> [])"

interpretation cstc: body_codec
  ClientSessionTicket_encode ClientSessionTicket_read ClientSessionTicket_wf
proof unfold_locales
  show "ClientSessionTicket_read (ClientSessionTicket_encode x) = Inr (x, [])"
    if "ClientSessionTicket_wf x" for x
    using that by (cases x) (simp_all add: ClientSessionTicket_read_def Reader_left_def
        Payload_read_def Payload_encode_def Reader_rest_def)
qed

record ClientTicketRequest =
  ctr_new_session_count :: u8
  ctr_resumption_count :: u8

definition ClientTicketRequest_encode :: "ClientTicketRequest \<Rightarrow> bytes" where
  "ClientTicketRequest_encode t =
     u8_encode (ctr_new_session_count t) @ u8_encode (ctr_resumption_count t)"

definition ClientTicketRequest_read :: "ClientTicketRequest decoder" where
  "ClientTicketRequest_read r =
     bindR (u8_read r) (\<lambda>(n, r).
     bindR (u8_read r) (\<lambda>(m, r).
       Inr (\<lparr>ctr_new_session_count = n, ctr_resumption_count = m\<rparr>, r)))"

interpretation ctrc: canonical_codec
  ClientTicketRequest_encode ClientTicketRequest_read "\<lambda>_. True"
  by unfold_locales (auto simp: ClientTicketRequest_encode_def ClientTicketRequest_read_def
      wire_simps dest!: u8c.encode_read)

subsection \<open>Encrypted ClientHello\<close>

record EncryptedClientHelloOuter =
  echo_cipher_suite :: HpkeSymmetricCipherSuite
  echo_config_id :: u8
  echo_enc :: bytes
  echo_payload :: bytes

definition EncryptedClientHelloOuter_encode :: "EncryptedClientHelloOuter \<Rightarrow> bytes" where
  "EncryptedClientHelloOuter_encode e =
     HpkeSymmetricCipherSuite_encode (echo_cipher_suite e) @
     u8_encode (echo_config_id e) @
     SizedPayload_encode Size_u16 MaybeEmpty (echo_enc e) @
     SizedPayload_encode Size_u16 NonEmpty (echo_payload e)"

definition EncryptedClientHelloOuter_read :: "EncryptedClientHelloOuter decoder" where
  "EncryptedClientHelloOuter_read r =
     bindR (HpkeSymmetricCipherSuite_read r) (\<lambda>(s, r).
     bindR (u8_read r) (\<lambda>(cid, r).
     bindR (SizedPayload_read Size_u16 MaybeEmpty r) (\<lambda>(enc, r).
     bindR (SizedPayload_read Size_u16 NonEmpty r) (\<lambda>(p, r).
       Inr (\<lparr>echo_cipher_suite = s, echo_config_id = cid, echo_enc = enc, echo_payload = p\<rparr>, r)))))"

definition EncryptedClientHelloOuter_wf :: "EncryptedClientHelloOuter \<Rightarrow> bool" where
  "EncryptedClientHelloOuter_wf e =
     (SizedPayload_wf Size_u16 MaybeEmpty (echo_enc e) \<and>
      SizedPayload_wf Size_u16 NonEmpty (echo_payload e))"

interpretation echoc: canonical_codec
  EncryptedClientHelloOuter_encode EncryptedClientHelloOuter_read EncryptedClientHelloOuter_wf
  by unfold_locales (auto simp: EncryptedClientHelloOuter_encode_def
      EncryptedClientHelloOuter_read_def EncryptedClientHelloOuter_wf_def wire_simps
      dest!: hssc.encode_read u8c.encode_read spc.encode_read)

datatype EncryptedClientHello = EchOuter EncryptedClientHelloOuter | EchInner

fun EncryptedClientHello_encode :: "EncryptedClientHello \<Rightarrow> bytes" where
  "EncryptedClientHello_encode (EchOuter p) =
     u8_encode EchClientHelloType_ClientHelloOuter @ EncryptedClientHelloOuter_encode p"
| "EncryptedClientHello_encode EchInner = u8_encode EchClientHelloType_ClientHelloInner"

definition EncryptedClientHello_read :: "EncryptedClientHello decoder" where
  "EncryptedClientHello_read r =
     bindR (EchClientHelloType_read r) (\<lambda>(typ, r).
       if typ = EchClientHelloType_ClientHelloOuter then
         bindR (EncryptedClientHelloOuter_read r) (\<lambda>(p, r). Inr (EchOuter p, r))
       else if typ = EchClientHelloType_ClientHelloInner then Inr (EchInner, r)
       else Inl InvalidContentType)"

fun EncryptedClientHello_wf :: "EncryptedClientHello \<Rightarrow> bool" where
  "EncryptedClientHello_wf (EchOuter p) = EncryptedClientHelloOuter_wf p"
| "EncryptedClientHello_wf EchInner = True"

interpretation echc: canonical_codec
  EncryptedClientHello_encode EncryptedClientHello_read EncryptedClientHello_wf
proof unfold_locales
  show "EncryptedClientHello_read (EncryptedClientHello_encode x @ rest) = Inr (x, rest)"
    if "EncryptedClientHello_wf x" for x rest
    using that by (cases x) (simp_all add: EncryptedClientHello_read_def wire_simps)
  show "EncryptedClientHello_wf x \<and> r = EncryptedClientHello_encode x @ rest"
    if "EncryptedClientHello_read r = Inr (x, rest)" for r x rest
    using that by (auto simp: EncryptedClientHello_read_def split: if_splits
        dest!: enum8.encode_read echoc.encode_read)
qed

subsection \<open>Extensions of ClientHello\<close>

record ClientExtensions =
  cx_server_name :: "ServerNamePayload option"
  cx_certificate_status_request :: "CertificateStatusRequest option"
  cx_named_groups :: "NamedGroup list option"
  cx_ec_point_formats :: "SupportedEcPointFormats option"
  cx_signature_schemes :: "SignatureScheme list option"
  cx_protocols :: "ApplicationProtocol list option"
  cx_client_certificate_types :: "CertificateType list option"
  cx_server_certificate_types :: "CertificateType list option"
  cx_extended_main_secret_request :: "unit option"
  cx_certificate_compression_algorithms :: "CertificateCompressionAlgorithm list option"
  cx_session_ticket :: "ClientSessionTicket option"
  cx_preshared_key_offer :: "PresharedKeyOffer option"
  cx_early_data_request :: "unit option"
  cx_supported_versions :: "SupportedProtocolVersions option"
  cx_cookie :: "bytes option"
  cx_preshared_key_modes :: "PskKeyExchangeModes option"
  cx_certificate_authority_names :: "DistinguishedName list option"
  cx_key_shares :: "KeyShareEntry list option"
  cx_transport_parameters :: "bytes option"
  cx_ticket_request :: "ClientTicketRequest option"
  cx_renegotiation_info :: "bytes option"
  cx_encrypted_client_hello :: "EncryptedClientHello option"
  cx_encrypted_client_hello_outer :: "ExtensionType list option"
  cx_order_seed :: u16
  cx_contiguous_extensions :: "ExtensionType list"

definition ClientExtensions_default :: ClientExtensions where
  "ClientExtensions_default =
     \<lparr>cx_server_name = None, cx_certificate_status_request = None, cx_named_groups = None,
      cx_ec_point_formats = None, cx_signature_schemes = None, cx_protocols = None,
      cx_client_certificate_types = None, cx_server_certificate_types = None,
      cx_extended_main_secret_request = None, cx_certificate_compression_algorithms = None,
      cx_session_ticket = None, cx_preshared_key_offer = None, cx_early_data_request = None,
      cx_supported_versions = None, cx_cookie = None, cx_preshared_key_modes = None,
      cx_certificate_authority_names = None, cx_key_shares = None,
      cx_transport_parameters = None, cx_ticket_request = None, cx_renegotiation_info = None,
      cx_encrypted_client_hello = None, cx_encrypted_client_hello_outer = None,
      cx_order_seed = 0, cx_contiguous_extensions = []\<rparr>"

definition ClientExtensions_items ::
  "(bytes \<Rightarrow> ServerNameKind) \<Rightarrow> ClientExtensions ext_item list" where
  "ClientExtensions_items classify =
     [ext_slot ExtensionType_ServerName cx_server_name cx_server_name_update
        ServerNamePayload_encode (ServerNamePayload_read classify),
      ext_slot ExtensionType_StatusRequest
        cx_certificate_status_request cx_certificate_status_request_update
        CertificateStatusRequest_encode CertificateStatusRequest_read,
      ext_slot ExtensionType_EllipticCurves cx_named_groups cx_named_groups_update
        (Vec_encode NamedGroup_SIZE_LEN u16_encode) (Vec_read NamedGroup_SIZE_LEN NamedGroup_read),
      ext_slot ExtensionType_ECPointFormats cx_ec_point_formats cx_ec_point_formats_update
        SupportedEcPointFormats_encode SupportedEcPointFormats_read,
      ext_slot ExtensionType_SignatureAlgorithms cx_signature_schemes cx_signature_schemes_update
        SignatureSchemes_encode SignatureSchemes_read,
      ext_slot ExtensionType_ALProtocolNegotiation cx_protocols cx_protocols_update
        (Vec_encode ApplicationProtocol_SIZE_LEN ApplicationProtocol_encode)
        (Vec_read ApplicationProtocol_SIZE_LEN ApplicationProtocol_read),
      ext_slot ExtensionType_ClientCertificateType
        cx_client_certificate_types cx_client_certificate_types_update
        (Vec_encode CertificateType_SIZE_LEN u8_encode)
        (Vec_read CertificateType_SIZE_LEN CertificateType_read),
      ext_slot ExtensionType_ServerCertificateType
        cx_server_certificate_types cx_server_certificate_types_update
        (Vec_encode CertificateType_SIZE_LEN u8_encode)
        (Vec_read CertificateType_SIZE_LEN CertificateType_read),
      ext_slot ExtensionType_ExtendedMainSecret
        cx_extended_main_secret_request cx_extended_main_secret_request_update
        unit_encode unit_read,
      ext_slot ExtensionType_CompressCertificate
        cx_certificate_compression_algorithms cx_certificate_compression_algorithms_update
        (Vec_encode CertificateCompressionAlgorithm_SIZE_LEN u16_encode)
        (Vec_read CertificateCompressionAlgorithm_SIZE_LEN CertificateCompressionAlgorithm_read),
      ext_slot ExtensionType_SessionTicket cx_session_ticket cx_session_ticket_update
        ClientSessionTicket_encode ClientSessionTicket_read,
      ext_slot ExtensionType_PreSharedKey cx_preshared_key_offer cx_preshared_key_offer_update
        PresharedKeyOffer_encode PresharedKeyOffer_read,
      ext_slot ExtensionType_EarlyData cx_early_data_request cx_early_data_request_update
        unit_encode unit_read,
      ext_slot ExtensionType_SupportedVersions cx_supported_versions cx_supported_versions_update
        SupportedProtocolVersions_encode SupportedProtocolVersions_read,
      ext_slot ExtensionType_Cookie cx_cookie cx_cookie_update
        (SizedPayload_encode Size_u16 NonEmpty) (SizedPayload_read Size_u16 NonEmpty),
      ext_slot ExtensionType_PSKKeyExchangeModes cx_preshared_key_modes cx_preshared_key_modes_update
        PskKeyExchangeModes_encode PskKeyExchangeModes_read,
      ext_slot ExtensionType_CertificateAuthorities
        cx_certificate_authority_names cx_certificate_authority_names_update
        DistinguishedNames_encode DistinguishedNames_read,
      ext_slot ExtensionType_KeyShare cx_key_shares cx_key_shares_update
        (Vec_encode KeyShareEntry_SIZE_LEN KeyShareEntry_encode)
        (Vec_read KeyShareEntry_SIZE_LEN KeyShareEntry_read),
      ext_slot ExtensionType_TransportParameters
        cx_transport_parameters cx_transport_parameters_update
        Payload_encode Payload_read,
      ext_slot ExtensionType_TicketRequest cx_ticket_request cx_ticket_request_update
        ClientTicketRequest_encode ClientTicketRequest_read,
      ext_slot ExtensionType_RenegotiationInfo cx_renegotiation_info cx_renegotiation_info_update
        (SizedPayload_encode Size_u8 MaybeEmpty) (SizedPayload_read Size_u8 MaybeEmpty),
      ext_slot ExtensionType_EncryptedClientHello
        cx_encrypted_client_hello cx_encrypted_client_hello_update
        EncryptedClientHello_encode EncryptedClientHello_read,
      ext_slot ExtensionType_EncryptedClientHelloOuterExtensions
        cx_encrypted_client_hello_outer cx_encrypted_client_hello_outer_update
        (Vec_encode ExtensionType_SIZE_LEN u16_encode)
        (Vec_read ExtensionType_SIZE_LEN ExtensionType_read)]"

subsection \<open>Order of the extensions\<close>

definition low_quality_integer_hash :: "u32 \<Rightarrow> u32" where
  "low_quality_integer_hash x =
     (let x = x + 0x7ed55d16 + push_bit 12 x;
          x = (x XOR 0xc761c23c) XOR drop_bit 19 x;
          x = x + 0x165667b1 + push_bit 5 x;
          x = (x + 0xd3a2646c) XOR push_bit 9 x;
          x = x + 0xfd7046c5 + push_bit 3 x;
          x = (x XOR 0xb55a4f09) XOR drop_bit 16 x
      in x)"

definition ClientExtensions_order_insensitive ::
  "(bytes \<Rightarrow> ServerNameKind) \<Rightarrow> ClientExtensions \<Rightarrow> ExtensionType list" where
  "ClientExtensions_order_insensitive classify s =
     (let order = collect_used (ClientExtensions_items classify) s;
          order = filter (\<lambda>ext. \<not> (ext \<in> {ExtensionType_PreSharedKey,
            ExtensionType_EncryptedClientHello, ExtensionType_EncryptedClientHelloOuterExtensions}
            \<or> ext \<in> set (cx_contiguous_extensions s))) order
      in sort_key (\<lambda>new_ext.
           let seed = push_bit 16 (ucast (cx_order_seed s)) OR ucast new_ext
           in low_quality_integer_hash seed) order)"

definition ClientExtensions_used_in_encoding_order ::
  "(bytes \<Rightarrow> ServerNameKind) \<Rightarrow> ClientExtensions \<Rightarrow> ExtensionType list" where
  "ClientExtensions_used_in_encoding_order classify s =
     ClientExtensions_order_insensitive classify s @
     cx_contiguous_extensions s @
     (if cx_encrypted_client_hello_outer s \<noteq> None
      then [ExtensionType_EncryptedClientHelloOuterExtensions] else []) @
     (if cx_encrypted_client_hello s \<noteq> None then [ExtensionType_EncryptedClientHello] else []) @
     (if cx_preshared_key_offer s \<noteq> None then [ExtensionType_PreSharedKey] else [])"

definition ClientExtensions_encode ::
  "(bytes \<Rightarrow> ServerNameKind) \<Rightarrow> ClientExtensions \<Rightarrow> bytes" where
  "ClientExtensions_encode classify s =
     (let order = ClientExtensions_used_in_encoding_order classify s in
      if order = [] then []
      else length_prefixed U16 (concat (map (encode_one (ClientExtensions_items classify) s) order)))"

definition ClientExtensions_unknown ::
  "ExtensionType \<Rightarrow> DuplicateExtensionChecker \<Rightarrow> InvalidMessage + DuplicateExtensionChecker" where
  "ClientExtensions_unknown unk checker =
     (if unk = ExtensionType_OIDFilters then Inl (MisplacedExtension unk)
      else DuplicateExtensionChecker_check unk checker)"

definition ClientExtensions_post ::
  "ExtensionType \<Rightarrow> bool \<Rightarrow> unit \<Rightarrow> InvalidMessage + unit" where
  "ClientExtensions_post typ any_left st =
     (if typ = ExtensionType_EncryptedClientHelloOuterExtensions then Inl (MisplacedExtension typ)
      else if typ = ExtensionType_PreSharedKey \<and> any_left then Inl PreSharedKeyIsNotFinalExtension
      else Inr st)"

definition ClientExtensions_read ::
  "(bytes \<Rightarrow> ServerNameKind) \<Rightarrow> ClientExtensions decoder" where
  "ClientExtensions_read classify r =
     (if \<not> Reader_any_left r then Inr (ClientExtensions_default, r)
      else bindR (read_u16_sub r) (\<lambda>(sub, r).
        bindR (read_extensions (ClientExtensions_items classify) ''ClientExtensions''
          ClientExtensions_unknown ClientExtensions_post
          (ClientExtensions_default, DuplicateExtensionChecker_new, ()) sub)
        (\<lambda>(out, _, _).
          if cx_certificate_authority_names out = Some []
          then Inl IllegalEmptyCertificateAuthoritiesExtension
          else Inr (out, r))))"

subsection \<open>Round trip of the extensions\<close>

definition ClientExtensions_slots_wf ::
  "(bytes \<Rightarrow> ServerNameKind) \<Rightarrow> ClientExtensions \<Rightarrow> bool" where
  "ClientExtensions_slots_wf classify s =
     (pred_option (ServerNamePayload_wf classify) (cx_server_name s) \<and>
      pred_option CertificateStatusRequest_wf (cx_certificate_status_request s) \<and>
      pred_option (enums16_wf NamedGroup_SIZE_LEN) (cx_named_groups s) \<and>
      pred_option SupportedEcPointFormats_wf (cx_ec_point_formats s) \<and>
      pred_option (enums16_wf SignatureScheme_SIZE_LEN) (cx_signature_schemes s) \<and>
      pred_option (Vec_wf ApplicationProtocol_SIZE_LEN ApplicationProtocol_encode
        ApplicationProtocol_wf) (cx_protocols s) \<and>
      pred_option (enums8_wf CertificateType_SIZE_LEN) (cx_client_certificate_types s) \<and>
      pred_option (enums8_wf CertificateType_SIZE_LEN) (cx_server_certificate_types s) \<and>
      pred_option (enums16_wf CertificateCompressionAlgorithm_SIZE_LEN)
        (cx_certificate_compression_algorithms s) \<and>
      pred_option ClientSessionTicket_wf (cx_session_ticket s) \<and>
      pred_option PresharedKeyOffer_wf (cx_preshared_key_offer s) \<and>
      pred_option SupportedProtocolVersions_wf (cx_supported_versions s) \<and>
      pred_option (SizedPayload_wf Size_u16 NonEmpty) (cx_cookie s) \<and>
      pred_option PskKeyExchangeModes_wf (cx_preshared_key_modes s) \<and>
      pred_option DistinguishedNames_wf (cx_certificate_authority_names s) \<and>
      pred_option (Vec_wf KeyShareEntry_SIZE_LEN KeyShareEntry_encode KeyShareEntry_wf)
        (cx_key_shares s) \<and>
      pred_option (SizedPayload_wf Size_u8 MaybeEmpty) (cx_renegotiation_info s) \<and>
      pred_option EncryptedClientHello_wf (cx_encrypted_client_hello s) \<and>
      pred_option (enums16_wf ExtensionType_SIZE_LEN) (cx_encrypted_client_hello_outer s))"

definition ClientExtensions_frame :: "ClientExtensions \<Rightarrow> u16 \<times> ExtensionType list" where
  "ClientExtensions_frame s = (cx_order_seed s, cx_contiguous_extensions s)"

lemmas ClientExtensions_simps = ClientExtensions_items_def ext_slot_simps

lemma ClientExtensions_same_other:
  "\<forall>i \<in> set (ClientExtensions_items classify). \<forall>j \<in> set (ClientExtensions_items classify).
     item_id i \<noteq> item_id j \<longrightarrow> (\<forall>t s acc. same i t (item_copy j s acc) \<longleftrightarrow> same i t acc)"
  by (simp add: ClientExtensions_simps)

lemma ClientExtensions_read_presence:
  "\<forall>i \<in> set (ClientExtensions_items classify). \<forall>j \<in> set (ClientExtensions_items classify).
     \<forall>body acc acc' rest. item_read i body acc = Inr (acc', rest) \<longrightarrow>
       (item_present j acc' \<longleftrightarrow> item_id j = item_id i \<or> item_present j acc)"
  by (simp add: ClientExtensions_simps result_simps case_prod_unfold) (intro conjI; clarsimp)

lemma ClientExtensions_read_body:
  "ClientExtensions_slots_wf classify s \<Longrightarrow>
     \<forall>i \<in> set (ClientExtensions_items classify). \<forall>body acc. item_encode i s = Some body \<longrightarrow>
       item_read i body acc = Inr (item_copy i s acc, [])"
  by (simp add: ClientExtensions_simps ClientExtensions_slots_wf_def wire_simps unit_encode_def
      pred_option_def) (intro conjI allI impI; force simp: wire_simps)

interpretation cexts23: extension_struct
  "ClientExtensions_items classify" ClientExtensions_default ClientExtensions_frame
  "ClientExtensions_slots_wf classify" for classify
proof unfold_locales
  fix i j :: "ClientExtensions ext_item" and s t acc body
  let ?items = "set (ClientExtensions_items classify)"
  show "distinct (map item_id (ClientExtensions_items classify))"
    by (simp add: ClientExtensions_simps)
  show "\<forall>i \<in> ?items. same i s t \<Longrightarrow> ClientExtensions_frame s = ClientExtensions_frame t \<Longrightarrow> s = t"
    by (simp add: ClientExtensions_simps ClientExtensions_frame_def)
  assume i: "i \<in> ?items"
  show "\<not> item_present i ClientExtensions_default"
    using i by (auto simp: ClientExtensions_simps ClientExtensions_default_def)
  show "item_encode i s = None \<longleftrightarrow> \<not> item_present i s"
    using i by (auto simp: ClientExtensions_simps simp del: not_None_eq)
  show "ClientExtensions_slots_wf classify s \<Longrightarrow> item_encode i s = Some body \<Longrightarrow>
      item_read i body acc = Inr (item_copy i s acc, [])"
    using ClientExtensions_read_body i by blast
  show "same i s (item_copy i s acc)" using i by (auto simp: ClientExtensions_simps)
  show "j \<in> ?items \<Longrightarrow> item_id i \<noteq> item_id j \<Longrightarrow> same i t (item_copy j s acc) \<longleftrightarrow> same i t acc"
    using ClientExtensions_same_other i by blast
  show "j \<in> ?items \<Longrightarrow> item_read i body acc = Inr (acc', rest) \<Longrightarrow>
      item_present j acc' \<longleftrightarrow> item_id j = item_id i \<or> item_present j acc" for acc' rest
    using ClientExtensions_read_presence i by blast
  show "same i s t \<Longrightarrow> item_present i t \<longleftrightarrow> item_present i s"
    using i by (auto simp: ClientExtensions_simps simp del: not_None_eq)
  show "\<not> item_present i s \<Longrightarrow> \<not> item_present i t \<Longrightarrow> same i s t"
    using i by (auto simp: ClientExtensions_simps simp del: not_None_eq)
  show "ClientExtensions_frame (item_copy i s acc) = ClientExtensions_frame acc"
    using i by (auto simp: ClientExtensions_simps ClientExtensions_frame_def)
qed

text \<open>The two fields that say how to encode are not part of the encoding.\<close>

definition ClientExtensions_wire :: "ClientExtensions \<Rightarrow> ClientExtensions" where
  "ClientExtensions_wire s = s\<lparr>cx_order_seed := 0, cx_contiguous_extensions := []\<rparr>"

lemma ClientExtensions_wire_simps:
  "encode_one (ClientExtensions_items classify) (ClientExtensions_wire s) =
     encode_one (ClientExtensions_items classify) s"
  "collect_used (ClientExtensions_items classify) (ClientExtensions_wire s) =
     collect_used (ClientExtensions_items classify) s"
  "ClientExtensions_slots_wf classify (ClientExtensions_wire s) =
     ClientExtensions_slots_wf classify s"
  "ClientExtensions_frame (ClientExtensions_wire s) = ClientExtensions_frame ClientExtensions_default"
proof -
  show "encode_one (ClientExtensions_items classify) (ClientExtensions_wire s) =
     encode_one (ClientExtensions_items classify) s"
    by (rule encode_one_cong) (simp add: ClientExtensions_items_def ext_slot_sel
        ClientExtensions_wire_def)
  show "collect_used (ClientExtensions_items classify) (ClientExtensions_wire s) =
     collect_used (ClientExtensions_items classify) s"
    by (rule collect_used_cong) (simp add: ClientExtensions_items_def ext_slot_sel
        ClientExtensions_wire_def)
qed (simp_all add: ClientExtensions_wire_def ClientExtensions_slots_wf_def
    ClientExtensions_frame_def ClientExtensions_default_def)

abbreviation order_sensitive :: "ExtensionType set" where
  "order_sensitive \<equiv> {ExtensionType_PreSharedKey, ExtensionType_EncryptedClientHello,
     ExtensionType_EncryptedClientHelloOuterExtensions}"

definition ClientExtensions_wf :: "(bytes \<Rightarrow> ServerNameKind) \<Rightarrow> ClientExtensions \<Rightarrow> bool" where
  "ClientExtensions_wf classify s =
     (ClientExtensions_slots_wf classify s \<and>
      cx_encrypted_client_hello_outer s = None \<and>
      cx_certificate_authority_names s \<noteq> Some [] \<and>
      distinct (cx_contiguous_extensions s) \<and>
      set (cx_contiguous_extensions s) \<inter> order_sensitive = {} \<and>
      length (concat (map (encode_one (ClientExtensions_items classify) s)
        (ClientExtensions_used_in_encoding_order classify s))) < 2 ^ 16)"

lemma special_used:
  "ExtensionType_EncryptedClientHelloOuterExtensions \<in> set (collect_used (ClientExtensions_items classify) s)
     \<longleftrightarrow> cx_encrypted_client_hello_outer s \<noteq> None"
  "ExtensionType_EncryptedClientHello \<in> set (collect_used (ClientExtensions_items classify) s)
     \<longleftrightarrow> cx_encrypted_client_hello s \<noteq> None"
  "ExtensionType_PreSharedKey \<in> set (collect_used (ClientExtensions_items classify) s)
     \<longleftrightarrow> cx_preshared_key_offer s \<noteq> None"
  unfolding cexts23.contains_iff_used [symmetric]
  by (simp_all add: contains_def find_item_def ClientExtensions_items_def ext_slot_sel)

lemma set_order_insensitive:
  "set (ClientExtensions_order_insensitive classify s) =
     set (collect_used (ClientExtensions_items classify) s) - order_sensitive
       - set (cx_contiguous_extensions s)"
  by (auto simp: ClientExtensions_order_insensitive_def Let_def)

lemma distinct_order_insensitive: "distinct (ClientExtensions_order_insensitive classify s)"
  using cexts23.ids_distinct [of classify]
  by (simp add: ClientExtensions_order_insensitive_def Let_def collect_used_def distinct_map_filter)

text \<open>
  Whatever the seed, the order used for encoding has every extension in use once.
\<close>

lemma used_in_encoding_order:
  assumes "distinct (cx_contiguous_extensions s)"
    and "set (cx_contiguous_extensions s) \<inter> order_sensitive = {}"
  shows "distinct (ClientExtensions_used_in_encoding_order classify s)"
    and "set (collect_used (ClientExtensions_items classify) s) \<subseteq>
      set (ClientExtensions_used_in_encoding_order classify s)"
    and "set (ClientExtensions_used_in_encoding_order classify s) =
      set (collect_used (ClientExtensions_items classify) s) \<union> set (cx_contiguous_extensions s)"
proof -
  show "distinct (ClientExtensions_used_in_encoding_order classify s)"
    using assms by (auto simp: ClientExtensions_used_in_encoding_order_def distinct_order_insensitive
        set_order_insensitive)
  show "set (ClientExtensions_used_in_encoding_order classify s) =
      set (collect_used (ClientExtensions_items classify) s) \<union> set (cx_contiguous_extensions s)"
    using assms special_used [of classify s]
    by (auto simp: ClientExtensions_used_in_encoding_order_def set_order_insensitive
        simp del: not_None_eq split: if_splits)
  thus "set (collect_used (ClientExtensions_items classify) s) \<subseteq>
      set (ClientExtensions_used_in_encoding_order classify s)" by blast
qed

text \<open>The check of the reader passes a sequence in which \<open>pre_shared_key\<close> comes last.\<close>

lemma run_post_client:
  assumes "ExtensionType_EncryptedClientHelloOuterExtensions \<notin> set (xs @ ys)"
    and "ExtensionType_PreSharedKey \<notin> set xs" "set ys \<subseteq> {ExtensionType_PreSharedKey}" "distinct ys"
  shows "run_post ClientExtensions_post (xs @ ys) st = Inr st"
  using assms
proof (induction xs arbitrary: st)
  case Nil
  have "ys = [] \<or> ys = [ExtensionType_PreSharedKey]"
    using Nil(3,4) by (cases ys; cases "tl ys") auto
  thus ?case by (auto simp: ClientExtensions_post_def)
next
  case (Cons x xs)
  thus ?case by (auto simp: ClientExtensions_post_def)
qed

lemma ClientExtensions_loop_round_trip:
  assumes "ClientExtensions_wf classify s"
  shows "read_extensions (ClientExtensions_items classify) nm ClientExtensions_unknown
      ClientExtensions_post (ClientExtensions_default, u, ())
      (concat (map (encode_one (ClientExtensions_items classify) s)
        (ClientExtensions_used_in_encoding_order classify s))) =
    Inr (ClientExtensions_wire s, u, ())"
proof -
  let ?items = "ClientExtensions_items classify"
  let ?order = "ClientExtensions_used_in_encoding_order classify s"
  let ?psk = "if cx_preshared_key_offer s \<noteq> None then [ExtensionType_PreSharedKey] else []"
  obtain pre where pre: "?order = pre @ ?psk" "ExtensionType_PreSharedKey \<notin> set pre"
    "ExtensionType_EncryptedClientHelloOuterExtensions \<notin> set pre"
    using assms set_order_insensitive [of classify s]
    by (auto simp: ClientExtensions_used_in_encoding_order_def ClientExtensions_wf_def)
  let ?c = "contains ?items (ClientExtensions_wire s)"
  have "run_post ClientExtensions_post (filter ?c pre @ filter ?c ?psk) () = Inr ()"
    using pre(2,3) by (intro run_post_client) auto
  thus ?thesis
    using cexts23.read_extensions_round_trip [of classify "ClientExtensions_wire s" ?order nm
        ClientExtensions_unknown ClientExtensions_post u "()"]
      used_in_encoding_order [of s classify] assms pre(1)
    by (simp add: ClientExtensions_wire_simps ClientExtensions_wf_def)
qed

subsection \<open>ClientHello\<close>

record ClientHelloPayload =
  ch_client_version :: ProtocolVersion
  ch_random :: Random
  ch_session_id :: SessionId
  ch_cipher_suites :: "CipherSuite list"
  ch_compression_methods :: "Compression list"
  ch_extensions :: ClientExtensions

definition ClientHelloPayload_payload_encode ::
  "(bytes \<Rightarrow> ServerNameKind) \<Rightarrow> Encoding \<Rightarrow> ClientHelloPayload \<Rightarrow> bytes" where
  "ClientHelloPayload_payload_encode classify purpose h =
     u16_encode (ch_client_version h) @
     Random_encode (ch_random h) @
     SessionId_encode (case purpose of EchInnerHello _ \<Rightarrow> SessionId_empty | _ \<Rightarrow> ch_session_id h) @
     Vec_encode CipherSuite_SIZE_LEN u16_encode (ch_cipher_suites h) @
     Vec_encode Compression_SIZE_LEN u8_encode (ch_compression_methods h) @
     (case purpose of
        EchInnerHello to_compress \<Rightarrow>
          if to_compress = [] then ClientExtensions_encode classify (ch_extensions h)
          else
            (let compressed =
               fold (clear_one (ClientExtensions_items classify)) to_compress (ch_extensions h)
             in ClientExtensions_encode classify
                  (compressed\<lparr>cx_encrypted_client_hello_outer := Some to_compress\<rparr>))
      | _ \<Rightarrow> ClientExtensions_encode classify (ch_extensions h))"

definition ClientHelloPayload_ech_inner_encoding ::
  "(bytes \<Rightarrow> ServerNameKind) \<Rightarrow> ExtensionType list \<Rightarrow> ClientHelloPayload \<Rightarrow> bytes" where
  "ClientHelloPayload_ech_inner_encoding classify to_compress h =
     ClientHelloPayload_payload_encode classify (EchInnerHello to_compress) h"

definition ClientHelloPayload_encode ::
  "(bytes \<Rightarrow> ServerNameKind) \<Rightarrow> ClientHelloPayload \<Rightarrow> bytes" where
  "ClientHelloPayload_encode classify h = ClientHelloPayload_payload_encode classify Standard h"

definition ClientHelloPayload_read ::
  "(bytes \<Rightarrow> ServerNameKind) \<Rightarrow> ClientHelloPayload decoder" where
  "ClientHelloPayload_read classify =
     Reader_all ''ClientHelloPayload'' (\<lambda>r.
       bindR (ProtocolVersion_read r) (\<lambda>(v, r).
       bindR (Random_read r) (\<lambda>(rnd, r).
       bindR (SessionId_read r) (\<lambda>(sid, r).
       bindR (Vec_read CipherSuite_SIZE_LEN CipherSuite_read r) (\<lambda>(cs, r).
       bindR (Vec_read Compression_SIZE_LEN Compression_read r) (\<lambda>(cm, r).
       bindR (ClientExtensions_read classify r) (\<lambda>(x, r).
         Inr (\<lparr>ch_client_version = v, ch_random = rnd, ch_session_id = sid, ch_cipher_suites = cs,
               ch_compression_methods = cm, ch_extensions = x\<rparr>, r))))))))"

definition ClientHelloPayload_has_keyshare_extension_with_duplicates ::
  "ClientHelloPayload \<Rightarrow> bool" where
  "ClientHelloPayload_has_keyshare_extension_with_duplicates h =
     (case cx_key_shares (ch_extensions h) of
        None \<Rightarrow> False
      | Some entries \<Rightarrow> has_duplicates (map kse_group entries))"

definition ClientHelloPayload_has_certificate_compression_extension_with_duplicates ::
  "ClientHelloPayload \<Rightarrow> bool" where
  "ClientHelloPayload_has_certificate_compression_extension_with_duplicates h =
     (case cx_certificate_compression_algorithms (ch_extensions h) of
        Some algs \<Rightarrow> has_duplicates algs
      | None \<Rightarrow> False)"

definition ClientHelloPayload_wf ::
  "(bytes \<Rightarrow> ServerNameKind) \<Rightarrow> ClientHelloPayload \<Rightarrow> bool" where
  "ClientHelloPayload_wf classify h =
     (Random_wf (ch_random h) \<and> SessionId_wf (ch_session_id h) \<and>
      enums16_wf CipherSuite_SIZE_LEN (ch_cipher_suites h) \<and>
      enums8_wf Compression_SIZE_LEN (ch_compression_methods h) \<and>
      ClientExtensions_wf classify (ch_extensions h))"

definition ClientHelloPayload_wire :: "ClientHelloPayload \<Rightarrow> ClientHelloPayload" where
  "ClientHelloPayload_wire h = h\<lparr>ch_extensions := ClientExtensions_wire (ch_extensions h)\<rparr>"

lemma ClientExtensions_read_encode:
  assumes "ClientExtensions_wf classify s"
  shows "ClientExtensions_read classify (ClientExtensions_encode classify s) =
    Inr (ClientExtensions_wire s, [])"
proof (cases "ClientExtensions_used_in_encoding_order classify s = []")
  case True
  have "read_extensions (ClientExtensions_items classify) [] ClientExtensions_unknown
      ClientExtensions_post (ClientExtensions_default, DuplicateExtensionChecker_new, ()) [] =
      Inr (ClientExtensions_wire s, DuplicateExtensionChecker_new, ())"
    using ClientExtensions_loop_round_trip [OF assms, of "[]" DuplicateExtensionChecker_new] True
    by simp
  hence "ClientExtensions_default = ClientExtensions_wire s"
    by (subst (asm) read_extensions_loop) simp
  thus ?thesis
    by (simp add: ClientExtensions_read_def ClientExtensions_encode_def True Reader_any_left_def)
next
  case False
  let ?body = "concat (map (encode_one (ClientExtensions_items classify) s)
      (ClientExtensions_used_in_encoding_order classify s))"
  have len: "length ?body < 2 ^ 16" using assms by (simp add: ClientExtensions_wf_def)
  have "read_u16_sub (length_prefixed U16 ?body) = Inr (?body, [])"
    using read_u16_sub_prefixed [OF len, of "[]"] by simp
  moreover have "cx_certificate_authority_names (ClientExtensions_wire s) \<noteq> Some []"
    using assms by (simp add: ClientExtensions_wire_def ClientExtensions_wf_def)
  ultimately show ?thesis
    using ClientExtensions_loop_round_trip [OF assms] False
    by (simp add: ClientExtensions_read_def ClientExtensions_encode_def Reader_any_left_def
        length_prefixed_nonempty)
qed

text \<open>
  An empty structure is written as nothing at all, so the reader must be told there is
  nothing left: the round trip is one of whole bodies.
\<close>

interpretation cextsc: body_codec
  "ClientExtensions_encode classify" "ClientExtensions_read classify"
  "\<lambda>s. ClientExtensions_wf classify s \<and> ClientExtensions_wire s = s" for classify
  by unfold_locales (simp add: ClientExtensions_read_encode)

lemma ClientHelloPayload_read_encode:
  assumes "ClientHelloPayload_wf classify h"
  shows "ClientHelloPayload_read classify (ClientHelloPayload_encode classify h) =
    Inr (ClientHelloPayload_wire h, [])"
  using assms
  by (simp add: ClientHelloPayload_read_def ClientHelloPayload_encode_def
      ClientHelloPayload_payload_encode_def ClientHelloPayload_wf_def ClientHelloPayload_wire_def
      Reader_all_Inr_iff wire_simps ClientExtensions_read_encode)

interpretation chc: body_codec
  "ClientHelloPayload_encode classify" "ClientHelloPayload_read classify"
  "\<lambda>h. ClientHelloPayload_wf classify h \<and> ClientHelloPayload_wire h = h" for classify
  by unfold_locales (simp add: ClientHelloPayload_read_encode)

subsection \<open>What the reader of the extensions enforces\<close>

lemma run_post_client_InrD:
  assumes "run_post ClientExtensions_post ts st = Inr st'"
  shows "ExtensionType_EncryptedClientHelloOuterExtensions \<notin> set ts \<and>
    (\<forall>ys zs. ts = ys @ ExtensionType_PreSharedKey # zs \<longrightarrow> zs = [])"
  using assms
proof (induction ts arbitrary: st)
  case (Cons t ts)
  from Cons.prems obtain st1 where "ClientExtensions_post t (ts \<noteq> []) st = Inr st1"
    "run_post ClientExtensions_post ts st1 = Inr st'" by auto
  with Cons.IH show ?case
    by (fastforce simp: ClientExtensions_post_def Cons_eq_append_conv split: if_splits)
qed simp

lemma ClientExtensions_unknown_InrD:
  "ClientExtensions_unknown x c = Inr c' \<Longrightarrow>
     DuplicateExtensionChecker_check x c = Inr c' \<and> x \<noteq> ExtensionType_OIDFilters"
  by (auto simp: ClientExtensions_unknown_def split: if_splits)

lemma ClientExtensions_read_enforces:
  assumes "ClientExtensions_read classify r = Inr (x, rest)" "r \<noteq> []"
  shows "\<exists>xs. r = length_prefixed U16 (concat (map tlv xs)) @ rest \<and>
    distinct (map fst xs) \<and>
    ExtensionType_EncryptedClientHelloOuterExtensions \<notin> set (map fst xs) \<and>
    ExtensionType_OIDFilters \<notin> set (map fst xs) \<and>
    (\<forall>ys zs. map fst xs = ys @ ExtensionType_PreSharedKey # zs \<longrightarrow> zs = []) \<and>
    set (collect_used (ClientExtensions_items classify) x) =
      set (map fst xs) \<inter> set (ALL_EXTENSIONS (ClientExtensions_items classify))"
proof -
  let ?items = "ClientExtensions_items classify"
  obtain sub c where r: "r = length_prefixed U16 sub @ rest"
    and loop: "read_extensions ?items ''ClientExtensions'' ClientExtensions_unknown
      ClientExtensions_post (ClientExtensions_default, DuplicateExtensionChecker_new, ()) sub =
      Inr (x, c, ())"
    using assms by (fastforce simp: ClientExtensions_read_def Reader_any_left_def
        split: if_splits dest!: read_u16_sub_InrD)
  from cexts23.read_extensions_trace [OF loop] obtain xs where xs: "sub = concat (map tlv xs)"
    "cexts23.reads_as classify ClientExtensions_unknown ClientExtensions_post
      (ClientExtensions_default, DuplicateExtensionChecker_new, ()) (x, c, ()) xs" by blast
  let ?ts = "map fst xs" and ?known = "\<lambda>t. find_item ?items t \<noteq> None"
  from xs(2) have post: "run_post ClientExtensions_post ?ts () = Inr ()"
    and unk: "run_unknown ClientExtensions_unknown (filter (\<lambda>t. \<not> ?known t) ?ts)
      DuplicateExtensionChecker_new = Inr c"
    and dis: "distinct (filter ?known ?ts)"
    and cont: "contains ?items x t \<longleftrightarrow> ?known t \<and> t \<in> set ?ts" for t
    by (auto simp: cexts23.reads_as_def Let_def cexts23.contains_iff_used
        collect_used_def cexts23.present_default)
  from run_unknown_weaken [where g = DuplicateExtensionChecker_check
      and P = "\<lambda>t. t \<noteq> ExtensionType_OIDFilters", OF unk ClientExtensions_unknown_InrD]
  have "run_unknown DuplicateExtensionChecker_check (filter (\<lambda>t. \<not> ?known t) ?ts)
      DuplicateExtensionChecker_new = Inr c"
    and oid: "\<forall>t \<in> set (filter (\<lambda>t. \<not> ?known t) ?ts). t \<noteq> ExtensionType_OIDFilters" by auto
  from run_unknown_check_distinct [OF this(1)] inline.invar_empty
  have "distinct (filter (\<lambda>t. \<not> ?known t) ?ts)"
    by (simp add: DuplicateExtensionChecker_new_def)
  with dis have "distinct ?ts" using distinct_filter_split by blast
  moreover have "\<not> ?known ExtensionType_OIDFilters"
    by (simp add: find_item_def ClientExtensions_items_def ext_slot_sel)
  hence "ExtensionType_OIDFilters \<notin> set ?ts" using oid by (metis (mono_tags) set_filter mem_Collect_eq)
  moreover have "set (collect_used ?items x) = set ?ts \<inter> set (ALL_EXTENSIONS ?items)"
    using cont cexts23.known_iff [of classify] by (auto simp: cexts23.contains_iff_used)
  ultimately show ?thesis
    using run_post_client_InrD [OF post] r xs(1) by (intro exI [of _ xs]) simp
qed

end
