(* ===== verification/Tls_Error.thy ===== *)
theory Tls_Error
  imports Wire_ServerHello
begin

text \<open>
  The error types of the crate (\<open>rustls/src/error/mod.rs\<close>) and the alerts the connection
  sends for them.  Third-party types that only occur as payload of an error
  (\<open>UnixTime\<close>, \<open>ServerName\<close>, \<open>AlgorithmIdentifier\<close> of \<open>pki_types\<close>, and the boxed
  \<open>dyn Error\<close> of \<open>OtherError\<close>) are uninterpreted types.
\<close>

typedecl UnixTime
typedecl ServerName
typedecl AlgorithmIdentifier
typedecl OtherError

datatype (plugins only:) PeerMisbehaved =
    AttemptedDowngradeToTls12WhenTls13IsSupported
  | BadCertChainExtensions
  | CipherSuiteDifferedOnRetry
  | DisallowedEncryptedExtension
  | DuplicateClientHelloExtensions
  | DuplicateEncryptedExtensions
  | DuplicateHelloRetryRequestExtensions
  | DuplicateNewSessionTicketExtensions
  | DuplicateServerHelloExtensions
  | DuplicateServerNameTypes
  | EarlyDataAttemptedInSecondClientHello
  | EarlyDataExtensionWithoutResumption
  | EarlyDataOfferedWithVariedCipherSuite
  | EchAcceptanceVariedAfterRetry
  | EmptyFragment
  | HandshakeHashVariedAfterRetry
  | IllegalAlertLevel u8 AlertDescription
  | IllegalHelloRetryRequestWithEmptyCookie
  | IllegalHelloRetryRequestWithNoChanges
  | IllegalHelloRetryRequestWithOfferedGroup
  | IllegalHelloRetryRequestWithUnofferedCipherSuite
  | IllegalHelloRetryRequestWithUnofferedNamedGroup
  | IllegalHelloRetryRequestWithUnsupportedVersion
  | IllegalHelloRetryRequestWithWrongSessionId
  | IllegalHelloRetryRequestWithInvalidEch
  | IllegalMiddleboxChangeCipherSpec
  | IllegalTlsInnerPlaintext
  | IllegalWarningAlert AlertDescription
  | IncorrectBinder
  | IncorrectFinished
  | InvalidCertCompression
  | InvalidMaxEarlyDataSize
  | InvalidKeyShare
  | KeyEpochWithPendingFragment
  | KeyUpdateReceivedInQuicConnection
  | MessageInterleavedWithHandshakeMessage
  | MissingBinderInPskExtension
  | MissingKeyShare
  | MissingPskExtensionInSecondClientHello
  | MissingPskModesExtension
  | MissingQuicTransportParameters
  | NoCertificatesPresented
  | NonEmptyRenegotiationInfo
  | OfferedDuplicateCertificateCompressions
  | OfferedDuplicateKeyShares
  | OfferedEarlyDataWithOldProtocolVersion
  | OfferedEmptyApplicationProtocol
  | OfferedIncorrectCompressions
  | PskExtensionMustBeLast
  | PskExtensionWithMismatchedIdsAndBinders
  | RefusedToFollowHelloRetryRequest
  | RejectedEarlyDataInterleavedWithHandshakeMessage
  | ResumptionAttemptedWithVariedEms
  | ResumptionOfferedWithVariedCipherSuite
  | ResumptionOfferedWithVariedEms
  | ResumptionOfferedWithIncompatibleCipherSuite
  | SelectedDifferentCipherSuiteAfterRetry
  | SelectedDifferentProtocolVersionAfterRetry
  | SelectedInvalidPsk
  | SelectedTls12UsingTls13VersionExtension
  | SelectedUnofferedApplicationProtocol
  | SelectedUnofferedCertCompression
  | SelectedUnofferedCipherSuite
  | SelectedUnofferedCompression
  | SelectedUnofferedKxGroup
  | SelectedUnofferedPsk
  | ServerEchoedCompatibilitySessionId
  | ServerHelloMustOfferUncompressedEcPoints
  | ServerNameDifferedOnRetry
  | ServerNameMustContainOneHostName
  | SignedKxWithWrongAlgorithm
  | SignedHandshakeWithUnadvertisedSigScheme
  | TooManyEmptyFragments
  | TooManyConsecutiveHandshakeMessagesAfterHandshake
  | TooManyRenegotiationRequests
  | TooManyWarningAlertsReceived
  | TooMuchEarlyDataReceived
  | UnexpectedCleartextExtension
  | UnmatchedSessionId
  | UnsolicitedCertExtension
  | UnsolicitedEncryptedExtension
  | UnsolicitedSctList
  | UnsolicitedServerHelloExtension
  | WrongGroupForKeyShare
  | UnsolicitedEchExtension
  | IllegalTls13ContentType

datatype (plugins only:) PeerIncompatible =
    EcPointsExtensionRequired
  | ExtendedMainSecretExtensionRequired
  | IncorrectCertificateTypeExtension
  | KeyShareExtensionRequired
  | MultipleRawKeys
  | NamedGroupsExtensionRequired
  | NoCertificateRequestSignatureSchemesInCommon
  | NoCipherSuitesInCommon
  | NoEcPointFormatsInCommon
  | NoKxGroupsInCommon
  | NoSignatureSchemesInCommon
  | NoServerNameProvided
  | NullCompressionRequired
  | ServerDoesNotSupportTls12Or13
  | ServerSentHelloRetryRequestWithUnknownExtension
  | ServerTlsVersionIsDisabledByOurConfig
  | SignatureAlgorithmsExtensionRequired
  | SupportedVersionsExtensionRequired
  | Tls12NotOffered
  | Tls12NotOfferedOrEnabled
  | Tls13RequiredForQuic
  | UncompressedEcPointsRequired
  | UnknownCertificateType u8
  | UnsolicitedCertificateTypeExtension

datatype (plugins only:) ApiMisuse =
    ResumingFromUnknownCipherSuite CipherSuite
  | ExporterNotAvailable
  | ExporterContextTooLong
  | ExporterOutputTooLong
  | ExporterOutputZeroLength
  | InvalidQuicHeaderProtectionSampleLength
  | InvalidQuicHeaderProtectionPacketNumberLength
  | InvalidSignerForProtocolVersion
  | QuicRequiresTls13Support
  | NoQuicCompatibleCipherSuites
  | EmptyCertificateChain
  | QuicRestrictsMaxEarlyDataSize
  | NoCipherSuitesConfigured
  | NoKeyExchangeGroupsConfigured
  | NoSignatureVerificationAlgorithms
  | EchRequiresTls13Support
  | EchForbidsTls12Support
  | SecretExtractionRequiresPriorOptIn
  | UnverifiableCertificateType
  | NoSupportedCertificateTypes
  | NonceArraySizeMismatch usize usize
  | IvLengthExceedsMaximum usize usize
  | ResumptionDataProvidedTooLate
  | KeyUpdateNotAvailableForTls12
  | KernelSessionTicketHandlingNotAvailableForTls12
  | SplitDuringHandshake
  | EncryptBufferTooSmall usize usize
  | WriteBeforeHandshakeComplete
  | WriteAfterSendPathClosed
  | KernelConnectionWithPendingSendData

datatype ExtendedKeyPurpose =
    EKU_ClientAuth
  | EKU_ServerAuth
  | EKU_Other "usize list"

datatype (plugins only:) CertificateError =
    CertificateError_BadEncoding
  | CertificateError_Expired
  | CertificateError_ExpiredContext UnixTime UnixTime
  | CertificateError_NotValidYet
  | CertificateError_NotValidYetContext UnixTime UnixTime
  | CertificateError_Revoked
  | CertificateError_UnhandledCriticalExtension
  | CertificateError_UnknownIssuer
  | CertificateError_UnknownRevocationStatus
  | CertificateError_ExpiredRevocationList
  | CertificateError_ExpiredRevocationListContext UnixTime UnixTime
  | CertificateError_BadSignature
  | CertificateError_UnsupportedSignatureAlgorithm bytes "AlgorithmIdentifier list"
  | CertificateError_UnsupportedSignatureAlgorithmForPublicKey bytes bytes
  | CertificateError_NotValidForName
  | CertificateError_NotValidForNameContext ServerName "string list"
  | CertificateError_InvalidPurpose
  | CertificateError_InvalidPurposeContext ExtendedKeyPurpose "ExtendedKeyPurpose list"
  | CertificateError_InvalidOcspResponse
  | CertificateError_ApplicationVerificationFailure
  | CertificateError_Other OtherError

datatype (plugins only:) CertRevocationListError =
    Crl_BadSignature
  | Crl_UnsupportedSignatureAlgorithm bytes "AlgorithmIdentifier list"
  | Crl_UnsupportedSignatureAlgorithmForPublicKey bytes bytes
  | Crl_InvalidCrlNumber
  | Crl_InvalidRevokedCertSerialNumber
  | Crl_IssuerInvalidForCrl
  | Crl_Other OtherError
  | Crl_ParseError
  | Crl_UnsupportedCrlVersion
  | Crl_UnsupportedCriticalExtension
  | Crl_UnsupportedDeltaCrl
  | Crl_UnsupportedIndirectCrl
  | Crl_UnsupportedRevocationReason

datatype EncryptedClientHelloError =
    InvalidConfigList
  | NoCompatibleConfig
  | SniRequired

datatype InconsistentKeys = KeyMismatch | InconsistentKeys_Unknown

record RejectedEch =
  retry_configs :: "EchConfigPayload list option"

datatype (plugins only:) Error =
    Error_InappropriateMessage "ContentType list" ContentType
  | Error_InappropriateHandshakeMessage "HandshakeType list" HandshakeType
  | Error_InvalidEncryptedClientHello EncryptedClientHelloError
  | Error_InvalidMessage InvalidMessage
  | Error_UnsupportedNameType
  | Error_DecryptError
  | Error_EncryptError
  | Error_PeerIncompatible PeerIncompatible
  | Error_PeerMisbehaved PeerMisbehaved
  | Error_AlertReceived AlertDescription
  | Error_InvalidCertificate CertificateError
  | Error_InvalidCertRevocationList CertRevocationListError
  | Error_General string
  | Error_FailedToGetCurrentTime
  | Error_FailedToGetRandomBytes
  | Error_HandshakeNotComplete
  | Error_PeerSentOversizedRecord
  | Error_NoApplicationProtocol
  | Error_NoSuitableCertificate
  | Error_BadMaxFragmentSize
  | Error_InconsistentKeys InconsistentKeys
  | Error_RejectedEch RejectedEch
  | Error_Unreachable string
  | Error_ApiMisuse ApiMisuse
  | Error_Other OtherError

subsection \<open>Alerts for errors\<close>

definition AlertDescription_from_InvalidMessage :: "InvalidMessage \<Rightarrow> AlertDescription" where
  "AlertDescription_from_InvalidMessage e = (case e of
     PreSharedKeyIsNotFinalExtension \<Rightarrow> AlertDescription_IllegalParameter
   | DuplicateExtension _ \<Rightarrow> AlertDescription_IllegalParameter
   | MisplacedExtension _ \<Rightarrow> AlertDescription_IllegalParameter
   | UnsupportedCompression \<Rightarrow> AlertDescription_IllegalParameter
   | UnknownHelloRetryRequestExtension \<Rightarrow> AlertDescription_UnsupportedExtension
   | CertificatePayloadTooLarge \<Rightarrow> AlertDescription_BadCertificate
   | _ \<Rightarrow> AlertDescription_DecodeError)"

definition AlertDescription_from_PeerMisbehaved :: "PeerMisbehaved \<Rightarrow> AlertDescription" where
  "AlertDescription_from_PeerMisbehaved e =
     (if e \<in> {DisallowedEncryptedExtension, IllegalHelloRetryRequestWithInvalidEch,
        UnexpectedCleartextExtension, UnsolicitedEchExtension, UnsolicitedEncryptedExtension,
        UnsolicitedServerHelloExtension} then AlertDescription_UnsupportedExtension
      else if e \<in> {IllegalMiddleboxChangeCipherSpec, KeyEpochWithPendingFragment,
        KeyUpdateReceivedInQuicConnection, IllegalTls13ContentType}
      then AlertDescription_UnexpectedMessage
      else if (case e of IllegalWarningAlert _ \<Rightarrow> True | _ \<Rightarrow> False)
      then AlertDescription_DecodeError
      else if e \<in> {IncorrectBinder, IncorrectFinished} then AlertDescription_DecryptError
      else if e \<in> {InvalidCertCompression, SelectedUnofferedCertCompression}
      then AlertDescription_BadCertificate
      else if e \<in> {MissingKeyShare, MissingPskExtensionInSecondClientHello,
        MissingPskModesExtension, MissingQuicTransportParameters}
      then AlertDescription_MissingExtension
      else if e = NoCertificatesPresented then AlertDescription_CertificateRequired
      else if e = NonEmptyRenegotiationInfo then AlertDescription_HandshakeFailure
      else AlertDescription_IllegalParameter)"

definition AlertDescription_from_PeerIncompatible :: "PeerIncompatible \<Rightarrow> AlertDescription" where
  "AlertDescription_from_PeerIncompatible e = (case e of
     NullCompressionRequired \<Rightarrow> AlertDescription_IllegalParameter
   | ServerTlsVersionIsDisabledByOurConfig \<Rightarrow> AlertDescription_ProtocolVersion
   | SupportedVersionsExtensionRequired \<Rightarrow> AlertDescription_ProtocolVersion
   | Tls12NotOffered \<Rightarrow> AlertDescription_ProtocolVersion
   | Tls12NotOfferedOrEnabled \<Rightarrow> AlertDescription_ProtocolVersion
   | Tls13RequiredForQuic \<Rightarrow> AlertDescription_ProtocolVersion
   | KeyShareExtensionRequired \<Rightarrow> AlertDescription_MissingExtension
   | UnknownCertificateType _ \<Rightarrow> AlertDescription_UnsupportedCertificate
   | _ \<Rightarrow> AlertDescription_HandshakeFailure)"

definition AlertDescription_from_CertificateError :: "CertificateError \<Rightarrow> AlertDescription" where
  "AlertDescription_from_CertificateError e = (case e of
     CertificateError_BadEncoding \<Rightarrow> AlertDescription_BadCertificate
   | CertificateError_UnhandledCriticalExtension \<Rightarrow> AlertDescription_BadCertificate
   | CertificateError_NotValidForName \<Rightarrow> AlertDescription_BadCertificate
   | CertificateError_NotValidForNameContext _ _ \<Rightarrow> AlertDescription_BadCertificate
   | CertificateError_Expired \<Rightarrow> AlertDescription_CertificateExpired
   | CertificateError_ExpiredContext _ _ \<Rightarrow> AlertDescription_CertificateExpired
   | CertificateError_NotValidYet \<Rightarrow> AlertDescription_CertificateExpired
   | CertificateError_NotValidYetContext _ _ \<Rightarrow> AlertDescription_CertificateExpired
   | CertificateError_Revoked \<Rightarrow> AlertDescription_CertificateRevoked
   | CertificateError_UnknownIssuer \<Rightarrow> AlertDescription_UnknownCa
   | CertificateError_UnknownRevocationStatus \<Rightarrow> AlertDescription_UnknownCa
   | CertificateError_ExpiredRevocationList \<Rightarrow> AlertDescription_UnknownCa
   | CertificateError_ExpiredRevocationListContext _ _ \<Rightarrow> AlertDescription_UnknownCa
   | CertificateError_InvalidOcspResponse \<Rightarrow> AlertDescription_BadCertificateStatusResponse
   | CertificateError_BadSignature \<Rightarrow> AlertDescription_DecryptError
   | CertificateError_UnsupportedSignatureAlgorithm _ _ \<Rightarrow> AlertDescription_DecryptError
   | CertificateError_UnsupportedSignatureAlgorithmForPublicKey _ _ \<Rightarrow>
       AlertDescription_DecryptError
   | CertificateError_InvalidPurpose \<Rightarrow> AlertDescription_UnsupportedCertificate
   | CertificateError_InvalidPurposeContext _ _ \<Rightarrow> AlertDescription_UnsupportedCertificate
   | CertificateError_ApplicationVerificationFailure \<Rightarrow> AlertDescription_AccessDenied
   | CertificateError_Other _ \<Rightarrow> AlertDescription_CertificateUnknown)"

definition AlertDescription_try_from :: "Error \<Rightarrow> unit + AlertDescription" where
  "AlertDescription_try_from error = (case error of
     Error_DecryptError \<Rightarrow> Inr AlertDescription_BadRecordMac
   | Error_InappropriateMessage _ _ \<Rightarrow> Inr AlertDescription_UnexpectedMessage
   | Error_InappropriateHandshakeMessage _ _ \<Rightarrow> Inr AlertDescription_UnexpectedMessage
   | Error_InvalidCertificate e \<Rightarrow> Inr (AlertDescription_from_CertificateError e)
   | Error_InvalidMessage e \<Rightarrow> Inr (AlertDescription_from_InvalidMessage e)
   | Error_NoApplicationProtocol \<Rightarrow> Inr AlertDescription_NoApplicationProtocol
   | Error_PeerMisbehaved e \<Rightarrow> Inr (AlertDescription_from_PeerMisbehaved e)
   | Error_PeerIncompatible e \<Rightarrow> Inr (AlertDescription_from_PeerIncompatible e)
   | Error_PeerSentOversizedRecord \<Rightarrow> Inr AlertDescription_RecordOverflow
   | Error_RejectedEch _ \<Rightarrow> Inr AlertDescription_EncryptedClientHelloRequired
   | Error_General _ \<Rightarrow> Inr AlertDescription_GeneralError
   | _ \<Rightarrow> Inl ())"

text \<open>\<open>AlertDescriptionName\<close>: the assigned alert codes.\<close>

definition AlertDescription_known :: "AlertDescription list" where
  "AlertDescription_known = [
    AlertDescription_CloseNotify, AlertDescription_UnexpectedMessage,
    AlertDescription_BadRecordMac, AlertDescription_DecryptionFailed,
    AlertDescription_RecordOverflow, AlertDescription_DecompressionFailure,
    AlertDescription_HandshakeFailure, AlertDescription_NoCertificate,
    AlertDescription_BadCertificate, AlertDescription_UnsupportedCertificate,
    AlertDescription_CertificateRevoked, AlertDescription_CertificateExpired,
    AlertDescription_CertificateUnknown, AlertDescription_IllegalParameter,
    AlertDescription_UnknownCa, AlertDescription_AccessDenied, AlertDescription_DecodeError,
    AlertDescription_DecryptError, AlertDescription_ExportRestriction,
    AlertDescription_ProtocolVersion, AlertDescription_InsufficientSecurity,
    AlertDescription_InternalError, AlertDescription_InappropriateFallback,
    AlertDescription_UserCanceled, AlertDescription_NoRenegotiation,
    AlertDescription_MissingExtension, AlertDescription_UnsupportedExtension,
    AlertDescription_CertificateUnobtainable, AlertDescription_UnrecognizedName,
    AlertDescription_BadCertificateStatusResponse, AlertDescription_BadCertificateHashValue,
    AlertDescription_UnknownPskIdentity, AlertDescription_CertificateRequired,
    AlertDescription_GeneralError, AlertDescription_NoApplicationProtocol,
    AlertDescription_EncryptedClientHelloRequired]"

text \<open>The alerts an error can be turned into: assigned code points, never a closure alert.\<close>

definition error_alert :: "AlertDescription \<Rightarrow> bool" where
  "error_alert a \<longleftrightarrow> a \<in> set AlertDescription_known \<and>
     a \<noteq> AlertDescription_CloseNotify \<and> a \<noteq> AlertDescription_UserCanceled"

lemma error_alert_from_InvalidMessage: "error_alert (AlertDescription_from_InvalidMessage e)"
  by (simp add: AlertDescription_from_InvalidMessage_def error_alert_def
      AlertDescription_known_def split: InvalidMessage.split)

lemma error_alert_from_PeerMisbehaved: "error_alert (AlertDescription_from_PeerMisbehaved e)"
  unfolding AlertDescription_from_PeerMisbehaved_def
  by (simp only: split: if_split) (simp add: error_alert_def AlertDescription_known_def)

lemma error_alert_from_PeerIncompatible: "error_alert (AlertDescription_from_PeerIncompatible e)"
  by (simp add: AlertDescription_from_PeerIncompatible_def error_alert_def
      AlertDescription_known_def split: PeerIncompatible.split)

lemma error_alert_from_CertificateError: "error_alert (AlertDescription_from_CertificateError e)"
  by (simp add: AlertDescription_from_CertificateError_def error_alert_def
      AlertDescription_known_def split: CertificateError.split)

lemmas error_alerts = error_alert_from_InvalidMessage error_alert_from_PeerMisbehaved
  error_alert_from_PeerIncompatible error_alert_from_CertificateError

lemma AlertDescription_try_from_error_alert:
  "AlertDescription_try_from error = Inr a \<Longrightarrow> error_alert a"
  unfolding AlertDescription_try_from_def
  by (cases error) (auto simp: error_alerts, simp_all add: error_alert_def AlertDescription_known_def)

subsection \<open>Equality of certificate errors\<close>

text \<open>
  \<open>PartialEq for CertificateError\<close> and \<open>CertRevocationListError\<close>: variant by variant,
  and never true of two \<open>Other\<close> errors.
\<close>

definition CertificateError_eq :: "CertificateError \<Rightarrow> CertificateError \<Rightarrow> bool" where
  "CertificateError_eq a b = (case a of
     CertificateError_BadEncoding \<Rightarrow> (case b of CertificateError_BadEncoding \<Rightarrow> True | _ \<Rightarrow> False)
   | CertificateError_Expired \<Rightarrow> (case b of CertificateError_Expired \<Rightarrow> True | _ \<Rightarrow> False)
   | CertificateError_ExpiredContext t n \<Rightarrow>
       (case b of CertificateError_ExpiredContext t' n' \<Rightarrow> (t, n) = (t', n') | _ \<Rightarrow> False)
   | CertificateError_NotValidYet \<Rightarrow> (case b of CertificateError_NotValidYet \<Rightarrow> True | _ \<Rightarrow> False)
   | CertificateError_NotValidYetContext t n \<Rightarrow>
       (case b of CertificateError_NotValidYetContext t' n' \<Rightarrow> (t, n) = (t', n') | _ \<Rightarrow> False)
   | CertificateError_Revoked \<Rightarrow> (case b of CertificateError_Revoked \<Rightarrow> True | _ \<Rightarrow> False)
   | CertificateError_UnhandledCriticalExtension \<Rightarrow>
       (case b of CertificateError_UnhandledCriticalExtension \<Rightarrow> True | _ \<Rightarrow> False)
   | CertificateError_UnknownIssuer \<Rightarrow>
       (case b of CertificateError_UnknownIssuer \<Rightarrow> True | _ \<Rightarrow> False)
   | CertificateError_BadSignature \<Rightarrow>
       (case b of CertificateError_BadSignature \<Rightarrow> True | _ \<Rightarrow> False)
   | CertificateError_UnsupportedSignatureAlgorithm s k \<Rightarrow>
       (case b of CertificateError_UnsupportedSignatureAlgorithm s' k' \<Rightarrow> (s, k) = (s', k')
        | _ \<Rightarrow> False)
   | CertificateError_UnsupportedSignatureAlgorithmForPublicKey s k \<Rightarrow>
       (case b of CertificateError_UnsupportedSignatureAlgorithmForPublicKey s' k' \<Rightarrow>
          (s, k) = (s', k') | _ \<Rightarrow> False)
   | CertificateError_NotValidForName \<Rightarrow>
       (case b of CertificateError_NotValidForName \<Rightarrow> True | _ \<Rightarrow> False)
   | CertificateError_NotValidForNameContext e p \<Rightarrow>
       (case b of CertificateError_NotValidForNameContext e' p' \<Rightarrow> (e, p) = (e', p') | _ \<Rightarrow> False)
   | CertificateError_InvalidPurpose \<Rightarrow>
       (case b of CertificateError_InvalidPurpose \<Rightarrow> True | _ \<Rightarrow> False)
   | CertificateError_InvalidPurposeContext r p \<Rightarrow>
       (case b of CertificateError_InvalidPurposeContext r' p' \<Rightarrow> (r, p) = (r', p') | _ \<Rightarrow> False)
   | CertificateError_InvalidOcspResponse \<Rightarrow>
       (case b of CertificateError_InvalidOcspResponse \<Rightarrow> True | _ \<Rightarrow> False)
   | CertificateError_ApplicationVerificationFailure \<Rightarrow>
       (case b of CertificateError_ApplicationVerificationFailure \<Rightarrow> True | _ \<Rightarrow> False)
   | CertificateError_UnknownRevocationStatus \<Rightarrow>
       (case b of CertificateError_UnknownRevocationStatus \<Rightarrow> True | _ \<Rightarrow> False)
   | CertificateError_ExpiredRevocationList \<Rightarrow>
       (case b of CertificateError_ExpiredRevocationList \<Rightarrow> True | _ \<Rightarrow> False)
   | CertificateError_ExpiredRevocationListContext t n \<Rightarrow>
       (case b of CertificateError_ExpiredRevocationListContext t' n' \<Rightarrow> (t, n) = (t', n')
        | _ \<Rightarrow> False)
   | _ \<Rightarrow> False)"

fun CertificateError_is_other :: "CertificateError \<Rightarrow> bool" where
  "CertificateError_is_other (CertificateError_Other _) = True"
| "CertificateError_is_other _ = False"

lemma CertificateError_eq_iff:
  "CertificateError_eq a b \<longleftrightarrow> a = b \<and> \<not> CertificateError_is_other a"
  unfolding CertificateError_eq_def by (cases a) (auto split: CertificateError.split)

definition RejectedEch_can_retry :: "RejectedEch \<Rightarrow> bool" where
  "RejectedEch_can_retry e \<longleftrightarrow> retry_configs e \<noteq> None"

definition RejectedEch_retry_configs :: "RejectedEch \<Rightarrow> bytes option" where
  "RejectedEch_retry_configs e =
     map_option (Vec_encode EchConfigPayload_SIZE_LEN EchConfigPayload_encode) (retry_configs e)"

subsection \<open>Errors of the record parser\<close>

datatype RecordError =
    RecordError_TooShortForHeader
  | RecordError_TooShortForLength
  | RecordError_InvalidEmptyPayload
  | RecordError_MessageTooLarge
  | RecordError_InvalidContentType
  | RecordError_UnknownProtocolVersion

end
