(* ===== verification/Record_Plain.thy ===== *)
theory Record_Plain
  imports Tls_Error
begin

text \<open>
  Records before encryption and after decryption (\<open>rustls/src/crypto/cipher/messages.rs\<close>),
  with the record header of \<open>msgs/mod.rs\<close>: parsing and printing of record headers, the
  outbound payload views \<open>OutboundPlain\<close> (a slice of a list of chunks), the output buffer
  \<open>EncryptBuffer\<close> and the unpadding of TLS 1.3 inner plaintexts.

  Borrowing is erased: \<open>Payload\<close> and \<open>InboundOpaque\<close> are byte strings.  Slicing that
  would panic in the source is the value \<open>None\<close>.
\<close>

subsection \<open>Versions and records\<close>

datatype quic_Version = QuicV1 | QuicV2

datatype Protocol = Tcp | Quic quic_Version

datatype EncodableVersion = Legacy ProtocolVersion | InitialClientHello Protocol

fun EncodableVersion_encode :: "EncodableVersion \<Rightarrow> ProtocolVersion" where
  "EncodableVersion_encode (Legacy _) = ProtocolVersion_TLSv1_2"
| "EncodableVersion_encode (InitialClientHello _) = ProtocolVersion_TLSv1_0"

fun EncodableVersion_version :: "EncodableVersion \<Rightarrow> ProtocolVersion" where
  "EncodableVersion_version (Legacy v) = v"
| "EncodableVersion_version (InitialClientHello _) = ProtocolVersion_TLSv1_2"

type_synonym Payload = bytes

record 'p Record =
  rec_typ :: ContentType
  rec_version :: EncodableVersion
  rec_payload :: 'p

definition HEADER_SIZE :: usize where
  "HEADER_SIZE = 1 + 2 + 2"

definition MAX_PAYLOAD :: u16 where
  "MAX_PAYLOAD = 16384 + 2048"

definition MAX_FRAGMENT_LEN :: usize where
  "MAX_FRAGMENT_LEN = 16384"

subsection \<open>Record headers\<close>

definition read_record_header ::
    "bytes \<Rightarrow> RecordError + (ContentType \<times> ProtocolVersion \<times> u16) \<times> bytes" where
  "read_record_header r =
     bindR (map_err (\<lambda>_. RecordError_TooShortForHeader) (ContentType_read r)) (\<lambda>(ctyp, r).
     if ctyp \<notin> set ContentType_known then Inl RecordError_InvalidContentType else
     bindR (map_err (\<lambda>_. RecordError_TooShortForHeader) (ProtocolVersion_read r)) (\<lambda>(version, r).
     if version AND 0xff00 \<noteq> 0x0300 then Inl RecordError_UnknownProtocolVersion else
     bindR (map_err (\<lambda>_. RecordError_TooShortForHeader) (u16_read r)) (\<lambda>(len, r).
     if ctyp \<noteq> ContentType_ApplicationData \<and> len = 0 then Inl RecordError_InvalidEmptyPayload
     else if len \<ge> MAX_PAYLOAD then Inl RecordError_MessageTooLarge
     else Inr ((ctyp, version, len), r))))"

definition Record_read :: "bytes \<Rightarrow> RecordError + Payload Record \<times> bytes" where
  "Record_read r =
     bindR (read_record_header r) (\<lambda>((ctyp, version, len), r).
     bindR (ok_or RecordError_TooShortForLength (Reader_take (unat len) r)) (\<lambda>(content, r).
     Inr (\<lparr>rec_typ = ctyp, rec_version = Legacy version, rec_payload = content\<rparr>, r)))"

definition encode_record_header :: "ContentType \<Rightarrow> EncodableVersion \<Rightarrow> u16 \<Rightarrow> bytes" where
  "encode_record_header ctyp version len =
     [ctyp] @ to_be_bytes 2 (unat (EncodableVersion_encode version)) @ to_be_bytes 2 (unat len)"

subsection \<open>Outbound payloads\<close>

datatype OutboundPlain =
    OP_Single bytes
  | OP_Multiple (op_chunks: "bytes list") (op_start: usize) (op_end: usize)

definition OutboundPlain_new :: "bytes list \<Rightarrow> OutboundPlain" where
  "OutboundPlain_new chunks =
     (if length chunks = 1 then OP_Single (chunks ! 0)
      else OP_Multiple chunks 0 (sum_list (map length chunks)))"

definition OutboundPlain_new_empty :: OutboundPlain where
  "OutboundPlain_new_empty = OP_Single []"

fun OutboundPlain_len :: "OutboundPlain \<Rightarrow> usize" where
  "OutboundPlain_len (OP_Single chunk) = length chunk"
| "OutboundPlain_len (OP_Multiple chunks start end) = end - start"

definition OutboundPlain_is_empty :: "OutboundPlain \<Rightarrow> bool" where
  "OutboundPlain_is_empty p \<longleftrightarrow> OutboundPlain_len p = 0"

text \<open>The iterator \<open>Chunks\<close>; its state is what it has not visited yet.\<close>

datatype Chunks =
    Chunks_Single "bytes option"
  | Chunks_Multiple "bytes list" usize usize

fun Chunks_next_multiple ::
    "bytes list \<Rightarrow> usize \<Rightarrow> usize \<Rightarrow> (bytes \<times> Chunks) option" where
  "Chunks_next_multiple [] skip remaining = None"
| "Chunks_next_multiple (chunk # chunks) skip remaining =
     (if remaining = 0 then None
      else if length chunk < skip
      then Chunks_next_multiple chunks (skip - length chunk) remaining
      else let chunk = drop skip chunk in
        if chunk = [] then Chunks_next_multiple chunks 0 remaining
        else let n = min (length chunk) remaining in
          Some (take n chunk, Chunks_Multiple chunks 0 (remaining - n)))"

fun Chunks_next :: "Chunks \<Rightarrow> (bytes \<times> Chunks) option" where
  "Chunks_next (Chunks_Single c) = map_option (\<lambda>x. (x, Chunks_Single None)) c"
| "Chunks_next (Chunks_Multiple chunks skip remaining) =
     Chunks_next_multiple chunks skip remaining"

fun Chunks_size :: "Chunks \<Rightarrow> nat" where
  "Chunks_size (Chunks_Single c) = (case c of None \<Rightarrow> 0 | Some _ \<Rightarrow> 1)"
| "Chunks_size (Chunks_Multiple chunks _ _) = length chunks"

lemma Chunks_next_multiple_size:
  "Chunks_next_multiple chunks skip remaining = Some (x, it) \<Longrightarrow> Chunks_size it < length chunks"
  by (induction chunks skip remaining rule: Chunks_next_multiple.induct)
    (auto simp: Let_def less_Suc_eq split: if_splits)

lemma Chunks_next_size: "Chunks_next it = Some (x, it') \<Longrightarrow> Chunks_size it' < Chunks_size it"
  by (cases it) (auto dest: Chunks_next_multiple_size)

text \<open>Draining the iterator.\<close>

function Chunks_collect :: "Chunks \<Rightarrow> bytes list" where
  "Chunks_collect it = (case Chunks_next it of None \<Rightarrow> [] | Some (x, it') \<Rightarrow> x # Chunks_collect it')"
  by auto
termination by (relation "measure Chunks_size") (auto dest: Chunks_next_size)

declare Chunks_collect.simps [simp del]

fun OutboundPlain_chunks :: "OutboundPlain \<Rightarrow> Chunks" where
  "OutboundPlain_chunks (OP_Single chunk) =
     Chunks_Single (if chunk \<noteq> [] then Some chunk else None)"
| "OutboundPlain_chunks (OP_Multiple chunks start end) = Chunks_Multiple chunks start (end - start)"

text \<open>\<open>copy_to_vec\<close> appends each chunk in turn.\<close>

definition OutboundPlain_copy_to_vec :: "OutboundPlain \<Rightarrow> bytes \<Rightarrow> bytes" where
  "OutboundPlain_copy_to_vec p vec = fold (\<lambda>chunk v. v @ chunk) (Chunks_collect (OutboundPlain_chunks p)) vec"

definition OutboundPlain_to_vec :: "OutboundPlain \<Rightarrow> bytes" where
  "OutboundPlain_to_vec p = OutboundPlain_copy_to_vec p []"

definition OutboundPlain_single_chunk :: "OutboundPlain \<Rightarrow> bytes option" where
  "OutboundPlain_single_chunk p = (case p of
     OP_Single chunk \<Rightarrow> Some chunk
   | OP_Multiple _ _ _ \<Rightarrow>
       if OutboundPlain_is_empty p then Some []
       else (case Chunks_next (OutboundPlain_chunks p) of
         None \<Rightarrow> None
       | Some (chunk, it) \<Rightarrow>
           if length chunk = OutboundPlain_len p \<and> Chunks_next it = None then Some chunk else None))"

text \<open>The loop of \<open>split_at\<close>: how many whole chunks lie before \<open>mid\<close>, and their length.\<close>

fun split_skip :: "bytes list \<Rightarrow> usize \<Rightarrow> usize \<Rightarrow> usize \<Rightarrow> usize \<times> usize" where
  "split_skip [] mid skip consumed = (skip, consumed)"
| "split_skip (chunk # chunks) mid skip consumed =
     (if consumed + length chunk > mid then (skip, consumed)
      else split_skip chunks mid (skip + 1) (consumed + length chunk))"

fun OutboundPlain_split_at :: "OutboundPlain \<Rightarrow> usize \<Rightarrow> OutboundPlain \<times> OutboundPlain" where
  "OutboundPlain_split_at (OP_Single chunk) mid =
     (let mid = min mid (length chunk) in (OP_Single (take mid chunk), OP_Single (drop mid chunk)))"
| "OutboundPlain_split_at (OP_Multiple chunks start end) mid =
     (let mid = min (start + mid) end; (skip, consumed) = split_skip chunks mid 0 0 in
      (OP_Multiple chunks start mid,
       OP_Multiple (drop skip chunks) (mid - consumed) (end - consumed)))"

text \<open>The cursors stay ordered and inside the chunks.\<close>

fun OutboundPlain_wf :: "OutboundPlain \<Rightarrow> bool" where
  "OutboundPlain_wf (OP_Single _) \<longleftrightarrow> True"
| "OutboundPlain_wf (OP_Multiple chunks start end) \<longleftrightarrow>
     start \<le> end \<and> end \<le> sum_list (map length chunks)"

definition encode_unencrypted :: "OutboundPlain Record \<Rightarrow> bytes \<Rightarrow> bytes" where
  "encode_unencrypted rec out =
     (let len = OutboundPlain_len (rec_payload rec) in
      OutboundPlain_copy_to_vec (rec_payload rec)
        (out @ encode_record_header (rec_typ rec) (rec_version rec) (word_of_nat len)))"

definition to_unencrypted_bytes :: "OutboundPlain Record \<Rightarrow> bytes" where
  "to_unencrypted_bytes rec = encode_unencrypted rec []"

definition borrow_outbound :: "Payload Record \<Rightarrow> OutboundPlain Record" where
  "borrow_outbound rec =
     \<lparr>rec_typ = rec_typ rec, rec_version = rec_version rec, rec_payload = OP_Single (rec_payload rec)\<rparr>"

subsection \<open>Outbound payloads as byte strings\<close>

lemma Chunks_collect_Single [simp]: "Chunks_collect (Chunks_Single c) = (case c of None \<Rightarrow> [] | Some x \<Rightarrow> [x])"
  by (subst Chunks_collect.simps, subst Chunks_collect.simps) (auto split: option.splits)

lemma Chunks_collect_Nil [simp]: "Chunks_collect (Chunks_Multiple [] skip remaining) = []"
  by (subst Chunks_collect.simps) simp

lemma Chunks_collect_next_cong: "Chunks_next it = Chunks_next it' \<Longrightarrow> Chunks_collect it = Chunks_collect it'"
  by (simp add: Chunks_collect.simps [of it] Chunks_collect.simps [of it'])

lemma Chunks_collect_Some: "Chunks_next it = Some (x, it') \<Longrightarrow> Chunks_collect it = x # Chunks_collect it'"
  by (simp add: Chunks_collect.simps [of it])

lemma Chunks_collect_Cons:
  "Chunks_collect (Chunks_Multiple (chunk # chunks) skip remaining) =
     (if remaining = 0 then []
      else if length chunk \<le> skip
      then Chunks_collect (Chunks_Multiple chunks (skip - length chunk) remaining)
      else take remaining (drop skip chunk) #
        Chunks_collect (Chunks_Multiple chunks 0 (remaining - (length chunk - skip))))"
proof -
  consider "remaining = 0" | "remaining \<noteq> 0" "length chunk < skip" | "remaining \<noteq> 0" "length chunk = skip"
    | "remaining \<noteq> 0" "skip < length chunk" by linarith
  thus ?thesis
  proof cases
    case 1
    thus ?thesis by (subst Chunks_collect.simps) simp
  next
    case 2
    thus ?thesis by (auto intro!: Chunks_collect_next_cong)
  next
    case 3
    thus ?thesis by (auto intro!: Chunks_collect_next_cong)
  next
    case 4
    hence "Chunks_next (Chunks_Multiple (chunk # chunks) skip remaining) =
      Some (take remaining (drop skip chunk),
        Chunks_Multiple chunks 0 (remaining - (length chunk - skip)))"
      by (auto simp: Let_def min_def)
    from Chunks_collect_Some [OF this] 4 show ?thesis by simp
  qed
qed

lemma concat_Chunks_collect:
  "concat (Chunks_collect (Chunks_Multiple chunks skip remaining)) =
     take remaining (drop skip (concat chunks))"
  by (induction chunks arbitrary: skip remaining) (simp_all add: Chunks_collect_Cons)

lemma Chunks_collect_nonempty: "x \<in> set (Chunks_collect (Chunks_Multiple chunks skip remaining)) \<Longrightarrow> x \<noteq> []"
  by (induction chunks arbitrary: skip remaining) (auto simp: Chunks_collect_Cons split: if_splits)

lemma fold_append: "fold (\<lambda>x v. v @ x) xs vec = vec @ concat xs"
  by (induction xs arbitrary: vec) simp_all

lemma copy_to_vec_eq: "OutboundPlain_copy_to_vec p vec = vec @ OutboundPlain_to_vec p"
  by (simp add: OutboundPlain_to_vec_def OutboundPlain_copy_to_vec_def fold_append)

lemma to_vec_Single [simp]: "OutboundPlain_to_vec (OP_Single chunk) = chunk"
  by (simp add: OutboundPlain_to_vec_def OutboundPlain_copy_to_vec_def)

lemma to_vec_Multiple [simp]:
  "OutboundPlain_to_vec (OP_Multiple chunks start end) = slice start end (concat chunks)"
  by (simp add: OutboundPlain_to_vec_def OutboundPlain_copy_to_vec_def fold_append
      concat_Chunks_collect slice_def)

lemma length_to_vec: "OutboundPlain_wf p \<Longrightarrow> length (OutboundPlain_to_vec p) = OutboundPlain_len p"
  by (cases p) (auto simp: length_concat)

lemma new_to_vec: "OutboundPlain_to_vec (OutboundPlain_new chunks) = concat chunks"
  by (auto simp: OutboundPlain_new_def length_Suc_conv slice_def length_concat)

lemma new_wf: "OutboundPlain_wf (OutboundPlain_new chunks)"
  by (simp add: OutboundPlain_new_def)

lemma split_skip_props:
  assumes "split_skip chunks mid skip consumed = (skip', consumed')" "consumed \<le> mid"
  shows "skip \<le> skip' \<and> consumed' = consumed + length (concat (take (skip' - skip) chunks)) \<and> consumed' \<le> mid"
  using assms
proof (induction chunks mid skip consumed rule: split_skip.induct)
  case (2 chunk chunks mid skip consumed)
  show ?case
  proof (cases "consumed + length chunk > mid")
    case False
    with 2 have ih: "skip + 1 \<le> skip'"
      "consumed' = consumed + length chunk + length (concat (take (skip' - (skip + 1)) chunks))"
      "consumed' \<le> mid" by auto
    moreover from ih(1) have "skip' - skip = Suc (skip' - (skip + 1))" by simp
    ultimately show ?thesis by simp
  qed (use 2 in auto)
qed simp

lemma slice_shift:
  "length xs = k \<Longrightarrow> k \<le> a \<Longrightarrow> slice (a - k) (b - k) ys = slice a b (xs @ ys)"
  by (simp add: slice_def)

lemma split_at_to_vec:
  assumes "OutboundPlain_wf p" "OutboundPlain_split_at p mid = (before, after)"
  shows "OutboundPlain_wf before \<and> OutboundPlain_wf after \<and>
    OutboundPlain_to_vec before = take mid (OutboundPlain_to_vec p) \<and>
    OutboundPlain_to_vec after = drop mid (OutboundPlain_to_vec p)"
proof (cases p)
  case (OP_Multiple chunks start fin)
  let ?mid = "min (start + mid) fin"
  obtain skip consumed where sk: "split_skip chunks ?mid 0 0 = (skip, consumed)" by fastforce
  with split_skip_props [OF sk] have c: "consumed = length (concat (take skip chunks))" "consumed \<le> ?mid"
    by simp_all
  have cc: "concat chunks = concat (take skip chunks) @ concat (drop skip chunks)"
    by (metis append_take_drop_id concat_append)
  from assms(2) sk OP_Multiple have ba: "before = OP_Multiple chunks start ?mid"
    "after = OP_Multiple (drop skip chunks) (?mid - consumed) (fin - consumed)"
    by (auto simp: Let_def)
  have le: "start \<le> fin" "fin \<le> length (concat chunks)"
    using assms(1) OP_Multiple by (simp_all add: length_concat)
  have "length (concat chunks) = consumed + length (concat (drop skip chunks))"
    using cc c(1) by (metis length_append)
  hence wf: "OutboundPlain_wf before" "OutboundPlain_wf after"
    using le c(2) ba by (auto simp: length_concat)
  have "OutboundPlain_to_vec after = slice ?mid fin (concat chunks)"
    using slice_shift [OF c(1) [symmetric] c(2), of fin "concat (drop skip chunks)"] cc ba by simp
  moreover have "slice ?mid fin (concat chunks) = drop mid (slice start fin (concat chunks))"
    using le by (cases "start + mid \<le> fin") (simp_all add: slice_def drop_take add.commute)
  moreover have "slice start ?mid (concat chunks) = take mid (slice start fin (concat chunks))"
    using le by (cases "start + mid \<le> fin") (simp_all add: slice_def)
  ultimately show ?thesis using wf ba OP_Multiple by simp
qed (use assms in \<open>auto simp: Let_def min_def\<close>)

lemma single_chunk_to_vec:
  assumes "OutboundPlain_single_chunk p = Some chunk" "OutboundPlain_wf p"
  shows "chunk = OutboundPlain_to_vec p"
proof (cases p)
  case (OP_Multiple chunks start fin)
  note len = length_to_vec [OF assms(2)]
  show ?thesis
  proof (cases "OutboundPlain_is_empty p")
    case True
    thus ?thesis using assms(1) OP_Multiple len
      by (simp add: OutboundPlain_single_chunk_def OutboundPlain_is_empty_def)
  next
    case False
    then obtain it where it: "Chunks_next (OutboundPlain_chunks p) = Some (chunk, it)" "Chunks_next it = None"
      using assms(1) OP_Multiple by (auto simp: OutboundPlain_single_chunk_def split: option.splits if_splits)
    hence "Chunks_collect (OutboundPlain_chunks p) = [chunk]"
      using Chunks_collect_Some [OF it(1)] by (simp add: Chunks_collect.simps [of it])
    thus ?thesis by (simp add: OutboundPlain_to_vec_def OutboundPlain_copy_to_vec_def)
  qed
qed (use assms in \<open>simp add: OutboundPlain_single_chunk_def\<close>)

subsection \<open>Reading back what was printed\<close>

lemma length_encode_record_header [simp]: "length (encode_record_header ctyp version len) = HEADER_SIZE"
  by (simp add: encode_record_header_def HEADER_SIZE_def)

lemma EncodableVersion_encode_range: "EncodableVersion_encode version AND 0xff00 = 0x0300"
  by (cases version) simp_all

lemma read_record_header_encode:
  assumes "ctyp \<in> set ContentType_known" "len < MAX_PAYLOAD" "ctyp = ContentType_ApplicationData \<or> len \<noteq> 0"
  shows "read_record_header (encode_record_header ctyp version len @ rest) =
    Inr ((ctyp, EncodableVersion_encode version, len), rest)"
  using assms EncodableVersion_encode_range [of version]
    enum8.read_encode [of _ ctyp "to_be_bytes 2 (unat (EncodableVersion_encode version)) @ to_be_bytes 2 (unat len) @ rest"]
    enum16.read_encode [of _ "EncodableVersion_encode version" "to_be_bytes 2 (unat len) @ rest"]
    u16c.read_encode [of len rest]
  by (auto simp: read_record_header_def encode_record_header_def u8_encode_def u16_encode_alt)

text \<open>
  Sending a record in plaintext and reading it back gives type, wire version and
  payload, for the payload sizes and types a receiver admits.
\<close>

lemma to_unencrypted_bytes_eq:
  "to_unencrypted_bytes rec =
     encode_record_header (rec_typ rec) (rec_version rec) (word_of_nat (OutboundPlain_len (rec_payload rec))) @
     OutboundPlain_to_vec (rec_payload rec)"
  by (simp add: to_unencrypted_bytes_def encode_unencrypted_def copy_to_vec_eq)

lemma Record_read_unencrypted:
  assumes "OutboundPlain_wf (rec_payload rec)" "rec_typ rec \<in> set ContentType_known"
    and "OutboundPlain_len (rec_payload rec) < unat MAX_PAYLOAD"
    and "rec_typ rec = ContentType_ApplicationData \<or> OutboundPlain_len (rec_payload rec) \<noteq> 0"
  shows "Record_read (to_unencrypted_bytes rec @ rest) =
    Inr (\<lparr>rec_typ = rec_typ rec, rec_version = Legacy (EncodableVersion_encode (rec_version rec)),
      rec_payload = OutboundPlain_to_vec (rec_payload rec)\<rparr>, rest)"
proof -
  let ?n = "OutboundPlain_len (rec_payload rec)"
  have n: "unat (word_of_nat ?n :: u16) = ?n"
    using assms(3) by (simp add: unat_word_of_nat_simps MAX_PAYLOAD_def)
  have "read_record_header (encode_record_header (rec_typ rec) (rec_version rec) (word_of_nat ?n) @
      OutboundPlain_to_vec (rec_payload rec) @ rest) =
    Inr ((rec_typ rec, EncodableVersion_encode (rec_version rec), word_of_nat ?n),
      OutboundPlain_to_vec (rec_payload rec) @ rest)"
    using assms n by (intro read_record_header_encode) (auto simp: word_less_nat_alt)
  thus ?thesis using length_to_vec [OF assms(1)] n
    by (simp add: Record_read_def to_unencrypted_bytes_eq Reader_take_def)
qed

text \<open>What an accepted header tells about the bytes it was read from.\<close>

lemma read_record_header_InrD:
  assumes "read_record_header r = Inr ((ctyp, version, len), rest)"
  shows "r = [ctyp] @ to_be_bytes 2 (unat version) @ to_be_bytes 2 (unat len) @ rest \<and>
    ctyp \<in> set ContentType_known \<and> version AND 0xff00 = 0x0300 \<and> len < MAX_PAYLOAD \<and>
    (ctyp = ContentType_ApplicationData \<or> len \<noteq> 0)"
  using assms
  by (auto simp: read_record_header_def enum_read_def u8_encode_def u16_encode_alt not_le
      u8c.read_iff u16c.read_iff
      split: if_splits)

subsection \<open>The output buffer of an encrypter\<close>

record EncryptBuffer =
  eb_buf :: bytes
  eb_used :: usize

definition EncryptBuffer_new :: "bytes \<Rightarrow> usize \<Rightarrow> Error + EncryptBuffer" where
  "EncryptBuffer_new out len =
     (if len \<le> length out then Inr \<lparr>eb_buf = take len out, eb_used = 0\<rparr>
      else Inl (Error_ApiMisuse (EncryptBufferTooSmall len (length out))))"

definition EncryptBuffer_extend_from_slice :: "bytes \<Rightarrow> EncryptBuffer \<Rightarrow> EncryptBuffer option" where
  "EncryptBuffer_extend_from_slice bs b =
     (if eb_used b + length bs \<le> length (eb_buf b)
      then Some \<lparr>eb_buf = write_at (eb_used b) bs (eb_buf b), eb_used = eb_used b + length bs\<rparr>
      else None)"

fun extend_from_slices :: "bytes list \<Rightarrow> EncryptBuffer \<Rightarrow> EncryptBuffer option" where
  "extend_from_slices [] b = Some b"
| "extend_from_slices (c # cs) b =
     Option.bind (EncryptBuffer_extend_from_slice c b) (extend_from_slices cs)"

definition EncryptBuffer_extend_from_chunks :: "OutboundPlain \<Rightarrow> EncryptBuffer \<Rightarrow> EncryptBuffer option" where
  "EncryptBuffer_extend_from_chunks p b = (case p of
     OP_Single chunk \<Rightarrow> EncryptBuffer_extend_from_slice chunk b
   | OP_Multiple _ _ _ \<Rightarrow> extend_from_slices (Chunks_collect (OutboundPlain_chunks p)) b)"

definition EncryptBuffer_into_written :: "EncryptBuffer \<Rightarrow> bytes" where
  "EncryptBuffer_into_written b = take (eb_used b) (eb_buf b)"

definition EncryptBuffer_wf :: "EncryptBuffer \<Rightarrow> bool" where
  "EncryptBuffer_wf b \<longleftrightarrow> eb_used b \<le> length (eb_buf b)"

text \<open>
  Appending writes exactly when the bytes fit, keeps the capacity and leaves the bytes
  written before in place.
\<close>

definition EncryptBuffer_appended :: "bytes \<Rightarrow> EncryptBuffer \<Rightarrow> EncryptBuffer \<Rightarrow> bool" where
  "EncryptBuffer_appended bs b b' \<longleftrightarrow> EncryptBuffer_wf b' \<and> length (eb_buf b') = length (eb_buf b) \<and>
     eb_used b' = eb_used b + length bs \<and>
     EncryptBuffer_into_written b' = EncryptBuffer_into_written b @ bs"

lemma extend_from_slice_None_iff:
  "EncryptBuffer_extend_from_slice bs b = None \<longleftrightarrow> length (eb_buf b) < eb_used b + length bs"
  by (auto simp: EncryptBuffer_extend_from_slice_def)

lemma extend_from_slice_appends:
  "EncryptBuffer_wf b \<Longrightarrow> EncryptBuffer_extend_from_slice bs b = Some b' \<Longrightarrow>
     EncryptBuffer_appended bs b b'"
  by (auto simp: EncryptBuffer_extend_from_slice_def EncryptBuffer_appended_def EncryptBuffer_wf_def
      EncryptBuffer_into_written_def write_at_def split: if_splits)

lemma appended_trans:
  "EncryptBuffer_appended xs a b \<Longrightarrow> EncryptBuffer_appended ys b c \<Longrightarrow>
     EncryptBuffer_appended (xs @ ys) a c"
  by (simp add: EncryptBuffer_appended_def)

lemma extend_from_slices_appends:
  "EncryptBuffer_wf b \<Longrightarrow> extend_from_slices cs b = Some b' \<Longrightarrow> EncryptBuffer_appended (concat cs) b b'"
proof (induction cs arbitrary: b)
  case (Cons c cs)
  then obtain b1 where b1: "EncryptBuffer_extend_from_slice c b = Some b1" "extend_from_slices cs b1 = Some b'"
    by (auto simp: bind_eq_Some_conv)
  have ap: "EncryptBuffer_appended c b b1" using extend_from_slice_appends [OF Cons.prems(1) b1(1)] .
  hence "EncryptBuffer_wf b1" by (simp add: EncryptBuffer_appended_def)
  from appended_trans [OF ap Cons.IH [OF this b1(2)]] show ?case by simp
qed (simp add: EncryptBuffer_appended_def)

lemma extend_from_slices_None_iff:
  "EncryptBuffer_wf b \<Longrightarrow>
     extend_from_slices cs b = None \<longleftrightarrow> length (eb_buf b) < eb_used b + length (concat cs)"
proof (induction cs arbitrary: b)
  case (Cons c cs)
  show ?case
  proof (cases "EncryptBuffer_extend_from_slice c b")
    case None
    hence "length (eb_buf b) < eb_used b + length c" by (simp add: extend_from_slice_None_iff)
    with None show ?thesis by simp
  next
    case (Some b1)
    have ap: "EncryptBuffer_appended c b b1" using extend_from_slice_appends [OF Cons.prems Some] .
    thus ?thesis using Cons.IH [of b1] Some by (simp add: EncryptBuffer_appended_def add.assoc)
  qed
qed (auto simp: EncryptBuffer_wf_def)

lemma concat_chunks_to_vec: "concat (Chunks_collect (OutboundPlain_chunks p)) = OutboundPlain_to_vec p"
  by (simp add: OutboundPlain_to_vec_def OutboundPlain_copy_to_vec_def fold_append)

lemma extend_from_chunks_appends:
  assumes "EncryptBuffer_wf b"
  shows "(EncryptBuffer_extend_from_chunks p b = None \<longleftrightarrow>
       length (eb_buf b) < eb_used b + length (OutboundPlain_to_vec p)) \<and>
     (\<forall>b'. EncryptBuffer_extend_from_chunks p b = Some b' \<longrightarrow>
       EncryptBuffer_appended (OutboundPlain_to_vec p) b b')"
proof (cases p)
  case (OP_Single x)
  thus ?thesis using extend_from_slice_None_iff extend_from_slice_appends [OF assms]
    by (simp add: EncryptBuffer_extend_from_chunks_def)
next
  case (OP_Multiple cs s e)
  let ?cs = "Chunks_collect (OutboundPlain_chunks p)"
  have eq: "EncryptBuffer_extend_from_chunks p b = extend_from_slices ?cs b"
    using OP_Multiple by (simp add: EncryptBuffer_extend_from_chunks_def)
  show ?thesis unfolding eq concat_chunks_to_vec [symmetric]
    using extend_from_slices_None_iff [OF assms, of ?cs] extend_from_slices_appends [OF assms, of ?cs]
    by blast
qed

subsection \<open>Inner plaintexts of TLS 1.3\<close>

definition InboundOpaque_truncate :: "usize \<Rightarrow> bytes \<Rightarrow> bytes" where
  "InboundOpaque_truncate len p = (if len \<ge> length p then p else take len p)"

definition InboundOpaque_pop :: "bytes \<Rightarrow> (u8 \<times> bytes) option" where
  "InboundOpaque_pop p =
     (if p = [] then None
      else Some (p ! (length p - 1), InboundOpaque_truncate (length p - 1) p))"

lemma InboundOpaque_pop_snoc [simp]: "InboundOpaque_pop (p @ [b]) = Some (b, p)"
  by (simp add: InboundOpaque_pop_def InboundOpaque_truncate_def nth_append)

lemma InboundOpaque_pop_Nil [simp]: "InboundOpaque_pop [] = None"
  by (simp add: InboundOpaque_pop_def)

lemma InboundOpaque_pop_length: "InboundOpaque_pop p = Some (b, p') \<Longrightarrow> length p' < length p"
  by (cases p rule: rev_cases) auto

function unpad_tls13_payload :: "bytes \<Rightarrow> ContentType \<times> bytes" where
  "unpad_tls13_payload p = (case InboundOpaque_pop p of
     Some (b, p') \<Rightarrow> if b = 0 then unpad_tls13_payload p' else (b, p')
   | None \<Rightarrow> (0, p))"
  by auto
termination by (relation "measure length") (auto dest: InboundOpaque_pop_length)

declare unpad_tls13_payload.simps [simp del]

definition into_plain_record_range :: "bytes Record \<Rightarrow> usize \<Rightarrow> usize \<Rightarrow> bytes Record option" where
  "into_plain_record_range rec a b =
     (if a \<le> b \<and> b \<le> length (rec_payload rec)
      then Some (rec\<lparr>rec_payload := slice a b (rec_payload rec)\<rparr>) else None)"

definition into_plain_record :: "bytes Record \<Rightarrow> bytes Record" where
  "into_plain_record rec = rec"

definition into_tls13_unpadded_record :: "bytes Record \<Rightarrow> Error + bytes Record" where
  "into_tls13_unpadded_record rec =
     (if rec_typ rec \<noteq> ContentType_ApplicationData
      then Inl (Error_PeerMisbehaved IllegalTls13ContentType)
      else if length (rec_payload rec) > MAX_FRAGMENT_LEN + 1 then Inl Error_PeerSentOversizedRecord
      else let (ctyp, payload) = unpad_tls13_payload (rec_payload rec) in
        if ctyp = 0 then Inl (Error_PeerMisbehaved IllegalTlsInnerPlaintext)
        else if ctyp = ContentType_ChangeCipherSpec
        then Inl (Error_PeerMisbehaved IllegalMiddleboxChangeCipherSpec)
        else if length payload > MAX_FRAGMENT_LEN then Inl Error_PeerSentOversizedRecord
        else Inr (into_plain_record \<lparr>rec_typ = ctyp, rec_version = Legacy ProtocolVersion_TLSv1_3,
          rec_payload = payload\<rparr>))"

definition is_valid_ccs :: "bytes Record \<Rightarrow> bool" where
  "is_valid_ccs rec \<longleftrightarrow> rec_typ rec = ContentType_ChangeCipherSpec \<and> rec_payload rec = [0x01]"

lemma unpad_snoc:
  "unpad_tls13_payload (p @ [b]) = (if b = 0 then unpad_tls13_payload p else (b, p))"
  by (subst unpad_tls13_payload.simps) simp

lemma unpad_Nil: "unpad_tls13_payload [] = (0, [])"
  by (subst unpad_tls13_payload.simps) simp

lemma unpad_padded: "b \<noteq> 0 \<Longrightarrow> unpad_tls13_payload (content @ [b] @ replicate n 0) = (b, content)"
proof (induction n)
  case (Suc n)
  have "content @ [b] @ replicate (Suc n) 0 = (content @ [b] @ replicate n 0) @ [0]"
    by (simp only: replicate_append_same append_assoc replicate_Suc)
  thus ?case using Suc by (simp only: unpad_snoc) simp
qed (simp add: unpad_snoc)

lemma unpad_cases:
  "(\<exists>n. p = replicate n 0 \<and> unpad_tls13_payload p = (0, [])) \<or>
   (\<exists>content b n. b \<noteq> 0 \<and> p = content @ [b] @ replicate n 0 \<and> unpad_tls13_payload p = (b, content))"
proof (induction p rule: rev_induct)
  case (snoc b p)
  show ?case
  proof (cases "b = 0")
    case True
    from snoc show ?thesis
    proof (elim disjE exE conjE)
      fix n assume "p = replicate n 0" "unpad_tls13_payload p = (0, [])"
      thus ?thesis using True by (metis unpad_snoc replicate_append_same replicate_Suc)
    next
      fix content c n
      assume "c \<noteq> 0" "p = content @ [c] @ replicate n 0" "unpad_tls13_payload p = (c, content)"
      thus ?thesis using True
        by (metis append_assoc unpad_snoc replicate_append_same replicate_Suc)
    qed
  next
    case False
    thus ?thesis by (intro disjI2 exI [of _ p] exI [of _ b] exI [of _ 0]) (simp add: unpad_snoc)
  qed
qed (simp add: unpad_Nil)

text \<open>
  A record is accepted exactly when it carries application data that unpads to a type
  and a content of at most 16384 bytes, with at most one byte more before unpadding.
\<close>

lemma into_tls13_unpadded_record_iff:
  "into_tls13_unpadded_record rec = Inr out \<longleftrightarrow>
     rec_typ rec = ContentType_ApplicationData \<and> length (rec_payload rec) \<le> MAX_FRAGMENT_LEN + 1 \<and>
     (\<exists>ctyp content n. rec_payload rec = content @ [ctyp] @ replicate n 0 \<and>
        ctyp \<noteq> 0 \<and> ctyp \<noteq> ContentType_ChangeCipherSpec \<and> length content \<le> MAX_FRAGMENT_LEN \<and>
        out = \<lparr>rec_typ = ctyp, rec_version = Legacy ProtocolVersion_TLSv1_3, rec_payload = content\<rparr>)"
  (is "?lhs \<longleftrightarrow> ?ct \<and> ?len \<and> ?ex")
proof
  assume l: ?lhs
  obtain ctyp content where u: "unpad_tls13_payload (rec_payload rec) = (ctyp, content)" by fastforce
  from l u have *: ?ct ?len "ctyp \<noteq> 0" "ctyp \<noteq> ContentType_ChangeCipherSpec"
    "length content \<le> MAX_FRAGMENT_LEN"
    "out = \<lparr>rec_typ = ctyp, rec_version = Legacy ProtocolVersion_TLSv1_3, rec_payload = content\<rparr>"
    by (auto simp: into_tls13_unpadded_record_def into_plain_record_def split: if_splits)
  from unpad_cases [of "rec_payload rec"] u * show "?ct \<and> ?len \<and> ?ex" by auto
next
  assume "?ct \<and> ?len \<and> ?ex"
  thus ?lhs using unpad_padded
    by (fastforce simp: into_tls13_unpadded_record_def into_plain_record_def)
qed

end
