(* ===== verification/Wire_Messages.thy ===== *)
theory Wire_Messages
  imports Wire_ClientHello Record_Plain
begin

text \<open>
  Whole messages (\<open>rustls/src/msgs/mod.rs\<close>): handshake messages with their type and 24-bit
  length, alerts, \<open>change_cipher_spec\<close>, and the conversions between messages and
  plaintext records.

  The host name checks of \<open>pki_types\<close> are the two parameters the codecs of the hellos
  take: \<open>classify\<close> (what a byte string is as a server name) and \<open>dns_ok\<close> (whether it is a DNS
  name).
\<close>

subsection \<open>Payloads\<close>

datatype HandshakePayload =
    HP_HelloRequest
  | HP_ClientHello ClientHelloPayload
  | HP_ServerHello ServerHelloPayload
  | HP_HelloRetryRequest HelloRetryRequest
  | HP_Certificate CertificateChain
  | HP_CertificateTls13 CertificatePayloadTls13
  | HP_CompressedCertificate CompressedCertificatePayload
  | HP_ServerKeyExchange ServerKeyExchangePayload
  | HP_CertificateRequest CertificateRequestPayload
  | HP_CertificateRequestTls13 CertificateRequestPayloadTls13
  | HP_CertificateVerify DigitallySignedStruct
  | HP_ServerHelloDone
  | HP_EndOfEarlyData
  | HP_ClientKeyExchange Payload
  | HP_NewSessionTicket NewSessionTicketPayload
  | HP_NewSessionTicketTls13 NewSessionTicketPayloadTls13
  | HP_EncryptedExtensions EncryptedExtensions
  | HP_KeyUpdate KeyUpdateRequest
  | HP_Finished Payload
  | HP_CertificateStatus CertificateStatus
  | HP_MessageHash Payload
  | HP_Unknown HandshakeType Payload

fun HandshakePayload_encode ::
    "(bytes \<Rightarrow> ServerNameKind) \<Rightarrow> (bytes \<Rightarrow> bool) \<Rightarrow> HandshakePayload \<Rightarrow> bytes" where
  "HandshakePayload_encode classify dns_ok HP_HelloRequest = []"
| "HandshakePayload_encode classify dns_ok HP_ServerHelloDone = []"
| "HandshakePayload_encode classify dns_ok HP_EndOfEarlyData = []"
| "HandshakePayload_encode classify dns_ok (HP_ClientHello x) = ClientHelloPayload_encode classify x"
| "HandshakePayload_encode classify dns_ok (HP_ServerHello x) = ServerHelloPayload_encode dns_ok x"
| "HandshakePayload_encode classify dns_ok (HP_HelloRetryRequest x) =
     HelloRetryRequest_payload_encode Standard x"
| "HandshakePayload_encode classify dns_ok (HP_Certificate x) = CertificateChain_encode x"
| "HandshakePayload_encode classify dns_ok (HP_CertificateTls13 x) = CertificatePayloadTls13_encode x"
| "HandshakePayload_encode classify dns_ok (HP_CompressedCertificate x) =
     CompressedCertificatePayload_encode x"
| "HandshakePayload_encode classify dns_ok (HP_ServerKeyExchange x) = ServerKeyExchangePayload_encode x"
| "HandshakePayload_encode classify dns_ok (HP_ClientKeyExchange x) = Payload_encode x"
| "HandshakePayload_encode classify dns_ok (HP_CertificateRequest x) = CertificateRequestPayload_encode x"
| "HandshakePayload_encode classify dns_ok (HP_CertificateRequestTls13 x) =
     CertificateRequestPayloadTls13_encode x"
| "HandshakePayload_encode classify dns_ok (HP_CertificateVerify x) = DigitallySignedStruct_encode x"
| "HandshakePayload_encode classify dns_ok (HP_NewSessionTicket x) = NewSessionTicketPayload_encode x"
| "HandshakePayload_encode classify dns_ok (HP_NewSessionTicketTls13 x) =
     NewSessionTicketPayloadTls13_encode x"
| "HandshakePayload_encode classify dns_ok (HP_EncryptedExtensions x) = EncryptedExtensions_encode dns_ok x"
| "HandshakePayload_encode classify dns_ok (HP_KeyUpdate x) = u8_encode x"
| "HandshakePayload_encode classify dns_ok (HP_Finished x) = Payload_encode x"
| "HandshakePayload_encode classify dns_ok (HP_CertificateStatus x) = CertificateStatus_encode x"
| "HandshakePayload_encode classify dns_ok (HP_MessageHash x) = Payload_encode x"
| "HandshakePayload_encode classify dns_ok (HP_Unknown _ x) = Payload_encode x"

fun HandshakePayload_handshake_type :: "HandshakePayload \<Rightarrow> HandshakeType" where
  "HandshakePayload_handshake_type HP_HelloRequest = HandshakeType_HelloRequest"
| "HandshakePayload_handshake_type (HP_ClientHello _) = HandshakeType_ClientHello"
| "HandshakePayload_handshake_type (HP_ServerHello _) = HandshakeType_ServerHello"
| "HandshakePayload_handshake_type (HP_HelloRetryRequest _) = HandshakeType_HelloRetryRequest"
| "HandshakePayload_handshake_type (HP_Certificate _) = HandshakeType_Certificate"
| "HandshakePayload_handshake_type (HP_CertificateTls13 _) = HandshakeType_Certificate"
| "HandshakePayload_handshake_type (HP_CompressedCertificate _) = HandshakeType_CompressedCertificate"
| "HandshakePayload_handshake_type (HP_ServerKeyExchange _) = HandshakeType_ServerKeyExchange"
| "HandshakePayload_handshake_type (HP_CertificateRequest _) = HandshakeType_CertificateRequest"
| "HandshakePayload_handshake_type (HP_CertificateRequestTls13 _) = HandshakeType_CertificateRequest"
| "HandshakePayload_handshake_type (HP_CertificateVerify _) = HandshakeType_CertificateVerify"
| "HandshakePayload_handshake_type HP_ServerHelloDone = HandshakeType_ServerHelloDone"
| "HandshakePayload_handshake_type HP_EndOfEarlyData = HandshakeType_EndOfEarlyData"
| "HandshakePayload_handshake_type (HP_ClientKeyExchange _) = HandshakeType_ClientKeyExchange"
| "HandshakePayload_handshake_type (HP_NewSessionTicket _) = HandshakeType_NewSessionTicket"
| "HandshakePayload_handshake_type (HP_NewSessionTicketTls13 _) = HandshakeType_NewSessionTicket"
| "HandshakePayload_handshake_type (HP_EncryptedExtensions _) = HandshakeType_EncryptedExtensions"
| "HandshakePayload_handshake_type (HP_KeyUpdate _) = HandshakeType_KeyUpdate"
| "HandshakePayload_handshake_type (HP_Finished _) = HandshakeType_Finished"
| "HandshakePayload_handshake_type (HP_CertificateStatus _) = HandshakeType_CertificateStatus"
| "HandshakePayload_handshake_type (HP_MessageHash _) = HandshakeType_MessageHash"
| "HandshakePayload_handshake_type (HP_Unknown t _) = t"

definition HandshakePayload_wire_handshake_type :: "HandshakePayload \<Rightarrow> HandshakeType" where
  "HandshakePayload_wire_handshake_type p =
     (if HandshakePayload_handshake_type p = HandshakeType_HelloRetryRequest
      then HandshakeType_ServerHello else HandshakePayload_handshake_type p)"

subsection \<open>Handshake messages\<close>

definition map_ok :: "('a \<Rightarrow> 'b) \<Rightarrow> 'e + 'a \<times> bytes \<Rightarrow> 'e + 'b \<times> bytes" where
  "map_ok f m = bindR m (\<lambda>(x, r). Inr (f x, r))"

lemma map_ok_Inr [simp]: "map_ok f (Inr (x, r)) = Inr (f x, r)"
  by (simp add: map_ok_def)

text \<open>The body of \<open>read_version\<close>, by type and version.\<close>

definition HandshakePayload_read ::
    "(bytes \<Rightarrow> ServerNameKind) \<Rightarrow> (bytes \<Rightarrow> bool) \<Rightarrow> ProtocolVersion \<Rightarrow> HandshakeType \<Rightarrow>
     HandshakePayload decoder" where
  "HandshakePayload_read classify dns_ok vers ht sub =
     (if ht = HandshakeType_HelloRequest \<and> Reader_left sub = 0 then Inr (HP_HelloRequest, sub)
      else if ht = HandshakeType_ClientHello
      then map_ok HP_ClientHello (ClientHelloPayload_read classify sub)
      else if ht = HandshakeType_ServerHello then
        bindR (ProtocolVersion_read sub) (\<lambda>(version, sub).
        bindR (Random_read sub) (\<lambda>(random, sub).
          if random = HELLO_RETRY_REQUEST_RANDOM
          then map_ok (\<lambda>hrr. HP_HelloRetryRequest (hrr\<lparr>hrr_legacy_version := version\<rparr>))
            (HelloRetryRequest_read sub)
          else map_ok (\<lambda>shp. HP_ServerHello (shp\<lparr>sh_legacy_version := version, sh_random := random\<rparr>))
            (ServerHelloPayload_read dns_ok sub)))
      else if ht = HandshakeType_Certificate \<and> vers = ProtocolVersion_TLSv1_3
      then map_ok HP_CertificateTls13 (CertificatePayloadTls13_read sub)
      else if ht = HandshakeType_Certificate then map_ok HP_Certificate (CertificateChain_read sub)
      else if ht = HandshakeType_ServerKeyExchange
      then map_ok HP_ServerKeyExchange (ServerKeyExchangePayload_read sub)
      else if ht = HandshakeType_ServerHelloDone then Inr (HP_ServerHelloDone, sub)
      else if ht = HandshakeType_ClientKeyExchange
      then map_ok HP_ClientKeyExchange (Payload_read sub)
      else if ht = HandshakeType_CertificateRequest \<and> vers = ProtocolVersion_TLSv1_3
      then map_ok HP_CertificateRequestTls13 (CertificateRequestPayloadTls13_read sub)
      else if ht = HandshakeType_CertificateRequest
      then map_ok HP_CertificateRequest (CertificateRequestPayload_read sub)
      else if ht = HandshakeType_CompressedCertificate
      then map_ok HP_CompressedCertificate (CompressedCertificatePayload_read sub)
      else if ht = HandshakeType_CertificateVerify
      then map_ok HP_CertificateVerify (DigitallySignedStruct_read sub)
      else if ht = HandshakeType_NewSessionTicket \<and> vers = ProtocolVersion_TLSv1_3
      then map_ok HP_NewSessionTicketTls13 (NewSessionTicketPayloadTls13_read sub)
      else if ht = HandshakeType_NewSessionTicket
      then map_ok HP_NewSessionTicket (NewSessionTicketPayload_read sub)
      else if ht = HandshakeType_EncryptedExtensions
      then map_ok HP_EncryptedExtensions (EncryptedExtensions_read dns_ok sub)
      else if ht = HandshakeType_KeyUpdate then map_ok HP_KeyUpdate (KeyUpdateRequest_read sub)
      else if ht = HandshakeType_EndOfEarlyData then Inr (HP_EndOfEarlyData, sub)
      else if ht = HandshakeType_Finished then map_ok HP_Finished (Payload_read sub)
      else if ht = HandshakeType_CertificateStatus
      then map_ok HP_CertificateStatus (CertificateStatus_read sub)
      else if ht = HandshakeType_MessageHash then Inl (UnexpectedMessage ''MessageHash'')
      else if ht = HandshakeType_HelloRetryRequest then Inl (UnexpectedMessage ''HelloRetryRequest'')
      else map_ok (HP_Unknown ht) (Payload_read sub))"

definition HandshakeMessagePayload_read_version ::
    "(bytes \<Rightarrow> ServerNameKind) \<Rightarrow> (bytes \<Rightarrow> bool) \<Rightarrow> ProtocolVersion \<Rightarrow> HandshakePayload decoder" where
  "HandshakeMessagePayload_read_version classify dns_ok vers r =
     bindR (HandshakeType_read r) (\<lambda>(ht, r).
     bindR (U24_read r) (\<lambda>(len, r).
     bindR (Reader_sub (unat len) r) (\<lambda>(sub, r).
     bindR (Reader_all ''HandshakeMessagePayload''
       (HandshakePayload_read classify dns_ok vers ht) sub) (\<lambda>(p, _). Inr (p, r)))))"

definition HandshakeMessagePayload_payload_encode ::
    "(bytes \<Rightarrow> ServerNameKind) \<Rightarrow> (bytes \<Rightarrow> bool) \<Rightarrow> Encoding \<Rightarrow> HandshakePayload \<Rightarrow> bytes" where
  "HandshakeMessagePayload_payload_encode classify dns_ok encoding p =
     u8_encode (HandshakePayload_wire_handshake_type p) @
     length_prefixed (U24 usize_MAX MessageTooLarge) (case p of
        HP_ServerHello payload \<Rightarrow> ServerHelloPayload_encode dns_ok payload
      | HP_HelloRetryRequest payload \<Rightarrow> HelloRetryRequest_payload_encode encoding payload
      | _ \<Rightarrow> HandshakePayload_encode classify dns_ok p)"

definition HandshakeMessagePayload_get_encoding ::
    "(bytes \<Rightarrow> ServerNameKind) \<Rightarrow> (bytes \<Rightarrow> bool) \<Rightarrow> HandshakePayload \<Rightarrow> bytes" where
  "HandshakeMessagePayload_get_encoding classify dns_ok p =
     HandshakeMessagePayload_payload_encode classify dns_ok Standard p"

definition HandshakeMessagePayload_total_binder_length :: "HandshakePayload \<Rightarrow> usize" where
  "HandshakeMessagePayload_total_binder_length p = (case p of
     HP_ClientHello ch \<Rightarrow> (case cx_preshared_key_offer (ch_extensions ch) of
         Some offer \<Rightarrow> length (Vec_encode PresharedKeyBinder_SIZE_LEN PresharedKeyBinder_encode
           (psko_binders offer))
       | None \<Rightarrow> 0)
   | _ \<Rightarrow> 0)"

definition HandshakeMessagePayload_encoding_for_binder_signing ::
    "(bytes \<Rightarrow> ServerNameKind) \<Rightarrow> (bytes \<Rightarrow> bool) \<Rightarrow> HandshakePayload \<Rightarrow> bytes" where
  "HandshakeMessagePayload_encoding_for_binder_signing classify dns_ok p =
     (let ret = HandshakeMessagePayload_get_encoding classify dns_ok p in
      take (length ret - HandshakeMessagePayload_total_binder_length p) ret)"

definition HandshakeMessagePayload_build_handshake_hash :: "bytes \<Rightarrow> HandshakePayload" where
  "HandshakeMessagePayload_build_handshake_hash hash = HP_MessageHash hash"

subsection \<open>Round trip of handshake messages\<close>

text \<open>
  The payloads that can be sent under a protocol version and read back: the version picks
  between the two layouts of certificates, certificate requests and tickets; a message hash
  never goes on the wire; an unknown payload has a type the reader does not know.
\<close>

definition HandshakeType_dispatched :: "HandshakeType list" where
  "HandshakeType_dispatched = [
    HandshakeType_ClientHello, HandshakeType_ServerHello, HandshakeType_NewSessionTicket,
    HandshakeType_EndOfEarlyData, HandshakeType_HelloRetryRequest, HandshakeType_EncryptedExtensions,
    HandshakeType_Certificate, HandshakeType_ServerKeyExchange, HandshakeType_CertificateRequest,
    HandshakeType_ServerHelloDone, HandshakeType_CertificateVerify, HandshakeType_ClientKeyExchange,
    HandshakeType_Finished, HandshakeType_CertificateStatus, HandshakeType_KeyUpdate,
    HandshakeType_CompressedCertificate, HandshakeType_MessageHash]"

fun HandshakePayload_wf ::
    "(bytes \<Rightarrow> ServerNameKind) \<Rightarrow> (bytes \<Rightarrow> bool) \<Rightarrow> ProtocolVersion \<Rightarrow> HandshakePayload \<Rightarrow> bool" where
  "HandshakePayload_wf classify dns_ok vers (HP_ClientHello x) = ClientHelloPayload_wf classify x"
| "HandshakePayload_wf classify dns_ok vers (HP_ServerHello x) =
     (ServerHelloPayload_wf dns_ok x \<and> sh_random x \<noteq> HELLO_RETRY_REQUEST_RANDOM)"
| "HandshakePayload_wf classify dns_ok vers (HP_HelloRetryRequest x) = HelloRetryRequest_wf x"
| "HandshakePayload_wf classify dns_ok vers (HP_Certificate x) =
     (vers \<noteq> ProtocolVersion_TLSv1_3 \<and> CertificateChain_wf x)"
| "HandshakePayload_wf classify dns_ok vers (HP_CertificateTls13 x) =
     (vers = ProtocolVersion_TLSv1_3 \<and> CertificatePayloadTls13_wf x)"
| "HandshakePayload_wf classify dns_ok vers (HP_CompressedCertificate x) =
     CompressedCertificatePayload_wf x"
| "HandshakePayload_wf classify dns_ok vers (HP_CertificateRequest x) =
     (vers \<noteq> ProtocolVersion_TLSv1_3 \<and> CertificateRequestPayload_wf x)"
| "HandshakePayload_wf classify dns_ok vers (HP_CertificateRequestTls13 x) =
     (vers = ProtocolVersion_TLSv1_3 \<and> CertificateRequestPayloadTls13_wf x)"
| "HandshakePayload_wf classify dns_ok vers (HP_CertificateVerify x) = DigitallySignedStruct_wf x"
| "HandshakePayload_wf classify dns_ok vers (HP_NewSessionTicket x) =
     (vers \<noteq> ProtocolVersion_TLSv1_3 \<and> NewSessionTicketPayload_wf x)"
| "HandshakePayload_wf classify dns_ok vers (HP_NewSessionTicketTls13 x) =
     (vers = ProtocolVersion_TLSv1_3 \<and> NewSessionTicketPayloadTls13_wf x)"
| "HandshakePayload_wf classify dns_ok vers (HP_EncryptedExtensions x) = EncryptedExtensions_wf dns_ok x"
| "HandshakePayload_wf classify dns_ok vers (HP_CertificateStatus x) = CertificateStatus_wf x"
| "HandshakePayload_wf classify dns_ok vers (HP_MessageHash x) = False"
| "HandshakePayload_wf classify dns_ok vers (HP_Unknown t x) =
     (t \<notin> set HandshakeType_dispatched \<and> (t = HandshakeType_HelloRequest \<longrightarrow> x \<noteq> []))"
| "HandshakePayload_wf classify dns_ok vers _ = True"

text \<open>
  What the receiver holds: the seed of the extension order stays with the sender, and
  key exchange parameters are not parsed until the key exchange is known.
\<close>

fun HandshakePayload_wire :: "HandshakePayload \<Rightarrow> HandshakePayload" where
  "HandshakePayload_wire (HP_ClientHello x) = HP_ClientHello (ClientHelloPayload_wire x)"
| "HandshakePayload_wire (HP_ServerKeyExchange x) =
     HP_ServerKeyExchange (SkxUnknown (ServerKeyExchangePayload_encode x))"
| "HandshakePayload_wire p = p"

lemma ServerHello_encode_split:
  "Random_wf (sh_random h) \<Longrightarrow> ServerHelloPayload_encode dns_ok h =
     u16_encode (sh_legacy_version h) @ Random_encode (sh_random h) @
     drop 34 (ServerHelloPayload_encode dns_ok h)"
  by (simp add: ServerHelloPayload_encode_def Random_wf_def Random_encode_def)

lemma HelloRetryRequest_encode_split:
  "HelloRetryRequest_payload_encode e h =
     u16_encode (hrr_legacy_version h) @ Random_encode HELLO_RETRY_REQUEST_RANDOM @
     drop 34 (HelloRetryRequest_payload_encode e h)"
  by (simp add: HelloRetryRequest_payload_encode_def Random_encode_def HELLO_RETRY_REQUEST_RANDOM_def)

lemma HELLO_RETRY_REQUEST_RANDOM_wf: "Random_wf HELLO_RETRY_REQUEST_RANDOM"
  by (simp add: HELLO_RETRY_REQUEST_RANDOM_def Random_wf_def)

lemma HandshakePayload_read_hellos:
  "ServerHelloPayload_wf dns_ok h \<Longrightarrow> sh_random h \<noteq> HELLO_RETRY_REQUEST_RANDOM \<Longrightarrow>
     HandshakePayload_read classify dns_ok vers HandshakeType_ServerHello
       (ServerHelloPayload_encode dns_ok h) = Inr (HP_ServerHello h, [])"
  "HelloRetryRequest_wf hrr \<Longrightarrow>
     HandshakePayload_read classify dns_ok vers HandshakeType_ServerHello
       (HelloRetryRequest_payload_encode Standard hrr) = Inr (HP_HelloRetryRequest hrr, [])"
proof -
  assume wf: "ServerHelloPayload_wf dns_ok h" and r: "sh_random h \<noteq> HELLO_RETRY_REQUEST_RANDOM"
  hence rwf: "Random_wf (sh_random h)" by (simp add: ServerHelloPayload_wf_def)
  show "HandshakePayload_read classify dns_ok vers HandshakeType_ServerHello
      (ServerHelloPayload_encode dns_ok h) = Inr (HP_ServerHello h, [])"
    using ServerHelloPayload_read_encode [OF wf] r rwf
    by (subst ServerHello_encode_split [OF rwf])
      (simp add: HandshakePayload_read_def wire_simps del: drop_append)
next
  assume wf: "HelloRetryRequest_wf hrr"
  show "HandshakePayload_read classify dns_ok vers HandshakeType_ServerHello
      (HelloRetryRequest_payload_encode Standard hrr) = Inr (HP_HelloRetryRequest hrr, [])"
    using HelloRetryRequest_read_encode [OF wf, of "[]"] HELLO_RETRY_REQUEST_RANDOM_wf
    by (subst HelloRetryRequest_encode_split)
      (simp add: HandshakePayload_read_def wire_simps del: drop_append)
qed

lemma HandshakePayload_read_encode:
  assumes "HandshakePayload_wf classify dns_ok vers p"
  shows "HandshakePayload_read classify dns_ok vers (HandshakePayload_wire_handshake_type p)
    (HandshakePayload_encode classify dns_ok p) = Inr (HandshakePayload_wire p, [])"
proof (cases p)
  case (HP_ServerHello h)
  thus ?thesis using assms HandshakePayload_read_hellos(1) [of dns_ok h classify vers]
    by (simp add: HandshakePayload_wire_handshake_type_def)
next
  case (HP_HelloRetryRequest h)
  thus ?thesis using assms HandshakePayload_read_hellos(2) [of h classify dns_ok vers]
    by (simp add: HandshakePayload_wire_handshake_type_def)
next
  case (HP_Unknown t x)
  thus ?thesis using assms
    by (auto simp: HandshakePayload_read_def HandshakePayload_wire_handshake_type_def
        HandshakeType_dispatched_def Payload_read_def Payload_encode_def Reader_rest_def Reader_left_def)
qed (use assms in \<open>simp_all add: HandshakePayload_read_def HandshakePayload_wire_handshake_type_def
  wire_simps Reader_left_def Payload_read_def Payload_encode_def Reader_rest_def
  ClientHelloPayload_read_encode ServerKeyExchangePayload_read_def\<close>)

lemma HandshakeMessagePayload_read_encode:
  assumes "HandshakePayload_wf classify dns_ok vers p"
    and "length (HandshakePayload_encode classify dns_ok p) < 2 ^ 24"
  shows "HandshakeMessagePayload_read_version classify dns_ok vers
      (HandshakeMessagePayload_get_encoding classify dns_ok p @ rest) =
    Inr (HandshakePayload_wire p, rest)"
proof -
  let ?body = "HandshakePayload_encode classify dns_ok p"
  let ?len = "word_of_nat (length ?body) :: u32"
  have enc: "HandshakeMessagePayload_get_encoding classify dns_ok p =
      u8_encode (HandshakePayload_wire_handshake_type p) @ U24_encode ?len @ ?body"
    using assms(2)
    by (cases p) (simp_all add: HandshakeMessagePayload_get_encoding_def
        HandshakeMessagePayload_payload_encode_def length_prefixed_eq U24_encode_alt unat_word_of_nat_simps)
  have n: "unat ?len = length ?body" and u: "U24_wf ?len"
    using assms(2) by (simp_all add: unat_word_of_nat_simps U24_wf_def)
  from u have "U24_read (U24_encode ?len @ ?body @ rest) = Inr (?len, ?body @ rest)"
    by (rule U24c.read_encode)
  thus ?thesis using HandshakePayload_read_encode [OF assms(1)] n
    by (simp add: HandshakeMessagePayload_read_version_def enc wire_simps Reader_all_Inr)
qed

subsection \<open>The part of a ClientHello the binders sign\<close>

text \<open>
  The offer of pre-shared keys is the last extension and the binders are its last field, so
  what remains after cutting off their length is everything before them.
\<close>

lemma ClientExtensions_encode_psk_suffix:
  assumes "cx_preshared_key_offer s = Some offer"
  shows "suffix (PresharedKeyOffer_encode offer) (ClientExtensions_encode classify s)"
proof -
  let ?items = "ClientExtensions_items classify"
  obtain front where order: "ClientExtensions_used_in_encoding_order classify s =
      front @ [ExtensionType_PreSharedKey]"
    using assms by (simp add: ClientExtensions_used_in_encoding_order_def)
  have "encode_one ?items s ExtensionType_PreSharedKey =
      u16_encode ExtensionType_PreSharedKey @ length_prefixed U16 (PresharedKeyOffer_encode offer)"
    using assms by (simp add: encode_one_def find_item_def ClientExtensions_items_def ext_slot_sel)
  hence "suffix (PresharedKeyOffer_encode offer) (concat (map (encode_one ?items s)
      (ClientExtensions_used_in_encoding_order classify s)))"
    by (simp add: order length_prefixed_eq suffix_appendI)
  thus ?thesis by (simp add: ClientExtensions_encode_def order length_prefixed_eq suffix_appendI)
qed

lemma binder_signing_split:
  assumes "cx_preshared_key_offer (ch_extensions ch) = Some offer"
  shows "HandshakeMessagePayload_get_encoding classify dns_ok (HP_ClientHello ch) =
    HandshakeMessagePayload_encoding_for_binder_signing classify dns_ok (HP_ClientHello ch) @
    Vec_encode PresharedKeyBinder_SIZE_LEN PresharedKeyBinder_encode (psko_binders offer)"
proof -
  let ?enc = "HandshakeMessagePayload_get_encoding classify dns_ok (HP_ClientHello ch)"
  let ?binders = "Vec_encode PresharedKeyBinder_SIZE_LEN PresharedKeyBinder_encode (psko_binders offer)"
  have "suffix ?binders (PresharedKeyOffer_encode offer)"
    by (simp add: PresharedKeyOffer_encode_def suffixI)
  also have "suffix (PresharedKeyOffer_encode offer) (ClientExtensions_encode classify (ch_extensions ch))"
    using assms by (rule ClientExtensions_encode_psk_suffix)
  also have "suffix (ClientExtensions_encode classify (ch_extensions ch)) ?enc"
    by (simp add: HandshakeMessagePayload_get_encoding_def HandshakeMessagePayload_payload_encode_def
        length_prefixed_eq ClientHelloPayload_encode_def ClientHelloPayload_payload_encode_def suffix_appendI)
  finally obtain front where "?enc = front @ ?binders" by (auto simp: suffix_def)
  thus ?thesis using assms
    by (simp add: HandshakeMessagePayload_encoding_for_binder_signing_def Let_def
        HandshakeMessagePayload_total_binder_length_def)
qed

subsection \<open>Alerts and change cipher spec\<close>

record AlertMessagePayload =
  al_level :: AlertLevel
  al_description :: AlertDescription

definition AlertMessagePayload_encode :: "AlertMessagePayload \<Rightarrow> bytes" where
  "AlertMessagePayload_encode a = u8_encode (al_level a) @ u8_encode (al_description a)"

definition AlertMessagePayload_read :: "AlertMessagePayload decoder" where
  "AlertMessagePayload_read = Reader_all ''AlertMessagePayload'' (\<lambda>r.
     bindR (AlertLevel_read r) (\<lambda>(level, r).
     bindR (AlertDescription_read r) (\<lambda>(description, r).
       Inr (\<lparr>al_level = level, al_description = description\<rparr>, r))))"

definition ChangeCipherSpecPayload_encode :: bytes where
  "ChangeCipherSpecPayload_encode = u8_encode 1"

definition ChangeCipherSpecPayload_read :: "unit decoder" where
  "ChangeCipherSpecPayload_read = Reader_all ''ChangeCipherSpecPayload'' (\<lambda>r.
     bindR (u8_read r) (\<lambda>(ct, r). if ct \<noteq> 1 then Inl InvalidCcs else Inr ((), r)))"

lemma AlertMessagePayload_read_iff:
  "AlertMessagePayload_read r = Inr (a, rest) \<longleftrightarrow> r = AlertMessagePayload_encode a \<and> rest = []"
  by (cases a) (auto simp: AlertMessagePayload_read_def AlertMessagePayload_encode_def Reader_all_Inr_iff
      wire_simps dest!: enum8.encode_read)

lemma ChangeCipherSpecPayload_read_iff:
  "ChangeCipherSpecPayload_read r = Inr (u, rest) \<longleftrightarrow> r = ChangeCipherSpecPayload_encode \<and> rest = []"
  by (auto simp: ChangeCipherSpecPayload_read_def ChangeCipherSpecPayload_encode_def Reader_all_Inr_iff
      bindR_Inr_iff u8c.read_iff u8_encode_def split: if_splits)

subsection \<open>Messages and records\<close>

datatype MessagePayload =
    MP_Alert AlertMessagePayload
  | MP_Handshake HandshakePayload Payload
  | MP_HandshakeFlight Payload
  | MP_ChangeCipherSpec
  | MP_ApplicationData Payload

record Message =
  msg_version :: EncodableVersion
  msg_payload :: MessagePayload

fun MessagePayload_encode :: "MessagePayload \<Rightarrow> bytes" where
  "MessagePayload_encode (MP_Alert x) = AlertMessagePayload_encode x"
| "MessagePayload_encode (MP_Handshake _ encoded) = encoded"
| "MessagePayload_encode (MP_HandshakeFlight x) = x"
| "MessagePayload_encode MP_ChangeCipherSpec = ChangeCipherSpecPayload_encode"
| "MessagePayload_encode (MP_ApplicationData x) = Payload_encode x"

definition MessagePayload_handshake ::
    "(bytes \<Rightarrow> ServerNameKind) \<Rightarrow> (bytes \<Rightarrow> bool) \<Rightarrow> HandshakePayload \<Rightarrow> MessagePayload" where
  "MessagePayload_handshake classify dns_ok parsed =
     MP_Handshake parsed (HandshakeMessagePayload_get_encoding classify dns_ok parsed)"

text \<open>The reader of \<open>new\<close> need not be at its end after a handshake message.\<close>

definition MessagePayload_new ::
    "(bytes \<Rightarrow> ServerNameKind) \<Rightarrow> (bytes \<Rightarrow> bool) \<Rightarrow> ContentType \<Rightarrow> ProtocolVersion \<Rightarrow> bytes \<Rightarrow>
     InvalidMessage + MessagePayload" where
  "MessagePayload_new classify dns_ok ctyp vers payload =
     (if ctyp = ContentType_ApplicationData then Inr (MP_ApplicationData payload)
      else if ctyp = ContentType_Alert
      then bindR (AlertMessagePayload_read payload) (\<lambda>(a, _). Inr (MP_Alert a))
      else if ctyp = ContentType_Handshake
      then bindR (HandshakeMessagePayload_read_version classify dns_ok vers payload)
        (\<lambda>(parsed, _). Inr (MP_Handshake parsed payload))
      else if ctyp = ContentType_ChangeCipherSpec
      then bindR (ChangeCipherSpecPayload_read payload) (\<lambda>_. Inr MP_ChangeCipherSpec)
      else Inl InvalidContentType)"

fun MessagePayload_content_type :: "MessagePayload \<Rightarrow> ContentType" where
  "MessagePayload_content_type (MP_Alert _) = ContentType_Alert"
| "MessagePayload_content_type (MP_Handshake _ _) = ContentType_Handshake"
| "MessagePayload_content_type (MP_HandshakeFlight _) = ContentType_Handshake"
| "MessagePayload_content_type MP_ChangeCipherSpec = ContentType_ChangeCipherSpec"
| "MessagePayload_content_type (MP_ApplicationData _) = ContentType_ApplicationData"

definition Message_try_from ::
    "(bytes \<Rightarrow> ServerNameKind) \<Rightarrow> (bytes \<Rightarrow> bool) \<Rightarrow> bytes Record \<Rightarrow> InvalidMessage + Message" where
  "Message_try_from classify dns_ok plain =
     bindR (MessagePayload_new classify dns_ok (rec_typ plain)
       (EncodableVersion_version (rec_version plain)) (rec_payload plain))
     (\<lambda>payload. Inr \<lparr>msg_version = rec_version plain, msg_payload = payload\<rparr>)"

definition Record_from_Message :: "Message \<Rightarrow> Payload Record" where
  "Record_from_Message msg =
     \<lparr>rec_typ = MessagePayload_content_type (msg_payload msg), rec_version = msg_version msg,
      rec_payload = (case msg_payload msg of
         MP_ApplicationData payload \<Rightarrow> payload
       | _ \<Rightarrow> MessagePayload_encode (msg_payload msg))\<rparr>"

definition Message_handshake_type :: "Message \<Rightarrow> HandshakeType option" where
  "Message_handshake_type msg = (case msg_payload msg of
     MP_Handshake parsed _ \<Rightarrow> Some (HandshakePayload_handshake_type parsed) | _ \<Rightarrow> None)"

definition Message_build_alert :: "AlertLevel \<Rightarrow> AlertDescription \<Rightarrow> Message" where
  "Message_build_alert level desc =
     \<lparr>msg_version = Legacy ProtocolVersion_TLSv1_2,
      msg_payload = MP_Alert \<lparr>al_level = level, al_description = desc\<rparr>\<rparr>"

definition Message_build_key_update_notify ::
    "(bytes \<Rightarrow> ServerNameKind) \<Rightarrow> (bytes \<Rightarrow> bool) \<Rightarrow> Message" where
  "Message_build_key_update_notify classify dns_ok =
     \<lparr>msg_version = Legacy ProtocolVersion_TLSv1_3,
      msg_payload = MessagePayload_handshake classify dns_ok
        (HP_KeyUpdate KeyUpdateRequest_UpdateNotRequested)\<rparr>"

definition Message_build_key_update_request ::
    "(bytes \<Rightarrow> ServerNameKind) \<Rightarrow> (bytes \<Rightarrow> bool) \<Rightarrow> Message" where
  "Message_build_key_update_request classify dns_ok =
     \<lparr>msg_version = Legacy ProtocolVersion_TLSv1_3,
      msg_payload = MessagePayload_handshake classify dns_ok
        (HP_KeyUpdate KeyUpdateRequest_UpdateRequested)\<rparr>"

text \<open>Turning a record into a message and back gives the record, whatever its type.\<close>

lemma Record_from_Message_try_from:
  assumes "Message_try_from classify dns_ok plain = Inr msg"
  shows "Record_from_Message msg = plain"
  using assms
  by (auto simp: Message_try_from_def MessagePayload_new_def Record_from_Message_def
      AlertMessagePayload_read_iff ChangeCipherSpecPayload_read_iff split: if_splits
      intro!: Record.equality)

end
