(* ===== verification/Fragmenter.thy ===== *)
theory Fragmenter
  imports Record_Plain
begin

text \<open>
  The fragmenter (\<open>rustls/src/msgs/fragmenter.rs\<close>): outgoing payloads are cut into records
  that respect the configured maximum fragment size.  \<open>NonZeroUsize\<close> is a natural number
  that the well-formedness predicate keeps positive.
\<close>

definition PACKET_OVERHEAD :: usize where
  "PACKET_OVERHEAD = 1 + 2 + 2"

definition MAX_FRAGMENT_SIZE :: usize where
  "MAX_FRAGMENT_SIZE = MAX_FRAGMENT_LEN + PACKET_OVERHEAD"

record Fragmenter =
  max_frag :: usize

definition Fragmenter_default :: Fragmenter where
  "Fragmenter_default = \<lparr>max_frag = MAX_FRAGMENT_LEN\<rparr>"

definition set_max_fragment_size :: "usize option \<Rightarrow> Fragmenter \<Rightarrow> Error + Fragmenter" where
  "set_max_fragment_size max_fragment_size f = (case max_fragment_size of
     Some sz \<Rightarrow> if 32 \<le> sz \<and> sz \<le> MAX_FRAGMENT_SIZE then Inr (f\<lparr>max_frag := sz - PACKET_OVERHEAD\<rparr>)
       else Inl Error_BadMaxFragmentSize
   | None \<Rightarrow> Inr (f\<lparr>max_frag := MAX_FRAGMENT_LEN\<rparr>))"

text \<open>The iterator over the fragments of a payload.\<close>

record Chunker =
  ck_payload :: OutboundPlain
  ck_limit :: usize

definition Chunker_new :: "OutboundPlain \<Rightarrow> usize \<Rightarrow> Chunker" where
  "Chunker_new payload limit = \<lparr>ck_payload = payload, ck_limit = limit\<rparr>"

definition Chunker_next :: "Chunker \<Rightarrow> (OutboundPlain \<times> Chunker) option" where
  "Chunker_next c =
     (if OutboundPlain_is_empty (ck_payload c) then None
      else let (before, after) = OutboundPlain_split_at (ck_payload c) (ck_limit c) in
        Some (before, c\<lparr>ck_payload := after\<rparr>))"

definition Chunker_len :: "Chunker \<Rightarrow> usize" where
  "Chunker_len c = (OutboundPlain_len (ck_payload c) + ck_limit c - 1) div ck_limit c"

lemma split_at_len:
  "OutboundPlain_split_at p mid = (before, after) \<Longrightarrow>
     OutboundPlain_len after = OutboundPlain_len p - mid"
proof (cases p)
  case (OP_Multiple chunks start fin)
  assume sp: "OutboundPlain_split_at p mid = (before, after)"
  obtain skip consumed where sk: "split_skip chunks (min (start + mid) fin) 0 0 = (skip, consumed)"
    by fastforce
  from split_skip_props [OF sk] have "consumed \<le> min (start + mid) fin" by simp
  thus ?thesis using sp sk OP_Multiple by (auto simp: Let_def)
qed (auto simp: Let_def)

lemma Chunker_next_len:
  "Chunker_next c = Some (b, c') \<Longrightarrow> 0 < ck_limit c \<Longrightarrow>
     OutboundPlain_len (ck_payload c') < OutboundPlain_len (ck_payload c) \<and> ck_limit c' = ck_limit c"
  using split_at_len [of "ck_payload c" "ck_limit c"]
  by (fastforce simp: Chunker_next_def OutboundPlain_is_empty_def split: if_splits prod.splits)

text \<open>Draining the iterator; a \<open>NonZeroUsize\<close> limit guarantees progress.\<close>

function Chunker_collect :: "Chunker \<Rightarrow> OutboundPlain list" where
  "Chunker_collect c =
     (if ck_limit c = 0 then []
      else case Chunker_next c of None \<Rightarrow> [] | Some (b, c') \<Rightarrow> b # Chunker_collect c')"
  by auto
termination
  by (relation "measure (\<lambda>c. OutboundPlain_len (ck_payload c))") (auto dest: Chunker_next_len)

declare Chunker_collect.simps [simp del]

lemma Chunker_collect_loop:
  "0 < ck_limit c \<Longrightarrow>
     Chunker_collect c = (case Chunker_next c of None \<Rightarrow> [] | Some (b, c') \<Rightarrow> b # Chunker_collect c')"
  by (simp add: Chunker_collect.simps)

definition Fragmenter_fragment ::
    "Fragmenter \<Rightarrow> ContentType \<Rightarrow> EncodableVersion \<Rightarrow> OutboundPlain \<Rightarrow> usize \<Rightarrow> OutboundPlain Record list"
  where
  "Fragmenter_fragment f ctyp version payload encryption_overhead =
     (let max_plaintext = (if max_frag f - encryption_overhead \<noteq> 0
        then max_frag f - encryption_overhead else 1) in
      map (\<lambda>payload. \<lparr>rec_typ = ctyp, rec_version = version, rec_payload = payload\<rparr>)
        (Chunker_collect (Chunker_new payload max_plaintext)))"

definition Fragmenter_wf :: "Fragmenter \<Rightarrow> bool" where
  "Fragmenter_wf f \<longleftrightarrow> 0 < max_frag f \<and> max_frag f \<le> MAX_FRAGMENT_LEN"

subsection \<open>Fragments of a byte string\<close>

text \<open>The specification: cut a list into pieces of \<open>n\<close> elements, the last one possibly shorter.\<close>

function pieces :: "nat \<Rightarrow> 'a list \<Rightarrow> 'a list list" where
  "pieces n xs = (if n = 0 \<or> xs = [] then [] else take n xs # pieces n (drop n xs))"
  by auto
termination by (relation "measure (\<lambda>(n, xs). length xs)") auto

declare pieces.simps [simp del]

lemma pieces_Nil [simp]: "pieces n [] = []"
  by (simp add: pieces.simps)

lemma concat_pieces: "0 < n \<Longrightarrow> concat (pieces n xs) = xs"
proof (induction n xs rule: pieces.induct)
  case (1 n xs)
  thus ?case by (cases "xs = []") (simp_all add: pieces.simps [of n xs])
qed

lemma pieces_sizes: "p \<in> set (pieces n xs) \<Longrightarrow> p \<noteq> [] \<and> length p \<le> n"
proof (induction n xs rule: pieces.induct)
  case (1 n xs)
  thus ?case by (auto simp: pieces.simps [of n xs] split: if_splits)
qed

lemma length_pieces: "0 < n \<Longrightarrow> length (pieces n xs) = (length xs + n - 1) div n"
proof (induction n xs rule: pieces.induct)
  case (1 n xs)
  show ?case
  proof (cases "xs = []")
    case True
    thus ?thesis using 1(2) by (simp add: pieces.simps)
  next
    case False
    hence "length (pieces n xs) = Suc ((length xs - n + n - 1) div n)"
      using 1 by (subst pieces.simps) simp
    also have "\<dots> = (length xs + n - 1) div n"
    proof (cases "n \<le> length xs")
      case True
      hence "length xs + n - 1 = (length xs - n + n - 1) + n" using 1(2) by simp
      thus ?thesis using 1(2) by (simp only: div_add_self2)
    next
      case False
      have "0 < length xs" using \<open>xs \<noteq> []\<close> by simp
      hence "length xs + n - 1 = (length xs - 1) + n" by linarith
      hence "(length xs + n - 1) div n = Suc ((length xs - 1) div n)"
        using 1(2) by (simp only: div_add_self2)
      thus ?thesis using False 1(2) by simp
    qed
    finally show ?thesis .
  qed
qed

lemma Chunker_collect_pieces:
  "OutboundPlain_wf (ck_payload c) \<Longrightarrow> 0 < ck_limit c \<Longrightarrow>
     (\<forall>p \<in> set (Chunker_collect c). OutboundPlain_wf p) \<and>
     map OutboundPlain_to_vec (Chunker_collect c) = pieces (ck_limit c) (OutboundPlain_to_vec (ck_payload c))"
proof (induction c rule: Chunker_collect.induct)
  case (1 c)
  let ?p = "ck_payload c"
  note len = length_to_vec [OF 1(2)]
  show ?case
  proof (cases "OutboundPlain_is_empty ?p")
    case True
    hence "OutboundPlain_to_vec ?p = []" using len by (simp add: OutboundPlain_is_empty_def)
    thus ?thesis using True 1(3)
      by (simp add: Chunker_collect_loop Chunker_next_def pieces.simps)
  next
    case False
    obtain b a where ba: "OutboundPlain_split_at ?p (ck_limit c) = (b, a)" by fastforce
    with False have nx: "Chunker_next c = Some (b, c\<lparr>ck_payload := a\<rparr>)"
      by (simp add: Chunker_next_def)
    have ne: "OutboundPlain_to_vec ?p \<noteq> []" using len False by (auto simp: OutboundPlain_is_empty_def)
    from split_at_to_vec [OF 1(2) ba] 1(1) [OF _ nx refl] 1(3) nx ne
    show ?thesis by (simp add: Chunker_collect_loop [of c] pieces.simps [of "ck_limit c" "OutboundPlain_to_vec ?p"])
  qed
qed

lemma Fragmenter_fragment_pieces:
  assumes "OutboundPlain_wf payload"
  shows "map (\<lambda>r. OutboundPlain_to_vec (rec_payload r)) (Fragmenter_fragment f ctyp version payload overhead) =
      pieces (max 1 (max_frag f - overhead)) (OutboundPlain_to_vec payload) \<and>
    (\<forall>r \<in> set (Fragmenter_fragment f ctyp version payload overhead).
      rec_typ r = ctyp \<and> rec_version r = version \<and> OutboundPlain_wf (rec_payload r))"
proof -
  let ?n = "max 1 (max_frag f - overhead)"
  have n: "(if max_frag f - overhead \<noteq> 0 then max_frag f - overhead else 1) = ?n" by auto
  from Chunker_collect_pieces [of "Chunker_new payload ?n"] assms show ?thesis
    unfolding Fragmenter_fragment_def n Let_def by (auto simp: Chunker_new_def o_def)
qed

lemma Chunker_len_exact:
  "OutboundPlain_wf (ck_payload c) \<Longrightarrow> 0 < ck_limit c \<Longrightarrow> length (Chunker_collect c) = Chunker_len c"
  using Chunker_collect_pieces [of c] length_pieces [of "ck_limit c" "OutboundPlain_to_vec (ck_payload c)"]
  by (metis Chunker_len_def length_map length_to_vec)

lemma set_max_fragment_size_wf:
  "set_max_fragment_size sz f = Inr f' \<Longrightarrow> Fragmenter_wf f'"
  by (auto simp: set_max_fragment_size_def Fragmenter_wf_def MAX_FRAGMENT_SIZE_def PACKET_OVERHEAD_def
      MAX_FRAGMENT_LEN_def split: option.splits if_splits)

text \<open>Every record fits the configured size once header and cipher overhead are added.\<close>

lemma Fragmenter_fragment_fits:
  assumes "set_max_fragment_size (Some sz) f = Inr f'" "PACKET_OVERHEAD + overhead < sz"
    and "OutboundPlain_wf payload" "r \<in> set (Fragmenter_fragment f' ctyp version payload overhead)"
  shows "0 < OutboundPlain_len (rec_payload r) \<and>
    PACKET_OVERHEAD + OutboundPlain_len (rec_payload r) + overhead \<le> sz"
proof -
  have mf: "max_frag f' = sz - PACKET_OVERHEAD"
    using assms(1) by (auto simp: set_max_fragment_size_def split: if_splits)
  note frag = Fragmenter_fragment_pieces [OF assms(3), of f' ctyp version overhead]
  hence "OutboundPlain_wf (rec_payload r)" using assms(4) by blast
  hence len: "OutboundPlain_len (rec_payload r) = length (OutboundPlain_to_vec (rec_payload r))"
    by (simp add: length_to_vec)
  have "OutboundPlain_to_vec (rec_payload r) \<in>
      set (pieces (max 1 (max_frag f' - overhead)) (OutboundPlain_to_vec payload))"
    using frag assms(4) by (metis (no_types, lifting) image_eqI list.set_map)
  from pieces_sizes [OF this] len mf assms(2) show ?thesis by (auto simp: max_def split: if_splits)
qed

end
