(* ===== verification/Deframer.thy ===== *)
theory Deframer
  imports Record_Plain
begin

text \<open>
  The deframer (\<open>rustls/src/msgs/deframer/mod.rs\<close> and \<open>buffers.rs\<close>): it cuts the input buffer
  into records, collects the spans of handshake data in it, and moves fragments of a
  message together in place so that each handshake message can be parsed from one slice.

  The buffer is passed explicitly and returned where the source mutates it.  Indexing or
  copying out of range, a panic in the source, is the value \<open>None\<close>.
\<close>

subsection \<open>State\<close>

record FragmentSpan =
  fs_version :: ProtocolVersion
  fs_size :: "usize option"
  fs_start :: usize
  fs_end :: usize

record Deframer =
  df_spans :: "FragmentSpan list"
  df_too_large :: bool
  df_processed :: usize
  df_discard :: usize

record Deframed =
  dfd_record :: "bytes Record"
  dfd_start :: usize
  dfd_end :: usize

definition HANDSHAKE_HEADER_LEN :: usize where
  "HANDSHAKE_HEADER_LEN = 1 + 3"

definition MAX_HANDSHAKE_SIZE :: usize where
  "MAX_HANDSHAKE_SIZE = 0xffff"

definition Deframer_default :: Deframer where
  "Deframer_default = \<lparr>df_spans = [], df_too_large = False, df_processed = 0, df_discard = 0\<rparr>"

definition FragmentSpan_is_complete :: "FragmentSpan \<Rightarrow> bool" where
  "FragmentSpan_is_complete s = (case fs_size s of
     Some sz \<Rightarrow> sz + HANDSHAKE_HEADER_LEN = fs_end s - fs_start s
   | None \<Rightarrow> False)"

subsection \<open>Records\<close>

definition Deframer_deframe :: "bytes \<Rightarrow> Deframer \<Rightarrow> (Error + Deframed) option \<times> Deframer" where
  "Deframer_deframe buf d =
     (if length buf < df_processed d then (None, d)
      else case read_record_header (drop (df_processed d) buf) of
        Inl err \<Rightarrow> (case err of
            RecordError_TooShortForHeader \<Rightarrow> (None, d)
          | RecordError_TooShortForLength \<Rightarrow> (None, d)
          | RecordError_InvalidEmptyPayload \<Rightarrow> (Some (Inl (Error_InvalidMessage InvalidEmptyPayload)), d)
          | RecordError_MessageTooLarge \<Rightarrow> (Some (Inl (Error_InvalidMessage MessageTooLarge)), d)
          | RecordError_InvalidContentType \<Rightarrow> (Some (Inl (Error_InvalidMessage InvalidContentType)), d)
          | RecordError_UnknownProtocolVersion \<Rightarrow>
              (Some (Inl (Error_InvalidMessage UnknownProtocolVersion)), d))
      | Inr ((ctyp, version, len), _) \<Rightarrow>
          (let fin = df_processed d + HEADER_SIZE + unat len in
           if length buf < fin then (None, d)
           else (Some (Inr \<lparr>dfd_record = \<lparr>rec_typ = ctyp, rec_version = Legacy version,
                    rec_payload = slice (df_processed d + HEADER_SIZE) fin buf\<rparr>,
                  dfd_start = df_processed d, dfd_end = fin\<rparr>),
                 d\<lparr>df_processed := fin\<rparr>)))"

subsection \<open>Dissecting handshake data\<close>

text \<open>
  \<open>DissectHandshakeIter\<close>, drained: the spans of the messages in \<open>payload\<close>, which lies at
  \<open>start..fin\<close>.  A last span may be short of its message, or of its header.
\<close>

function DissectHandshakeIter :: "ProtocolVersion \<Rightarrow> bytes \<Rightarrow> usize \<Rightarrow> usize \<Rightarrow> FragmentSpan list" where
  "DissectHandshakeIter version payload start fin =
     (if payload = [] then []
      else if length payload < HANDSHAKE_HEADER_LEN
      then [\<lparr>fs_version = version, fs_size = None, fs_start = start, fs_end = fin\<rparr>]
      else
        (let header = take HANDSHAKE_HEADER_LEN payload; rest = drop HANDSHAKE_HEADER_LEN payload;
             size = be_nat (drop 1 header)
         in if size \<le> length rest
            then (let span_len = length header + size in
              \<lparr>fs_version = version, fs_size = Some size, fs_start = start, fs_end = start + span_len\<rparr> #
              DissectHandshakeIter version (drop size rest) (start + span_len) fin)
            else [\<lparr>fs_version = version, fs_size = Some size, fs_start = start,
                   fs_end = start + (length header + length rest)\<rparr>]))"
  by auto
termination
  by (relation "measure (\<lambda>(_, payload, _, _). length payload)") (auto simp: HANDSHAKE_HEADER_LEN_def)

declare DissectHandshakeIter.simps [simp del]

definition span_too_large :: "FragmentSpan \<Rightarrow> bool" where
  "span_too_large s \<longleftrightarrow> (case fs_size s of None \<Rightarrow> 0 | Some sz \<Rightarrow> sz) > MAX_HANDSHAKE_SIZE"

fun push_spans :: "FragmentSpan list \<Rightarrow> Deframer \<Rightarrow> Deframer" where
  "push_spans [] d = d"
| "push_spans (s # ss) d =
     push_spans ss (d\<lparr>df_too_large := df_too_large d \<or> span_too_large s, df_spans := df_spans d @ [s]\<rparr>)"

definition Deframer_input_message ::
    "ProtocolVersion \<Rightarrow> usize \<Rightarrow> usize \<Rightarrow> bytes \<Rightarrow> Deframer \<Rightarrow> Deframer" where
  "Deframer_input_message version start fin buf d =
     (if \<not> (start \<le> fin \<and> fin \<le> length buf) then d
      else if df_spans d \<noteq> [] \<and> \<not> FragmentSpan_is_complete (last (df_spans d))
      then d\<lparr>df_spans := df_spans d @
        [\<lparr>fs_version = version, fs_size = None, fs_start = start, fs_end = fin\<rparr>]\<rparr>
      else push_spans (DissectHandshakeIter version (slice start fin buf) start fin) d)"

subsection \<open>Coalescing\<close>

definition copy_within :: "usize \<Rightarrow> usize \<Rightarrow> usize \<Rightarrow> bytes \<Rightarrow> bytes option" where
  "copy_within start fin dest buf =
     (if start \<le> fin \<and> fin \<le> length buf \<and> dest + (fin - start) \<le> length buf
      then Some (write_at dest (slice start fin buf) buf) else None)"

definition slice_from_range :: "usize \<Rightarrow> usize \<Rightarrow> bytes \<Rightarrow> bytes option" where
  "slice_from_range start fin buf =
     (if start \<le> fin \<and> fin \<le> length buf then Some (slice start fin buf) else None)"

definition first_incomplete :: "FragmentSpan list \<Rightarrow> usize option" where
  "first_incomplete spans =
     (let i = length (takeWhile FragmentSpan_is_complete spans)
      in if i < length spans - 1 then Some i else None)"

fun insert_spans :: "usize \<Rightarrow> FragmentSpan list \<Rightarrow> Deframer \<Rightarrow> Deframer" where
  "insert_spans index [] d = d"
| "insert_spans index (s # ss) d =
     insert_spans (index + 1) ss
       (d\<lparr>df_too_large := df_too_large d \<or> span_too_large s,
          df_spans := take index (df_spans d) @ s # drop index (df_spans d)\<rparr>)"

text \<open>One pass of the loop, after \<open>index\<close> has been found.\<close>

definition coalesce_one :: "usize \<Rightarrow> bytes \<Rightarrow> Deframer \<Rightarrow> (Deframer \<times> bytes) option" where
  "coalesce_one index buf d =
     (let second = df_spans d ! (index + 1); first = df_spans d ! index;
          d = d\<lparr>df_spans := take index (df_spans d) @ drop (index + 2) (df_spans d)\<rparr>;
          len = fs_end second - fs_start second
      in Option.bind (copy_within (fs_start second) (fs_end second) (fs_end first) buf) (\<lambda>buf.
         let first = first\<lparr>fs_end := fs_end first + len\<rparr> in
         Option.bind (slice_from_range (fs_start first) (fs_end first) buf) (\<lambda>payload.
         Some (insert_spans index
           (DissectHandshakeIter (fs_version first) payload (fs_start first) (fs_end first)) d, buf))))"

lemma insert_spans_eq:
  "index \<le> length (df_spans d) \<Longrightarrow> insert_spans index ss d =
     d\<lparr>df_too_large := df_too_large d \<or> (\<exists>s \<in> set ss. span_too_large s),
       df_spans := take index (df_spans d) @ ss @ drop index (df_spans d)\<rparr>"
proof (induction ss arbitrary: index d)
  case (Cons s ss)
  let ?d = "d\<lparr>df_too_large := df_too_large d \<or> span_too_large s,
      df_spans := take index (df_spans d) @ s # drop index (df_spans d)\<rparr>"
  have "take (Suc index) (df_spans ?d) = take index (df_spans d) @ [s]"
    "drop (Suc index) (df_spans ?d) = drop index (df_spans d)"
    using Cons.prems by (simp_all add: min_def)
  thus ?case using Cons.IH [of "Suc index" ?d] Cons.prems by (auto simp: disj_commute disj_left_commute)
qed simp

lemma push_spans_eq:
  "push_spans ss d = d\<lparr>df_too_large := df_too_large d \<or> (\<exists>s \<in> set ss. span_too_large s),
     df_spans := df_spans d @ ss\<rparr>"
  by (induction ss arbitrary: d) auto

lemma DissectHandshakeIter_butlast_complete:
  "s \<in> set (butlast (DissectHandshakeIter version payload start fin)) \<Longrightarrow> FragmentSpan_is_complete s"
proof (induction version payload start fin rule: DissectHandshakeIter.induct)
  case (1 version payload start fin)
  thus ?case
    by (auto simp: DissectHandshakeIter.simps [of version payload start fin] Let_def
        FragmentSpan_is_complete_def HANDSHAKE_HEADER_LEN_def min_def split: if_splits)
qed

lemma length_dropWhile_butlast:
  "\<forall>x \<in> set (butlast xs). P x \<Longrightarrow> length (dropWhile P (xs @ ys)) \<le> Suc (length ys)"
proof (induction xs)
  case Nil
  show ?case using length_dropWhile_le [of P ys] by simp
next
  case (Cons x xs)
  thus ?case using length_dropWhile_le [of P ys] by (cases "xs = []") auto
qed

lemma coalesce_one_spans:
  assumes "coalesce_one index buf d = Some (d', buf')" "index + 1 < length (df_spans d)"
  obtains version payload start fin where
    "df_spans d' = take index (df_spans d) @ DissectHandshakeIter version payload start fin @
       drop (index + 2) (df_spans d)"
  using assms that
  by (auto simp: coalesce_one_def Let_def bind_eq_Some_conv insert_spans_eq min_def)

lemma first_incomplete_SomeD:
  assumes "first_incomplete spans = Some index"
  shows "index + 1 < length spans" "takeWhile FragmentSpan_is_complete spans = take index spans"
    "length (dropWhile FragmentSpan_is_complete spans) = length spans - index"
proof -
  let ?C = FragmentSpan_is_complete
  from assms have i: "index = length (takeWhile ?C spans)" "index < length spans - 1"
    by (auto simp: first_incomplete_def Let_def split: if_splits)
  thus "index + 1 < length spans" by simp
  show "takeWhile ?C spans = take index spans" using i(1) by (metis takeWhile_eq_take)
  show "length (dropWhile ?C spans) = length spans - index"
    using i(1) by (metis dropWhile_eq_drop length_drop)
qed

lemma coalesce_one_measure:
  assumes "coalesce_one index buf d = Some (d', buf')" "first_incomplete (df_spans d) = Some index"
  shows "length (dropWhile FragmentSpan_is_complete (df_spans d')) <
    length (dropWhile FragmentSpan_is_complete (df_spans d))"
proof -
  let ?C = FragmentSpan_is_complete
  note fi = first_incomplete_SomeD [OF assms(2)]
  obtain version payload start fin where sp: "df_spans d' = take index (df_spans d) @
      DissectHandshakeIter version payload start fin @ drop (index + 2) (df_spans d)"
    using coalesce_one_spans [OF assms(1) fi(1)] by blast
  have "\<forall>s \<in> set (take index (df_spans d)). ?C s"
    using fi(2) by (metis set_takeWhileD)
  hence "length (dropWhile ?C (df_spans d')) =
      length (dropWhile ?C (DissectHandshakeIter version payload start fin @ drop (index + 2) (df_spans d)))"
    unfolding sp by (simp add: dropWhile_append2)
  also have "\<dots> \<le> Suc (length (drop (index + 2) (df_spans d)))"
    by (rule length_dropWhile_butlast) (simp add: DissectHandshakeIter_butlast_complete)
  also have "\<dots> < length (df_spans d) - index" using fi(1) by simp
  finally show ?thesis unfolding fi(3) .
qed

text \<open>
  The loop ends because the spans from the first incomplete one on get fewer: two become
  at most one that is not complete.
\<close>

function Deframer_coalesce ::
    "bytes \<Rightarrow> Deframer \<Rightarrow> ((InvalidMessage + unit) \<times> Deframer \<times> bytes) option" where
  "Deframer_coalesce buf d =
     (if df_too_large d then Some (Inl HandshakePayloadTooLarge, d, buf)
      else case first_incomplete (df_spans d) of
        None \<Rightarrow> Some (Inr (), d, buf)
      | Some index \<Rightarrow> (case coalesce_one index buf d of
          None \<Rightarrow> None
        | Some (d', buf') \<Rightarrow> Deframer_coalesce buf' d'))"
  by auto
termination
  by (relation "measure (\<lambda>(_, d). length (dropWhile FragmentSpan_is_complete (df_spans d)))")
    (auto dest: coalesce_one_measure)

declare Deframer_coalesce.simps [simp del]

definition Deframer_input_quic ::
    "bytes \<Rightarrow> Deframer \<Rightarrow> ((InvalidMessage + unit) \<times> Deframer \<times> bytes) option" where
  "Deframer_input_quic buf d =
     (let start = df_processed d; fin = length buf;
          d = d\<lparr>df_processed := df_processed d + (fin - start)\<rparr>;
          d = Deframer_input_message ProtocolVersion_TLSv1_3 start fin buf d
      in Deframer_coalesce buf d)"

subsection \<open>Taking messages out\<close>

definition Deframer_complete_span :: "Deframer \<Rightarrow> FragmentSpan option \<times> Deframer" where
  "Deframer_complete_span d = (case df_spans d of
     span # spans \<Rightarrow> if FragmentSpan_is_complete span then (Some span, d\<lparr>df_spans := spans\<rparr>) else (None, d)
   | [] \<Rightarrow> (None, d))"

definition Deframer_record :: "FragmentSpan \<Rightarrow> bytes \<Rightarrow> Deframer \<Rightarrow> (bytes Record \<times> Deframer) option" where
  "Deframer_record next_span buf d =
     (let d = (if df_spans d = [] then d\<lparr>df_discard := df_processed d\<rparr> else d) in
      Option.bind (slice_from_range (fs_start next_span) (fs_end next_span) buf) (\<lambda>payload.
        Some (\<lparr>rec_typ = ContentType_Handshake, rec_version = Legacy (fs_version next_span),
               rec_payload = payload\<rparr>, d)))"

definition Deframer_take_discard :: "Deframer \<Rightarrow> usize \<times> Deframer" where
  "Deframer_take_discard d =
     (let discard = df_discard d in
      (discard, d\<lparr>df_discard := 0, df_processed := df_processed d - discard,
         df_spans := map (\<lambda>s. s\<lparr>fs_start := fs_start s - discard, fs_end := fs_end s - discard\<rparr>)
           (df_spans d)\<rparr>))"

definition Deframer_discard_processed :: "Deframer \<Rightarrow> Deframer" where
  "Deframer_discard_processed d = d\<lparr>df_discard := df_processed d\<rparr>"

definition Deframer_set_discard :: "usize \<Rightarrow> Deframer \<Rightarrow> Deframer" where
  "Deframer_set_discard discard d = d\<lparr>df_discard := discard\<rparr>"

definition Deframer_is_active :: "Deframer \<Rightarrow> bool" where
  "Deframer_is_active d \<longleftrightarrow> df_spans d \<noteq> []"

definition Deframer_aligned :: "Deframer \<Rightarrow> unit option" where
  "Deframer_aligned d = (if \<not> Deframer_is_active d then Some () else None)"

subsection \<open>Specification: the handshake stream\<close>

text \<open>
  The handshake data of a connection is one stream of bytes.  \<open>split_messages\<close> cuts it into
  messages by their headers; what does not make up a whole message is left as a last piece.
\<close>

definition declared_size :: "bytes \<Rightarrow> usize option" where
  "declared_size bs =
     (if length bs < HANDSHAKE_HEADER_LEN then None else Some (be_nat (drop 1 (take HANDSHAKE_HEADER_LEN bs))))"

definition complete_message :: "bytes \<Rightarrow> bool" where
  "complete_message bs \<longleftrightarrow> (\<exists>n. declared_size bs = Some n \<and> n + HANDSHAKE_HEADER_LEN = length bs)"

function split_messages :: "bytes \<Rightarrow> bytes list" where
  "split_messages bs =
     (if bs = [] then []
      else case declared_size bs of
        None \<Rightarrow> [bs]
      | Some n \<Rightarrow>
          if n + HANDSHAKE_HEADER_LEN \<le> length bs
          then take (n + HANDSHAKE_HEADER_LEN) bs # split_messages (drop (n + HANDSHAKE_HEADER_LEN) bs)
          else [bs])"
  by auto
termination by (relation "measure length") (auto simp: HANDSHAKE_HEADER_LEN_def)

declare split_messages.simps [simp del]

lemma split_messages_Nil [simp]: "split_messages [] = []"
  by (simp add: split_messages.simps)

lemma concat_split_messages [simp]: "concat (split_messages bs) = bs"
proof (induction bs rule: split_messages.induct)
  case (1 bs)
  thus ?case by (auto simp: split_messages.simps [of bs] split: option.splits)
qed

lemma declared_size_append:
  "declared_size bs = Some n \<Longrightarrow> declared_size (bs @ cs) = Some n"
  by (auto simp: declared_size_def split: if_splits)

lemma declared_size_take:
  "declared_size bs = Some n \<Longrightarrow> declared_size (take (n + HANDSHAKE_HEADER_LEN) bs) = Some n"
  by (auto simp: declared_size_def min_def split: if_splits)

lemma split_messages_complete:
  assumes "complete_message m"
  shows "split_messages (m @ bs) = m # split_messages bs"
proof -
  from assms obtain n where n: "declared_size m = Some n" "n + HANDSHAKE_HEADER_LEN = length m"
    by (auto simp: complete_message_def)
  hence "m \<noteq> []" by (auto simp: HANDSHAKE_HEADER_LEN_def)
  thus ?thesis using n declared_size_append [OF n(1), of bs] by (subst split_messages.simps) simp
qed

lemma split_messages_complete_list:
  "\<forall>m \<in> set ms. complete_message m \<Longrightarrow> split_messages (concat ms @ bs) = ms @ split_messages bs"
  by (induction ms) (simp_all add: split_messages_complete)

text \<open>The pieces: whole messages, then at most one piece that is not.\<close>

lemma split_messages_shape:
  obtains ms where "split_messages bs = ms" "\<forall>m \<in> set ms. complete_message m"
  | ms p where "split_messages bs = ms @ [p]" "\<forall>m \<in> set ms. complete_message m"
      "\<not> complete_message p" "p \<noteq> []"
proof -
  have "(\<forall>m \<in> set (split_messages bs). complete_message m) \<or>
    (\<exists>ms p. split_messages bs = ms @ [p] \<and> (\<forall>m \<in> set ms. complete_message m) \<and>
       \<not> complete_message p \<and> p \<noteq> [])"
  proof (induction bs rule: split_messages.induct)
    case (1 bs)
    consider "bs = []" | "bs \<noteq> []" "declared_size bs = None"
      | n where "bs \<noteq> []" "declared_size bs = Some n" "n + HANDSHAKE_HEADER_LEN > length bs"
      | n where "bs \<noteq> []" "declared_size bs = Some n" "n + HANDSHAKE_HEADER_LEN \<le> length bs"
      by (cases "declared_size bs") (use not_le in blast)+
    thus ?case
    proof cases
      case 4
      let ?m = "take (n + HANDSHAKE_HEADER_LEN) bs" and ?r = "drop (n + HANDSHAKE_HEADER_LEN) bs"
      have sp: "split_messages bs = ?m # split_messages ?r" using 4 by (simp add: split_messages.simps [of bs])
      have m: "complete_message ?m"
        using declared_size_take [OF 4(2)] 4(3) by (simp add: complete_message_def)
      from 1 [OF 4(1,2,3)] show ?thesis
      proof
        assume "\<forall>m \<in> set (split_messages ?r). complete_message m"
        thus ?thesis using sp m by simp
      next
        assume "\<exists>ms p. split_messages ?r = ms @ [p] \<and> (\<forall>m \<in> set ms. complete_message m) \<and>
            \<not> complete_message p \<and> p \<noteq> []"
        then obtain ms p where "split_messages ?r = ms @ [p]" "\<forall>m \<in> set ms. complete_message m"
          "\<not> complete_message p" "p \<noteq> []" by blast
        thus ?thesis using sp m by (intro disjI2 exI [of _ "?m # ms"] exI [of _ p]) simp
      qed
    qed (auto simp: split_messages.simps [of bs] complete_message_def)
  qed
  thus ?thesis using that by blast
qed

text \<open>More data only changes the last, unfinished piece.\<close>

lemma split_messages_append:
  "\<forall>m \<in> set ms. complete_message m \<Longrightarrow> split_messages bs = ms \<Longrightarrow>
     split_messages (bs @ cs) = ms @ split_messages cs"
  using split_messages_complete_list [of ms cs] concat_split_messages [of bs] by simp

lemma split_messages_append_partial:
  "\<forall>m \<in> set ms. complete_message m \<Longrightarrow> split_messages bs = ms @ [p] \<Longrightarrow>
     split_messages (bs @ cs) = ms @ split_messages (p @ cs)"
  using split_messages_complete_list [of ms "p @ cs"] concat_split_messages [of bs]
  by (metis append_assoc concat_append concat.simps append_Nil2)

subsection \<open>The spans implement the stream\<close>

definition span_bytes :: "bytes \<Rightarrow> FragmentSpan \<Rightarrow> bytes" where
  "span_bytes buf s = slice (fs_start s) (fs_end s) buf"

lemma span_bytes_bounds [simp]:
  "span_bytes buf \<lparr>fs_version = version, fs_size = sz, fs_start = start, fs_end = fin\<rparr> = slice start fin buf"
  by (simp add: span_bytes_def)

text \<open>Spans lie in order, without overlap, between two positions.\<close>

fun spans_between :: "usize \<Rightarrow> FragmentSpan list \<Rightarrow> usize \<Rightarrow> bool" where
  "spans_between lo [] hi \<longleftrightarrow> lo \<le> hi"
| "spans_between lo (s # ss) hi \<longleftrightarrow>
     lo \<le> fs_start s \<and> fs_start s \<le> fs_end s \<and> spans_between (fs_end s) ss hi"

definition handshake_stream :: "bytes \<Rightarrow> Deframer \<Rightarrow> bytes" where
  "handshake_stream buf d = concat (map (span_bytes buf) (df_spans d))"

definition Deframer_settled :: "bytes \<Rightarrow> Deframer \<Rightarrow> bool" where
  "Deframer_settled buf d \<longleftrightarrow>
     df_processed d \<le> length buf \<and> spans_between 0 (df_spans d) (df_processed d) \<and>
     map (span_bytes buf) (df_spans d) = split_messages (handshake_stream buf d) \<and>
     (\<forall>s \<in> set (df_spans d). fs_size s = declared_size (span_bytes buf s)) \<and>
     (\<not> df_too_large d \<longrightarrow> (\<forall>s \<in> set (df_spans d). \<not> span_too_large s))"

lemma spans_between_le: "spans_between lo ss hi \<Longrightarrow> lo \<le> hi"
  by (induction ss arbitrary: lo) force+

lemma spans_between_mono: "spans_between lo ss hi \<Longrightarrow> lo' \<le> lo \<Longrightarrow> hi \<le> hi' \<Longrightarrow> spans_between lo' ss hi'"
  by (induction ss arbitrary: lo lo') auto

lemma spans_between_append:
  "spans_between lo (ss @ ts) hi \<longleftrightarrow> (\<exists>mid. spans_between lo ss mid \<and> spans_between mid ts hi)"
proof (induction ss arbitrary: lo)
  case Nil
  have "spans_between lo ts hi" if "lo \<le> mid" "spans_between mid ts hi" for mid
    using spans_between_mono [OF that(2,1)] by simp
  thus ?case by auto
qed auto

lemma spans_between_set:
  "spans_between lo ss hi \<Longrightarrow> s \<in> set ss \<Longrightarrow> lo \<le> fs_start s \<and> fs_start s \<le> fs_end s \<and> fs_end s \<le> hi"
  by (induction ss arbitrary: lo) (fastforce dest: spans_between_le)+

lemma length_span_bytes:
  "fs_end s \<le> length buf \<Longrightarrow> length (span_bytes buf s) = fs_end s - fs_start s"
  by (simp add: span_bytes_def)

lemma is_complete_iff:
  "fs_size s = declared_size (span_bytes buf s) \<Longrightarrow> fs_end s \<le> length buf \<Longrightarrow>
     FragmentSpan_is_complete s \<longleftrightarrow> complete_message (span_bytes buf s)"
  by (auto simp: FragmentSpan_is_complete_def complete_message_def length_span_bytes split: option.splits)

text \<open>Dissecting the slice \<open>start..fin\<close> of the buffer.\<close>

lemma slice_take: "a + n \<le> b \<Longrightarrow> take n (slice a b xs) = slice a (a + n) xs"
  by (simp add: slice_def min_def)

lemma slice_drop: "drop n (slice a b xs) = slice (a + n) b xs"
  by (simp add: slice_def drop_take add.commute)

lemma DissectHandshakeIter_split:
  assumes "start \<le> fin" "fin \<le> length buf" "payload = slice start fin buf"
  shows "map (span_bytes buf) (DissectHandshakeIter version payload start fin) = split_messages payload \<and>
    spans_between start (DissectHandshakeIter version payload start fin) fin \<and>
    (\<forall>s \<in> set (DissectHandshakeIter version payload start fin).
       fs_size s = declared_size (span_bytes buf s) \<and> fs_version s = version)"
  using assms
proof (induction version payload start fin rule: DissectHandshakeIter.induct)
  case (1 version payload start fin)
  let ?size = "be_nat (drop 1 (take HANDSHAKE_HEADER_LEN payload))"
  have len: "length payload = fin - start" using 1(2-4) by simp
  consider "payload = []" | "payload \<noteq> []" "length payload < HANDSHAKE_HEADER_LEN"
    | "HANDSHAKE_HEADER_LEN \<le> length payload" "length payload < ?size + HANDSHAKE_HEADER_LEN"
    | "HANDSHAKE_HEADER_LEN \<le> length payload" "?size + HANDSHAKE_HEADER_LEN \<le> length payload"
    by linarith
  thus ?case
  proof cases
    case 4
    let ?n = "?size + HANDSHAKE_HEADER_LEN"
    have ne: "payload \<noteq> []" using 4(1) by (auto simp: HANDSHAKE_HEADER_LEN_def)
    have bounds: "start + ?n \<le> fin" using 4(2) len 1(2) by linarith
    have dr: "drop ?size (drop HANDSHAKE_HEADER_LEN payload) = slice (start + ?n) fin buf"
      using 1(4) by (simp add: slice_drop ac_simps)
    have h: "length (take HANDSHAKE_HEADER_LEN payload) = HANDSHAKE_HEADER_LEN" using 4(1) by simp
    have dis: "DissectHandshakeIter version payload start fin =
        \<lparr>fs_version = version, fs_size = Some ?size, fs_start = start, fs_end = start + ?n\<rparr> #
        DissectHandshakeIter version (slice (start + ?n) fin buf) (start + ?n) fin"
      using 4 ne dr h
      by (simp add: DissectHandshakeIter.simps [of version payload start fin] Let_def add.commute)
    have ds: "declared_size payload = Some ?size" using 4(1) by (simp add: declared_size_def)
    have sp: "split_messages payload = slice start (start + ?n) buf # split_messages (slice (start + ?n) fin buf)"
    proof -
      have "take ?n payload = slice start (start + ?n) buf" "drop ?n payload = slice (start + ?n) fin buf"
        using slice_take [OF bounds, of buf] slice_drop [of ?n start fin buf] by (simp_all only: 1(4))
      thus ?thesis using ne ds 4(2) by (simp only: split_messages.simps [of payload]) simp
    qed
    have "declared_size (slice start (start + ?n) buf) = Some ?size"
      using declared_size_take [OF ds] slice_take [OF bounds, of buf] 1(4) by simp
    moreover have "start + (length (take HANDSHAKE_HEADER_LEN payload) + ?size) = start + ?n"
      using h by simp
    moreover have "map (span_bytes buf) (DissectHandshakeIter version (slice (start + ?n) fin buf) (start + ?n) fin) =
        split_messages (slice (start + ?n) fin buf) \<and>
      spans_between (start + ?n) (DissectHandshakeIter version (slice (start + ?n) fin buf) (start + ?n) fin) fin \<and>
      (\<forall>s \<in> set (DissectHandshakeIter version (slice (start + ?n) fin buf) (start + ?n) fin).
         fs_size s = declared_size (span_bytes buf s) \<and> fs_version s = version)"
      using 1(1) [OF ne] 4 h dr bounds 1(3) by (simp add: add.commute add.left_commute)
    ultimately show ?thesis unfolding dis sp by simp
  next
    case 3
    hence ne: "payload \<noteq> []" by (auto simp: HANDSHAKE_HEADER_LEN_def)
    have fin: "start + length payload = fin" using len 1(2) by simp
    have "start + (length (take HANDSHAKE_HEADER_LEN payload) + length (drop HANDSHAKE_HEADER_LEN payload)) = fin"
      using fin by (metis append_take_drop_id length_append)
    hence dis: "DissectHandshakeIter version payload start fin =
        [\<lparr>fs_version = version, fs_size = Some ?size, fs_start = start, fs_end = fin\<rparr>]"
      using 3 ne by (simp add: DissectHandshakeIter.simps [of version payload start fin] Let_def)
    have ds: "declared_size payload = Some ?size" using 3(1) by (simp add: declared_size_def)
    hence "split_messages payload = [payload]" using ne 3(2) by (simp add: split_messages.simps [of payload])
    thus ?thesis using ds 1(2,4) unfolding dis by simp
  next
    case 1
    hence "DissectHandshakeIter version payload start fin = []"
      by (subst DissectHandshakeIter.simps) simp
    thus ?thesis using \<open>start \<le> fin\<close> \<open>payload = []\<close> by simp
  next
    case 2
    hence dis: "DissectHandshakeIter version payload start fin =
        [\<lparr>fs_version = version, fs_size = None, fs_start = start, fs_end = fin\<rparr>]"
      by (simp add: DissectHandshakeIter.simps [of version payload start fin])
    have ds: "declared_size payload = None" using 2 by (simp add: declared_size_def)
    hence "split_messages payload = [payload]" using 2 by (simp add: split_messages.simps [of payload])
    thus ?thesis using ds \<open>start \<le> fin\<close> \<open>payload = slice start fin buf\<close> unfolding dis by simp
  qed
qed

lemma write_at_slice_before: "b \<le> e \<Longrightarrow> e \<le> length buf \<Longrightarrow> slice a b (write_at e bs buf) = slice a b buf"
  by (auto simp: write_at_def slice_def drop_take)

lemma write_at_slice_across:
  assumes "a \<le> e" "e + length bs \<le> length buf"
  shows "slice a (e + length bs) (write_at e bs buf) = slice a e buf @ bs"
proof -
  have "e + length bs - a = (e - a) + length bs" using assms by simp
  moreover have "drop a (write_at e bs buf) = slice a e buf @ bs @ drop (e + length bs) buf"
    using assms by (simp add: write_at_def slice_def drop_take)
  moreover have "length (slice a e buf) = e - a" using assms by simp
  ultimately show ?thesis by (simp add: slice_def [of a "e + length bs"])
qed

lemma write_at_drop:
  assumes "e + length bs \<le> n" "n \<le> length buf"
  shows "drop n (write_at e bs buf) = drop n buf"
proof -
  have "length (take e buf) = e" using assms by simp
  thus ?thesis using assms by (simp add: write_at_def)
qed

lemma settled_shape:
  assumes "Deframer_settled buf d"
  obtains "\<forall>s \<in> set (df_spans d). FragmentSpan_is_complete s \<and> complete_message (span_bytes buf s)"
  | ss s where "df_spans d = ss @ [s]" "\<not> FragmentSpan_is_complete s"
      "\<forall>s \<in> set ss. FragmentSpan_is_complete s \<and> complete_message (span_bytes buf s)"
proof -
  have iff: "FragmentSpan_is_complete s \<longleftrightarrow> complete_message (span_bytes buf s)" if "s \<in> set (df_spans d)" for s
    using assms that spans_between_set [of 0 "df_spans d" "df_processed d" s]
    by (intro is_complete_iff) (auto simp: Deframer_settled_def)
  have m: "map (span_bytes buf) (df_spans d) = split_messages (handshake_stream buf d)"
    using assms by (simp add: Deframer_settled_def)
  show ?thesis
  proof (cases rule: split_messages_shape [of "handshake_stream buf d"])
    case (1 ms)
    hence "\<forall>s \<in> set (df_spans d). complete_message (span_bytes buf s)"
      using m by (metis image_eqI list.set_map)
    thus ?thesis using iff that(1) by blast
  next
    case (2 ms p)
    then obtain ss s where ss: "df_spans d = ss @ [s]" "map (span_bytes buf) ss = ms" "span_bytes buf s = p"
      using m by (auto simp: map_eq_append_conv)
    hence "\<forall>s \<in> set ss. complete_message (span_bytes buf s)" using 2(2) by auto
    thus ?thesis using iff ss 2(3) that(2) [of ss s] by auto
  qed
qed

lemma coalesce_settled:
  assumes "Deframer_settled buf d"
  shows "Deframer_coalesce buf d =
    Some (if df_too_large d then Inl HandshakePayloadTooLarge else Inr (), d, buf)"
proof -
  from assms have "first_incomplete (df_spans d) = None"
  proof (cases rule: settled_shape)
    case 1
    hence "takeWhile FragmentSpan_is_complete (df_spans d) = df_spans d" by simp
    thus ?thesis by (simp only: first_incomplete_def Let_def) simp
  next
    case (2 ss s)
    hence "takeWhile FragmentSpan_is_complete (df_spans d) = ss" by (simp add: takeWhile_append2)
    thus ?thesis using 2(1) by (simp add: first_incomplete_def)
  qed
  thus ?thesis by (subst Deframer_coalesce.simps) simp
qed

text \<open>The receiver refuses the stream once a message of it declares more than 64 KB.\<close>

definition oversized :: "bytes \<Rightarrow> bool" where
  "oversized bs \<longleftrightarrow> (\<exists>m \<in> set (split_messages bs).
     case declared_size m of None \<Rightarrow> False | Some n \<Rightarrow> MAX_HANDSHAKE_SIZE < n)"

lemma settled_oversized:
  assumes "Deframer_settled buf d"
    and "df_too_large d \<longleftrightarrow> (\<exists>s \<in> set (df_spans d). span_too_large s)"
  shows "df_too_large d \<longleftrightarrow> oversized (handshake_stream buf d)"
proof -
  have "split_messages (handshake_stream buf d) = map (span_bytes buf) (df_spans d)"
    and "\<forall>s \<in> set (df_spans d). fs_size s = declared_size (span_bytes buf s)"
    using assms(1) by (simp_all add: Deframer_settled_def)
  thus ?thesis using assms(2)
    by (auto simp: oversized_def span_too_large_def split: option.splits)
qed

text \<open>
  Appending the spans of freshly dissected data to complete ones, the step both branches
  of \<open>input_message\<close> come down to.
\<close>

lemma settled_extend:
  assumes "spans_between 0 cs start" "start \<le> fin" "fin \<le> hi" "hi \<le> length buf"
    and "\<forall>s \<in> set cs. complete_message (span_bytes buf s) \<and> fs_size s = declared_size (span_bytes buf s) \<and>
      \<not> span_too_large s"
    and D: "D = DissectHandshakeIter version (slice start fin buf) start fin"
    and d': "df_spans d' = cs @ D" "df_processed d' = hi" "df_too_large d' \<longleftrightarrow> (\<exists>s \<in> set D. span_too_large s)"
  shows "Deframer_settled buf d'" "handshake_stream buf d' = concat (map (span_bytes buf) cs) @ slice start fin buf"
    "spans_between 0 (df_spans d') fin" "df_too_large d' \<longleftrightarrow> oversized (handshake_stream buf d')"
proof -
  have dis: "map (span_bytes buf) D = split_messages (slice start fin buf)" "spans_between start D fin"
    "\<forall>s \<in> set D. fs_size s = declared_size (span_bytes buf s)"
    using DissectHandshakeIter_split [of start fin buf, OF assms(2) _ refl, of version] assms(3,4) D by auto
  show stream: "handshake_stream buf d' = concat (map (span_bytes buf) cs) @ slice start fin buf"
    by (simp add: handshake_stream_def d'(1) dis(1))
  show between: "spans_between 0 (df_spans d') fin"
    using assms(1) dis(2) by (auto simp: d'(1) spans_between_append)
  have "split_messages (handshake_stream buf d') = map (span_bytes buf) (df_spans d')"
    using split_messages_complete_list [of "map (span_bytes buf) cs" "slice start fin buf"] assms(5)
    by (simp add: stream d'(1) dis(1))
  thus settled: "Deframer_settled buf d'"
    using assms(3-5) dis(3) d' spans_between_mono [OF between, of 0 hi] by (auto simp: Deframer_settled_def)
  show "df_too_large d' \<longleftrightarrow> oversized (handshake_stream buf d')"
    using settled_oversized [OF settled] assms(5) d' by auto
qed

text \<open>What delivering one fragment and coalescing does, as seen from the stream.\<close>

definition delivers ::
    "bytes \<Rightarrow> Deframer \<Rightarrow> usize \<Rightarrow> bytes \<Rightarrow> (InvalidMessage + unit) \<Rightarrow> Deframer \<Rightarrow> bytes \<Rightarrow> bool" where
  "delivers buf d fin frag res d' buf' \<longleftrightarrow>
     Deframer_settled buf' d' \<and> handshake_stream buf' d' = handshake_stream buf d @ frag \<and>
     spans_between 0 (df_spans d') fin \<and>
     length buf' = length buf \<and> drop fin buf' = drop fin buf \<and>
     df_processed d' = df_processed d \<and> df_discard d' = df_discard d \<and>
     df_too_large d' = oversized (handshake_stream buf' d') \<and>
     res = (if oversized (handshake_stream buf' d') then Inl HandshakePayloadTooLarge else Inr ())"

lemma input_coalesce_aligned:
  assumes "Deframer_settled buf d" "\<not> df_too_large d" "\<forall>s \<in> set (df_spans d). FragmentSpan_is_complete s"
    and "\<forall>s \<in> set (df_spans d). complete_message (span_bytes buf s)"
    and "spans_between 0 (df_spans d) start" "start \<le> fin" "fin \<le> df_processed d"
  shows "\<exists>res d' buf'. Deframer_coalesce buf (Deframer_input_message version start fin buf d) =
      Some (res, d', buf') \<and> delivers buf d fin (slice start fin buf) res d' buf'"
proof -
  let ?D = "DissectHandshakeIter version (slice start fin buf) start fin"
  let ?d = "Deframer_input_message version start fin buf d"
  have hi: "df_processed d \<le> length buf" using assms(1) by (simp add: Deframer_settled_def)
  have last: "\<not> (df_spans d \<noteq> [] \<and> \<not> FragmentSpan_is_complete (last (df_spans d)))"
    using assms(3) last_in_set by blast
  have d: "?d = d\<lparr>df_too_large := \<exists>s \<in> set ?D. span_too_large s, df_spans := df_spans d @ ?D\<rparr>"
    unfolding Deframer_input_message_def using last assms(2,6,7) hi by (auto simp: push_spans_eq)
  note ext = settled_extend [of "df_spans d" start fin "df_processed d" buf ?D version ?d, OF assms(5-7) hi]
  have cs: "\<forall>s \<in> set (df_spans d). complete_message (span_bytes buf s) \<and>
      fs_size s = declared_size (span_bytes buf s) \<and> \<not> span_too_large s"
    using assms(1,2,4) by (simp add: Deframer_settled_def)
  have "df_spans ?d = df_spans d @ ?D" "df_processed ?d = df_processed d" "df_discard ?d = df_discard d"
    "df_too_large ?d \<longleftrightarrow> (\<exists>s \<in> set ?D. span_too_large s)"
    unfolding d by simp_all
  with ext [OF cs refl] have *: "Deframer_settled buf ?d" "spans_between 0 (df_spans ?d) fin"
    "handshake_stream buf ?d = handshake_stream buf d @ slice start fin buf"
    "df_too_large ?d \<longleftrightarrow> oversized (handshake_stream buf ?d)"
    "df_processed ?d = df_processed d" "df_discard ?d = df_discard d"
    by (simp_all add: handshake_stream_def)
  thus ?thesis using coalesce_settled [OF *(1)]
    by (intro exI [of _ "if df_too_large ?d then Inl HandshakePayloadTooLarge else Inr ()"] exI [of _ ?d]
        exI [of _ buf]) (auto simp: delivers_def)
qed

text \<open>One pass on a partial message and the fragment behind it: the two are joined in place.\<close>

lemma coalesce_one_joins:
  fixes buf :: bytes and start fin :: usize and s :: FragmentSpan
  defines "frag \<equiv> slice start fin buf"
  defines "buf' \<equiv> write_at (fs_end s) frag buf" and "fin' \<equiv> fs_end s + (fin - start)"
  defines "D \<equiv> DissectHandshakeIter (fs_version s) (slice (fs_start s) fin' buf') (fs_start s) fin'"
  assumes "df_spans d = ss @ [s]" "\<not> df_too_large d"
    and "fs_start s \<le> fs_end s" "fs_end s \<le> start" "start \<le> fin" "fin \<le> length buf"
  shows "coalesce_one (length ss) buf (d\<lparr>df_spans := df_spans d @
        [\<lparr>fs_version = version, fs_size = None, fs_start = start, fs_end = fin\<rparr>]\<rparr>) =
      Some (d\<lparr>df_too_large := \<exists>s \<in> set D. span_too_large s, df_spans := ss @ D\<rparr>, buf')"
    and "length buf' = length buf" "drop fin buf' = drop fin buf" "fin' \<le> fin" "fs_start s \<le> fin'"
    and "slice (fs_start s) fin' buf' = span_bytes buf s @ frag"
    and "fs_end t \<le> fs_end s \<Longrightarrow> span_bytes buf' t = span_bytes buf t"
proof -
  have len: "length frag = fin - start" using assms(9,10) by (simp add: frag_def)
  show fin': "fin' \<le> fin" and fs: "fs_start s \<le> fin'" using assms(7-9) by (simp_all add: fin'_def)
  show lb: "length buf' = length buf" using fin' len assms(10) by (simp add: buf'_def fin'_def)
  show "drop fin buf' = drop fin buf"
    using write_at_drop [of "fs_end s" frag fin buf] len fin' assms(10) by (simp add: buf'_def fin'_def)
  show "slice (fs_start s) fin' buf' = span_bytes buf s @ frag"
    using write_at_slice_across [OF assms(7), of frag buf] len fin' assms(10)
    by (simp add: span_bytes_def buf'_def fin'_def)
  show "fs_end t \<le> fs_end s \<Longrightarrow> span_bytes buf' t = span_bytes buf t"
    using assms(8-10) by (simp add: span_bytes_def buf'_def write_at_slice_before)
  have "copy_within start fin (fs_end s) buf = Some buf'"
    using assms(9,10) fin' by (simp add: copy_within_def buf'_def frag_def fin'_def)
  moreover have "slice_from_range (fs_start s) fin' buf' = Some (slice (fs_start s) fin' buf')"
    using fs fin' lb assms(10) by (simp add: slice_from_range_def)
  ultimately show "coalesce_one (length ss) buf (d\<lparr>df_spans := df_spans d @
        [\<lparr>fs_version = version, fs_size = None, fs_start = start, fs_end = fin\<rparr>]\<rparr>) =
      Some (d\<lparr>df_too_large := \<exists>s \<in> set D. span_too_large s, df_spans := ss @ D\<rparr>, buf')"
    using assms(5,6) by (simp add: coalesce_one_def Let_def insert_spans_eq nth_append D_def fin'_def)
qed

lemma input_coalesce_partial:
  assumes "Deframer_settled buf d" "\<not> df_too_large d"
    and "df_spans d = ss @ [s]" "\<not> FragmentSpan_is_complete s"
    and "\<forall>s \<in> set ss. FragmentSpan_is_complete s \<and> complete_message (span_bytes buf s)"
    and "spans_between 0 (df_spans d) start" "start \<le> fin" "fin \<le> df_processed d"
  shows "\<exists>res d' buf'. Deframer_coalesce buf (Deframer_input_message version start fin buf d) =
      Some (res, d', buf') \<and> delivers buf d fin (slice start fin buf) res d' buf'"
proof -
  let ?frag = "slice start fin buf" and ?e = "fs_end s"
  let ?d1 = "d\<lparr>df_spans := df_spans d @
    [\<lparr>fs_version = version, fs_size = None, fs_start = start, fs_end = fin\<rparr>]\<rparr>"
  let ?buf = "write_at ?e ?frag buf" and ?fin = "?e + (fin - start)"
  let ?D = "DissectHandshakeIter (fs_version s) (slice (fs_start s) ?fin ?buf) (fs_start s) ?fin"
  let ?d2 = "d\<lparr>df_too_large := \<exists>s \<in> set ?D. span_too_large s, df_spans := ss @ ?D\<rparr>"
  have hi: "df_processed d \<le> length buf" using assms(1) by (simp add: Deframer_settled_def)
  from assms(3,6) have bt: "spans_between 0 ss (fs_start s)" "fs_start s \<le> ?e" "?e \<le> start"
    by (auto simp: spans_between_append intro: spans_between_mono)
  note join = coalesce_one_joins [OF assms(3,2) bt(2,3) assms(7) order_trans [OF assms(8) hi]]
  have inp: "Deframer_input_message version start fin buf d = ?d1"
    using assms(3,4,7,8) hi by (simp add: Deframer_input_message_def)
  have first: "first_incomplete (df_spans ?d1) = Some (length ss)"
    using assms(3-5) by (simp add: first_incomplete_def takeWhile_append2)
  have same: "span_bytes ?buf t = span_bytes buf t" if "t \<in> set ss" for t
    using spans_between_set [OF bt(1) that] bt(2) by (intro join(7)) simp
  have cs: "\<forall>t \<in> set ss. complete_message (span_bytes ?buf t) \<and>
      fs_size t = declared_size (span_bytes ?buf t) \<and> \<not> span_too_large t"
    using assms(1,2,3,5) same by (simp add: Deframer_settled_def)
  have fp: "?fin \<le> df_processed d" "df_processed d \<le> length ?buf"
    using join(2,4) assms(8) hi by linarith+
  note ext = settled_extend [of ss "fs_start s" ?fin "df_processed d" ?buf ?D "fs_version s" ?d2,
      OF bt(1) join(5) fp cs refl, simplified]
  have stream: "handshake_stream ?buf ?d2 = handshake_stream buf d @ ?frag"
    using ext(2) join(6) same assms(3) by (simp add: handshake_stream_def cong: map_cong)
  have "Deframer_coalesce buf ?d1 = Deframer_coalesce ?buf ?d2"
    using assms(2) join(1) first by (subst Deframer_coalesce.simps) simp
  hence "Deframer_coalesce buf (Deframer_input_message version start fin buf d) =
      Some (if df_too_large ?d2 then Inl HandshakePayloadTooLarge else Inr (), ?d2, ?buf)"
    using coalesce_settled [OF ext(1)] inp by simp
  moreover have "spans_between 0 (df_spans ?d2) fin"
    using spans_between_mono [OF ext(3), of 0 fin] join(4) by simp
  ultimately show ?thesis using ext(1,4) stream join(2,3)
    by (intro exI [of _ "if df_too_large ?d2 then Inl HandshakePayloadTooLarge else Inr ()"] exI [of _ ?d2]
        exI [of _ ?buf]) (auto simp: delivers_def)
qed

lemma input_coalesce_delivers:
  assumes "Deframer_settled buf d" "\<not> df_too_large d"
    and "spans_between 0 (df_spans d) start" "start \<le> fin" "fin \<le> df_processed d"
  shows "\<exists>res d' buf'. Deframer_coalesce buf (Deframer_input_message version start fin buf d) =
      Some (res, d', buf') \<and> delivers buf d fin (slice start fin buf) res d' buf'"
  using assms(1)
proof (cases rule: settled_shape)
  case 1
  thus ?thesis using input_coalesce_aligned assms by blast
next
  case (2 ss s)
  thus ?thesis using input_coalesce_partial [OF assms(1,2) 2 assms(3-5)] by blast
qed

subsection \<open>Delivering messages\<close>

lemma settled_tl:
  assumes "Deframer_settled buf d" "df_spans d = s # ss" "FragmentSpan_is_complete s"
    and "df_spans d' = ss" "df_processed d' = df_processed d" "df_too_large d' = df_too_large d"
  shows "Deframer_settled buf d' \<and> complete_message (span_bytes buf s) \<and>
    handshake_stream buf d = span_bytes buf s @ handshake_stream buf d'"
proof -
  have bt: "fs_start s \<le> fs_end s" "spans_between (fs_end s) ss (df_processed d)" "fs_end s \<le> length buf"
    using assms(1,2) spans_between_le by (fastforce simp: Deframer_settled_def)+
  have cm: "complete_message (span_bytes buf s)"
    using is_complete_iff [of s buf] assms(1-3) bt(3) by (simp add: Deframer_settled_def)
  have st: "handshake_stream buf d = span_bytes buf s @ handshake_stream buf d'"
    by (simp add: handshake_stream_def assms)
  have "span_bytes buf s # map (span_bytes buf) ss = split_messages (handshake_stream buf d)"
    using assms(1,2) by (simp add: Deframer_settled_def)
  hence "map (span_bytes buf) ss = split_messages (handshake_stream buf d')"
    using split_messages_complete [OF cm] st by simp
  thus ?thesis using assms cm st spans_between_mono [OF bt(2), of 0 "df_processed d"]
    by (simp add: Deframer_settled_def)
qed

lemma next_message:
  assumes "Deframer_settled buf d" "Deframer_complete_span d = (Some span, d1)"
  shows "\<exists>rec d2. Deframer_record span buf d1 = Some (rec, d2) \<and> rec_typ rec = ContentType_Handshake \<and>
    complete_message (rec_payload rec) \<and> Deframer_settled buf d2 \<and>
    handshake_stream buf d = rec_payload rec @ handshake_stream buf d2"
proof -
  from assms(2) obtain ss where d1: "df_spans d = span # ss" "FragmentSpan_is_complete span" "d1 = d\<lparr>df_spans := ss\<rparr>"
    by (auto simp: Deframer_complete_span_def split: list.splits if_splits)
  have rng: "fs_start span \<le> fs_end span" "fs_end span \<le> length buf"
    using assms(1) d1(1) spans_between_set [of 0 "df_spans d" "df_processed d" span]
    by (auto simp: Deframer_settled_def)
  let ?d2 = "if df_spans d1 = [] then d1\<lparr>df_discard := df_processed d1\<rparr> else d1"
  have "Deframer_record span buf d1 = Some (\<lparr>rec_typ = ContentType_Handshake,
      rec_version = Legacy (fs_version span), rec_payload = span_bytes buf span\<rparr>, ?d2)"
    using rng by (simp add: Deframer_record_def slice_from_range_def span_bytes_def)
  moreover have "Deframer_settled buf ?d2 \<and> complete_message (span_bytes buf span) \<and>
      handshake_stream buf d = span_bytes buf span @ handshake_stream buf ?d2"
    by (rule settled_tl [OF assms(1) d1(1,2)]) (simp_all add: d1(3))
  ultimately show ?thesis by auto
qed

lemma no_message:
  assumes "Deframer_settled buf d" "Deframer_complete_span d = (None, d1)"
  shows "d1 = d \<and> (\<forall>m rest. handshake_stream buf d = m @ rest \<longrightarrow> \<not> complete_message m)"
proof -
  have d: "d1 = d" "df_spans d = [] \<or> \<not> FragmentSpan_is_complete (hd (df_spans d))"
    using assms(2) by (auto simp: Deframer_complete_span_def split: list.splits if_splits)
  have "\<not> complete_message m" if "handshake_stream buf d = m @ rest" for m rest
  proof
    assume cm: "complete_message m"
    hence "map (span_bytes buf) (df_spans d) = m # split_messages rest"
      using assms(1) that split_messages_complete [OF cm] by (simp add: Deframer_settled_def)
    then obtain s ss where s: "df_spans d = s # ss" "span_bytes buf s = m" by auto
    moreover have "fs_end s \<le> length buf" "fs_size s = declared_size m"
      using assms(1) s spans_between_set [of 0 "df_spans d" "df_processed d" s]
      by (auto simp: Deframer_settled_def)
    ultimately show False using d(2) cm is_complete_iff [of s buf] by simp
  qed
  thus ?thesis using d(1) by blast
qed

text \<open>Draining the discarded prefix shifts the spans with the buffer.\<close>

lemma take_discard_settled:
  assumes "Deframer_settled buf d" "\<forall>s \<in> set (df_spans d). df_discard d \<le> fs_start s"
    and "df_discard d \<le> df_processed d" "Deframer_take_discard d = (n, d')"
  shows "n = df_discard d \<and> df_discard d' = 0 \<and> Deframer_settled (drop n buf) d' \<and>
    handshake_stream (drop n buf) d' = handshake_stream buf d"
proof -
  let ?f = "\<lambda>s. s\<lparr>fs_start := fs_start s - n, fs_end := fs_end s - n\<rparr>"
  have d': "n = df_discard d" "df_discard d' = 0" "df_spans d' = map ?f (df_spans d)"
    "df_processed d' = df_processed d - n" "df_too_large d' = df_too_large d"
    using assms(4) by (auto simp: Deframer_take_discard_def Let_def)
  have ge: "n \<le> fs_start s" "fs_start s \<le> fs_end s" if "s \<in> set (df_spans d)" for s
    using assms(1,2) d'(1) that spans_between_set [of 0 "df_spans d" "df_processed d" s]
    by (auto simp: Deframer_settled_def)
  have sb: "span_bytes (drop n buf) (?f s) = span_bytes buf s" if "s \<in> set (df_spans d)" for s
    using ge [OF that] by (simp add: span_bytes_def slice_def)
  have m: "map (span_bytes (drop n buf)) (df_spans d') = map (span_bytes buf) (df_spans d)"
    using sb by (simp add: d'(3) o_def cong: map_cong)
  have shift: "spans_between (lo - n) (map ?f ss) (hi - n)" if "spans_between lo ss hi" for lo hi ss
    using that by (induction ss arbitrary: lo) (simp_all add: diff_le_mono)
  have "spans_between 0 (df_spans d') (df_processed d')"
    using shift [of 0 "df_spans d" "df_processed d"] assms(1) d'(3,4) by (simp add: Deframer_settled_def)
  moreover have st: "handshake_stream (drop n buf) d' = handshake_stream buf d"
    unfolding handshake_stream_def m ..
  moreover have "\<forall>s \<in> set (df_spans d'). fs_size s = declared_size (span_bytes (drop n buf) s)"
    using assms(1) sb unfolding d'(3) by (simp add: Deframer_settled_def)
  moreover have "span_too_large (?f s) = span_too_large s" for s by (simp add: span_too_large_def)
  hence "\<not> df_too_large d' \<longrightarrow> (\<forall>s \<in> set (df_spans d'). \<not> span_too_large s)"
    using assms(1) unfolding d'(3,5) by (auto simp: Deframer_settled_def)
  moreover have "map (span_bytes (drop n buf)) (df_spans d') =
      split_messages (handshake_stream (drop n buf) d')" "df_processed d' \<le> length (drop n buf)"
    using assms(1) unfolding st m d'(4) by (simp_all add: Deframer_settled_def diff_le_mono)
  ultimately show ?thesis using d'(1,2) unfolding Deframer_settled_def by blast
qed

text \<open>A whole sequence of fragments, each delivered and coalesced in turn.\<close>

fun deliver_all ::
    "ProtocolVersion \<Rightarrow> (usize \<times> usize) list \<Rightarrow> bytes \<Rightarrow> Deframer \<Rightarrow>
     ((InvalidMessage + unit) \<times> Deframer \<times> bytes) option" where
  "deliver_all version [] buf d = Some (Inr (), d, buf)"
| "deliver_all version ((start, fin) # frags) buf d =
     (case Deframer_coalesce buf (Deframer_input_message version start fin buf d) of
        None \<Rightarrow> None
      | Some (Inl e, d', buf') \<Rightarrow> Some (Inl e, d', buf')
      | Some (Inr _, d', buf') \<Rightarrow> deliver_all version frags buf' d')"

fun frags_between :: "usize \<Rightarrow> (usize \<times> usize) list \<Rightarrow> usize \<Rightarrow> bool" where
  "frags_between lo [] hi \<longleftrightarrow> lo \<le> hi"
| "frags_between lo ((start, fin) # fs) hi \<longleftrightarrow> lo \<le> start \<and> start \<le> fin \<and> frags_between fin fs hi"

definition frag_bytes :: "bytes \<Rightarrow> (usize \<times> usize) list \<Rightarrow> bytes" where
  "frag_bytes buf frags = concat (map (\<lambda>(start, fin). slice start fin buf) frags)"

lemma frags_between_le: "frags_between lo fs hi \<Longrightarrow> lo \<le> hi"
  by (induction fs arbitrary: lo) force+

lemma frag_bytes_drop:
  "frags_between lo fs hi \<Longrightarrow> drop lo buf' = drop lo buf \<Longrightarrow> frag_bytes buf' fs = frag_bytes buf fs"
proof (induction fs arbitrary: lo)
  case (Cons f fs)
  obtain a b where f: "f = (a, b)" by (cases f)
  have eq: "drop n buf' = drop n buf" if "lo \<le> n" for n
  proof -
    have "drop (n - lo) (drop lo buf') = drop (n - lo) (drop lo buf)" using Cons.prems(2) by simp
    thus ?thesis using that by simp
  qed
  have "slice a b buf' = slice a b buf" using eq [of a] Cons.prems(1) f by (simp add: slice_def)
  thus ?case using Cons.IH [of b] Cons.prems(1) eq [of b] f by (simp add: frag_bytes_def)
qed (simp add: frag_bytes_def)

lemma frags_between_prefix: "frags_between lo (xs @ ys) hi \<Longrightarrow> frags_between lo xs hi"
  by (induction xs arbitrary: lo) (auto dest: frags_between_le)

lemma split_messages_hd_size:
  "declared_size p = Some n \<Longrightarrow> \<exists>m ms. split_messages p = m # ms \<and> declared_size m = Some n"
proof -
  assume n: "declared_size p = Some n"
  hence "p \<noteq> []" by (auto simp: declared_size_def HANDSHAKE_HEADER_LEN_def)
  thus ?thesis using n declared_size_take [OF n] by (subst split_messages.simps) auto
qed

lemma oversized_append: "oversized bs \<Longrightarrow> oversized (bs @ cs)"
proof -
  assume "oversized bs"
  then obtain m n where m: "m \<in> set (split_messages bs)" "declared_size m = Some n" "MAX_HANDSHAKE_SIZE < n"
    by (auto simp: oversized_def split: option.splits)
  have "\<exists>m' \<in> set (split_messages (bs @ cs)). declared_size m' = Some n"
  proof (cases rule: split_messages_shape [of bs])
    case (1 ms)
    thus ?thesis using m(1,2) split_messages_append [of ms bs cs] by auto
  next
    case (2 ms p)
    have "\<exists>m' \<in> set (split_messages (p @ cs)). declared_size m' = Some n" if "m = p"
      using split_messages_hd_size [OF declared_size_append [OF m(2), of cs]] that by auto
    thus ?thesis using m(1,2) 2(1) split_messages_append_partial [OF 2(2,1), of cs] by auto
  qed
  then obtain m' where "m' \<in> set (split_messages (bs @ cs))" "declared_size m' = Some n" by blast
  thus ?thesis unfolding oversized_def using m(3) by (intro bexI [of _ m']) simp_all
qed

lemma deliver_all_stream:
  assumes "Deframer_settled buf d" "\<not> df_too_large d" "spans_between 0 (df_spans d) lo"
    and "frags_between lo frags (df_processed d)"
    and "\<not> oversized (handshake_stream buf d @ frag_bytes buf frags)"
  shows "\<exists>d' buf'. deliver_all version frags buf d = Some (Inr (), d', buf') \<and> Deframer_settled buf' d' \<and>
    handshake_stream buf' d' = handshake_stream buf d @ frag_bytes buf frags"
  using assms
proof (induction frags arbitrary: buf d lo)
  case (Cons f frags)
  obtain start fin where f: "f = (start, fin)" by (cases f)
  have rng: "lo \<le> start" "start \<le> fin" "frags_between fin frags (df_processed d)" "fin \<le> df_processed d"
    using Cons.prems(4) f frags_between_le by auto
  have fb: "frag_bytes buf (f # frags) = slice start fin buf @ frag_bytes buf frags"
    by (simp add: frag_bytes_def f)
  from input_coalesce_delivers [OF Cons.prems(1,2) spans_between_mono [OF Cons.prems(3) _ rng(1)] rng(2,4)]
  obtain res d1 buf1 where co: "Deframer_coalesce buf (Deframer_input_message version start fin buf d) =
      Some (res, d1, buf1)" and dl: "delivers buf d fin (slice start fin buf) res d1 buf1" by blast
  have st: "handshake_stream buf1 d1 = handshake_stream buf d @ slice start fin buf"
    and dr: "drop fin buf1 = drop fin buf" using dl by (simp_all add: delivers_def)
  have fr: "frag_bytes buf1 frags = frag_bytes buf frags" using frag_bytes_drop [OF rng(3) dr] .
  have "\<not> oversized (handshake_stream buf1 d1)"
    using Cons.prems(5) oversized_append [of "handshake_stream buf1 d1" "frag_bytes buf frags"] fb st by auto
  hence res: "res = Inr ()" "\<not> df_too_large d1" using dl by (simp_all add: delivers_def)
  have "\<exists>d' buf'. deliver_all version frags buf1 d1 = Some (Inr (), d', buf') \<and> Deframer_settled buf' d' \<and>
      handshake_stream buf' d' = handshake_stream buf1 d1 @ frag_bytes buf1 frags"
    by (rule Cons.IH [of buf1 d1 fin]) (use dl rng(3) res(2) Cons.prems(5) fb st fr in \<open>auto simp: delivers_def\<close>)
  thus ?case using co f res(1) st fb fr by simp
qed (simp add: frag_bytes_def)

end
