(* ===== verification/Cipher_Nonce.thy ===== *)
theory Cipher_Nonce
  imports Record_Plain
begin

text \<open>
  Initialisation vectors, nonces, additional data and keys of the record ciphers
  (\<open>rustls/src/crypto/cipher/mod.rs\<close>).
\<close>

subsection \<open>Big-endian strings with leading bytes\<close>

lemma to_be_bytes_split: "to_be_bytes (k + n) v = to_be_bytes k (v div 256 ^ n) @ to_be_bytes n v"
proof (induction k)
  case (Suc k)
  have "v div 256 ^ (k + n) = v div 256 ^ n div 256 ^ k"
    by (simp add: div_mult2_eq [symmetric] power_add mult.commute)
  thus ?case using Suc by (simp add: to_be_bytes_Suc)
qed simp

lemma to_be_bytes_zero: "to_be_bytes k 0 = replicate k 0"
  by (induction k) (simp_all add: to_be_bytes_Suc)

lemma to_be_bytes_leading: "v < 256 ^ n \<Longrightarrow> to_be_bytes (k + n) v = replicate k 0 @ to_be_bytes n v"
  by (simp add: to_be_bytes_split to_be_bytes_zero)

lemma to_be_bytes_inj: "v < 256 ^ n \<Longrightarrow> w < 256 ^ n \<Longrightarrow> to_be_bytes n v = to_be_bytes n w \<longleftrightarrow> v = w"
  by (simp add: to_be_bytes_eq_iff)

subsection \<open>Initialisation vectors\<close>

definition Iv_MAX_LEN :: usize where
  "Iv_MAX_LEN = 16"

definition NONCE_LEN :: usize where
  "NONCE_LEN = 12"

record Iv =
  iv_buf :: bytes
  iv_used :: usize

definition Iv_new :: "bytes \<Rightarrow> Error + Iv" where
  "Iv_new v =
     (if length v > Iv_MAX_LEN then Inl (Error_ApiMisuse (IvLengthExceedsMaximum (length v) Iv_MAX_LEN))
      else Inr \<lparr>iv_buf = write_at 0 v (replicate Iv_MAX_LEN 0), iv_used = length v\<rparr>)"

definition Iv_len :: "Iv \<Rightarrow> usize" where
  "Iv_len iv = iv_used iv"

definition Iv_as_ref :: "Iv \<Rightarrow> bytes" where
  "Iv_as_ref iv = take (iv_used iv) (iv_buf iv)"

definition Iv_wf :: "Iv \<Rightarrow> bool" where
  "Iv_wf iv \<longleftrightarrow> length (iv_buf iv) = Iv_MAX_LEN \<and> iv_used iv \<le> Iv_MAX_LEN"

lemma Iv_new_Inr: "Iv_new v = Inr iv \<Longrightarrow> Iv_wf iv \<and> Iv_as_ref iv = v \<and> Iv_len iv = length v"
  by (auto simp: Iv_new_def Iv_wf_def Iv_as_ref_def Iv_len_def write_at_def Iv_MAX_LEN_def split: if_splits)

subsection \<open>Nonces\<close>

record Nonce =
  nonce_buf :: bytes
  nonce_len :: usize

definition Nonce_new_inner :: "u32 option \<Rightarrow> Iv \<Rightarrow> u64 \<Rightarrow> Nonce" where
  "Nonce_new_inner path_id iv seq =
     (let iv_len = Iv_len iv;
          buf = replicate Iv_MAX_LEN 0;
          buf = (if iv_len \<ge> 8 then
              (let buf = write_at (iv_len - 8) (to_be_bytes 8 (unat seq)) buf in
               case path_id of
                 Some p \<Rightarrow> if iv_len \<ge> 12 then write_at (iv_len - 12) (to_be_bytes 4 (unat p)) buf else buf
               | None \<Rightarrow> buf)
            else write_at 0 (drop (8 - iv_len) (to_be_bytes 8 (unat seq))) buf);
          buf = map2 (XOR) (take iv_len buf) (Iv_as_ref iv) @ drop iv_len buf
      in \<lparr>nonce_buf = buf, nonce_len = iv_len\<rparr>)"

definition Nonce_new :: "Iv \<Rightarrow> u64 \<Rightarrow> Nonce" where
  "Nonce_new iv seq = Nonce_new_inner None iv seq"

definition Nonce_quic :: "u32 option \<Rightarrow> Iv \<Rightarrow> u64 \<Rightarrow> Nonce" where
  "Nonce_quic path_id iv pn = Nonce_new_inner path_id iv pn"

definition Nonce_as_bytes :: "Nonce \<Rightarrow> bytes" where
  "Nonce_as_bytes n = take (nonce_len n) (nonce_buf n)"

definition Nonce_to_array :: "nat \<Rightarrow> Nonce \<Rightarrow> Error + bytes" where
  "Nonce_to_array k n =
     (if nonce_len n \<noteq> k then Inl (Error_ApiMisuse (NonceArraySizeMismatch k (nonce_len n)))
      else Inr (take k (nonce_buf n)))"

text \<open>
  Reference definition: the sequence number (and in front of it the path identifier, where
  there is room for one) as a big-endian number as long as the IV, combined with the IV by
  exclusive or.
\<close>

definition nonce_number :: "u32 option \<Rightarrow> usize \<Rightarrow> u64 \<Rightarrow> nat" where
  "nonce_number path_id iv_len seq =
     (case path_id of Some p \<Rightarrow> if iv_len \<ge> 12 then unat p * 256 ^ 8 else 0 | None \<Rightarrow> 0) + unat seq"

definition xor_bytes :: "bytes \<Rightarrow> bytes \<Rightarrow> bytes" where
  "xor_bytes xs ys = map2 (XOR) xs ys"

lemma take_write_at:
  "off + length bs = n \<Longrightarrow> n \<le> length buf \<Longrightarrow> take n (write_at off bs buf) = take off buf @ bs"
  by (auto simp: write_at_def)

lemma nonce_number_less:
  "8 \<le> iv_len \<Longrightarrow> nonce_number path_id iv_len seq < 256 ^ iv_len"
proof -
  assume le: "8 \<le> iv_len"
  show ?thesis
  proof (cases "path_id \<noteq> None \<and> 12 \<le> iv_len")
    case True
    then obtain p where p: "path_id = Some p" by blast
    have pow: "(256 :: nat) ^ 8 = 18446744073709551616" "(256 :: nat) ^ 12 = 79228162514264337593543950336"
      by simp_all
    have "unat p * 256 ^ 8 + unat seq < 256 ^ 12"
      unfolding pow using unat_less_numeral(3) [of p] unat_less_numeral(4) [of seq] by linarith
    also have "\<dots> \<le> (256 :: nat) ^ iv_len" using True by (intro power_increasing) simp_all
    finally show ?thesis using p True by (simp add: nonce_number_def)
  next
    case False
    have "unat seq < 256 ^ 8" by simp
    also have "\<dots> \<le> (256 :: nat) ^ iv_len" using le by (intro power_increasing) simp_all
    finally show ?thesis using False by (auto simp: nonce_number_def split: option.split)
  qed
qed

lemma nonce_counter_bytes:
  assumes "iv_len \<le> Iv_MAX_LEN"
  shows "take iv_len (if iv_len \<ge> 8 then
      (let buf = write_at (iv_len - 8) (to_be_bytes 8 (unat seq)) (replicate Iv_MAX_LEN 0) in
       case path_id of
         Some p \<Rightarrow> if iv_len \<ge> 12 then write_at (iv_len - 12) (to_be_bytes 4 (unat p)) buf else buf
       | None \<Rightarrow> buf)
    else write_at 0 (drop (8 - iv_len) (to_be_bytes 8 (unat (seq :: u64)))) (replicate Iv_MAX_LEN 0)) =
    to_be_bytes iv_len (nonce_number path_id iv_len seq)"
proof -
  have seq: "unat seq < 256 ^ 8" by simp
  consider "iv_len < 8" | p where "12 \<le> iv_len" "path_id = Some p"
    | "8 \<le> iv_len" "path_id = None \<or> iv_len < 12" by (metis not_less option.exhaust)
  thus ?thesis
  proof cases
    case 1
    hence "drop (8 - iv_len) (to_be_bytes 8 (unat seq)) = to_be_bytes iv_len (unat seq)"
      using drop_to_be_bytes [of "8 - iv_len" iv_len] by simp
    thus ?thesis using 1 assms
      by (simp add: take_write_at nonce_number_def split: option.split)
  next
    case 3
    have "take iv_len (write_at (iv_len - 8) (to_be_bytes 8 (unat seq)) (replicate Iv_MAX_LEN 0)) =
        to_be_bytes iv_len (unat seq)"
      using 3(1) assms to_be_bytes_leading [OF seq, of "iv_len - 8"] by (simp add: take_write_at min_def)
    thus ?thesis using 3 by (auto simp: nonce_number_def Let_def split: option.split)
  next
    case (2 p)
    let ?b = "write_at (iv_len - 8) (to_be_bytes 8 (unat seq)) (replicate Iv_MAX_LEN 0)"
    have p: "unat p < 256 ^ 4" by simp
    have b: "?b = replicate (iv_len - 8) 0 @ to_be_bytes 8 (unat seq) @ replicate (Iv_MAX_LEN - iv_len) 0"
      using 2 assms by (simp add: write_at_def)
    have "replicate (iv_len - 8) 0 = replicate (iv_len - 12) 0 @ replicate 4 (0 :: u8)"
      using 2 by (simp add: replicate_add [symmetric])
    hence "take iv_len (write_at (iv_len - 12) (to_be_bytes 4 (unat p)) ?b) =
        replicate (iv_len - 12) 0 @ to_be_bytes 4 (unat p) @ to_be_bytes 8 (unat seq)"
      using 2 unfolding b by (simp add: write_at_def)
    also have "\<dots> = to_be_bytes ((iv_len - 12) + (4 + 8)) (unat p * 256 ^ 8 + unat seq)"
    proof -
      have "(unat p * 256 ^ 8 + unat seq) div 256 ^ 8 = unat p" using seq by simp
      moreover have "to_be_bytes 8 (unat p * 256 ^ 8 + unat seq) = to_be_bytes 8 (unat seq)"
        using seq by (simp add: to_be_bytes_eq_iff)
      moreover have "unat p * 256 ^ 8 + unat seq < 256 ^ (4 + 8)"
        using nonce_number_less [of 12 "Some p" seq] by (simp add: nonce_number_def)
      ultimately show ?thesis by (simp only: to_be_bytes_leading to_be_bytes_split [of 4 8])
    qed
    finally show ?thesis using 2 by (simp add: nonce_number_def Let_def)
  qed
qed

lemma Nonce_as_bytes_eq:
  assumes "Iv_wf iv"
  shows "Nonce_as_bytes (Nonce_new_inner path_id iv seq) =
    xor_bytes (to_be_bytes (Iv_len iv) (nonce_number path_id (Iv_len iv) seq)) (Iv_as_ref iv)"
proof -
  have l: "Iv_len iv \<le> Iv_MAX_LEN" "length (Iv_as_ref iv) = Iv_len iv"
    using assms by (simp_all add: Iv_wf_def Iv_len_def Iv_as_ref_def)
  show ?thesis using l(2) nonce_counter_bytes [OF l(1), of seq path_id]
    by (simp add: Nonce_as_bytes_def Nonce_new_inner_def Let_def xor_bytes_def)
qed

lemma xor_bytes_inj:
  "length xs = length zs \<Longrightarrow> length ys = length zs \<Longrightarrow> xor_bytes xs zs = xor_bytes ys zs \<longleftrightarrow> xs = ys"
proof (induction zs arbitrary: xs ys)
  case (Cons z zs)
  then obtain x xs' y ys' where "xs = x # xs'" "ys = y # ys'" by (auto simp: length_Suc_conv)
  moreover have "(x XOR z = y XOR z) = (x = y)" for x y :: u8
    by (metis xor.assoc xor_self_eq xor.right_neutral)
  ultimately show ?case using Cons by (simp add: xor_bytes_def)
qed (simp add: xor_bytes_def)

lemma Nonce_inj:
  assumes "Iv_wf iv" "8 \<le> Iv_len iv"
  shows "Nonce_as_bytes (Nonce_new_inner path_id iv seq) = Nonce_as_bytes (Nonce_new_inner path_id' iv seq') \<longleftrightarrow>
    nonce_number path_id (Iv_len iv) seq = nonce_number path_id' (Iv_len iv) seq'"
proof -
  have "length (Iv_as_ref iv) = Iv_len iv" using assms(1) by (simp add: Iv_wf_def Iv_len_def Iv_as_ref_def)
  thus ?thesis unfolding Nonce_as_bytes_eq [OF assms(1)]
    by (simp add: xor_bytes_inj to_be_bytes_inj nonce_number_less [OF assms(2)])
qed

lemma nonce_number_inj:
  "12 \<le> iv_len \<Longrightarrow> nonce_number (Some p) iv_len seq = nonce_number (Some p') iv_len seq' \<longleftrightarrow> p = p' \<and> seq = seq'"
proof -
  assume le: "12 \<le> iv_len"
  have "p = p' \<and> seq = seq'" if eq: "unat p * 256 ^ 8 + unat seq = unat p' * 256 ^ 8 + unat seq'"
  proof -
    have "(unat p * 256 ^ 8 + unat seq) div 256 ^ 8 = unat p" "(unat p' * 256 ^ 8 + unat seq') div 256 ^ 8 = unat p'"
      by simp_all
    hence "unat p = unat p'" using eq by metis
    thus ?thesis using eq by (simp add: word_unat_eq_iff)
  qed
  thus ?thesis using le by (auto simp: nonce_number_def)
qed

subsection \<open>Additional data\<close>

definition make_tls13_aad :: "ContentType \<Rightarrow> ProtocolVersion \<Rightarrow> usize \<Rightarrow> bytes" where
  "make_tls13_aad ctyp version payload_len =
     [ctyp] @ to_be_bytes 2 (unat version) @
     [word_of_nat (payload_len div 256), word_of_nat (payload_len mod 256)]"

definition TLS12_AAD_SIZE :: usize where
  "TLS12_AAD_SIZE = 8 + 1 + 2 + 2"

definition make_tls12_aad :: "u64 \<Rightarrow> ContentType \<Rightarrow> ProtocolVersion \<Rightarrow> usize \<Rightarrow> bytes" where
  "make_tls12_aad seq ctyp vers len =
     (let out = replicate TLS12_AAD_SIZE 0;
          out = write_at 0 (to_be_bytes 8 (unat seq)) out;
          out = out[8 := ctyp];
          out = write_at 9 (to_be_bytes 2 (unat vers)) out
      in write_at 11 (to_be_bytes 2 (unat (word_of_nat len :: u16))) out)"

lemma make_tls12_aad_eq:
  "make_tls12_aad seq ctyp vers len =
     to_be_bytes 8 (unat seq) @ [ctyp] @ to_be_bytes 2 (unat vers) @ to_be_bytes 2 len"
proof -
  have "length (to_be_bytes 8 (unat seq)) = 8" by simp
  moreover have "take (Suc 0) ((replicate 5 0)[0 := ctyp]) = [ctyp]" by (simp add: numeral_eq_Suc)
  ultimately show ?thesis
    by (simp add: make_tls12_aad_def TLS12_AAD_SIZE_def write_at_def Let_def list_update_append
        to_be_bytes_u16_trunc)
qed

lemma make_tls13_aad_header:
  assumes "payload_len < 2 ^ 16"
  shows "make_tls13_aad ctyp ProtocolVersion_TLSv1_2 payload_len =
    encode_record_header ctyp (Legacy v) (word_of_nat payload_len)"
proof -
  have two: "to_be_bytes 2 n = [word_of_nat (n div 256), word_of_nat n]" for n
    using to_be_bytes_Suc [of 1 n] to_be_bytes_Suc [of 0 n] by (simp add: numeral_2_eq_2)
  have "word_of_nat (payload_len mod 256) = (word_of_nat payload_len :: u8)"
    by (simp add: word_unat_eq_iff unat_word_of_nat_u8)
  moreover have "unat (word_of_nat payload_len :: u16) = payload_len"
    using assms by (simp add: unat_word_of_nat_u16)
  ultimately show ?thesis
    by (simp add: make_tls13_aad_def encode_record_header_def two)
qed

subsection \<open>Keys\<close>

definition AeadKey_MAX_LEN :: usize where
  "AeadKey_MAX_LEN = 32"

record AeadKey =
  ak_buf :: bytes
  ak_used :: usize

definition AeadKey_new :: "bytes \<Rightarrow> AeadKey option" where
  "AeadKey_new b =
     (if length b \<le> AeadKey_MAX_LEN
      then Some \<lparr>ak_buf = write_at 0 b (replicate AeadKey_MAX_LEN 0), ak_used = length b\<rparr> else None)"

definition AeadKey_with_length :: "usize \<Rightarrow> AeadKey \<Rightarrow> AeadKey option" where
  "AeadKey_with_length len k =
     (if len \<le> ak_used k
      then Some \<lparr>ak_buf = write_at len (replicate (ak_used k - len) 0) (ak_buf k), ak_used = len\<rparr>
      else None)"

definition AeadKey_as_ref :: "AeadKey \<Rightarrow> bytes" where
  "AeadKey_as_ref k = take (ak_used k) (ak_buf k)"

text \<open>Only the used prefix of the buffer holds key bytes.\<close>

definition AeadKey_wf :: "AeadKey \<Rightarrow> bool" where
  "AeadKey_wf k \<longleftrightarrow> length (ak_buf k) = AeadKey_MAX_LEN \<and> ak_used k \<le> AeadKey_MAX_LEN \<and>
     drop (ak_used k) (ak_buf k) = replicate (AeadKey_MAX_LEN - ak_used k) 0"

lemma AeadKey_new_Some: "AeadKey_new b = Some k \<Longrightarrow> AeadKey_wf k \<and> AeadKey_as_ref k = b"
  by (auto simp: AeadKey_new_def AeadKey_wf_def AeadKey_as_ref_def write_at_def AeadKey_MAX_LEN_def
      split: if_splits)

lemma AeadKey_with_length_Some:
  assumes "AeadKey_wf k" "AeadKey_with_length len k = Some k'"
  shows "AeadKey_wf k' \<and> AeadKey_as_ref k' = take len (AeadKey_as_ref k)"
proof -
  have le: "len \<le> ak_used k" and k': "ak_buf k' = write_at len (replicate (ak_used k - len) 0) (ak_buf k)"
    "ak_used k' = len"
    using assms(2) by (auto simp: AeadKey_with_length_def split: if_splits)
  have k: "length (ak_buf k) = AeadKey_MAX_LEN" "ak_used k \<le> AeadKey_MAX_LEN"
    "drop (ak_used k) (ak_buf k) = replicate (AeadKey_MAX_LEN - ak_used k) 0"
    using assms(1) by (simp_all add: AeadKey_wf_def)
  have "drop len (ak_buf k') = replicate (ak_used k - len) 0 @ drop (ak_used k) (ak_buf k)"
    using le k(1,2) by (simp add: k'(1) write_at_def)
  hence "drop len (ak_buf k') = replicate (AeadKey_MAX_LEN - len) 0"
    using k(2,3) le by (simp add: replicate_add [symmetric])
  moreover have "take len (ak_buf k') = take len (ak_buf k)"
    using le k(1,2) by (simp add: k'(1) write_at_def)
  moreover have "length (ak_buf k') = AeadKey_MAX_LEN" using le k by (simp add: k'(1))
  ultimately show ?thesis using le k(2) k'(2) by (simp add: AeadKey_wf_def AeadKey_as_ref_def min_def)
qed

end
