(* ===== verification/Record_Cipher.thy ===== *)
theory Record_Cipher
  imports Cipher_Nonce "HOL-Library.Monad_Syntax"
begin

text \<open>
  Record protection: the traits \<open>RecordEncrypter\<close> and \<open>RecordDecrypter\<close>
  (\<open>rustls/src/crypto/cipher/mod.rs\<close>), the two ciphers of the fuzzing provider
  (\<open>rustls-fuzzing-provider/src/lib.rs\<close>) and the ciphers of the \<^emph>\<open>ring\<close> provider
  (\<open>rustls-ring/src/tls13.rs\<close>, \<open>rustls-ring/src/tls12.rs\<close>) over the AEAD interface of the
  \<^emph>\<open>ring\<close> crate, which is a parameter.

  An encrypter gets the caller's output slice and returns it as it left it; a decrypter works
  in place, so it returns the changed slice and where in it the plaintext lies. \<open>None\<close> is a panic.
\<close>

subsection \<open>The interface\<close>

record 'e RecordEncrypter =
  re_encrypt :: "'e \<Rightarrow> OutboundPlain Record \<Rightarrow> u64 \<Rightarrow> bytes \<Rightarrow>
    ((Error + bytes Record) \<times> 'e \<times> bytes) option"
  re_encrypted_payload_len :: "'e \<Rightarrow> usize \<Rightarrow> usize"

record Located =
  lo_typ :: ContentType
  lo_version :: EncodableVersion
  lo_start :: usize
  lo_len :: usize

record 'd RecordDecrypter =
  rd_decrypt :: "'d \<Rightarrow> bytes Record \<Rightarrow> u64 \<Rightarrow> ((Error + Located) \<times> 'd \<times> bytes) option"

definition located_front :: "bytes Record \<Rightarrow> Located" where
  "located_front rec = \<lparr>lo_typ = rec_typ rec, lo_version = rec_version rec, lo_start = 0,
     lo_len = length (rec_payload rec)\<rparr>"

definition reborrow :: "bytes \<Rightarrow> Located \<Rightarrow> bytes Record" where
  "reborrow buf l = \<lparr>rec_typ = lo_typ l, rec_version = lo_version l,
     rec_payload = slice (lo_start l) (lo_start l + lo_len l) buf\<rparr>"

definition map_Inr :: "('a \<Rightarrow> 'b) \<Rightarrow> 'e + 'a \<Rightarrow> 'e + 'b" where
  "map_Inr f r = (case r of Inl e \<Rightarrow> Inl e | Inr a \<Rightarrow> Inr (f a))"

lemma map_Inr_simps [simp]: "map_Inr f (Inl e) = Inl e" "map_Inr f (Inr a) = Inr (f a)"
  by (simp_all add: map_Inr_def)

subsection \<open>The written prefix of an output slice\<close>

text \<open>
  \<open>EncryptBuffer_update\<close> is a transformation through \<open>as_mut\<close>; \<open>buffer_out\<close> is the caller's slice
  once the borrow of its prefix has ended.
\<close>

definition EncryptBuffer_update :: "usize \<Rightarrow> (bytes \<Rightarrow> bytes) \<Rightarrow> EncryptBuffer \<Rightarrow> EncryptBuffer" where
  "EncryptBuffer_update start f b =
     b\<lparr>eb_buf := write_at start (f (drop start (EncryptBuffer_into_written b))) (eb_buf b)\<rparr>"

definition buffer_out :: "bytes \<Rightarrow> EncryptBuffer \<Rightarrow> bytes" where
  "buffer_out out b = eb_buf b @ drop (length (eb_buf b)) out"

text \<open>The buffer over the first \<open>n\<close> bytes of \<open>out\<close> with \<open>w\<close> written to it.\<close>

definition buffer_with :: "bytes \<Rightarrow> usize \<Rightarrow> bytes \<Rightarrow> EncryptBuffer" where
  "buffer_with out n w = \<lparr>eb_buf = w @ drop (length w) (take n out), eb_used = length w\<rparr>"

lemma EncryptBuffer_new_with: "n \<le> length out \<Longrightarrow> EncryptBuffer_new out n = Inr (buffer_with out n [])"
  by (simp add: EncryptBuffer_new_def buffer_with_def)

lemma extend_from_slice_with:
  "n \<le> length out \<Longrightarrow> length w + length bs \<le> n \<Longrightarrow>
     EncryptBuffer_extend_from_slice bs (buffer_with out n w) = Some (buffer_with out n (w @ bs))"
  by (simp add: EncryptBuffer_extend_from_slice_def buffer_with_def write_at_def add.commute)

lemma extend_from_slices_with:
  "n \<le> length out \<Longrightarrow> length w + length (concat cs) \<le> n \<Longrightarrow>
     extend_from_slices cs (buffer_with out n w) = Some (buffer_with out n (w @ concat cs))"
  by (induction cs arbitrary: w) (simp_all add: extend_from_slice_with)

lemma extend_from_chunks_with:
  "n \<le> length out \<Longrightarrow> length w + length (OutboundPlain_to_vec p) \<le> n \<Longrightarrow>
     EncryptBuffer_extend_from_chunks p (buffer_with out n w) = Some (buffer_with out n (w @ OutboundPlain_to_vec p))"
proof (cases p)
  case (OP_Single x)
  assume "n \<le> length out" "length w + length (OutboundPlain_to_vec p) \<le> n"
  with OP_Single show ?thesis by (simp add: EncryptBuffer_extend_from_chunks_def extend_from_slice_with)
next
  case (OP_Multiple cs a b)
  assume "n \<le> length out" "length w + length (OutboundPlain_to_vec p) \<le> n"
  hence "extend_from_slices (Chunks_collect (OutboundPlain_chunks p)) (buffer_with out n w) =
      Some (buffer_with out n (w @ OutboundPlain_to_vec p))"
    using extend_from_slices_with [of n out w "Chunks_collect (OutboundPlain_chunks p)"] concat_chunks_to_vec [of p]
    by simp
  with OP_Multiple show ?thesis by (simp add: EncryptBuffer_extend_from_chunks_def)
qed

lemma update_with:
  "length (f (drop start w)) = length w - start \<Longrightarrow> start \<le> length w \<Longrightarrow> length w \<le> n \<Longrightarrow> n \<le> length out \<Longrightarrow>
     EncryptBuffer_update start f (buffer_with out n w) = buffer_with out n (take start w @ f (drop start w))"
  by (simp add: EncryptBuffer_update_def buffer_with_def write_at_def EncryptBuffer_into_written_def)

lemma into_written_with [simp]: "EncryptBuffer_into_written (buffer_with out n w) = w"
  by (simp add: EncryptBuffer_into_written_def buffer_with_def)

lemma buffer_out_with: "length w = n \<Longrightarrow> n \<le> length out \<Longrightarrow> buffer_out out (buffer_with out n w) = w @ drop n out"
  by (simp add: buffer_out_def buffer_with_def)

lemmas buffer_with_simps = EncryptBuffer_new_with extend_from_slice_with extend_from_chunks_with
  update_with buffer_out_with

subsection \<open>The fuzzing provider\<close>

lemma length_ascii [simp]: "length (ascii s) = length s"
  by (simp add: ascii_def)

definition AEAD_MASK :: bytes where
  "AEAD_MASK = ascii ''AeadMaskPattern''"

definition AEAD_TAG :: bytes where
  "AEAD_TAG = ascii ''AeadTagA''"

definition AEAD_OVERHEAD :: usize where
  "AEAD_OVERHEAD = 16"

definition apply_mask :: "bytes \<Rightarrow> bytes" where
  "apply_mask p = map (\<lambda>(i, b). b XOR AEAD_MASK ! (i mod length AEAD_MASK)) (enumerate 0 p)"

definition fuzz_Tls13Cipher_encrypted_payload_len :: "usize \<Rightarrow> usize" where
  "fuzz_Tls13Cipher_encrypted_payload_len payload_len = payload_len + 1 + AEAD_OVERHEAD"

definition fuzz_Tls13Cipher_encrypt ::
    "OutboundPlain Record \<Rightarrow> u64 \<Rightarrow> bytes \<Rightarrow> ((Error + bytes Record) \<times> bytes) option" where
  "fuzz_Tls13Cipher_encrypt rec seq out =
     (case EncryptBuffer_new out (fuzz_Tls13Cipher_encrypted_payload_len (OutboundPlain_len (rec_payload rec))) of
        Inl e \<Rightarrow> Some (Inl e, out)
      | Inr payload \<Rightarrow> do {
          payload \<leftarrow> EncryptBuffer_extend_from_chunks (rec_payload rec) payload;
          payload \<leftarrow> EncryptBuffer_extend_from_slice [rec_typ rec] payload;
          let payload = EncryptBuffer_update 0 apply_mask payload;
          payload \<leftarrow> EncryptBuffer_extend_from_slice (to_be_bytes 8 (unat seq)) payload;
          payload \<leftarrow> EncryptBuffer_extend_from_slice AEAD_TAG payload;
          Some (Inr \<lparr>rec_typ = ContentType_ApplicationData, rec_version = rec_version rec,
              rec_payload = EncryptBuffer_into_written payload\<rparr>, buffer_out out payload)
        })"

definition fuzz_Tls13Cipher_decrypt :: "bytes Record \<Rightarrow> u64 \<Rightarrow> (Error + Located) \<times> bytes" where
  "fuzz_Tls13Cipher_decrypt rec seq =
     (let payload = rec_payload rec;
          expected_tag = to_be_bytes 8 (unat seq) @ AEAD_TAG in
      if length payload < AEAD_OVERHEAD \<or> drop (length payload - AEAD_OVERHEAD) payload \<noteq> expected_tag
      then (Inl Error_DecryptError, payload)
      else
        let p = apply_mask (InboundOpaque_truncate (length payload - AEAD_OVERHEAD) payload) in
        (map_Inr located_front (into_tls13_unpadded_record (rec\<lparr>rec_payload := p\<rparr>)),
         p @ drop (length p) payload))"

definition fuzz_Tls12Cipher_encrypted_payload_len :: "usize \<Rightarrow> usize" where
  "fuzz_Tls12Cipher_encrypted_payload_len payload_len = payload_len + AEAD_OVERHEAD"

definition fuzz_Tls12Cipher_encrypt ::
    "OutboundPlain Record \<Rightarrow> u64 \<Rightarrow> bytes \<Rightarrow> ((Error + bytes Record) \<times> bytes) option" where
  "fuzz_Tls12Cipher_encrypt rec seq out =
     (case EncryptBuffer_new out (fuzz_Tls12Cipher_encrypted_payload_len (OutboundPlain_len (rec_payload rec))) of
        Inl e \<Rightarrow> Some (Inl e, out)
      | Inr payload \<Rightarrow> do {
          payload \<leftarrow> EncryptBuffer_extend_from_chunks (rec_payload rec) payload;
          let payload = EncryptBuffer_update 0 apply_mask payload;
          payload \<leftarrow> EncryptBuffer_extend_from_slice (to_be_bytes 8 (unat seq)) payload;
          payload \<leftarrow> EncryptBuffer_extend_from_slice AEAD_TAG payload;
          Some (Inr \<lparr>rec_typ = rec_typ rec, rec_version = rec_version rec,
              rec_payload = EncryptBuffer_into_written payload\<rparr>, buffer_out out payload)
        })"

definition fuzz_Tls12Cipher_decrypt :: "bytes Record \<Rightarrow> u64 \<Rightarrow> (Error + Located) \<times> bytes" where
  "fuzz_Tls12Cipher_decrypt rec seq =
     (let payload = rec_payload rec;
          expected_tag = to_be_bytes 8 (unat seq) @ AEAD_TAG in
      if length payload < AEAD_OVERHEAD \<or> drop (length payload - AEAD_OVERHEAD) payload \<noteq> expected_tag
      then (Inl Error_DecryptError, payload)
      else
        let p = apply_mask (InboundOpaque_truncate (length payload - AEAD_OVERHEAD) payload) in
        (Inr (located_front (into_plain_record (rec\<lparr>rec_payload := p\<rparr>))), p @ drop (length p) payload))"

definition fuzz_Tls13_encrypter :: "unit RecordEncrypter" where
  "fuzz_Tls13_encrypter = \<lparr>re_encrypt = (\<lambda>_ rec seq out. map_option (\<lambda>(r, out). (r, (), out))
       (fuzz_Tls13Cipher_encrypt rec seq out)),
     re_encrypted_payload_len = (\<lambda>_. fuzz_Tls13Cipher_encrypted_payload_len)\<rparr>"

definition fuzz_Tls13_decrypter :: "unit RecordDecrypter" where
  "fuzz_Tls13_decrypter = \<lparr>rd_decrypt = (\<lambda>_ rec seq.
     Some (case fuzz_Tls13Cipher_decrypt rec seq of (r, buf) \<Rightarrow> (r, (), buf)))\<rparr>"

definition fuzz_Tls12_encrypter :: "unit RecordEncrypter" where
  "fuzz_Tls12_encrypter = \<lparr>re_encrypt = (\<lambda>_ rec seq out. map_option (\<lambda>(r, out). (r, (), out))
       (fuzz_Tls12Cipher_encrypt rec seq out)),
     re_encrypted_payload_len = (\<lambda>_. fuzz_Tls12Cipher_encrypted_payload_len)\<rparr>"

definition fuzz_Tls12_decrypter :: "unit RecordDecrypter" where
  "fuzz_Tls12_decrypter = \<lparr>rd_decrypt = (\<lambda>_ rec seq.
     Some (case fuzz_Tls12Cipher_decrypt rec seq of (r, buf) \<Rightarrow> (r, (), buf)))\<rparr>"

lemma length_apply_mask [simp]: "length (apply_mask p) = length p"
  by (simp add: apply_mask_def)

lemma apply_mask_apply_mask [simp]: "apply_mask (apply_mask p) = p"
  by (rule nth_equalityI) (simp_all add: apply_mask_def nth_enumerate_eq xor.assoc xor_self_eq)

lemma length_AEAD_TAG [simp]: "length AEAD_TAG = 8"
  by (simp add: AEAD_TAG_def)

subsection \<open>The contract of a cipher\<close>

text \<open>
  What the record layer relies on: at equal sequence numbers and with paired states, the
  decrypter returns what the encrypter was given (with the version the receiver reads from the
  wire for TLS 1.2, and TLS 1.3 otherwise); a ciphertext has the declared length, and the
  output slice keeps its length and its bytes behind the ciphertext. A ciphertext is never sent
  as \<open>change_cipher_spec\<close> and exceeds its plaintext by at most 256 bytes.
\<close>

locale record_protection =
  fixes E :: "'e RecordEncrypter" and D :: "'d RecordDecrypter"
    and paired :: "'e \<Rightarrow> 'd \<Rightarrow> bool"
    and admits :: "ContentType \<Rightarrow> bool"
    and received_version :: "EncodableVersion \<Rightarrow> EncodableVersion"
  assumes protects:
    "\<lbrakk>paired e d; OutboundPlain_wf (rec_payload p); admits (rec_typ p);
      OutboundPlain_len (rec_payload p) \<le> MAX_FRAGMENT_LEN;
      re_encrypted_payload_len E e (OutboundPlain_len (rec_payload p)) \<le> length out\<rbrakk> \<Longrightarrow>
     \<exists>c e' d' l buf. re_encrypt E e p seq out = Some (Inr c, e', rec_payload c @ drop (length (rec_payload c)) out) \<and>
       rec_version c = rec_version p \<and>
       rec_typ c \<in> set ContentType_known \<and> rec_typ c \<noteq> ContentType_ChangeCipherSpec \<and>
       length (rec_payload c) = re_encrypted_payload_len E e (OutboundPlain_len (rec_payload p)) \<and>
       rd_decrypt D d (c\<lparr>rec_version := Legacy (EncodableVersion_encode (rec_version p))\<rparr>) seq = Some (Inr l, d', buf) \<and>
       paired e' d' \<and> length buf = length (rec_payload c) \<and> lo_start l + lo_len l \<le> length buf \<and>
       reborrow buf l = \<lparr>rec_typ = rec_typ p, rec_version = received_version (rec_version p),
         rec_payload = OutboundPlain_to_vec (rec_payload p)\<rparr>"
    and expansion: "2 < re_encrypted_payload_len E e n \<and> re_encrypted_payload_len E e n \<le> n + 256"

lemma fuzz_Tls13_encrypt_eq:
  assumes "OutboundPlain_wf (rec_payload p)"
    and "fuzz_Tls13Cipher_encrypted_payload_len (OutboundPlain_len (rec_payload p)) \<le> length out"
  shows "fuzz_Tls13Cipher_encrypt p seq out =
    (let c = apply_mask (OutboundPlain_to_vec (rec_payload p) @ [rec_typ p]) @ to_be_bytes 8 (unat seq) @ AEAD_TAG in
     Some (Inr \<lparr>rec_typ = ContentType_ApplicationData, rec_version = rec_version p, rec_payload = c\<rparr>,
       c @ drop (length c) out))"
  using assms by (simp add: fuzz_Tls13Cipher_encrypt_def fuzz_Tls13Cipher_encrypted_payload_len_def
      AEAD_OVERHEAD_def buffer_with_simps length_to_vec Let_def)

lemma fuzz_Tls12_encrypt_eq:
  assumes "OutboundPlain_wf (rec_payload p)"
    and "fuzz_Tls12Cipher_encrypted_payload_len (OutboundPlain_len (rec_payload p)) \<le> length out"
  shows "fuzz_Tls12Cipher_encrypt p seq out =
    (let c = apply_mask (OutboundPlain_to_vec (rec_payload p)) @ to_be_bytes 8 (unat seq) @ AEAD_TAG in
     Some (Inr \<lparr>rec_typ = rec_typ p, rec_version = rec_version p, rec_payload = c\<rparr>,
       c @ drop (length c) out))"
  using assms by (simp add: fuzz_Tls12Cipher_encrypt_def fuzz_Tls12Cipher_encrypted_payload_len_def
      AEAD_OVERHEAD_def buffer_with_simps length_to_vec Let_def)

lemma tls13_inner_accepted:
  "\<lbrakk>ctyp \<noteq> 0; ctyp \<noteq> ContentType_ChangeCipherSpec; length content \<le> MAX_FRAGMENT_LEN\<rbrakk> \<Longrightarrow>
     into_tls13_unpadded_record \<lparr>rec_typ = ContentType_ApplicationData, rec_version = v, rec_payload = content @ [ctyp]\<rparr> =
       Inr \<lparr>rec_typ = ctyp, rec_version = Legacy ProtocolVersion_TLSv1_3, rec_payload = content\<rparr>"
  by (simp add: into_tls13_unpadded_record_def into_plain_record_def unpad_snoc)

interpretation fuzz13: record_protection fuzz_Tls13_encrypter fuzz_Tls13_decrypter "\<lambda>_ _. True"
  "\<lambda>t. t \<noteq> 0 \<and> t \<noteq> ContentType_ChangeCipherSpec" "\<lambda>_. Legacy ProtocolVersion_TLSv1_3"
proof (unfold_locales, goal_cases)
  case (1 e d p out seq)
  let ?c = "apply_mask (OutboundPlain_to_vec (rec_payload p) @ [rec_typ p]) @ to_be_bytes 8 (unat seq) @ AEAD_TAG"
  have "fuzz_Tls13Cipher_decrypt \<lparr>rec_typ = ContentType_ApplicationData, rec_version = v, rec_payload = ?c\<rparr> seq =
      (Inr \<lparr>lo_typ = rec_typ p, lo_version = Legacy ProtocolVersion_TLSv1_3, lo_start = 0,
         lo_len = length (OutboundPlain_to_vec (rec_payload p))\<rparr>,
       OutboundPlain_to_vec (rec_payload p) @ [rec_typ p] @ to_be_bytes 8 (unat seq) @ AEAD_TAG)" for v
    using 1 by (simp add: fuzz_Tls13Cipher_decrypt_def AEAD_OVERHEAD_def InboundOpaque_truncate_def
        tls13_inner_accepted length_to_vec located_front_def Let_def)
  with 1 show ?case
    by (simp add: fuzz_Tls13_encrypter_def fuzz_Tls13_decrypter_def fuzz_Tls13_encrypt_eq Let_def
        reborrow_def slice_def length_to_vec fuzz_Tls13Cipher_encrypted_payload_len_def AEAD_OVERHEAD_def
        ContentType_known_def)
qed (simp add: fuzz_Tls13_encrypter_def fuzz_Tls13Cipher_encrypted_payload_len_def AEAD_OVERHEAD_def)

interpretation fuzz12: record_protection fuzz_Tls12_encrypter fuzz_Tls12_decrypter "\<lambda>_ _. True"
  "\<lambda>t. t \<in> set ContentType_known \<and> t \<noteq> ContentType_ChangeCipherSpec"
  "\<lambda>v. Legacy (EncodableVersion_encode v)"
proof (unfold_locales, goal_cases)
  case (1 e d p out seq)
  let ?c = "apply_mask (OutboundPlain_to_vec (rec_payload p)) @ to_be_bytes 8 (unat seq) @ AEAD_TAG"
  have "fuzz_Tls12Cipher_decrypt \<lparr>rec_typ = t, rec_version = v, rec_payload = ?c\<rparr> seq =
      (Inr \<lparr>lo_typ = t, lo_version = v, lo_start = 0,
         lo_len = length (OutboundPlain_to_vec (rec_payload p))\<rparr>,
       OutboundPlain_to_vec (rec_payload p) @ to_be_bytes 8 (unat seq) @ AEAD_TAG)" for t v
    by (simp add: fuzz_Tls12Cipher_decrypt_def AEAD_OVERHEAD_def InboundOpaque_truncate_def
        into_plain_record_def located_front_def Let_def)
  with 1 show ?case
    by (simp add: fuzz_Tls12_encrypter_def fuzz_Tls12_decrypter_def fuzz_Tls12_encrypt_eq Let_def
        reborrow_def slice_def length_to_vec fuzz_Tls12Cipher_encrypted_payload_len_def AEAD_OVERHEAD_def)
qed (simp add: fuzz_Tls12_encrypter_def fuzz_Tls12Cipher_encrypted_payload_len_def AEAD_OVERHEAD_def)

subsection \<open>The ciphers of the ring provider\<close>

text \<open>
  The AEAD of the \<^emph>\<open>ring\<close> crate (\<open>ring::aead::LessSafeKey\<close>), with what the provider relies on:
  sealing in place keeps the length and yields a 16 byte tag, and opening a sealed text that
  follows any prefix moves the plaintext to the front of the buffer.
\<close>

record 'k Aead =
  aead_new_key :: "bytes \<Rightarrow> 'k option"
  aead_key_len :: usize
  aead_tag_len :: usize
  aead_seal :: "'k \<Rightarrow> bytes \<Rightarrow> bytes \<Rightarrow> bytes \<Rightarrow> bytes \<times> bytes option"
  aead_open_within :: "'k \<Rightarrow> bytes \<Rightarrow> bytes \<Rightarrow> bytes \<Rightarrow> usize \<Rightarrow> bytes \<times> usize option"

definition Aead_lawful :: "'k Aead \<Rightarrow> bool" where
  "Aead_lawful A \<longleftrightarrow> aead_tag_len A = 16 \<and>
     (\<forall>key. length key = aead_key_len A \<longrightarrow> aead_new_key A key \<noteq> None) \<and>
     (\<forall>k nonce aad p. length nonce = NONCE_LEN \<longrightarrow> length p \<le> MAX_FRAGMENT_LEN + 1 \<longrightarrow>
        (\<exists>c tag. aead_seal A k nonce aad p = (c, Some tag) \<and> length c = length p \<and> length tag = 16 \<and>
          (\<forall>pre. \<exists>buf. aead_open_within A k nonce aad (pre @ c @ tag) (length pre) = (buf, Some (length p)) \<and>
             length buf = length pre + length p + 16 \<and> take (length p) buf = p)))"

record 'k RingCipher =
  rc_key :: 'k
  rc_iv :: Iv

definition ring_AeadAlgorithm_encrypter :: "'k Aead \<Rightarrow> AeadKey \<Rightarrow> Iv \<Rightarrow> 'k RingCipher option" where
  "ring_AeadAlgorithm_encrypter A key iv = do {
     enc_key \<leftarrow> aead_new_key A (AeadKey_as_ref key);
     Some \<lparr>rc_key = enc_key, rc_iv = iv\<rparr> }"

definition ring_AeadAlgorithm_decrypter :: "'k Aead \<Rightarrow> AeadKey \<Rightarrow> Iv \<Rightarrow> 'k RingCipher option" where
  "ring_AeadAlgorithm_decrypter A key iv = do {
     dec_key \<leftarrow> aead_new_key A (AeadKey_as_ref key);
     Some \<lparr>rc_key = dec_key, rc_iv = iv\<rparr> }"

definition ring_Tls13_encrypted_payload_len :: "'k Aead \<Rightarrow> usize \<Rightarrow> usize" where
  "ring_Tls13_encrypted_payload_len A payload_len = payload_len + 1 + aead_tag_len A"

definition ring_Tls13_encrypt ::
    "'k Aead \<Rightarrow> 'k RingCipher \<Rightarrow> OutboundPlain Record \<Rightarrow> u64 \<Rightarrow> bytes \<Rightarrow>
      ((Error + bytes Record) \<times> bytes) option" where
  "ring_Tls13_encrypt A s rec seq out =
     (let total_len = ring_Tls13_encrypted_payload_len A (OutboundPlain_len (rec_payload rec)) in
      case EncryptBuffer_new out total_len of
        Inl e \<Rightarrow> Some (Inl e, out)
      | Inr payload \<Rightarrow> (case Nonce_to_array NONCE_LEN (Nonce_new (rc_iv s) seq) of
        Inl e \<Rightarrow> Some (Inl e, out)
      | Inr nonce \<Rightarrow> do {
          let aad = make_tls13_aad ContentType_ApplicationData (EncodableVersion_encode (rec_version rec)) total_len;
          payload \<leftarrow> EncryptBuffer_extend_from_chunks (rec_payload rec) payload;
          payload \<leftarrow> EncryptBuffer_extend_from_slice [rec_typ rec] payload;
          let (sealed, result) = aead_seal A (rc_key s) nonce aad (EncryptBuffer_into_written payload);
          let payload = EncryptBuffer_update 0 (\<lambda>_. sealed) payload;
          case result of
            None \<Rightarrow> Some (Inl Error_EncryptError, buffer_out out payload)
          | Some tag \<Rightarrow> do {
              payload \<leftarrow> EncryptBuffer_extend_from_slice tag payload;
              Some (Inr \<lparr>rec_typ = ContentType_ApplicationData, rec_version = rec_version rec,
                rec_payload = EncryptBuffer_into_written payload\<rparr>, buffer_out out payload) } }))"

definition ring_Tls13_decrypt ::
    "'k Aead \<Rightarrow> 'k RingCipher \<Rightarrow> bytes Record \<Rightarrow> u64 \<Rightarrow> (Error + Located) \<times> bytes" where
  "ring_Tls13_decrypt A s rec seq =
     (let payload = rec_payload rec in
      if length payload < aead_tag_len A then (Inl Error_DecryptError, payload)
      else case Nonce_to_array NONCE_LEN (Nonce_new (rc_iv s) seq) of
        Inl e \<Rightarrow> (Inl e, payload)
      | Inr nonce \<Rightarrow>
          let aad = make_tls13_aad (rec_typ rec) (EncodableVersion_version (rec_version rec)) (length payload) in
          case aead_open_within A (rc_key s) nonce aad payload 0 of
            (buf, None) \<Rightarrow> (Inl Error_DecryptError, buf)
          | (buf, Some plain_len) \<Rightarrow>
              (map_Inr located_front (into_tls13_unpadded_record
                (rec\<lparr>rec_payload := InboundOpaque_truncate plain_len buf\<rparr>)), buf))"

definition GCM_EXPLICIT_NONCE_LEN :: usize where
  "GCM_EXPLICIT_NONCE_LEN = 8"

definition GCM_OVERHEAD :: usize where
  "GCM_OVERHEAD = GCM_EXPLICIT_NONCE_LEN + 16"

definition gcm_iv :: "bytes \<Rightarrow> bytes \<Rightarrow> Iv option" where
  "gcm_iv write_iv explicit =
     (if length write_iv = 4 \<and> length explicit = NONCE_LEN - 4
      then case Iv_new (write_iv @ explicit) of Inr iv \<Rightarrow> Some iv | Inl _ \<Rightarrow> None
      else None)"

record 'k GcmDecrypter =
  gd_key :: 'k
  gd_salt :: bytes

definition ring_Gcm_encrypter :: "'k Aead \<Rightarrow> AeadKey \<Rightarrow> bytes \<Rightarrow> bytes \<Rightarrow> 'k RingCipher option" where
  "ring_Gcm_encrypter A key write_iv explicit = do {
     enc_key \<leftarrow> aead_new_key A (AeadKey_as_ref key);
     iv \<leftarrow> gcm_iv write_iv explicit;
     Some \<lparr>rc_key = enc_key, rc_iv = iv\<rparr> }"

definition ring_Gcm_decrypter :: "'k Aead \<Rightarrow> AeadKey \<Rightarrow> bytes \<Rightarrow> 'k GcmDecrypter option" where
  "ring_Gcm_decrypter A key dec_iv = do {
     dec_key \<leftarrow> aead_new_key A (AeadKey_as_ref key);
     (if length dec_iv = 4 then Some \<lparr>gd_key = dec_key, gd_salt = dec_iv\<rparr> else None) }"

definition ring_Gcm_encrypted_payload_len :: "'k Aead \<Rightarrow> usize \<Rightarrow> usize" where
  "ring_Gcm_encrypted_payload_len A payload_len = payload_len + GCM_EXPLICIT_NONCE_LEN + aead_tag_len A"

definition ring_Gcm_encrypt ::
    "'k Aead \<Rightarrow> 'k RingCipher \<Rightarrow> OutboundPlain Record \<Rightarrow> u64 \<Rightarrow> bytes \<Rightarrow>
      ((Error + bytes Record) \<times> bytes) option" where
  "ring_Gcm_encrypt A s rec seq out =
     (let total_len = ring_Gcm_encrypted_payload_len A (OutboundPlain_len (rec_payload rec)) in
      case EncryptBuffer_new out total_len of
        Inl e \<Rightarrow> Some (Inl e, out)
      | Inr payload \<Rightarrow> (case Nonce_to_array NONCE_LEN (Nonce_new (rc_iv s) seq) of
        Inl e \<Rightarrow> Some (Inl e, out)
      | Inr nonce \<Rightarrow> do {
          let aad = make_tls12_aad seq (rec_typ rec) (EncodableVersion_encode (rec_version rec))
            (OutboundPlain_len (rec_payload rec));
          payload \<leftarrow> EncryptBuffer_extend_from_slice (drop 4 nonce) payload;
          payload \<leftarrow> EncryptBuffer_extend_from_chunks (rec_payload rec) payload;
          let (sealed, result) = aead_seal A (rc_key s) nonce aad
            (drop GCM_EXPLICIT_NONCE_LEN (EncryptBuffer_into_written payload));
          let payload = EncryptBuffer_update GCM_EXPLICIT_NONCE_LEN (\<lambda>_. sealed) payload;
          case result of
            None \<Rightarrow> Some (Inl Error_EncryptError, buffer_out out payload)
          | Some tag \<Rightarrow> do {
              payload \<leftarrow> EncryptBuffer_extend_from_slice tag payload;
              Some (Inr \<lparr>rec_typ = rec_typ rec, rec_version = rec_version rec,
                rec_payload = EncryptBuffer_into_written payload\<rparr>, buffer_out out payload) } }))"

definition ring_Gcm_decrypt ::
    "'k Aead \<Rightarrow> 'k GcmDecrypter \<Rightarrow> bytes Record \<Rightarrow> u64 \<Rightarrow> (Error + Located) \<times> bytes" where
  "ring_Gcm_decrypt A s rec seq =
     (let payload = rec_payload rec in
      if length payload < GCM_OVERHEAD then (Inl Error_DecryptError, payload)
      else
        let nonce = gd_salt s @ take 8 payload;
            aad = make_tls12_aad seq (rec_typ rec) (EncodableVersion_version (rec_version rec))
              (length payload - GCM_OVERHEAD) in
        case aead_open_within A (gd_key s) nonce aad payload GCM_EXPLICIT_NONCE_LEN of
          (buf, None) \<Rightarrow> (Inl Error_DecryptError, buf)
        | (buf, Some plain_len) \<Rightarrow>
            if plain_len > MAX_FRAGMENT_LEN then (Inl Error_PeerSentOversizedRecord, buf)
            else (Inr (located_front (into_plain_record
              (rec\<lparr>rec_payload := InboundOpaque_truncate plain_len buf\<rparr>))), buf))"

definition CHACHAPOLY1305_OVERHEAD :: usize where
  "CHACHAPOLY1305_OVERHEAD = 16"

definition ring_ChaCha_cipher :: "'k Aead \<Rightarrow> AeadKey \<Rightarrow> bytes \<Rightarrow> 'k RingCipher option" where
  "ring_ChaCha_cipher A key iv = do {
     k \<leftarrow> aead_new_key A (AeadKey_as_ref key);
     (case Iv_new iv of Inr offset \<Rightarrow> Some \<lparr>rc_key = k, rc_iv = offset\<rparr> | Inl _ \<Rightarrow> None) }"

definition ring_ChaCha_encrypted_payload_len :: "'k Aead \<Rightarrow> usize \<Rightarrow> usize" where
  "ring_ChaCha_encrypted_payload_len A payload_len = payload_len + aead_tag_len A"

definition ring_ChaCha_encrypt ::
    "'k Aead \<Rightarrow> 'k RingCipher \<Rightarrow> OutboundPlain Record \<Rightarrow> u64 \<Rightarrow> bytes \<Rightarrow>
      ((Error + bytes Record) \<times> bytes) option" where
  "ring_ChaCha_encrypt A s rec seq out =
     (let total_len = ring_ChaCha_encrypted_payload_len A (OutboundPlain_len (rec_payload rec)) in
      case EncryptBuffer_new out total_len of
        Inl e \<Rightarrow> Some (Inl e, out)
      | Inr payload \<Rightarrow> (case Nonce_to_array NONCE_LEN (Nonce_new (rc_iv s) seq) of
        Inl e \<Rightarrow> Some (Inl e, out)
      | Inr nonce \<Rightarrow> do {
          let aad = make_tls12_aad seq (rec_typ rec) (EncodableVersion_encode (rec_version rec))
            (OutboundPlain_len (rec_payload rec));
          payload \<leftarrow> EncryptBuffer_extend_from_chunks (rec_payload rec) payload;
          let (sealed, result) = aead_seal A (rc_key s) nonce aad (EncryptBuffer_into_written payload);
          let payload = EncryptBuffer_update 0 (\<lambda>_. sealed) payload;
          case result of
            None \<Rightarrow> Some (Inl Error_EncryptError, buffer_out out payload)
          | Some tag \<Rightarrow> do {
              payload \<leftarrow> EncryptBuffer_extend_from_slice tag payload;
              Some (Inr \<lparr>rec_typ = rec_typ rec, rec_version = rec_version rec,
                rec_payload = EncryptBuffer_into_written payload\<rparr>, buffer_out out payload) } }))"

definition ring_ChaCha_decrypt ::
    "'k Aead \<Rightarrow> 'k RingCipher \<Rightarrow> bytes Record \<Rightarrow> u64 \<Rightarrow> (Error + Located) \<times> bytes" where
  "ring_ChaCha_decrypt A s rec seq =
     (let payload = rec_payload rec in
      if length payload < CHACHAPOLY1305_OVERHEAD then (Inl Error_DecryptError, payload)
      else case Nonce_to_array NONCE_LEN (Nonce_new (rc_iv s) seq) of
        Inl e \<Rightarrow> (Inl e, payload)
      | Inr nonce \<Rightarrow>
          let aad = make_tls12_aad seq (rec_typ rec) (EncodableVersion_version (rec_version rec))
                (length payload - CHACHAPOLY1305_OVERHEAD) in
          case aead_open_within A (rc_key s) nonce aad payload 0 of
            (buf, None) \<Rightarrow> (Inl Error_DecryptError, buf)
          | (buf, Some plain_len) \<Rightarrow>
              if plain_len > MAX_FRAGMENT_LEN then (Inl Error_PeerSentOversizedRecord, buf)
              else (Inr (located_front (into_plain_record
                (rec\<lparr>rec_payload := InboundOpaque_truncate plain_len buf\<rparr>))), buf))"

definition ring_Tls13_RecordEncrypter :: "'k Aead \<Rightarrow> 'k RingCipher RecordEncrypter" where
  "ring_Tls13_RecordEncrypter A = \<lparr>re_encrypt = (\<lambda>s rec seq out.
       map_option (\<lambda>(r, out). (r, s, out)) (ring_Tls13_encrypt A s rec seq out)),
     re_encrypted_payload_len = (\<lambda>_. ring_Tls13_encrypted_payload_len A)\<rparr>"

definition ring_Tls13_RecordDecrypter :: "'k Aead \<Rightarrow> 'k RingCipher RecordDecrypter" where
  "ring_Tls13_RecordDecrypter A = \<lparr>rd_decrypt = (\<lambda>s rec seq.
     Some (case ring_Tls13_decrypt A s rec seq of (r, buf) \<Rightarrow> (r, s, buf)))\<rparr>"

definition ring_Gcm_RecordEncrypter :: "'k Aead \<Rightarrow> 'k RingCipher RecordEncrypter" where
  "ring_Gcm_RecordEncrypter A = \<lparr>re_encrypt = (\<lambda>s rec seq out.
       map_option (\<lambda>(r, out). (r, s, out)) (ring_Gcm_encrypt A s rec seq out)),
     re_encrypted_payload_len = (\<lambda>_. ring_Gcm_encrypted_payload_len A)\<rparr>"

definition ring_Gcm_RecordDecrypter :: "'k Aead \<Rightarrow> 'k GcmDecrypter RecordDecrypter" where
  "ring_Gcm_RecordDecrypter A = \<lparr>rd_decrypt = (\<lambda>s rec seq.
     Some (case ring_Gcm_decrypt A s rec seq of (r, buf) \<Rightarrow> (r, s, buf)))\<rparr>"

definition ring_ChaCha_RecordEncrypter :: "'k Aead \<Rightarrow> 'k RingCipher RecordEncrypter" where
  "ring_ChaCha_RecordEncrypter A = \<lparr>re_encrypt = (\<lambda>s rec seq out.
       map_option (\<lambda>(r, out). (r, s, out)) (ring_ChaCha_encrypt A s rec seq out)),
     re_encrypted_payload_len = (\<lambda>_. ring_ChaCha_encrypted_payload_len A)\<rparr>"

definition ring_ChaCha_RecordDecrypter :: "'k Aead \<Rightarrow> 'k RingCipher RecordDecrypter" where
  "ring_ChaCha_RecordDecrypter A = \<lparr>rd_decrypt = (\<lambda>s rec seq.
     Some (case ring_ChaCha_decrypt A s rec seq of (r, buf) \<Rightarrow> (r, s, buf)))\<rparr>"

lemma Aead_lawfulE:
  assumes "Aead_lawful A" "length nonce = NONCE_LEN" "length p \<le> MAX_FRAGMENT_LEN + 1"
  obtains c tag where "aead_seal A k nonce aad p = (c, Some tag)" "length c = length p" "length tag = 16"
    "\<And>pre. \<exists>buf. aead_open_within A k nonce aad (pre @ c @ tag) (length pre) = (buf, Some (length p)) \<and>
       length buf = length pre + length p + 16 \<and> take (length p) buf = p"
  using assms unfolding Aead_lawful_def by metis

definition iv12 :: "Iv \<Rightarrow> bool" where
  "iv12 iv \<longleftrightarrow> Iv_wf iv \<and> Iv_len iv = NONCE_LEN"

lemma Nonce_to_array_iv12:
  assumes "iv12 iv"
  shows "Nonce_to_array NONCE_LEN (Nonce_new iv seq) = Inr (Nonce_as_bytes (Nonce_new iv seq))"
    "length (Nonce_as_bytes (Nonce_new iv seq)) = NONCE_LEN"
proof -
  have "nonce_len (Nonce_new iv seq) = NONCE_LEN"
    using assms by (simp add: Nonce_new_def Nonce_new_inner_def Let_def iv12_def)
  thus "Nonce_to_array NONCE_LEN (Nonce_new iv seq) = Inr (Nonce_as_bytes (Nonce_new iv seq))"
    by (simp add: Nonce_to_array_def Nonce_as_bytes_def)
  show "length (Nonce_as_bytes (Nonce_new iv seq)) = NONCE_LEN"
    using assms Nonce_as_bytes_eq [of iv None seq]
    by (simp add: Nonce_new_def iv12_def xor_bytes_def Iv_as_ref_def Iv_wf_def Iv_len_def)
qed

lemma take_snoc: "take (length xs + 1) ys = xs @ [y] \<Longrightarrow> take (length xs) ys = xs"
proof -
  assume h: "take (length xs + 1) ys = xs @ [y]"
  have "take (length xs) ys = take (length xs) (take (length xs + 1) ys)" by (simp add: min_def)
  also have "\<dots> = xs" unfolding h by simp
  finally show ?thesis .
qed

lemma xor_bytes_zero: "length ys = n \<Longrightarrow> xor_bytes (replicate n 0) ys = ys"
  by (rule nth_equalityI) (simp_all add: xor_bytes_def)

text \<open>The sequence number leaves the first four bytes of a 12 byte IV alone.\<close>

lemma nonce_salt:
  assumes "iv12 iv"
  shows "take 4 (Nonce_as_bytes (Nonce_new iv seq)) = take 4 (Iv_as_ref iv)"
proof -
  have l: "Iv_wf iv" "Iv_len iv = 12" "length (Iv_as_ref iv) = 12"
    using assms by (simp_all add: iv12_def NONCE_LEN_def Iv_wf_def Iv_len_def Iv_as_ref_def)
  have "unat seq < 256 ^ 8" using unsigned_less [of seq] by simp
  from to_be_bytes_leading [OF this, of 4]
  have "to_be_bytes 12 (unat seq) = replicate 4 0 @ to_be_bytes 8 (unat seq)" by simp
  hence "take 4 (Nonce_as_bytes (Nonce_new iv seq)) = xor_bytes (replicate 4 0) (take 4 (Iv_as_ref iv))"
    unfolding Nonce_new_def Nonce_as_bytes_eq [OF l(1)] l(2)
    by (simp add: nonce_number_def xor_bytes_def take_map take_zip)
  thus ?thesis using l(3) by (simp add: xor_bytes_zero)
qed

text \<open>With a lawful AEAD each of the three ciphers meets the contract.\<close>

lemma ring_Tls13_protects:
  assumes A: "Aead_lawful A"
  shows "record_protection (ring_Tls13_RecordEncrypter A) (ring_Tls13_RecordDecrypter A)
    (\<lambda>e d. e = d \<and> iv12 (rc_iv e)) (\<lambda>t. t \<noteq> 0 \<and> t \<noteq> ContentType_ChangeCipherSpec)
    (\<lambda>_. Legacy ProtocolVersion_TLSv1_3)"
proof (unfold_locales, goal_cases)
  case (1 e d p out seq)
  have t: "aead_tag_len A = 16" using A by (simp add: Aead_lawful_def)
  let ?n = "Nonce_as_bytes (Nonce_new (rc_iv e) seq)" and ?v = "OutboundPlain_to_vec (rec_payload p)"
  let ?aad = "make_tls13_aad ContentType_ApplicationData (EncodableVersion_encode (rec_version p))
      (ring_Tls13_encrypted_payload_len A (length ?v))"
  have lv: "OutboundPlain_len (rec_payload p) = length ?v" using 1 by (simp add: length_to_vec)
  have iv: "iv12 (rc_iv e)" and d: "d = e" using 1 by auto
  note nn = Nonce_to_array_iv12 [OF iv, of seq]
  obtain c tag where s: "aead_seal A (rc_key e) ?n ?aad (?v @ [rec_typ p]) = (c, Some tag)"
      "length c = length ?v + 1" "length tag = 16"
    and o: "\<And>pre. \<exists>buf. aead_open_within A (rc_key e) ?n ?aad (pre @ c @ tag) (length pre) = (buf, Some (length ?v + 1)) \<and>
       length buf = length pre + (length ?v + 1) + 16 \<and> take (length ?v + 1) buf = ?v @ [rec_typ p]"
    using Aead_lawfulE [OF A, of ?n "?v @ [rec_typ p]" "rc_key e" ?aad] 1 lv nn by auto
  from o [of "[]"] obtain buf where b: "aead_open_within A (rc_key e) ?n ?aad (c @ tag) 0 = (buf, Some (length ?v + 1))"
      "length buf = length ?v + 17" "take (length ?v + 1) buf = ?v @ [rec_typ p]" by auto
  have len: "ring_Tls13_encrypted_payload_len A (length ?v) = length ?v + 17"
    by (simp add: ring_Tls13_encrypted_payload_len_def t)
  have enc: "ring_Tls13_encrypt A e p seq out =
      Some (Inr \<lparr>rec_typ = ContentType_ApplicationData, rec_version = rec_version p, rec_payload = c @ tag\<rparr>,
        (c @ tag) @ drop (length (c @ tag)) out)"
    using 1(2-) s nn lv len
    by (simp add: ring_Tls13_encrypt_def Let_def buffer_with_simps ring_Tls13_RecordEncrypter_def add.commute)
  have "take (length ?v) buf = ?v" using take_snoc [OF b(3)] .
  moreover have "ring_Tls13_decrypt A e \<lparr>rec_typ = ContentType_ApplicationData,
      rec_version = Legacy (EncodableVersion_encode (rec_version p)), rec_payload = c @ tag\<rparr> seq =
      (Inr \<lparr>lo_typ = rec_typ p, lo_version = Legacy ProtocolVersion_TLSv1_3, lo_start = 0, lo_len = length ?v\<rparr>, buf)"
    using 1(2-) s nn lv len b
    by (simp add: ring_Tls13_decrypt_def Let_def t InboundOpaque_truncate_def tls13_inner_accepted
        located_front_def add.commute)
  ultimately show ?case using 1(2-) enc s b(2) lv len iv
    by (simp add: d ring_Tls13_RecordEncrypter_def ring_Tls13_RecordDecrypter_def reborrow_def slice_def
        ContentType_known_def)
next
  case (2 e n)
  show ?case using A by (simp add: ring_Tls13_RecordEncrypter_def ring_Tls13_encrypted_payload_len_def Aead_lawful_def)
qed

lemma ring_ChaCha_protects:
  assumes A: "Aead_lawful A"
  shows "record_protection (ring_ChaCha_RecordEncrypter A) (ring_ChaCha_RecordDecrypter A)
    (\<lambda>e d. e = d \<and> iv12 (rc_iv e)) (\<lambda>t. t \<in> set ContentType_known \<and> t \<noteq> ContentType_ChangeCipherSpec)
    (\<lambda>v. Legacy (EncodableVersion_encode v))"
proof (unfold_locales, goal_cases)
  case (1 e d p out seq)
  have t: "aead_tag_len A = 16" using A by (simp add: Aead_lawful_def)
  let ?n = "Nonce_as_bytes (Nonce_new (rc_iv e) seq)" and ?v = "OutboundPlain_to_vec (rec_payload p)"
  let ?aad = "make_tls12_aad seq (rec_typ p) (EncodableVersion_encode (rec_version p)) (length ?v)"
  have lv: "OutboundPlain_len (rec_payload p) = length ?v" using 1 by (simp add: length_to_vec)
  have iv: "iv12 (rc_iv e)" and d: "d = e" using 1 by auto
  note nn = Nonce_to_array_iv12 [OF iv, of seq]
  have "length ?v \<le> MAX_FRAGMENT_LEN + 1" using 1 lv by simp
  from Aead_lawfulE [OF A nn(2) this, of "rc_key e" ?aad]
  obtain c tag where s: "aead_seal A (rc_key e) ?n ?aad ?v = (c, Some tag)" "length c = length ?v" "length tag = 16"
    and o: "\<And>pre. \<exists>buf. aead_open_within A (rc_key e) ?n ?aad (pre @ c @ tag) (length pre) = (buf, Some (length ?v)) \<and>
       length buf = length pre + length ?v + 16 \<and> take (length ?v) buf = ?v" by blast
  from o [of "[]"] obtain buf where b: "aead_open_within A (rc_key e) ?n ?aad (c @ tag) 0 = (buf, Some (length ?v))"
      "length buf = length ?v + 16" "take (length ?v) buf = ?v" by auto
  have len: "ring_ChaCha_encrypted_payload_len A (length ?v) = length ?v + 16"
    by (simp add: ring_ChaCha_encrypted_payload_len_def t)
  have enc: "ring_ChaCha_encrypt A e p seq out =
      Some (Inr \<lparr>rec_typ = rec_typ p, rec_version = rec_version p, rec_payload = c @ tag\<rparr>,
        (c @ tag) @ drop (length (c @ tag)) out)"
    using 1(2-) s nn lv len
    by (simp add: ring_ChaCha_encrypt_def Let_def buffer_with_simps ring_ChaCha_RecordEncrypter_def)
  moreover have "ring_ChaCha_decrypt A e \<lparr>rec_typ = rec_typ p,
      rec_version = Legacy (EncodableVersion_encode (rec_version p)), rec_payload = c @ tag\<rparr> seq =
      (Inr \<lparr>lo_typ = rec_typ p, lo_version = Legacy (EncodableVersion_encode (rec_version p)), lo_start = 0,
         lo_len = length ?v\<rparr>, buf)"
    using 1(2-) s nn lv len b
    by (simp add: ring_ChaCha_decrypt_def Let_def t InboundOpaque_truncate_def CHACHAPOLY1305_OVERHEAD_def
        into_plain_record_def located_front_def)
  ultimately show ?case using 1(2-) s b(2,3) lv len iv
    by (simp add: d ring_ChaCha_RecordEncrypter_def ring_ChaCha_RecordDecrypter_def reborrow_def slice_def)
next
  case (2 e n)
  show ?case using A by (simp add: ring_ChaCha_RecordEncrypter_def ring_ChaCha_encrypted_payload_len_def Aead_lawful_def)
qed

lemma ring_Gcm_protects:
  assumes A: "Aead_lawful A"
  shows "record_protection (ring_Gcm_RecordEncrypter A) (ring_Gcm_RecordDecrypter A)
    (\<lambda>e d. gd_key d = rc_key e \<and> iv12 (rc_iv e) \<and> gd_salt d = take 4 (Iv_as_ref (rc_iv e)))
    (\<lambda>t. t \<in> set ContentType_known \<and> t \<noteq> ContentType_ChangeCipherSpec)
    (\<lambda>v. Legacy (EncodableVersion_encode v))"
proof (unfold_locales, goal_cases)
  case (1 e d p out seq)
  have t: "aead_tag_len A = 16" using A by (simp add: Aead_lawful_def)
  let ?n = "Nonce_as_bytes (Nonce_new (rc_iv e) seq)" and ?v = "OutboundPlain_to_vec (rec_payload p)"
  let ?aad = "make_tls12_aad seq (rec_typ p) (EncodableVersion_encode (rec_version p)) (length ?v)"
  have lv: "OutboundPlain_len (rec_payload p) = length ?v" using 1 by (simp add: length_to_vec)
  have iv: "iv12 (rc_iv e)" and k: "gd_key d = rc_key e" and salt: "gd_salt d = take 4 (Iv_as_ref (rc_iv e))"
    using 1 by auto
  note nn = Nonce_to_array_iv12 [OF iv, of seq]
  have n4: "gd_salt d @ drop 4 ?n = ?n" using nonce_salt [OF iv, of seq] salt append_take_drop_id [of 4 ?n] by simp
  have "length ?v \<le> MAX_FRAGMENT_LEN + 1" using 1 lv by simp
  from Aead_lawfulE [OF A nn(2) this, of "rc_key e" ?aad]
  obtain c tag where s: "aead_seal A (rc_key e) ?n ?aad ?v = (c, Some tag)" "length c = length ?v" "length tag = 16"
    and o: "\<And>pre. \<exists>buf. aead_open_within A (rc_key e) ?n ?aad (pre @ c @ tag) (length pre) = (buf, Some (length ?v)) \<and>
       length buf = length pre + length ?v + 16 \<and> take (length ?v) buf = ?v" by blast
  have ln: "length (drop 4 ?n) = 8" using nn(2) by (simp add: NONCE_LEN_def)
  from o [of "drop 4 ?n"] ln obtain buf where
    b: "aead_open_within A (rc_key e) ?n ?aad (drop 4 ?n @ c @ tag) 8 = (buf, Some (length ?v))"
      "length buf = length ?v + 24" "take (length ?v) buf = ?v" by auto
  have len: "ring_Gcm_encrypted_payload_len A (length ?v) = length ?v + 24"
    by (simp add: ring_Gcm_encrypted_payload_len_def GCM_EXPLICIT_NONCE_LEN_def t)
  have enc: "ring_Gcm_encrypt A e p seq out =
      Some (Inr \<lparr>rec_typ = rec_typ p, rec_version = rec_version p, rec_payload = drop 4 ?n @ c @ tag\<rparr>,
        (drop 4 ?n @ c @ tag) @ drop (length (drop 4 ?n @ c @ tag)) out)"
    using 1(2-) s nn lv len ln
    by (simp add: ring_Gcm_encrypt_def Let_def buffer_with_simps ring_Gcm_RecordEncrypter_def
        GCM_EXPLICIT_NONCE_LEN_def add.commute)
  have "ring_Gcm_decrypt A d \<lparr>rec_typ = rec_typ p,
      rec_version = Legacy (EncodableVersion_encode (rec_version p)), rec_payload = drop 4 ?n @ c @ tag\<rparr> seq =
      (Inr \<lparr>lo_typ = rec_typ p, lo_version = Legacy (EncodableVersion_encode (rec_version p)), lo_start = 0,
         lo_len = length ?v\<rparr>, buf)"
    using 1(2-) s lv len b ln
    by (simp add: ring_Gcm_decrypt_def Let_def t InboundOpaque_truncate_def GCM_OVERHEAD_def k n4
        GCM_EXPLICIT_NONCE_LEN_def into_plain_record_def located_front_def)
  with enc show ?case using 1(2-) s b(2,3) lv len iv ln
    by (simp add: k salt ring_Gcm_RecordEncrypter_def ring_Gcm_RecordDecrypter_def reborrow_def slice_def)
next
  case (2 e n)
  show ?case using A by (simp add: ring_Gcm_RecordEncrypter_def ring_Gcm_encrypted_payload_len_def Aead_lawful_def
      GCM_EXPLICIT_NONCE_LEN_def)
qed

text \<open>Ciphers built from the same key material are paired.\<close>

lemma ring_Tls13_paired:
  "\<lbrakk>ring_AeadAlgorithm_encrypter A key iv = Some e; ring_AeadAlgorithm_decrypter A key iv = Some d; iv12 iv\<rbrakk> \<Longrightarrow>
     e = d \<and> iv12 (rc_iv e)"
  by (auto simp: ring_AeadAlgorithm_encrypter_def ring_AeadAlgorithm_decrypter_def bind_eq_Some_conv)

lemma ring_ChaCha_paired:
  "\<lbrakk>ring_ChaCha_cipher A key iv = Some e; length iv = NONCE_LEN\<rbrakk> \<Longrightarrow> iv12 (rc_iv e)"
  by (cases "Iv_new iv") (auto simp: ring_ChaCha_cipher_def bind_eq_Some_conv iv12_def dest: Iv_new_Inr)

lemma ring_Gcm_paired:
  "\<lbrakk>ring_Gcm_encrypter A key write_iv explicit = Some e; ring_Gcm_decrypter A key write_iv = Some d\<rbrakk> \<Longrightarrow>
     gd_key d = rc_key e \<and> iv12 (rc_iv e) \<and> gd_salt d = take 4 (Iv_as_ref (rc_iv e))"
  by (cases "Iv_new (write_iv @ explicit)") (auto simp: ring_Gcm_encrypter_def ring_Gcm_decrypter_def gcm_iv_def bind_eq_Some_conv iv12_def NONCE_LEN_def
      dest!: Iv_new_Inr split: if_splits)

end
