(* ===== verification/Hkdf.thy ===== *)
theory Hkdf
  imports Record_Cipher
begin

text \<open>
  Key derivation (\<open>rustls/src/crypto/tls13.rs\<close>, \<open>rustls/src/crypto/hmac.rs\<close>): HMAC tags and key
  blocks as values, the \<open>Hkdf\<close> and \<open>HkdfExpander\<close> traits, and their implementation over HMAC.
  The HMAC function itself is the provider's, a parameter; the one of the fuzzing provider
  (\<open>rustls-fuzzing-provider/src/lib.rs\<close>) is modelled. \<open>None\<close> is a panic.
\<close>

subsection \<open>Values\<close>

record Tag =
  tag_buf :: bytes
  tag_used :: usize

definition Tag_MAX_LEN :: usize where
  "Tag_MAX_LEN = 64"

definition Tag_new :: "bytes \<Rightarrow> Tag option" where
  "Tag_new bs = (if length bs \<le> Tag_MAX_LEN
     then Some \<lparr>tag_buf = write_at 0 bs (replicate Tag_MAX_LEN 0), tag_used = length bs\<rparr> else None)"

definition Tag_as_ref :: "Tag \<Rightarrow> bytes" where
  "Tag_as_ref t = take (tag_used t) (tag_buf t)"

record OkmBlock =
  okm_buf :: bytes
  okm_used :: usize

definition OkmBlock_MAX_LEN :: usize where
  "OkmBlock_MAX_LEN = 64"

definition OkmBlock_new :: "bytes \<Rightarrow> OkmBlock option" where
  "OkmBlock_new bs = (if length bs \<le> OkmBlock_MAX_LEN
     then Some \<lparr>okm_buf = write_at 0 bs (replicate OkmBlock_MAX_LEN 0), okm_used = length bs\<rparr> else None)"

definition OkmBlock_as_ref :: "OkmBlock \<Rightarrow> bytes" where
  "OkmBlock_as_ref b = take (okm_used b) (okm_buf b)"

lemma Tag_new_as_ref: "Tag_new bs = Some t \<Longrightarrow> Tag_as_ref t = bs"
  by (auto simp: Tag_new_def Tag_as_ref_def write_at_def split: if_splits)

lemma OkmBlock_new_as_ref: "OkmBlock_new bs = Some t \<Longrightarrow> OkmBlock_as_ref t = bs"
  by (auto simp: OkmBlock_new_def OkmBlock_as_ref_def write_at_def split: if_splits)

subsection \<open>The interfaces\<close>

text \<open>
  \<open>hmac_sign_concat H key first middle last\<close> is \<open>H.with_key(key).sign_concat(first, middle, last)\<close>.
\<close>

record Hmac =
  hmac_sign_concat :: "bytes \<Rightarrow> bytes \<Rightarrow> bytes list \<Rightarrow> bytes \<Rightarrow> Tag"
  hmac_tag_len :: usize
  hmac_hash_output_len :: usize

definition hmac_sign :: "Hmac \<Rightarrow> bytes \<Rightarrow> bytes list \<Rightarrow> Tag" where
  "hmac_sign H key data = hmac_sign_concat H key [] data []"

text \<open>
  The documented behaviour of an HMAC: tags have the length of the hash, which is at most 64
  bytes, and depend only on the concatenation of what is signed.
\<close>

definition Hmac_lawful :: "Hmac \<Rightarrow> bool" where
  "Hmac_lawful H \<longleftrightarrow> 0 < hmac_tag_len H \<and> hmac_tag_len H \<le> Tag_MAX_LEN \<and>
     hmac_hash_output_len H = hmac_tag_len H \<and>
     (\<forall>key a m z. length (Tag_as_ref (hmac_sign_concat H key a m z)) = hmac_tag_len H) \<and>
     (\<forall>key a m z a' m' z'. a @ concat m @ z = a' @ concat m' @ z' \<longrightarrow>
        Tag_as_ref (hmac_sign_concat H key a m z) = Tag_as_ref (hmac_sign_concat H key a' m' z'))"

text \<open>
  The traits \<open>Hkdf\<close> and \<open>HkdfExpander\<close>; \<open>expand_slice\<close> is given the length of the output slice.
\<close>

record 'x Hkdf =
  extract_from_zero_ikm :: "bytes option \<Rightarrow> 'x option"
  extract_from_secret :: "bytes option \<Rightarrow> bytes \<Rightarrow> 'x option"
  expander_for_okm :: "OkmBlock \<Rightarrow> 'x option"
  hkdf_hmac_sign :: "OkmBlock \<Rightarrow> bytes \<Rightarrow> Tag option"
  expand_slice :: "'x \<Rightarrow> bytes list \<Rightarrow> usize \<Rightarrow> (unit + bytes) option"
  expand_block :: "'x \<Rightarrow> bytes list \<Rightarrow> OkmBlock option"
  expander_hash_len :: "'x \<Rightarrow> usize"

definition expand :: "'x Hkdf \<Rightarrow> usize \<Rightarrow> 'x \<Rightarrow> bytes list \<Rightarrow> bytes option" where
  "expand H n x info = do {
     r \<leftarrow> expand_slice H x info n;
     (case r of Inr out \<Rightarrow> Some out | Inl _ \<Rightarrow> None) }"

subsection \<open>HKDF over HMAC\<close>

record HkdfExpanderUsingHmac =
  xp_hmac :: Hmac
  xp_key :: bytes

text \<open>
  The loop over the chunks of the output: \<open>n\<close> chunks are done, \<open>len\<close> bytes are still to be
  filled, \<open>term\<close> is the last tag. A zero tag length makes \<open>chunks_mut\<close> panic, and so does a tag
  shorter than its chunk.
\<close>

function expand_chunks ::
    "HkdfExpanderUsingHmac \<Rightarrow> bytes list \<Rightarrow> usize \<Rightarrow> Tag \<Rightarrow> usize \<Rightarrow> bytes option" where
  "expand_chunks x info n t len =
     (if hmac_tag_len (xp_hmac x) = 0 then None
      else if len = 0 then Some []
      else do {
        let chunk_len = min (hmac_tag_len (xp_hmac x)) len;
        let t = hmac_sign_concat (xp_hmac x) (xp_key x) (Tag_as_ref t) info [word_of_nat (n + 1)];
        chunk \<leftarrow> (if chunk_len \<le> length (Tag_as_ref t) then Some (take chunk_len (Tag_as_ref t)) else None);
        rest \<leftarrow> expand_chunks x info (n + 1) t (len - chunk_len);
        Some (chunk @ rest) })"
  by auto
termination by (relation "measure (\<lambda>(_, _, _, _, len). len)") auto

declare expand_chunks.simps [simp del]

definition expand_unchecked :: "HkdfExpanderUsingHmac \<Rightarrow> bytes list \<Rightarrow> usize \<Rightarrow> bytes option" where
  "expand_unchecked x info len = do {
     t \<leftarrow> Tag_new [];
     expand_chunks x info 0 t len }"

definition hmac_expand_slice :: "HkdfExpanderUsingHmac \<Rightarrow> bytes list \<Rightarrow> usize \<Rightarrow> (unit + bytes) option" where
  "hmac_expand_slice x info len =
     (if len > 255 * hmac_tag_len (xp_hmac x) then Some (Inl ())
      else map_option Inr (expand_unchecked x info len))"

definition hmac_expand_block :: "HkdfExpanderUsingHmac \<Rightarrow> bytes list \<Rightarrow> OkmBlock option" where
  "hmac_expand_block x info = do {
     (if hmac_tag_len (xp_hmac x) \<le> Tag_MAX_LEN then Some () else None);
     out \<leftarrow> expand_unchecked x info (hmac_tag_len (xp_hmac x));
     OkmBlock_new out }"

definition zeroes :: "usize \<Rightarrow> bytes option" where
  "zeroes n = (if n \<le> Tag_MAX_LEN then Some (replicate n 0) else None)"

definition extract_prk_from_secret :: "Hmac \<Rightarrow> bytes option \<Rightarrow> bytes \<Rightarrow> bytes option" where
  "extract_prk_from_secret H salt secret = do {
     salt \<leftarrow> (case salt of Some salt \<Rightarrow> Some salt | None \<Rightarrow> zeroes (hmac_hash_output_len H));
     Some (Tag_as_ref (hmac_sign H salt [secret])) }"

definition HkdfUsingHmac :: "Hmac \<Rightarrow> HkdfExpanderUsingHmac Hkdf" where
  "HkdfUsingHmac H =
     \<lparr>extract_from_zero_ikm = (\<lambda>salt. do {
         z \<leftarrow> zeroes (hmac_hash_output_len H);
         prk \<leftarrow> extract_prk_from_secret H salt z;
         Some \<lparr>xp_hmac = H, xp_key = prk\<rparr> }),
      extract_from_secret = (\<lambda>salt secret. do {
         prk \<leftarrow> extract_prk_from_secret H salt secret;
         Some \<lparr>xp_hmac = H, xp_key = prk\<rparr> }),
      expander_for_okm = (\<lambda>okm. Some \<lparr>xp_hmac = H, xp_key = OkmBlock_as_ref okm\<rparr>),
      hkdf_hmac_sign = (\<lambda>key message. Some (hmac_sign H (OkmBlock_as_ref key) [message])),
      expand_slice = hmac_expand_slice,
      expand_block = hmac_expand_block,
      expander_hash_len = (\<lambda>x. hmac_tag_len (xp_hmac x))\<rparr>"

subsection \<open>Reference: RFC 5869\<close>

text \<open>
  \<open>T(0)\<close> is empty, \<open>T(i+1) = HMAC(PRK, T(i) | info | i+1)\<close>, and the output is the first \<open>L\<close> bytes of
  \<open>T(1) | T(2) | ...\<close>.
\<close>

definition hmac_bytes :: "Hmac \<Rightarrow> bytes \<Rightarrow> bytes \<Rightarrow> bytes" where
  "hmac_bytes H key msg = Tag_as_ref (hmac_sign H key [msg])"

fun hkdf_T :: "Hmac \<Rightarrow> bytes \<Rightarrow> bytes \<Rightarrow> nat \<Rightarrow> bytes" where
  "hkdf_T H prk info 0 = []"
| "hkdf_T H prk info (Suc i) = hmac_bytes H prk (hkdf_T H prk info i @ info @ [word_of_nat (Suc i)])"

definition hkdf_expand_spec :: "Hmac \<Rightarrow> bytes \<Rightarrow> bytes \<Rightarrow> nat \<Rightarrow> bytes" where
  "hkdf_expand_spec H prk info L = take L (concat (map (hkdf_T H prk info) [1..<Suc L]))"

lemma length_hkdf_T: "Hmac_lawful H \<Longrightarrow> length (hkdf_T H prk info (Suc i)) = hmac_tag_len H"
  by (simp add: hmac_bytes_def hmac_sign_def Hmac_lawful_def)

lemma take_concat_stable:
  assumes "\<And>i. a \<le> i \<Longrightarrow> f i \<noteq> []" "m \<le> k"
  shows "take m (concat (map f [a..<a + k])) = take m (concat (map f [a..<a + m]))"
proof -
  have "m \<le> length (concat (map f [a..<a + m]))"
  proof (induction m)
    case (Suc m)
    moreover have "0 < length (f (a + m))" using assms(1) by simp
    ultimately show ?case by (simp del: length_greater_0_conv)
  qed simp
  moreover have "[a..<a + k] = [a..<a + m] @ [a + m..<a + k]"
    using assms(2) by (metis add_le_cancel_left le_add1 le_iff_add upt_add_eq_append)
  ultimately show ?thesis by simp
qed

text \<open>
  One round of a loop that fills an output of \<open>len\<close> bytes with blocks of \<open>n\<close> bytes: the first block is
  cut to what is missing, and the rest is filled by the blocks after it.
\<close>

lemma fill_round:
  assumes "0 < n" "0 < len" and T: "\<And>i. a \<le> i \<Longrightarrow> length (T i) = n"
  shows "take len (concat (map T [a..<a + len])) =
    take (min n len) (T a) @
    take (len - min n len) (concat (map T [Suc a..<Suc a + (len - min n len)]))"
proof -
  have ne: "T i \<noteq> []" if "Suc a \<le> i" for i using that T [of i] assms(1) by auto
  have "[a..<a + len] = a # [Suc a..<Suc a + (len - 1)]" using assms(2) by (simp add: upt_rec)
  hence "take len (concat (map T [a..<a + len])) =
      take (min n len) (T a) @ take (len - min n len) (concat (map T [Suc a..<Suc a + (len - 1)]))"
    using T [of a] by (simp add: min_def del: upt_Suc)
  moreover have "take (len - min n len) (concat (map T [Suc a..<Suc a + (len - 1)])) =
      take (len - min n len) (concat (map T [Suc a..<Suc a + (len - min n len)]))"
    by (rule take_concat_stable) (use ne assms in auto)
  ultimately show ?thesis by simp
qed

lemma length_filled:
  assumes "0 < n" and "\<And>i. a \<le> i \<Longrightarrow> length (T i) = n"
  shows "length (take len (concat (map T [a..<a + len]))) = len"
proof -
  have "length (concat (map T [a..<a + m])) = m * n" for m
    by (induction m) (simp_all add: assms(2))
  moreover have "len \<le> len * n" using assms(1) by simp
  ultimately show ?thesis by simp
qed

lemma hmac_sign_bytes:
  assumes "Hmac_lawful H"
  shows "Tag_as_ref (hmac_sign_concat H key a m z) = hmac_bytes H key (a @ concat m @ z)"
    "length (hmac_bytes H key msg) = hmac_tag_len H"
proof -
  have "a @ concat m @ z = [] @ concat [a @ concat m @ z] @ []" by simp
  then show "Tag_as_ref (hmac_sign_concat H key a m z) = hmac_bytes H key (a @ concat m @ z)"
    using assms unfolding Hmac_lawful_def hmac_bytes_def hmac_sign_def by blast
  show "length (hmac_bytes H key msg) = hmac_tag_len H"
    using assms by (simp add: hmac_bytes_def hmac_sign_def Hmac_lawful_def)
qed

lemma expand_chunks_eq:
  assumes law: "Hmac_lawful H"
  shows "Tag_as_ref t = hkdf_T H prk (concat info) n \<Longrightarrow>
    expand_chunks \<lparr>xp_hmac = H, xp_key = prk\<rparr> info n t len =
      Some (take len (concat (map (hkdf_T H prk (concat info)) [Suc n..<Suc n + len])))"
proof (induction len arbitrary: n t rule: less_induct)
  case (less len)
  let ?T = "hkdf_T H prk (concat info)" and ?x = "\<lparr>xp_hmac = H, xp_key = prk\<rparr>"
  have tl: "0 < hmac_tag_len H" using law by (simp add: Hmac_lawful_def)
  show ?case
  proof (cases "len = 0")
    case True
    thus ?thesis using tl by (simp add: expand_chunks.simps [of ?x info n t 0])
  next
    case False
    let ?t = "hmac_sign_concat H prk (Tag_as_ref t) info [word_of_nat (n + 1)]"
      and ?c = "min (hmac_tag_len H) len"
    have T: "Tag_as_ref ?t = ?T (Suc n)" by (simp add: hmac_sign_bytes(1) [OF law] less.prems)
    have lT: "length (?T i) = hmac_tag_len H" if "Suc n \<le> i" for i
      using that length_hkdf_T [OF law, of prk "concat info" "i - 1"] by (cases i) auto
    have "expand_chunks ?x info (n + 1) ?t (len - ?c) =
        Some (take (len - ?c) (concat (map ?T [Suc (Suc n)..<Suc (Suc n) + (len - ?c)])))"
      using less.IH [of "len - ?c" ?t "n + 1"] T False tl by simp
    thus ?thesis using fill_round [of "hmac_tag_len H" len "Suc n" ?T] T lT False tl
      by (simp add: expand_chunks.simps [of ?x info n t len] Let_def del: hkdf_T.simps upt_Suc)
  qed
qed

text \<open>The expander computes HKDF-Expand of RFC 5869 and refuses outputs longer than 255 blocks.\<close>

lemma hmac_expand_slice_eq:
  assumes "Hmac_lawful H"
  shows "hmac_expand_slice \<lparr>xp_hmac = H, xp_key = prk\<rparr> info len =
    Some (if len > 255 * hmac_tag_len H then Inl () else Inr (hkdf_expand_spec H prk (concat info) len))"
proof -
  obtain t where t: "Tag_new [] = Some t" by (simp add: Tag_new_def)
  from expand_chunks_eq [OF assms, of t prk info 0 len] Tag_new_as_ref [OF t]
  have "expand_chunks \<lparr>xp_hmac = H, xp_key = prk\<rparr> info 0 t len = Some (hkdf_expand_spec H prk (concat info) len)"
    by (simp add: hkdf_expand_spec_def)
  thus ?thesis using t by (simp add: hmac_expand_slice_def expand_unchecked_def)
qed

lemma length_hkdf_expand_spec:
  assumes "Hmac_lawful H"
  shows "length (hkdf_expand_spec H prk info len) = len"
proof -
  have "length (hkdf_T H prk info i) = hmac_tag_len H" if "1 \<le> i" for i
    using that length_hkdf_T [OF assms, of prk info "i - 1"] by (cases i) auto
  then show ?thesis
    using length_filled [of "hmac_tag_len H" 1 "hkdf_T H prk info" len] assms
    by (simp add: hkdf_expand_spec_def Hmac_lawful_def)
qed

subsection \<open>The contract of an HKDF provider\<close>

text \<open>
  What the key schedule relies on (the documentation of the traits): extraction and expansion
  do not panic, an expansion has the length asked for and fails exactly beyond 255 blocks, and
  a block is the expansion to the length of the hash, which is at most 64 bytes.
\<close>

locale hkdf_provider =
  fixes H :: "'x Hkdf" and valid :: "'x \<Rightarrow> bool"
  assumes zero_ikm_valid: "\<exists>x. extract_from_zero_ikm H salt = Some x \<and> valid x"
    and secret_valid: "\<exists>x. extract_from_secret H salt secret = Some x \<and> valid x"
    and okm_valid: "\<exists>x. expander_for_okm H okm = Some x \<and> valid x"
    and hmac_total: "\<exists>t. hkdf_hmac_sign H key message = Some t"
    and hash_len: "valid x \<Longrightarrow> 0 < expander_hash_len H x \<and> expander_hash_len H x \<le> OkmBlock_MAX_LEN"
    and slice_too_long: "valid x \<Longrightarrow> 255 * expander_hash_len H x < n \<Longrightarrow> expand_slice H x info n = Some (Inl ())"
    and slice_fills: "valid x \<Longrightarrow> n \<le> 255 * expander_hash_len H x \<Longrightarrow>
      \<exists>out. expand_slice H x info n = Some (Inr out) \<and> length out = n"
    and block_slice: "valid x \<Longrightarrow> \<exists>okm. expand_block H x info = Some okm \<and>
      expand_slice H x info (expander_hash_len H x) = Some (Inr (OkmBlock_as_ref okm))"
begin

lemma expand_total: "valid x \<Longrightarrow> n \<le> 255 * expander_hash_len H x \<Longrightarrow>
    \<exists>out. expand H n x info = Some out \<and> length out = n"
  using slice_fills [of x n info] by (auto simp: expand_def)

lemma block_length: "valid x \<Longrightarrow> expand_block H x info = Some okm \<Longrightarrow>
    length (OkmBlock_as_ref okm) = expander_hash_len H x"
  using block_slice [of x info] slice_fills [of x "expander_hash_len H x" info] hash_len [of x] by auto

end

lemma HkdfUsingHmac_provider:
  assumes law: "Hmac_lawful H"
  shows "hkdf_provider (HkdfUsingHmac H) (\<lambda>x. xp_hmac x = H)"
proof (unfold_locales, goal_cases)
  case (8 x info)
  then obtain prk where x: "x = \<lparr>xp_hmac = H, xp_key = prk\<rparr>" by (cases x) auto
  have tl: "0 < hmac_tag_len H" "hmac_tag_len H \<le> Tag_MAX_LEN" using law by (simp_all add: Hmac_lawful_def)
  have sl: "hmac_expand_slice x info (hmac_tag_len H) = Some (Inr (hkdf_expand_spec H prk (concat info) (hmac_tag_len H)))"
    using hmac_expand_slice_eq [OF law, of prk info "hmac_tag_len H"] tl by (simp add: x)
  hence "expand_unchecked x info (hmac_tag_len H) = Some (hkdf_expand_spec H prk (concat info) (hmac_tag_len H))"
    using x tl by (auto simp: hmac_expand_slice_def split: if_splits)
  moreover have "\<exists>okm. OkmBlock_new (hkdf_expand_spec H prk (concat info) (hmac_tag_len H)) = Some okm"
    using tl by (simp add: OkmBlock_new_def length_hkdf_expand_spec [OF law] OkmBlock_MAX_LEN_def Tag_MAX_LEN_def)
  ultimately show ?case using sl tl x
    by (auto simp: HkdfUsingHmac_def hmac_expand_block_def intro: OkmBlock_new_as_ref [symmetric])
next
  case (7 x n info)
  then obtain prk where x: "x = \<lparr>xp_hmac = H, xp_key = prk\<rparr>" by (cases x) auto
  with 7 show ?case
    using hmac_expand_slice_eq [OF law, of prk info n] length_hkdf_expand_spec [OF law]
    by (simp add: HkdfUsingHmac_def)
next
  case (6 x n info)
  then show ?case by (simp add: HkdfUsingHmac_def hmac_expand_slice_def)
qed (use law in \<open>auto simp: HkdfUsingHmac_def Hmac_lawful_def extract_prk_from_secret_def zeroes_def
    OkmBlock_MAX_LEN_def Tag_MAX_LEN_def split: option.split\<close>)

subsection \<open>The HMAC of the fuzzing provider\<close>

definition HMAC_OUTPUT :: bytes where
  "HMAC_OUTPUT = ascii ''HmacHmacHmacHmacHmacHmacHmacHmac''"

definition fuzz_Hmac :: Hmac where
  "fuzz_Hmac = \<lparr>hmac_sign_concat = (\<lambda>_ _ _ _. \<lparr>tag_buf = write_at 0 HMAC_OUTPUT (replicate Tag_MAX_LEN 0),
      tag_used = length HMAC_OUTPUT\<rparr>),
    hmac_tag_len = length HMAC_OUTPUT, hmac_hash_output_len = 32\<rparr>"

lemma fuzz_Hmac_lawful: "Hmac_lawful fuzz_Hmac"
  by (simp add: Hmac_lawful_def fuzz_Hmac_def Tag_as_ref_def HMAC_OUTPUT_def Tag_MAX_LEN_def write_at_def)

interpretation fuzz_hkdf: hkdf_provider "HkdfUsingHmac fuzz_Hmac" "\<lambda>x. xp_hmac x = fuzz_Hmac"
  by (rule HkdfUsingHmac_provider) (rule fuzz_Hmac_lawful)

end
