(* ===== verification/Transcript.thy ===== *)
theory Transcript
  imports Wire_Messages Hkdf
begin

text \<open>
  The handshake transcript (\<open>rustls/src/hash_hs.rs\<close>, \<open>rustls/src/crypto/hash.rs\<close>) and the message
  signed in CertificateVerify (\<open>rustls/src/tls13/mod.rs\<close>). The hash function is the provider's, a
  parameter; a context is a value, so forking it is sharing it.
\<close>

subsection \<open>Hash functions\<close>

type_synonym HashAlgorithm = u8

definition HashAlgorithm_SHA256 :: HashAlgorithm where
  "HashAlgorithm_SHA256 = 0x04"

definition HashAlgorithm_SHA384 :: HashAlgorithm where
  "HashAlgorithm_SHA384 = 0x05"

definition hash_for_empty_input :: "HashAlgorithm \<Rightarrow> bytes option" where
  "hash_for_empty_input a =
     (if a = HashAlgorithm_SHA256 then Some
        [0xe3, 0xb0, 0xc4, 0x42, 0x98, 0xfc, 0x1c, 0x14, 0x9a, 0xfb, 0xf4, 0xc8, 0x99, 0x6f, 0xb9, 0x24,
         0x27, 0xae, 0x41, 0xe4, 0x64, 0x9b, 0x93, 0x4c, 0xa4, 0x95, 0x99, 0x1b, 0x78, 0x52, 0xb8, 0x55]
      else if a = HashAlgorithm_SHA384 then Some
        [0x38, 0xb0, 0x60, 0xa7, 0x51, 0xac, 0x96, 0x38, 0x4c, 0xd9, 0x32, 0x7e, 0xb1, 0xb1, 0xe3, 0x6a,
         0x21, 0xfd, 0xb7, 0x11, 0x14, 0xbe, 0x07, 0x43, 0x4c, 0x0c, 0xc7, 0xbf, 0x63, 0xf6, 0xe1, 0xda,
         0x27, 0x4e, 0xde, 0xbf, 0xe7, 0x6f, 0x65, 0xfb, 0xd5, 0x1a, 0xd2, 0xf1, 0x48, 0x98, 0xb9, 0x5b]
      else None)"

text \<open>\<open>Output_MAX_LEN\<close> bounds every hash output.\<close>

definition Output_MAX_LEN :: usize where
  "Output_MAX_LEN = 64"

record 'c Hash =
  hash_start :: 'c
  hash_update :: "'c \<Rightarrow> bytes \<Rightarrow> 'c"
  hash_finish :: "'c \<Rightarrow> bytes"
  hash_hash :: "bytes \<Rightarrow> bytes"
  hash_algorithm :: HashAlgorithm
  hash_output_len :: usize

text \<open>
  Documented behaviour: hashing incrementally is hashing the concatenation, and outputs have
  the declared length, at most 64 bytes.
\<close>

definition Hash_lawful :: "'c Hash \<Rightarrow> bool" where
  "Hash_lawful h \<longleftrightarrow> hash_output_len h \<le> Output_MAX_LEN \<and>
     (\<forall>data. length (hash_hash h data) = hash_output_len h) \<and>
     (\<forall>chunks. hash_finish h (foldl (hash_update h) (hash_start h) chunks) = hash_hash h (concat chunks))"

subsection \<open>The buffer before the hash function is known\<close>

record HandshakeHashBuffer =
  hhb_buffer :: bytes
  hhb_client_auth_enabled :: bool

definition HandshakeHashBuffer_new :: HandshakeHashBuffer where
  "HandshakeHashBuffer_new = \<lparr>hhb_buffer = [], hhb_client_auth_enabled = False\<rparr>"

definition HandshakeHashBuffer_set_client_auth_enabled :: "HandshakeHashBuffer \<Rightarrow> HandshakeHashBuffer" where
  "HandshakeHashBuffer_set_client_auth_enabled b = b\<lparr>hhb_client_auth_enabled := True\<rparr>"

definition HandshakeHashBuffer_add_raw :: "bytes \<Rightarrow> HandshakeHashBuffer \<Rightarrow> HandshakeHashBuffer" where
  "HandshakeHashBuffer_add_raw bs b = b\<lparr>hhb_buffer := hhb_buffer b @ bs\<rparr>"

definition HandshakeHashBuffer_add_message :: "Message \<Rightarrow> HandshakeHashBuffer \<Rightarrow> HandshakeHashBuffer" where
  "HandshakeHashBuffer_add_message m b = (case msg_payload m of
     MP_Handshake _ encoded \<Rightarrow> HandshakeHashBuffer_add_raw encoded b
   | MP_HandshakeFlight payload \<Rightarrow> HandshakeHashBuffer_add_raw payload b
   | _ \<Rightarrow> b)"

definition HandshakeHashBuffer_hash_given :: "'c Hash \<Rightarrow> bytes \<Rightarrow> HandshakeHashBuffer \<Rightarrow> bytes" where
  "HandshakeHashBuffer_hash_given h extra b =
     hash_finish h (hash_update h (hash_update h (hash_start h) (hhb_buffer b)) extra)"

subsection \<open>The running hash\<close>

record 'c HandshakeHash =
  hh_provider :: "'c Hash"
  hh_ctx :: 'c
  hh_client_auth :: "bytes option"

definition HandshakeHashBuffer_start_hash :: "'c Hash \<Rightarrow> HandshakeHashBuffer \<Rightarrow> 'c HandshakeHash" where
  "HandshakeHashBuffer_start_hash h b =
     \<lparr>hh_provider = h, hh_ctx = hash_update h (hash_start h) (hhb_buffer b),
      hh_client_auth = (if hhb_client_auth_enabled b then Some (hhb_buffer b) else None)\<rparr>"

definition HandshakeHash_abandon_client_auth :: "'c HandshakeHash \<Rightarrow> 'c HandshakeHash" where
  "HandshakeHash_abandon_client_auth hh = hh\<lparr>hh_client_auth := None\<rparr>"

definition HandshakeHash_add_raw :: "bytes \<Rightarrow> 'c HandshakeHash \<Rightarrow> 'c HandshakeHash" where
  "HandshakeHash_add_raw bs hh =
     hh\<lparr>hh_ctx := hash_update (hh_provider hh) (hh_ctx hh) bs,
        hh_client_auth := map_option (\<lambda>b. b @ bs) (hh_client_auth hh)\<rparr>"

definition HandshakeHash_add_message :: "Message \<Rightarrow> 'c HandshakeHash \<Rightarrow> 'c HandshakeHash" where
  "HandshakeHash_add_message m hh = (case msg_payload m of
     MP_Handshake _ encoded \<Rightarrow> HandshakeHash_add_raw encoded hh
   | MP_HandshakeFlight payload \<Rightarrow> HandshakeHash_add_raw payload hh
   | _ \<Rightarrow> hh)"

definition HandshakeHash_hash_given :: "bytes \<Rightarrow> 'c HandshakeHash \<Rightarrow> bytes" where
  "HandshakeHash_hash_given extra hh =
     hash_finish (hh_provider hh) (hash_update (hh_provider hh) (hh_ctx hh) extra)"

definition HandshakeHash_into_hrr_buffer ::
    "(bytes \<Rightarrow> ServerNameKind) \<Rightarrow> (bytes \<Rightarrow> bool) \<Rightarrow> 'c HandshakeHash \<Rightarrow> HandshakeHashBuffer" where
  "HandshakeHash_into_hrr_buffer classify dns_ok hh =
     (let old_hash = hash_finish (hh_provider hh) (hh_ctx hh) in
      \<lparr>hhb_buffer = HandshakeMessagePayload_get_encoding classify dns_ok
         (HandshakeMessagePayload_build_handshake_hash old_hash),
       hhb_client_auth_enabled = (hh_client_auth hh \<noteq> None)\<rparr>)"

definition HandshakeHash_rollup_for_hrr ::
    "(bytes \<Rightarrow> ServerNameKind) \<Rightarrow> (bytes \<Rightarrow> bool) \<Rightarrow> 'c HandshakeHash \<Rightarrow> 'c HandshakeHash" where
  "HandshakeHash_rollup_for_hrr classify dns_ok hh =
     (let old_hash = hash_finish (hh_provider hh) (hh_ctx hh) in
      HandshakeHash_add_raw (HandshakeMessagePayload_get_encoding classify dns_ok
        (HandshakeMessagePayload_build_handshake_hash old_hash))
        (hh\<lparr>hh_ctx := hash_start (hh_provider hh)\<rparr>))"

definition HandshakeHash_current_hash :: "'c HandshakeHash \<Rightarrow> bytes" where
  "HandshakeHash_current_hash hh = hash_finish (hh_provider hh) (hh_ctx hh)"

definition HandshakeHash_take_handshake_buf :: "'c HandshakeHash \<Rightarrow> bytes option \<times> 'c HandshakeHash" where
  "HandshakeHash_take_handshake_buf hh = (hh_client_auth hh, hh\<lparr>hh_client_auth := None\<rparr>)"

subsection \<open>The transcript as a byte string\<close>

text \<open>
  The specification: a transcript is the concatenation of the handshake messages; after a
  HelloRetryRequest the messages so far are replaced by a synthetic \<open>message_hash\<close> message.
\<close>

definition handshake_bytes :: "Message \<Rightarrow> bytes" where
  "handshake_bytes m = (case msg_payload m of
     MP_Handshake _ encoded \<Rightarrow> encoded | MP_HandshakeFlight payload \<Rightarrow> payload | _ \<Rightarrow> [])"

definition message_hash_message :: "bytes \<Rightarrow> bytes" where
  "message_hash_message h = [254, 0, 0, word_of_nat (length h)] @ h"

definition hashes :: "'c Hash \<Rightarrow> bytes \<Rightarrow> 'c HandshakeHash \<Rightarrow> bool" where
  "hashes h transcript hh \<longleftrightarrow> hh_provider hh = h \<and>
     (\<exists>chunks. hh_ctx hh = foldl (hash_update h) (hash_start h) chunks \<and> concat chunks = transcript)"

lemma get_encoding_message_hash:
  "length h \<le> Output_MAX_LEN \<Longrightarrow> HandshakeMessagePayload_get_encoding classify dns_ok
     (HandshakeMessagePayload_build_handshake_hash h) = message_hash_message h"
  by (simp add: HandshakeMessagePayload_get_encoding_def HandshakeMessagePayload_payload_encode_def
      HandshakeMessagePayload_build_handshake_hash_def message_hash_message_def
      HandshakePayload_wire_handshake_type_def u8_encode_def length_prefixed_eq Output_MAX_LEN_def
      Payload_encode_def numeral_3_eq_3 to_be_bytes_Suc)

lemma hashes_add_raw: "hashes h tr hh \<Longrightarrow> hashes h (tr @ bs) (HandshakeHash_add_raw bs hh)"
proof -
  assume "hashes h tr hh"
  then obtain chunks where "hh_provider hh = h" "hh_ctx hh = foldl (hash_update h) (hash_start h) chunks"
    "concat chunks = tr" by (auto simp: hashes_def)
  thus ?thesis unfolding hashes_def HandshakeHash_add_raw_def by (auto intro!: exI [where x = "chunks @ [bs]"])
qed

lemma hashes_start: "hashes h (hhb_buffer b) (HandshakeHashBuffer_start_hash h b)"
  unfolding hashes_def HandshakeHashBuffer_start_hash_def
  by (auto intro!: exI [where x = "[hhb_buffer b]"])

lemma hashes_add_message: "hashes h tr hh \<Longrightarrow> hashes h (tr @ handshake_bytes m) (HandshakeHash_add_message m hh)"
  using hashes_add_raw [of h tr hh]
  by (cases "msg_payload m") (simp_all add: HandshakeHash_add_message_def handshake_bytes_def)

lemma hashes_current: "Hash_lawful h \<Longrightarrow> hashes h tr hh \<Longrightarrow> HandshakeHash_current_hash hh = hash_hash h tr"
  by (auto simp: HandshakeHash_current_hash_def hashes_def Hash_lawful_def)

lemma hashes_given:
  "Hash_lawful h \<Longrightarrow> hashes h tr hh \<Longrightarrow> HandshakeHash_hash_given extra hh = hash_hash h (tr @ extra)"
  using hashes_current [OF _ hashes_add_raw [of h tr hh extra]]
  by (simp add: HandshakeHash_hash_given_def HandshakeHash_current_hash_def HandshakeHash_add_raw_def)

lemma hashes_rollup:
  assumes "Hash_lawful h" "hashes h tr hh"
  shows "hashes h (message_hash_message (hash_hash h tr)) (HandshakeHash_rollup_for_hrr classify dns_ok hh)"
proof -
  have "hash_finish (hh_provider hh) (hh_ctx hh) = hash_hash h tr" "length (hash_hash h tr) \<le> Output_MAX_LEN"
    using assms hashes_current [OF assms] by (simp_all add: HandshakeHash_current_hash_def Hash_lawful_def)
  moreover have "hashes h [] (hh\<lparr>hh_ctx := hash_start (hh_provider hh)\<rparr>)"
    using assms(2) unfolding hashes_def by (auto intro!: exI [where x = "[]"])
  ultimately show ?thesis
    using hashes_add_raw [of h "[]" "hh\<lparr>hh_ctx := hash_start (hh_provider hh)\<rparr>"]
    by (simp add: HandshakeHash_rollup_for_hrr_def Let_def get_encoding_message_hash)
qed

lemma into_hrr_buffer_eq:
  assumes "Hash_lawful h" "hashes h tr hh"
  shows "hhb_buffer (HandshakeHash_into_hrr_buffer classify dns_ok hh) = message_hash_message (hash_hash h tr)"
  using assms hashes_current [OF assms]
  by (simp add: HandshakeHash_into_hrr_buffer_def Let_def HandshakeHash_current_hash_def Hash_lawful_def
      get_encoding_message_hash)

subsection \<open>A whole handshake\<close>

text \<open>
  The steps a handshake takes on its transcript. The client goes back to the buffer when it
  gets a HelloRetryRequest, the server rolls the running hash up; both then add the same
  messages.
\<close>

definition add_messages :: "Message list \<Rightarrow> 'c HandshakeHash \<Rightarrow> 'c HandshakeHash" where
  "add_messages ms hh = fold HandshakeHash_add_message ms hh"

definition buffer_messages :: "Message list \<Rightarrow> HandshakeHashBuffer \<Rightarrow> HandshakeHashBuffer" where
  "buffer_messages ms b = fold HandshakeHashBuffer_add_message ms b"

lemma hashes_add_messages: "hashes h tr hh \<Longrightarrow> hashes h (tr @ concat (map handshake_bytes ms)) (add_messages ms hh)"
proof (induction ms arbitrary: tr hh)
  case (Cons m ms)
  from Cons.IH [OF hashes_add_message [OF Cons.prems, of m]] show ?case by (simp add: add_messages_def)
qed (simp add: add_messages_def)

lemma buffer_messages_eq: "hhb_buffer (buffer_messages ms b) = hhb_buffer b @ concat (map handshake_bytes ms)"
proof (induction ms arbitrary: b)
  case (Cons m ms)
  have "hhb_buffer (HandshakeHashBuffer_add_message m b) = hhb_buffer b @ handshake_bytes m"
    by (cases "msg_payload m")
      (simp_all add: HandshakeHashBuffer_add_message_def HandshakeHashBuffer_add_raw_def handshake_bytes_def)
  thus ?case using Cons.IH [of "HandshakeHashBuffer_add_message m b"] by (simp add: buffer_messages_def)
qed (simp add: buffer_messages_def)

lemma hrr_transcripts_agree:
  assumes "Hash_lawful h" "hashes h tr client" "hashes h tr server"
  shows "HandshakeHash_current_hash (add_messages ms (HandshakeHashBuffer_start_hash h
      (buffer_messages hrr (HandshakeHash_into_hrr_buffer classify dns_ok client)))) =
    HandshakeHash_current_hash (add_messages (hrr @ ms) (HandshakeHash_rollup_for_hrr classify dns_ok server))"
proof -
  let ?mh = "message_hash_message (hash_hash h tr)"
  have "hashes h (?mh @ concat (map handshake_bytes hrr)) (HandshakeHashBuffer_start_hash h
      (buffer_messages hrr (HandshakeHash_into_hrr_buffer classify dns_ok client)))"
    using hashes_start [of h "buffer_messages hrr (HandshakeHash_into_hrr_buffer classify dns_ok client)"]
    by (simp add: buffer_messages_eq into_hrr_buffer_eq [OF assms(1,2)])
  from hashes_current [OF assms(1) hashes_add_messages [OF this, of ms]]
    hashes_current [OF assms(1) hashes_add_messages [OF hashes_rollup [OF assms(1,3)], of "hrr @ ms"]]
  show ?thesis by simp
qed

subsection \<open>The signed message of CertificateVerify\<close>

definition SERVER_CONSTANT :: bytes where
  "SERVER_CONSTANT = ascii ''TLS 1.3, server CertificateVerify'' @ [0]"

definition CLIENT_CONSTANT :: bytes where
  "CLIENT_CONSTANT = ascii ''TLS 1.3, client CertificateVerify'' @ [0]"

definition MAX_VERIFY_MSG :: usize where
  "MAX_VERIFY_MSG = 64 + length CLIENT_CONSTANT + Output_MAX_LEN"

record VerifyMessage =
  vm_buf :: bytes
  vm_used :: usize

definition VerifyMessage_new :: "bytes \<Rightarrow> bytes \<Rightarrow> VerifyMessage option" where
  "VerifyMessage_new handshake_hash context_string_with_0 =
     (let used = 64 + length context_string_with_0 + length handshake_hash;
          buf = replicate MAX_VERIFY_MSG 0x20;
          (spaces, rest) = (take 64 buf, drop 64 buf);
          (context, hash) = (take 34 rest, drop 34 rest) in
      if length context_string_with_0 = length context \<and> length handshake_hash \<le> length hash
      then Some \<lparr>vm_buf = spaces @ context_string_with_0 @ write_at 0 handshake_hash hash, vm_used = used\<rparr>
      else None)"

definition VerifyMessage_as_ref :: "VerifyMessage \<Rightarrow> bytes" where
  "VerifyMessage_as_ref v = take (vm_used v) (vm_buf v)"

definition construct_client_verify_message :: "bytes \<Rightarrow> VerifyMessage option" where
  "construct_client_verify_message handshake_hash = VerifyMessage_new handshake_hash CLIENT_CONSTANT"

definition construct_server_verify_message :: "bytes \<Rightarrow> VerifyMessage option" where
  "construct_server_verify_message handshake_hash = VerifyMessage_new handshake_hash SERVER_CONSTANT"

lemma length_constants: "length SERVER_CONSTANT = 34" "length CLIENT_CONSTANT = 34"
  by (simp_all add: SERVER_CONSTANT_def CLIENT_CONSTANT_def)

lemma VerifyMessage_new_as_ref:
  assumes "length context = 34" "length hash \<le> Output_MAX_LEN"
  shows "map_option VerifyMessage_as_ref (VerifyMessage_new hash context) = Some (replicate 64 0x20 @ context @ hash)"
  using assms by (simp add: VerifyMessage_new_def VerifyMessage_as_ref_def MAX_VERIFY_MSG_def length_constants
      Output_MAX_LEN_def write_at_def Let_def)

text \<open>What a client signs is never what a server signs.\<close>

lemma verify_messages_differ:
  assumes "length hash \<le> Output_MAX_LEN" "length hash' \<le> Output_MAX_LEN"
  shows "map_option VerifyMessage_as_ref (construct_client_verify_message hash) \<noteq>
    map_option VerifyMessage_as_ref (construct_server_verify_message hash')"
  using assms
  by (simp add: construct_client_verify_message_def construct_server_verify_message_def VerifyMessage_new_as_ref
      length_constants) (simp add: SERVER_CONSTANT_def CLIENT_CONSTANT_def ascii_def)

end
