(* ===== verification/Decryption.thy ===== *)
theory Decryption
  imports Record_Cipher
begin

text \<open>
  The receiving side's record layer: \<open>DecryptionState\<close> (\<open>rustls/src/conn/receive.rs\<close>) and the
  sequence number limits (\<open>rustls/src/conn/mod.rs\<close>). The cipher is the parameter \<open>D\<close>; the proof
  objects that a handshake is aligned carry no data and are left out.
\<close>

definition SEQ_SOFT_LIMIT :: u64 where
  "SEQ_SOFT_LIMIT = 0xffffffffffffffff - 0xffff"

definition SEQ_HARD_LIMIT :: u64 where
  "SEQ_HARD_LIMIT = 0xffffffffffffffff - 1"

record 'd DecryptionState =
  ds_record_decrypter :: "'d option"
  ds_read_seq :: u64
  ds_has_decrypted :: bool
  ds_trial_decryption_len :: "usize option"

record Decrypted =
  dc_want_close_before_decrypt :: bool
  dc_plaintext :: Located

definition DecryptionState_new :: "'d DecryptionState" where
  "DecryptionState_new = \<lparr>ds_record_decrypter = None, ds_read_seq = 0, ds_has_decrypted = False,
     ds_trial_decryption_len = None\<rparr>"

definition checked_sub :: "usize \<Rightarrow> usize \<Rightarrow> usize option" where
  "checked_sub a b = (if b \<le> a then Some (a - b) else None)"

definition doing_trial_decryption :: "usize \<Rightarrow> 'd DecryptionState \<Rightarrow> bool \<times> 'd DecryptionState" where
  "doing_trial_decryption requested s =
     (case Option.bind (ds_trial_decryption_len s) (\<lambda>v. checked_sub v requested) of
        Some remaining \<Rightarrow> (True, s\<lparr>ds_trial_decryption_len := Some remaining\<rparr>)
      | None \<Rightarrow> (False, s))"

text \<open>The payload is decrypted in place: the last component is its slice afterwards.\<close>

definition decrypt_incoming ::
    "'d RecordDecrypter \<Rightarrow> bytes Record \<Rightarrow> 'd DecryptionState \<Rightarrow>
     ((Error + Decrypted option) \<times> 'd DecryptionState \<times> bytes) option" where
  "decrypt_incoming D encr s =
     (case ds_record_decrypter s of
        None \<Rightarrow> Some (Inr (Some \<lparr>dc_want_close_before_decrypt = False,
          dc_plaintext = located_front (into_plain_record encr)\<rparr>), s, rec_payload encr)
      | Some decrypter \<Rightarrow>
          let want_close_before_decrypt = (ds_read_seq s = SEQ_SOFT_LIMIT);
              encrypted_len = length (rec_payload encr) in
          (case rd_decrypt D decrypter encr (ds_read_seq s) of
             None \<Rightarrow> None
           | Some (r, decrypter, buf) \<Rightarrow>
               let s = s\<lparr>ds_record_decrypter := Some decrypter\<rparr> in
               (case r of
                  Inr plaintext \<Rightarrow> Some (Inr (Some \<lparr>dc_want_close_before_decrypt = want_close_before_decrypt,
                      dc_plaintext = plaintext\<rparr>),
                    s\<lparr>ds_read_seq := ds_read_seq s + 1, ds_has_decrypted := True\<rparr>, buf)
                | Inl err \<Rightarrow>
                    if err = Error_DecryptError then
                      (let (doing, s) = doing_trial_decryption encrypted_len s in
                       if doing then Some (Inr None, s, buf) else Some (Inl err, s, buf))
                    else Some (Inl err, s, buf))))"

definition set_record_decrypter :: "'d \<Rightarrow> 'd DecryptionState \<Rightarrow> 'd DecryptionState" where
  "set_record_decrypter cipher s =
     s\<lparr>ds_record_decrypter := Some cipher, ds_read_seq := 0, ds_trial_decryption_len := None\<rparr>"

definition set_record_decrypter_with_trial_decryption ::
    "'d \<Rightarrow> usize \<Rightarrow> 'd DecryptionState \<Rightarrow> 'd DecryptionState" where
  "set_record_decrypter_with_trial_decryption cipher max_length s =
     s\<lparr>ds_record_decrypter := Some cipher, ds_read_seq := 0, ds_trial_decryption_len := Some max_length\<rparr>"

definition finish_trial_decryption :: "'d DecryptionState \<Rightarrow> 'd DecryptionState" where
  "finish_trial_decryption s = s\<lparr>ds_trial_decryption_len := None\<rparr>"

subsection \<open>How much undecryptable data is tolerated\<close>

text \<open>
  A run of the record layer over a sequence of records, with the lengths of those it dropped.
\<close>

fun decrypt_run ::
    "'d RecordDecrypter \<Rightarrow> bytes Record list \<Rightarrow> 'd DecryptionState \<Rightarrow> (usize list \<times> 'd DecryptionState) option" where
  "decrypt_run D [] s = Some ([], s)"
| "decrypt_run D (r # rs) s = (case decrypt_incoming D r s of
     Some (Inr (Some _), s', _) \<Rightarrow> decrypt_run D rs s'
   | Some (Inr None, s', _) \<Rightarrow> map_option (\<lambda>(ds, s''). (length (rec_payload r) # ds, s'')) (decrypt_run D rs s')
   | _ \<Rightarrow> None)"

definition trial_budget :: "'d DecryptionState \<Rightarrow> usize" where
  "trial_budget s = (case ds_trial_decryption_len s of Some n \<Rightarrow> n | None \<Rightarrow> 0)"

lemma doing_trial_budget:
  "doing_trial_decryption n s = (True, s') \<Longrightarrow> trial_budget s = n + trial_budget s'"
  by (auto simp: doing_trial_decryption_def trial_budget_def checked_sub_def
      split: option.splits if_splits bind_splits)

lemma trial_budget_update:
  "trial_budget (s\<lparr>ds_record_decrypter := d\<rparr>) = trial_budget s"
  "trial_budget (s\<lparr>ds_read_seq := n\<rparr>) = trial_budget s"
  "trial_budget (s\<lparr>ds_has_decrypted := b\<rparr>) = trial_budget s"
  by (simp_all add: trial_budget_def)

lemma decrypt_incoming_budget:
  assumes "decrypt_incoming D r s = Some (Inr x, s', buf)"
  shows "trial_budget s = trial_budget s' + (if x = None then length (rec_payload r) else 0)"
  using assms
  by (auto simp: decrypt_incoming_def Let_def trial_budget_update dest!: doing_trial_budget
      split: option.splits prod.splits sum.splits if_splits)

lemma decrypt_run_budget:
  "decrypt_run D rs s = Some (dropped, s') \<Longrightarrow> sum_list dropped + trial_budget s' = trial_budget s"
proof (induction rs arbitrary: s dropped)
  case (Cons r rs)
  from Cons.prems obtain x s1 buf where d: "decrypt_incoming D r s = Some (Inr x, s1, buf)"
    by (auto split: option.splits sum.splits prod.splits)
  show ?case
  proof (cases x)
    case None
    with Cons.prems d obtain ds where "decrypt_run D rs s1 = Some (ds, s')" "dropped = length (rec_payload r) # ds"
      by auto
    with Cons.IH [of s1 ds] decrypt_incoming_budget [OF d] None show ?thesis by simp
  next
    case (Some y)
    with Cons.prems d have "decrypt_run D rs s1 = Some (dropped, s')" by simp
    with Cons.IH [of s1 dropped] decrypt_incoming_budget [OF d] Some show ?thesis by simp
  qed
qed simp

text \<open>Each decrypted record takes the next sequence number; a dropped or refused one takes none.\<close>

lemma decrypt_incoming_seq:
  assumes "decrypt_incoming D r s = Some (res, s', buf)" "ds_record_decrypter s \<noteq> None"
  shows "ds_read_seq s' = ds_read_seq s + (case res of Inr (Some _) \<Rightarrow> 1 | _ \<Rightarrow> 0)"
  using assms by (auto simp: decrypt_incoming_def Let_def doing_trial_decryption_def
      split: option.splits prod.splits sum.splits if_splits)

end
