(* ===== verification/Key_Schedule.thy ===== *)
theory Key_Schedule
  imports Transcript Decryption
begin

text \<open>
  The TLS 1.3 key schedule (\<open>rustls/src/tls13/key_schedule.rs\<close>), with every typestate of the code
  as a record. HKDF, the hash function and the AEAD of the cipher suite are parameters held in
  the suite. The key log is the list of what has been logged; \<open>None\<close> is a panic. Where the code
  changes a \<open>ReceivePath\<close> it only changes its \<open>DecryptionState\<close>, which is passed here.
\<close>

subsection \<open>Suites\<close>

datatype Side = Side_Client | Side_Server

datatype ConnectionTrafficSecrets =
    Aes128Gcm AeadKey Iv
  | Aes256Gcm AeadKey Iv
  | Chacha20Poly1305 AeadKey Iv
  | Sm4Gcm AeadKey Iv
  | Sm4Ccm AeadKey Iv

record ('e, 'd) Tls13AeadAlgorithm =
  aa_encrypter :: "AeadKey \<Rightarrow> Iv \<Rightarrow> 'e"
  aa_decrypter :: "AeadKey \<Rightarrow> Iv \<Rightarrow> 'd"
  aa_key_len :: usize
  aa_iv_len :: usize
  aa_extract_keys :: "AeadKey \<Rightarrow> Iv \<Rightarrow> Error + ConnectionTrafficSecrets"

record 'c CipherSuiteCommon =
  csc_suite :: CipherSuite
  csc_hash_provider :: "'c Hash"
  csc_confidentiality_limit :: u64

record ('x, 'e, 'd, 'c, 'q) Tls13CipherSuite =
  cs_common :: "'c CipherSuiteCommon"
  cs_hkdf_provider :: "'x Hkdf"
  cs_aead_alg :: "('e, 'd) Tls13AeadAlgorithm"
  cs_quic :: "'q option"

record ('x, 'e, 'd, 'c, 'q) quic_Suite =
  qs_inner :: "('x, 'e, 'd, 'c, 'q) Tls13CipherSuite"
  qs_quic :: 'q

datatype ('x, 'e, 'd, 'c, 'q) Tls13ProtocolSuite =
    Tcp_Suite "('x, 'e, 'd, 'c, 'q) Tls13CipherSuite"
  | Quic_Suite "('x, 'e, 'd, 'c, 'q) quic_Suite"

fun suite :: "('x, 'e, 'd, 'c, 'q) Tls13ProtocolSuite \<Rightarrow> ('x, 'e, 'd, 'c, 'q) Tls13CipherSuite" where
  "suite (Tcp_Suite s) = s"
| "suite (Quic_Suite q) = qs_inner q"

fun is_quic :: "('x, 'e, 'd, 'c, 'q) Tls13ProtocolSuite \<Rightarrow> bool" where
  "is_quic (Tcp_Suite _) = False"
| "is_quic (Quic_Suite _) = True"

definition can_resume_from ::
    "('x, 'e, 'd, 'c, 'q) Tls13CipherSuite \<Rightarrow> ('x, 'e, 'd, 'c, 'q) Tls13CipherSuite \<Rightarrow>
     ('x, 'e, 'd, 'c, 'q) Tls13CipherSuite option" where
  "can_resume_from s prev =
     (if hash_algorithm (csc_hash_provider (cs_common prev)) = hash_algorithm (csc_hash_provider (cs_common s))
      then Some prev else None)"

record 'e Encrypter =
  en_encrypter :: 'e
  en_limit :: u64

subsection \<open>HKDF-Expand-Label\<close>

definition LABEL_PREFIX :: bytes where
  "LABEL_PREFIX = ascii ''tls13 ''"

definition hkdf_label_info :: "bytes \<Rightarrow> bytes \<Rightarrow> usize \<Rightarrow> bytes list" where
  "hkdf_label_info label context n =
     (let output_len = to_be_bytes 2 (unat (word_of_nat n :: u16));
          label_len = to_be_bytes 1 (unat (word_of_nat (length LABEL_PREFIX + length label) :: u8));
          context_len = to_be_bytes 1 (unat (word_of_nat (length context) :: u8)) in
      [output_len, label_len, LABEL_PREFIX, label, context_len, context])"

definition hkdf_expand_label_inner ::
    "'x \<Rightarrow> bytes \<Rightarrow> bytes \<Rightarrow> usize \<Rightarrow> ('x \<Rightarrow> bytes list \<Rightarrow> 't) \<Rightarrow> 't" where
  "hkdf_expand_label_inner expander label context n f = f expander (hkdf_label_info label context n)"

definition hkdf_expand_label :: "'x Hkdf \<Rightarrow> usize \<Rightarrow> 'x \<Rightarrow> bytes \<Rightarrow> bytes \<Rightarrow> bytes option" where
  "hkdf_expand_label H n expander label context =
     hkdf_expand_label_inner expander label context n (\<lambda>e info. expand H n e info)"

definition hkdf_expand_label_block :: "'x Hkdf \<Rightarrow> 'x \<Rightarrow> bytes \<Rightarrow> bytes \<Rightarrow> OkmBlock option" where
  "hkdf_expand_label_block H expander label context =
     hkdf_expand_label_inner expander label context (expander_hash_len H expander) (\<lambda>e info. expand_block H e info)"

definition hkdf_expand_label_aead_key :: "'x Hkdf \<Rightarrow> 'x \<Rightarrow> usize \<Rightarrow> bytes \<Rightarrow> bytes \<Rightarrow> AeadKey option" where
  "hkdf_expand_label_aead_key H expander key_len label context =
     hkdf_expand_label_inner expander label context key_len (\<lambda>e info. do {
       out \<leftarrow> expand H AeadKey_MAX_LEN e info;
       AeadKey_with_length key_len \<lparr>ak_buf = out, ak_used = AeadKey_MAX_LEN\<rparr> })"

definition hkdf_expand_label_iv :: "'x Hkdf \<Rightarrow> 'x \<Rightarrow> bytes \<Rightarrow> bytes \<Rightarrow> usize \<Rightarrow> Iv option" where
  "hkdf_expand_label_iv H expander label context iv_len =
     hkdf_expand_label_inner expander label context iv_len (\<lambda>e info.
       if iv_len > Iv_MAX_LEN then None
       else do {
         out \<leftarrow> expand H iv_len e info;
         (case Iv_new out of Inr iv \<Rightarrow> Some iv | Inl _ \<Rightarrow> None) })"

definition hkdf_expand_label_slice :: "'x Hkdf \<Rightarrow> 'x \<Rightarrow> bytes \<Rightarrow> bytes \<Rightarrow> usize \<Rightarrow> (unit + bytes) option" where
  "hkdf_expand_label_slice H expander label context n =
     hkdf_expand_label_inner expander label context n (\<lambda>e info. expand_slice H e info n)"

definition derive_traffic_key :: "'x Hkdf \<Rightarrow> 'x \<Rightarrow> ('e, 'd) Tls13AeadAlgorithm \<Rightarrow> AeadKey option" where
  "derive_traffic_key H expander aead_alg =
     hkdf_expand_label_aead_key H expander (aa_key_len aead_alg) (ascii ''key'') []"

definition derive_traffic_iv :: "'x Hkdf \<Rightarrow> 'x \<Rightarrow> usize \<Rightarrow> Iv option" where
  "derive_traffic_iv H expander iv_len = hkdf_expand_label_iv H expander (ascii ''iv'') [] iv_len"

definition expand_secret :: "OkmBlock \<Rightarrow> 'x Hkdf \<Rightarrow> usize \<Rightarrow> usize \<Rightarrow> (AeadKey \<times> Iv) option" where
  "expand_secret secret H key_len iv_len = do {
     expander \<leftarrow> expander_for_okm H secret;
     key \<leftarrow> hkdf_expand_label_aead_key H expander key_len (ascii ''key'') [];
     iv \<leftarrow> derive_traffic_iv H expander iv_len;
     Some (key, iv) }"

subsection \<open>Kinds of secrets\<close>

datatype SecretKind =
    ResumptionPskBinderKey
  | ClientEarlyTrafficSecret
  | EarlyExporterMasterSecret
  | ClientHandshakeTrafficSecret
  | ServerHandshakeTrafficSecret
  | ClientApplicationTrafficSecret
  | ServerApplicationTrafficSecret
  | ExporterMasterSecret
  | ResumptionMasterSecret
  | DerivedSecret
  | ServerEchConfirmationSecret
  | ServerEchHrrConfirmationSecret

fun SecretKind_to_bytes :: "SecretKind \<Rightarrow> bytes" where
  "SecretKind_to_bytes ResumptionPskBinderKey = ascii ''res binder''"
| "SecretKind_to_bytes ClientEarlyTrafficSecret = ascii ''c e traffic''"
| "SecretKind_to_bytes EarlyExporterMasterSecret = ascii ''e exp master''"
| "SecretKind_to_bytes ClientHandshakeTrafficSecret = ascii ''c hs traffic''"
| "SecretKind_to_bytes ServerHandshakeTrafficSecret = ascii ''s hs traffic''"
| "SecretKind_to_bytes ClientApplicationTrafficSecret = ascii ''c ap traffic''"
| "SecretKind_to_bytes ServerApplicationTrafficSecret = ascii ''s ap traffic''"
| "SecretKind_to_bytes ExporterMasterSecret = ascii ''exp master''"
| "SecretKind_to_bytes ResumptionMasterSecret = ascii ''res master''"
| "SecretKind_to_bytes DerivedSecret = ascii ''derived''"
| "SecretKind_to_bytes ServerEchConfirmationSecret = ascii ''ech accept confirmation''"
| "SecretKind_to_bytes ServerEchHrrConfirmationSecret = ascii ''hrr ech accept confirmation''"

fun SecretKind_log_label :: "SecretKind \<Rightarrow> string option" where
  "SecretKind_log_label ClientEarlyTrafficSecret = Some ''CLIENT_EARLY_TRAFFIC_SECRET''"
| "SecretKind_log_label EarlyExporterMasterSecret = Some ''EARLY_EXPORTER_SECRET''"
| "SecretKind_log_label ClientHandshakeTrafficSecret = Some ''CLIENT_HANDSHAKE_TRAFFIC_SECRET''"
| "SecretKind_log_label ServerHandshakeTrafficSecret = Some ''SERVER_HANDSHAKE_TRAFFIC_SECRET''"
| "SecretKind_log_label ClientApplicationTrafficSecret = Some ''CLIENT_TRAFFIC_SECRET_0''"
| "SecretKind_log_label ServerApplicationTrafficSecret = Some ''SERVER_TRAFFIC_SECRET_0''"
| "SecretKind_log_label ExporterMasterSecret = Some ''EXPORTER_SECRET''"
| "SecretKind_log_label _ = None"

text \<open>A key log: which labels it wants, and what it has been given.\<close>

record KeyLog =
  kl_will_log :: "string \<Rightarrow> bool"
  kl_entries :: "(string \<times> bytes \<times> bytes) list"

definition KeyLog_log :: "string \<Rightarrow> bytes \<Rightarrow> bytes \<Rightarrow> KeyLog \<Rightarrow> KeyLog" where
  "KeyLog_log label client_random secret kl =
     kl\<lparr>kl_entries := kl_entries kl @ [(label, client_random, secret)]\<rparr>"

subsection \<open>Operations that do not use the root secret\<close>

record ('x, 'e, 'd, 'c, 'q) KeyScheduleSuite =
  kss_side :: Side
  kss_state :: "('x, 'e, 'd, 'c, 'q) Tls13ProtocolSuite"

record ('x, 'e, 'd, 'c, 'q) SecretUpdate =
  su_client :: OkmBlock
  su_server :: OkmBlock
  su_suite :: "('x, 'e, 'd, 'c, 'q) quic_Suite"
  su_side :: Side

definition derive_quic ::
    "('x, 'e, 'd, 'c, 'q) KeyScheduleSuite \<Rightarrow> OkmBlock \<Rightarrow> OkmBlock \<Rightarrow> ('x, 'e, 'd, 'c, 'q) SecretUpdate option" where
  "derive_quic k client_secret server_secret = (case kss_state k of
     Quic_Suite q \<Rightarrow> Some \<lparr>su_client = client_secret, su_server = server_secret, su_suite = q, su_side = kss_side k\<rparr>
   | Tcp_Suite _ \<Rightarrow> None)"

definition derive_encrypter :: "('x, 'e, 'd, 'c, 'q) KeyScheduleSuite \<Rightarrow> OkmBlock \<Rightarrow> 'e Encrypter option" where
  "derive_encrypter k secret = do {
     let s = suite (kss_state k);
     expander \<leftarrow> expander_for_okm (cs_hkdf_provider s) secret;
     key \<leftarrow> derive_traffic_key (cs_hkdf_provider s) expander (cs_aead_alg s);
     iv \<leftarrow> derive_traffic_iv (cs_hkdf_provider s) expander (aa_iv_len (cs_aead_alg s));
     Some \<lparr>en_encrypter = aa_encrypter (cs_aead_alg s) key iv,
       en_limit = csc_confidentiality_limit (cs_common s)\<rparr> }"

definition derive_decrypter :: "('x, 'e, 'd, 'c, 'q) KeyScheduleSuite \<Rightarrow> OkmBlock \<Rightarrow> 'd option" where
  "derive_decrypter k secret = do {
     let s = suite (kss_state k);
     expander \<leftarrow> expander_for_okm (cs_hkdf_provider s) secret;
     key \<leftarrow> derive_traffic_key (cs_hkdf_provider s) expander (cs_aead_alg s);
     iv \<leftarrow> derive_traffic_iv (cs_hkdf_provider s) expander (aa_iv_len (cs_aead_alg s));
     Some (aa_decrypter (cs_aead_alg s) key iv) }"

definition set_decrypter ::
    "('x, 'e, 'd, 'c, 'q) KeyScheduleSuite \<Rightarrow> OkmBlock \<Rightarrow> 'd DecryptionState \<Rightarrow> 'd DecryptionState option" where
  "set_decrypter k secret receive = do {
     d \<leftarrow> derive_decrypter k secret;
     Some (set_record_decrypter d receive) }"

definition sign_verify_data :: "('x, 'e, 'd, 'c, 'q) KeyScheduleSuite \<Rightarrow> OkmBlock \<Rightarrow> bytes \<Rightarrow> Tag option" where
  "sign_verify_data k base_key hs_hash = do {
     let H = cs_hkdf_provider (suite (kss_state k));
     expander \<leftarrow> expander_for_okm H base_key;
     hmac_key \<leftarrow> hkdf_expand_label_block H expander (ascii ''finished'') [];
     hkdf_hmac_sign H hmac_key hs_hash }"

definition sign_finish :: "('x, 'e, 'd, 'c, 'q) KeyScheduleSuite \<Rightarrow> OkmBlock \<Rightarrow> bytes \<Rightarrow> Tag option" where
  "sign_finish k base_key hs_hash = sign_verify_data k base_key hs_hash"

definition derive_next :: "('x, 'e, 'd, 'c, 'q) KeyScheduleSuite \<Rightarrow> OkmBlock \<Rightarrow> OkmBlock option" where
  "derive_next k base_key = do {
     let H = cs_hkdf_provider (suite (kss_state k));
     expander \<leftarrow> expander_for_okm H base_key;
     hkdf_expand_label_block H expander (ascii ''traffic upd'') [] }"

definition derive_ticket_psk :: "('x, 'e, 'd, 'c, 'q) KeyScheduleSuite \<Rightarrow> OkmBlock \<Rightarrow> bytes \<Rightarrow> OkmBlock option" where
  "derive_ticket_psk k rms nonce = do {
     let H = cs_hkdf_provider (suite (kss_state k));
     expander \<leftarrow> expander_for_okm H rms;
     hkdf_expand_label_block H expander (ascii ''resumption'') nonce }"

definition export_keying_material ::
    "('x, 'e, 'd, 'c, 'q) KeyScheduleSuite \<Rightarrow> OkmBlock \<Rightarrow> bytes \<Rightarrow> bytes option \<Rightarrow> usize \<Rightarrow>
     (Error + bytes) option" where
  "export_keying_material k current_exporter_secret label context out_len = do {
     let s = suite (kss_state k);
     let H = cs_hkdf_provider s;
     let hash = hash_hash (csc_hash_provider (cs_common s));
     expander \<leftarrow> expander_for_okm H current_exporter_secret;
     secret \<leftarrow> hkdf_expand_label_block H expander label (hash []);
     let h_context = hash (case context of Some c \<Rightarrow> c | None \<Rightarrow> []);
     expander \<leftarrow> expander_for_okm H secret;
     r \<leftarrow> hkdf_expand_label_slice H expander (ascii ''exporter'') h_context out_len;
     Some (case r of Inl _ \<Rightarrow> Inl (Error_ApiMisuse ExporterOutputTooLong) | Inr out \<Rightarrow> Inr out) }"

subsection \<open>The key schedule\<close>

record ('x, 'e, 'd, 'c, 'q) KeySchedule =
  ks_current :: 'x
  ks_inner :: "('x, 'e, 'd, 'c, 'q) KeyScheduleSuite"

definition ks_hkdf :: "('x, 'e, 'd, 'c, 'q) KeySchedule \<Rightarrow> 'x Hkdf" where
  "ks_hkdf ks = cs_hkdf_provider (suite (kss_state (ks_inner ks)))"

definition KeySchedule_new ::
    "Side \<Rightarrow> ('x, 'e, 'd, 'c, 'q) Tls13ProtocolSuite \<Rightarrow> bytes \<Rightarrow> ('x, 'e, 'd, 'c, 'q) KeySchedule option" where
  "KeySchedule_new side s secret = do {
     x \<leftarrow> extract_from_secret (cs_hkdf_provider (suite s)) None secret;
     Some \<lparr>ks_current = x, ks_inner = \<lparr>kss_side = side, kss_state = s\<rparr>\<rparr> }"

definition KeySchedule_new_with_empty_secret ::
    "Side \<Rightarrow> ('x, 'e, 'd, 'c, 'q) Tls13ProtocolSuite \<Rightarrow> ('x, 'e, 'd, 'c, 'q) KeySchedule option" where
  "KeySchedule_new_with_empty_secret side s = do {
     x \<leftarrow> extract_from_zero_ikm (cs_hkdf_provider (suite s)) None;
     Some \<lparr>ks_current = x, ks_inner = \<lparr>kss_side = side, kss_state = s\<rparr>\<rparr> }"

definition KeySchedule_derive ::
    "('x, 'e, 'd, 'c, 'q) KeySchedule \<Rightarrow> SecretKind \<Rightarrow> bytes \<Rightarrow> OkmBlock option" where
  "KeySchedule_derive ks kind hs_hash =
     hkdf_expand_label_block (ks_hkdf ks) (ks_current ks) (SecretKind_to_bytes kind) hs_hash"

definition derive_logged_secret ::
    "('x, 'e, 'd, 'c, 'q) KeySchedule \<Rightarrow> SecretKind \<Rightarrow> bytes \<Rightarrow> bytes \<Rightarrow> KeyLog \<Rightarrow> (OkmBlock \<times> KeyLog) option" where
  "derive_logged_secret ks kind hs_hash client_random kl = do {
     out \<leftarrow> KeySchedule_derive ks kind hs_hash;
     log_label \<leftarrow> SecretKind_log_label kind;
     Some (out, if kl_will_log kl log_label then KeyLog_log log_label client_random (OkmBlock_as_ref out) kl else kl) }"

definition derive_for_empty_hash :: "('x, 'e, 'd, 'c, 'q) KeySchedule \<Rightarrow> SecretKind \<Rightarrow> OkmBlock option" where
  "derive_for_empty_hash ks kind =
     (let hp = csc_hash_provider (cs_common (suite (kss_state (ks_inner ks))));
          empty_hash = (case hash_for_empty_input (hash_algorithm hp) of Some h \<Rightarrow> h | None \<Rightarrow> hash_hash hp []) in
      KeySchedule_derive ks kind empty_hash)"

definition input_empty :: "('x, 'e, 'd, 'c, 'q) KeySchedule \<Rightarrow> ('x, 'e, 'd, 'c, 'q) KeySchedule option" where
  "input_empty ks = do {
     salt \<leftarrow> derive_for_empty_hash ks DerivedSecret;
     x \<leftarrow> extract_from_zero_ikm (ks_hkdf ks) (Some (OkmBlock_as_ref salt));
     Some (ks\<lparr>ks_current := x\<rparr>) }"

definition input_secret :: "bytes \<Rightarrow> ('x, 'e, 'd, 'c, 'q) KeySchedule \<Rightarrow> ('x, 'e, 'd, 'c, 'q) KeySchedule option" where
  "input_secret secret ks = do {
     salt \<leftarrow> derive_for_empty_hash ks DerivedSecret;
     x \<leftarrow> extract_from_secret (ks_hkdf ks) (Some (OkmBlock_as_ref salt)) secret;
     Some (ks\<lparr>ks_current := x\<rparr>) }"

subsection \<open>Before the handshake\<close>

record ('x, 'e, 'd, 'c, 'q) KeyScheduleExporter =
  kse_ks :: "('x, 'e, 'd, 'c, 'q) KeyScheduleSuite"
  kse_current_exporter_secret :: OkmBlock

definition KeyScheduleExporter_derive ::
    "('x, 'e, 'd, 'c, 'q) KeyScheduleExporter \<Rightarrow> bytes \<Rightarrow> bytes option \<Rightarrow> usize \<Rightarrow> (Error + bytes) option" where
  "KeyScheduleExporter_derive x label context out_len =
     export_keying_material (kse_ks x) (kse_current_exporter_secret x) label context out_len"

definition early_exporter ::
    "('x, 'e, 'd, 'c, 'q) KeySchedule \<Rightarrow> bytes \<Rightarrow> bytes \<Rightarrow> KeyLog \<Rightarrow>
     (('x, 'e, 'd, 'c, 'q) KeyScheduleExporter \<times> KeyLog) option" where
  "early_exporter ks hs_hash client_random kl = do {
     (secret, kl) \<leftarrow> derive_logged_secret ks EarlyExporterMasterSecret hs_hash client_random kl;
     Some (\<lparr>kse_ks = ks_inner ks, kse_current_exporter_secret = secret\<rparr>, kl) }"

definition resumption_psk_binder_key_and_sign_verify_data ::
    "('x, 'e, 'd, 'c, 'q) KeySchedule \<Rightarrow> bytes \<Rightarrow> Tag option" where
  "resumption_psk_binder_key_and_sign_verify_data ks hs_hash = do {
     resumption_psk_binder_key \<leftarrow> derive_for_empty_hash ks ResumptionPskBinderKey;
     sign_verify_data (ks_inner ks) resumption_psk_binder_key hs_hash }"

definition KeyScheduleEarlyClient_client_early_traffic_secret ::
    "('x, 'e, 'd, 'c, 'q) KeySchedule \<Rightarrow> bytes \<Rightarrow> bytes \<Rightarrow> KeyLog \<Rightarrow>
     (('e Encrypter \<times> OkmBlock) \<times> KeyLog) option" where
  "KeyScheduleEarlyClient_client_early_traffic_secret ks hs_hash client_random kl = do {
     (secret, kl) \<leftarrow> derive_logged_secret ks ClientEarlyTrafficSecret hs_hash client_random kl;
     encrypter \<leftarrow> derive_encrypter (ks_inner ks) secret;
     Some ((encrypter, secret), kl) }"

definition KeyScheduleEarlyServer_client_early_traffic_secret ::
    "('x, 'e, 'd, 'c, 'q) KeySchedule \<Rightarrow> bytes \<Rightarrow> bytes \<Rightarrow> KeyLog \<Rightarrow> (('d \<times> OkmBlock) \<times> KeyLog) option" where
  "KeyScheduleEarlyServer_client_early_traffic_secret ks hs_hash client_random kl = do {
     (secret, kl) \<leftarrow> derive_logged_secret ks ClientEarlyTrafficSecret hs_hash client_random kl;
     decrypter \<leftarrow> derive_decrypter (ks_inner ks) secret;
     Some ((decrypter, secret), kl) }"

definition KeySchedulePreHandshake_into_handshake ::
    "bytes \<Rightarrow> ('x, 'e, 'd, 'c, 'q) KeySchedule \<Rightarrow> ('x, 'e, 'd, 'c, 'q) KeySchedule option" where
  "KeySchedulePreHandshake_into_handshake shared_secret ks = input_secret shared_secret ks"

definition server_ech_confirmation_secret ::
    "('x, 'e, 'd, 'c, 'q) KeySchedule \<Rightarrow> bytes \<Rightarrow> bytes \<Rightarrow> bytes option" where
  "server_ech_confirmation_secret ks client_hello_inner_random hs_hash = do {
     x \<leftarrow> extract_from_secret (ks_hkdf ks) None client_hello_inner_random;
     hkdf_expand_label (ks_hkdf ks) 8 x (SecretKind_to_bytes ServerEchConfirmationSecret) hs_hash }"

definition server_ech_hrr_confirmation_secret :: "'x Hkdf \<Rightarrow> bytes \<Rightarrow> bytes \<Rightarrow> bytes option" where
  "server_ech_hrr_confirmation_secret H client_hello_inner_random hs_hash = do {
     x \<leftarrow> extract_from_secret H None client_hello_inner_random;
     hkdf_expand_label H 8 x (SecretKind_to_bytes ServerEchHrrConfirmationSecret) hs_hash }"

subsection \<open>Handshake secrets\<close>

record ('x, 'e, 'd, 'c, 'q) KeyScheduleHandshake =
  ksh_ks :: "('x, 'e, 'd, 'c, 'q) KeySchedule"
  ksh_client_handshake_traffic_secret :: OkmBlock
  ksh_server_handshake_traffic_secret :: OkmBlock

definition KeyScheduleHandshakeStart_into_handshake ::
    "('x, 'e, 'd, 'c, 'q) KeySchedule \<Rightarrow> bytes \<Rightarrow> bytes \<Rightarrow> KeyLog \<Rightarrow>
     ((('x, 'e, 'd, 'c, 'q) KeyScheduleHandshake \<times> ('x, 'e, 'd, 'c, 'q) SecretUpdate option) \<times> KeyLog) option" where
  "KeyScheduleHandshakeStart_into_handshake ks hs_hash client_random kl = do {
     (client_secret, kl) \<leftarrow> derive_logged_secret ks ClientHandshakeTrafficSecret hs_hash client_random kl;
     (server_secret, kl) \<leftarrow> derive_logged_secret ks ServerHandshakeTrafficSecret hs_hash client_random kl;
     let quic = derive_quic (ks_inner ks) client_secret server_secret;
     Some ((\<lparr>ksh_ks = ks, ksh_client_handshake_traffic_secret = client_secret,
       ksh_server_handshake_traffic_secret = server_secret\<rparr>, quic), kl) }"

record ('x, 'e, 'd, 'c, 'q) ClientHandshakeSecrets =
  chs_key_schedule :: "('x, 'e, 'd, 'c, 'q) KeyScheduleHandshake"
  chs_decrypter :: 'd
  chs_quic :: "('x, 'e, 'd, 'c, 'q) SecretUpdate option"

record ('x, 'e, 'd, 'c, 'q) ServerHandshakeSecrets =
  shs_key_schedule :: "('x, 'e, 'd, 'c, 'q) KeyScheduleHandshake"
  shs_encrypter :: "'e Encrypter"
  shs_quic :: "('x, 'e, 'd, 'c, 'q) SecretUpdate option"

definition derive_client_handshake_secrets ::
    "('x, 'e, 'd, 'c, 'q) KeySchedule \<Rightarrow> bytes \<Rightarrow> ('x, 'e, 'd, 'c, 'q) Tls13ProtocolSuite \<Rightarrow> bytes \<Rightarrow> KeyLog \<Rightarrow>
     (('x, 'e, 'd, 'c, 'q) ClientHandshakeSecrets \<times> KeyLog) option" where
  "derive_client_handshake_secrets ks hs_hash state client_random kl = do {
     let ks = ks\<lparr>ks_inner := (ks_inner ks)\<lparr>kss_state := state\<rparr>\<rparr>;
     ((key_schedule, quic), kl) \<leftarrow> KeyScheduleHandshakeStart_into_handshake ks hs_hash client_random kl;
     decrypter \<leftarrow> derive_decrypter (ks_inner (ksh_ks key_schedule)) (ksh_server_handshake_traffic_secret key_schedule);
     Some (\<lparr>chs_key_schedule = key_schedule, chs_decrypter = decrypter, chs_quic = quic\<rparr>, kl) }"

definition derive_server_handshake_secrets ::
    "('x, 'e, 'd, 'c, 'q) KeySchedule \<Rightarrow> bytes \<Rightarrow> bytes \<Rightarrow> KeyLog \<Rightarrow>
     (('x, 'e, 'd, 'c, 'q) ServerHandshakeSecrets \<times> KeyLog) option" where
  "derive_server_handshake_secrets ks hs_hash client_random kl = do {
     ((key_schedule, quic), kl) \<leftarrow> KeyScheduleHandshakeStart_into_handshake ks hs_hash client_random kl;
     encrypter \<leftarrow> derive_encrypter (ks_inner (ksh_ks key_schedule)) (ksh_server_handshake_traffic_secret key_schedule);
     Some (\<lparr>shs_key_schedule = key_schedule, shs_encrypter = encrypter, shs_quic = quic\<rparr>, kl) }"

definition sign_server_finish :: "('x, 'e, 'd, 'c, 'q) KeyScheduleHandshake \<Rightarrow> bytes \<Rightarrow> Tag option" where
  "sign_server_finish h hs_hash = sign_finish (ks_inner (ksh_ks h)) (ksh_server_handshake_traffic_secret h) hs_hash"

definition handshake_encrypter :: "('x, 'e, 'd, 'c, 'q) KeyScheduleHandshake \<Rightarrow> 'e Encrypter option" where
  "handshake_encrypter h = derive_encrypter (ks_inner (ksh_ks h)) (ksh_client_handshake_traffic_secret h)"

definition set_handshake_decrypter ::
    "('x, 'e, 'd, 'c, 'q) KeyScheduleHandshake \<Rightarrow> usize option \<Rightarrow> 'd DecryptionState \<Rightarrow> 'd DecryptionState option" where
  "set_handshake_decrypter h skip_requested receive = (case skip_requested of
     None \<Rightarrow> set_decrypter (ks_inner (ksh_ks h)) (ksh_client_handshake_traffic_secret h) receive
   | Some max_early_data_size \<Rightarrow> do {
       d \<leftarrow> derive_decrypter (ks_inner (ksh_ks h)) (ksh_client_handshake_traffic_secret h);
       Some (set_record_decrypter_with_trial_decryption d max_early_data_size receive) })"

subsection \<open>Traffic secrets\<close>

record ('x, 'e, 'd, 'c, 'q) KeyScheduleBeforeFinished =
  kbf_ks :: "('x, 'e, 'd, 'c, 'q) KeySchedule"
  kbf_current_client_traffic_secret :: OkmBlock
  kbf_current_server_traffic_secret :: OkmBlock
  kbf_current_exporter_secret :: OkmBlock

definition KeyScheduleBeforeFinished_new ::
    "('x, 'e, 'd, 'c, 'q) KeySchedule \<Rightarrow> bytes \<Rightarrow> bytes \<Rightarrow> KeyLog \<Rightarrow>
     (('x, 'e, 'd, 'c, 'q) KeyScheduleBeforeFinished \<times> KeyLog) option" where
  "KeyScheduleBeforeFinished_new ks hs_hash client_random kl = do {
     ks \<leftarrow> input_empty ks;
     (client_secret, kl) \<leftarrow> derive_logged_secret ks ClientApplicationTrafficSecret hs_hash client_random kl;
     (server_secret, kl) \<leftarrow> derive_logged_secret ks ServerApplicationTrafficSecret hs_hash client_random kl;
     (exporter_secret, kl) \<leftarrow> derive_logged_secret ks ExporterMasterSecret hs_hash client_random kl;
     Some (\<lparr>kbf_ks = ks, kbf_current_client_traffic_secret = client_secret,
       kbf_current_server_traffic_secret = server_secret, kbf_current_exporter_secret = exporter_secret\<rparr>, kl) }"

record ('x, 'e, 'd, 'c, 'q) KeyScheduleTraffic =
  kst_ks :: "('x, 'e, 'd, 'c, 'q) KeyScheduleSuite"
  kst_current_client_traffic_secret :: OkmBlock
  kst_current_server_traffic_secret :: OkmBlock

record ('x, 'e, 'd, 'c, 'q) KeyScheduleResumption =
  ksr_ks :: "('x, 'e, 'd, 'c, 'q) KeyScheduleSuite"
  ksr_resumption_master_secret :: OkmBlock

definition KeyScheduleResumption_derive_ticket_psk ::
    "('x, 'e, 'd, 'c, 'q) KeyScheduleResumption \<Rightarrow> bytes \<Rightarrow> OkmBlock option" where
  "KeyScheduleResumption_derive_ticket_psk r nonce = derive_ticket_psk (ksr_ks r) (ksr_resumption_master_secret r) nonce"

definition KeyScheduleBeforeFinished_into_traffic ::
    "('x, 'e, 'd, 'c, 'q) KeyScheduleBeforeFinished \<Rightarrow> bytes \<Rightarrow>
     (('x, 'e, 'd, 'c, 'q) KeyScheduleTraffic \<times> ('x, 'e, 'd, 'c, 'q) KeyScheduleExporter \<times>
      ('x, 'e, 'd, 'c, 'q) KeyScheduleResumption) option" where
  "KeyScheduleBeforeFinished_into_traffic b hs_hash = do {
     resumption_master_secret \<leftarrow> KeySchedule_derive (kbf_ks b) ResumptionMasterSecret hs_hash;
     let inner = ks_inner (kbf_ks b);
     Some (\<lparr>kst_ks = inner, kst_current_client_traffic_secret = kbf_current_client_traffic_secret b,
         kst_current_server_traffic_secret = kbf_current_server_traffic_secret b\<rparr>,
       \<lparr>kse_ks = inner, kse_current_exporter_secret = kbf_current_exporter_secret b\<rparr>,
       \<lparr>ksr_ks = inner, ksr_resumption_master_secret = resumption_master_secret\<rparr>) }"

record ('x, 'e, 'd, 'c, 'q) KeyScheduleTrafficWithClientFinishedPending =
  kfp_handshake_client_traffic_secret :: OkmBlock
  kfp_before_finished :: "('x, 'e, 'd, 'c, 'q) KeyScheduleBeforeFinished"

record ('x, 'e, 'd, 'c, 'q) ServerTrafficSecrets =
  sts_key_schedule :: "('x, 'e, 'd, 'c, 'q) KeyScheduleTrafficWithClientFinishedPending"
  sts_encrypter :: "'e Encrypter"
  sts_quic :: "('x, 'e, 'd, 'c, 'q) SecretUpdate option"

definition into_traffic_with_client_finished_pending ::
    "('x, 'e, 'd, 'c, 'q) KeyScheduleHandshake \<Rightarrow> bytes \<Rightarrow> bytes \<Rightarrow> KeyLog \<Rightarrow>
     (('x, 'e, 'd, 'c, 'q) ServerTrafficSecrets \<times> KeyLog) option" where
  "into_traffic_with_client_finished_pending h hs_hash client_random kl = do {
     (before_finished, kl) \<leftarrow> KeyScheduleBeforeFinished_new (ksh_ks h) hs_hash client_random kl;
     let client_secret = kbf_current_client_traffic_secret before_finished;
     let server_secret = kbf_current_server_traffic_secret before_finished;
     let inner = ks_inner (kbf_ks before_finished);
     encrypter \<leftarrow> derive_encrypter inner server_secret;
     Some (\<lparr>sts_key_schedule = \<lparr>kfp_handshake_client_traffic_secret = ksh_client_handshake_traffic_secret h,
         kfp_before_finished = before_finished\<rparr>,
       sts_encrypter = encrypter, sts_quic = derive_quic inner client_secret server_secret\<rparr>, kl) }"

definition into_pre_finished_client_traffic ::
    "('x, 'e, 'd, 'c, 'q) KeyScheduleHandshake \<Rightarrow> bytes \<Rightarrow> bytes \<Rightarrow> bytes \<Rightarrow> KeyLog \<Rightarrow>
     ((('x, 'e, 'd, 'c, 'q) KeyScheduleBeforeFinished \<times> Tag) \<times> KeyLog) option" where
  "into_pre_finished_client_traffic h pre_finished_hash handshake_hash client_random kl = do {
     (before_finished, kl) \<leftarrow> KeyScheduleBeforeFinished_new (ksh_ks h) pre_finished_hash client_random kl;
     t \<leftarrow> sign_finish (ks_inner (kbf_ks before_finished)) (ksh_client_handshake_traffic_secret h) handshake_hash;
     Some ((before_finished, t), kl) }"

record ('x, 'e, 'd, 'c, 'q) ClientTrafficSecrets =
  cts_key_schedule :: "('x, 'e, 'd, 'c, 'q) KeyScheduleTraffic"
  cts_exporter :: "('x, 'e, 'd, 'c, 'q) KeyScheduleExporter"
  cts_resumption :: "('x, 'e, 'd, 'c, 'q) KeyScheduleResumption"
  cts_decrypter :: 'd
  cts_encrypter :: "'e Encrypter"
  cts_quic :: "('x, 'e, 'd, 'c, 'q) SecretUpdate option"

definition KeyScheduleClientBeforeFinished_into_traffic ::
    "('x, 'e, 'd, 'c, 'q) KeyScheduleBeforeFinished \<Rightarrow> bytes \<Rightarrow> ('x, 'e, 'd, 'c, 'q) ClientTrafficSecrets option" where
  "KeyScheduleClientBeforeFinished_into_traffic b hs_hash = do {
     let client_secret = kbf_current_client_traffic_secret b;
     let server_secret = kbf_current_server_traffic_secret b;
     let inner = ks_inner (kbf_ks b);
     decrypter \<leftarrow> derive_decrypter inner server_secret;
     encrypter \<leftarrow> derive_encrypter inner client_secret;
     let quic = derive_quic inner client_secret server_secret;
     (key_schedule, exporter, resumption) \<leftarrow> KeyScheduleBeforeFinished_into_traffic b hs_hash;
     Some \<lparr>cts_key_schedule = key_schedule, cts_exporter = exporter, cts_resumption = resumption,
       cts_decrypter = decrypter, cts_encrypter = encrypter, cts_quic = quic\<rparr> }"

definition FinishedPending_update_decrypter ::
    "('x, 'e, 'd, 'c, 'q) KeyScheduleTrafficWithClientFinishedPending \<Rightarrow> 'd DecryptionState \<Rightarrow> 'd DecryptionState option" where
  "FinishedPending_update_decrypter p receive =
     set_decrypter (ks_inner (kbf_ks (kfp_before_finished p))) (kfp_handshake_client_traffic_secret p) receive"

definition sign_client_finish ::
    "('x, 'e, 'd, 'c, 'q) KeyScheduleTrafficWithClientFinishedPending \<Rightarrow> bytes \<Rightarrow> 'd DecryptionState \<Rightarrow>
     (('x, 'e, 'd, 'c, 'q) KeyScheduleBeforeFinished \<times> Tag \<times> 'd DecryptionState) option" where
  "sign_client_finish p hs_hash receive = do {
     let b = kfp_before_finished p;
     let inner = ks_inner (kbf_ks b);
     t \<leftarrow> sign_finish inner (kfp_handshake_client_traffic_secret p) hs_hash;
     receive \<leftarrow> set_decrypter inner (kbf_current_client_traffic_secret b) receive;
     Some (b, t, receive) }"

record ('x, 'e, 'd, 'c, 'q) KeyScheduleTrafficSend =
  ksts_ks :: "('x, 'e, 'd, 'c, 'q) KeyScheduleSuite"
  ksts_current :: OkmBlock

record ('x, 'e, 'd, 'c, 'q) KeyScheduleTrafficReceive =
  kstr_ks :: "('x, 'e, 'd, 'c, 'q) KeyScheduleSuite"
  kstr_current :: OkmBlock

definition KeyScheduleTraffic_split ::
    "('x, 'e, 'd, 'c, 'q) KeyScheduleTraffic \<Rightarrow>
     ('x, 'e, 'd, 'c, 'q) KeyScheduleTrafficSend \<times> ('x, 'e, 'd, 'c, 'q) KeyScheduleTrafficReceive" where
  "KeyScheduleTraffic_split t =
     (let (send, receive) = (case kss_side (kst_ks t) of
            Side_Client \<Rightarrow> (kst_current_client_traffic_secret t, kst_current_server_traffic_secret t)
          | Side_Server \<Rightarrow> (kst_current_server_traffic_secret t, kst_current_client_traffic_secret t)) in
      (\<lparr>ksts_ks = kst_ks t, ksts_current = send\<rparr>, \<lparr>kstr_ks = kst_ks t, kstr_current = receive\<rparr>))"

definition update_encrypter ::
    "('x, 'e, 'd, 'c, 'q) KeyScheduleTrafficSend \<Rightarrow> ('e Encrypter \<times> ('x, 'e, 'd, 'c, 'q) KeyScheduleTrafficSend) option" where
  "update_encrypter s = do {
     secret \<leftarrow> derive_next (ksts_ks s) (ksts_current s);
     encrypter \<leftarrow> derive_encrypter (ksts_ks s) secret;
     Some (encrypter, s\<lparr>ksts_current := secret\<rparr>) }"

definition update_encrypter_for_key_update ::
    "('x, 'e, 'd, 'c, 'q) KeyScheduleTrafficSend \<Rightarrow> ('e Encrypter \<times> ('x, 'e, 'd, 'c, 'q) KeyScheduleTrafficSend) option" where
  "update_encrypter_for_key_update s = do {
     secret \<leftarrow> derive_next (ksts_ks s) (ksts_current s);
     encrypter \<leftarrow> derive_encrypter (ksts_ks s) secret;
     Some (encrypter, s\<lparr>ksts_current := secret\<rparr>) }"

definition KeyScheduleTrafficSend_extract ::
    "('x, 'e, 'd, 'c, 'q) KeyScheduleTrafficSend \<Rightarrow> (Error + ConnectionTrafficSecrets) option" where
  "KeyScheduleTrafficSend_extract s = do {
     let su = suite (kss_state (ksts_ks s));
     (key, iv) \<leftarrow> expand_secret (ksts_current s) (cs_hkdf_provider su) (aa_key_len (cs_aead_alg su)) (aa_iv_len (cs_aead_alg su));
     Some (aa_extract_keys (cs_aead_alg su) key iv) }"

definition KeyScheduleTrafficSend_refresh_traffic_secret ::
    "('x, 'e, 'd, 'c, 'q) KeyScheduleTrafficSend \<Rightarrow>
     ((Error + ConnectionTrafficSecrets) \<times> ('x, 'e, 'd, 'c, 'q) KeyScheduleTrafficSend) option" where
  "KeyScheduleTrafficSend_refresh_traffic_secret s = do {
     secret \<leftarrow> derive_next (ksts_ks s) (ksts_current s);
     let s = s\<lparr>ksts_current := secret\<rparr>;
     r \<leftarrow> KeyScheduleTrafficSend_extract s;
     Some (r, s) }"

definition KeyScheduleTrafficReceive_update_decrypter ::
    "('x, 'e, 'd, 'c, 'q) KeyScheduleTrafficReceive \<Rightarrow> 'd DecryptionState \<Rightarrow>
     (('x, 'e, 'd, 'c, 'q) KeyScheduleTrafficReceive \<times> 'd DecryptionState) option" where
  "KeyScheduleTrafficReceive_update_decrypter r receive = do {
     secret \<leftarrow> derive_next (kstr_ks r) (kstr_current r);
     receive \<leftarrow> set_decrypter (kstr_ks r) secret receive;
     Some (r\<lparr>kstr_current := secret\<rparr>, receive) }"

definition KeyScheduleTrafficReceive_extract ::
    "('x, 'e, 'd, 'c, 'q) KeyScheduleTrafficReceive \<Rightarrow> (Error + ConnectionTrafficSecrets) option" where
  "KeyScheduleTrafficReceive_extract s = do {
     let su = suite (kss_state (kstr_ks s));
     (key, iv) \<leftarrow> expand_secret (kstr_current s) (cs_hkdf_provider su) (aa_key_len (cs_aead_alg su)) (aa_iv_len (cs_aead_alg su));
     Some (aa_extract_keys (cs_aead_alg su) key iv) }"

definition KeyScheduleTrafficReceive_refresh_traffic_secret ::
    "('x, 'e, 'd, 'c, 'q) KeyScheduleTrafficReceive \<Rightarrow>
     ((Error + ConnectionTrafficSecrets) \<times> ('x, 'e, 'd, 'c, 'q) KeyScheduleTrafficReceive) option" where
  "KeyScheduleTrafficReceive_refresh_traffic_secret s = do {
     secret \<leftarrow> derive_next (kstr_ks s) (kstr_current s);
     let s = s\<lparr>kstr_current := secret\<rparr>;
     r \<leftarrow> KeyScheduleTrafficReceive_extract s;
     Some (r, s) }"

subsection \<open>Nothing panics\<close>

text \<open>
  With a lawful HKDF provider, and key and IV lengths within the bounds of \<open>AeadKey\<close> and \<open>Iv\<close>,
  no derivation panics.
\<close>

definition aead_fits :: "('e, 'd) Tls13AeadAlgorithm \<Rightarrow> bool" where
  "aead_fits a \<longleftrightarrow> aa_key_len a \<le> AeadKey_MAX_LEN \<and> aa_iv_len a \<le> Iv_MAX_LEN"

context hkdf_provider
begin

lemma blocks: "valid x \<Longrightarrow> 255 \<le> 255 * expander_hash_len H x"
  using hash_len [of x] by simp

lemma label_block_total: "valid x \<Longrightarrow> \<exists>okm. hkdf_expand_label_block H x label context = Some okm"
  using block_slice [of x] by (fastforce simp: hkdf_expand_label_block_def hkdf_expand_label_inner_def)

lemma traffic_key_total:
  assumes "valid x" "aead_fits a"
  shows "\<exists>key. derive_traffic_key H x a = Some key"
proof -
  have "AeadKey_MAX_LEN \<le> 255 * expander_hash_len H x" using blocks [OF assms(1)] by (simp add: AeadKey_MAX_LEN_def)
  from expand_total [OF assms(1) this] obtain out where
    "expand H AeadKey_MAX_LEN x (hkdf_label_info (ascii ''key'') [] (aa_key_len a)) = Some out" by blast
  thus ?thesis using assms(2)
    by (simp add: derive_traffic_key_def hkdf_expand_label_aead_key_def hkdf_expand_label_inner_def
        AeadKey_with_length_def aead_fits_def)
qed

lemma traffic_iv_total:
  assumes "valid x" "n \<le> Iv_MAX_LEN"
  shows "\<exists>iv. derive_traffic_iv H x n = Some iv"
proof -
  have "n \<le> 255 * expander_hash_len H x" using blocks [OF assms(1)] assms(2) by (simp add: Iv_MAX_LEN_def)
  from expand_total [OF assms(1) this] obtain out where
    "expand H n x (hkdf_label_info (ascii ''iv'') [] n) = Some out" "length out = n" by blast
  thus ?thesis using assms(2)
    by (simp add: derive_traffic_iv_def hkdf_expand_label_iv_def hkdf_expand_label_inner_def Iv_new_def)
qed

lemma derive_key_iv_total:
  assumes "aead_fits a"
  shows "\<exists>x key iv. expander_for_okm H secret = Some x \<and> derive_traffic_key H x a = Some key \<and>
    derive_traffic_iv H x (aa_iv_len a) = Some iv"
proof -
  from okm_valid obtain x where x: "expander_for_okm H secret = Some x" "valid x" by blast
  have "aa_iv_len a \<le> Iv_MAX_LEN" using assms by (simp add: aead_fits_def)
  from traffic_key_total [OF x(2) assms] traffic_iv_total [OF x(2) this] x(1) show ?thesis by blast
qed

lemma okm_block_total: "\<exists>x okm. expander_for_okm H secret = Some x \<and> hkdf_expand_label_block H x label context = Some okm"
  using okm_valid label_block_total by blast

lemma derive_total:
  assumes "ks_hkdf ks = H" "valid (ks_current ks)"
  shows "\<exists>okm. KeySchedule_derive ks kind hs_hash = Some okm"
  using label_block_total [OF assms(2)] by (simp add: KeySchedule_derive_def assms(1))

lemma input_total:
  assumes "ks_hkdf ks = H" "valid (ks_current ks)"
  shows "\<exists>ks'. input_secret secret ks = Some ks' \<and> ks_inner ks' = ks_inner ks \<and> valid (ks_current ks')"
    "\<exists>ks'. input_empty ks = Some ks' \<and> ks_inner ks' = ks_inner ks \<and> valid (ks_current ks')"
proof -
  obtain salt where s: "derive_for_empty_hash ks DerivedSecret = Some salt"
    using derive_total [OF assms] by (auto simp: derive_for_empty_hash_def Let_def)
  show "\<exists>ks'. input_secret secret ks = Some ks' \<and> ks_inner ks' = ks_inner ks \<and> valid (ks_current ks')"
    using s assms secret_valid [of "Some (OkmBlock_as_ref salt)" secret] by (auto simp: input_secret_def)
  show "\<exists>ks'. input_empty ks = Some ks' \<and> ks_inner ks' = ks_inner ks \<and> valid (ks_current ks')"
    using s assms zero_ikm_valid [of "Some (OkmBlock_as_ref salt)"] by (auto simp: input_empty_def)
qed

lemma derive_logged_total:
  assumes "ks_hkdf ks = H" "valid (ks_current ks)" "SecretKind_log_label kind \<noteq> None"
  shows "\<exists>okm kl'. derive_logged_secret ks kind hs_hash client_random kl = Some (okm, kl') \<and>
    KeySchedule_derive ks kind hs_hash = Some okm"
  using derive_total [OF assms(1,2), of kind hs_hash] assms(3) by (auto simp: derive_logged_secret_def)

lemma sign_finish_total:
  assumes "cs_hkdf_provider (suite (kss_state k)) = H"
  shows "\<exists>t. sign_finish k base_key hs_hash = Some t"
proof -
  from okm_block_total [of base_key] obtain x okm where
    "expander_for_okm H base_key = Some x" "hkdf_expand_label_block H x (ascii ''finished'') [] = Some okm" by blast
  with hmac_total [of okm hs_hash] show ?thesis by (auto simp: sign_finish_def sign_verify_data_def assms)
qed

lemma export_total:
  assumes "cs_hkdf_provider (suite (kss_state k)) = H"
  shows "\<exists>r. export_keying_material k secret label context n = Some r"
    "export_keying_material k secret label context n = Some (Inr out) \<Longrightarrow> length out = n"
proof -
  let ?hash = "hash_hash (csc_hash_provider (cs_common (suite (kss_state k))))"
  let ?h = "?hash (case context of Some c \<Rightarrow> c | None \<Rightarrow> [])"
  from okm_block_total [of secret label "?hash []"] obtain x okm where
    1: "expander_for_okm H secret = Some x" "hkdf_expand_label_block H x label (?hash []) = Some okm" by blast
  from okm_valid obtain y where 2: "expander_for_okm H okm = Some y" "valid y" by blast
  let ?info = "hkdf_label_info (ascii ''exporter'') ?h n"
  have e: "export_keying_material k secret label context n =
      (case expand_slice H y ?info n of None \<Rightarrow> None
       | Some (Inl _) \<Rightarrow> Some (Inl (Error_ApiMisuse ExporterOutputTooLong))
       | Some (Inr out) \<Rightarrow> Some (Inr out))"
    using 1 2 by (auto simp: export_keying_material_def assms Let_def hkdf_expand_label_slice_def
        hkdf_expand_label_inner_def split: option.split sum.split)
  show "\<exists>r. export_keying_material k secret label context n = Some r"
    using slice_too_long [OF 2(2), of n ?info] slice_fills [OF 2(2), of n ?info] e
    by (cases "255 * expander_hash_len H y < n") auto
  show "export_keying_material k secret label context n = Some (Inr out) \<Longrightarrow> length out = n"
    using slice_too_long [OF 2(2), of n ?info] slice_fills [OF 2(2), of n ?info] e
    by (cases "255 * expander_hash_len H y < n") auto
qed

end

end
