(* ===== verification/Key_Agreement.thy ===== *)
theory Key_Agreement
  imports Key_Schedule
begin

text \<open>
  Client and server key schedules side by side: the derivations of one handshake in the order
  the two handshake drivers (\<open>rustls/src/client/tls13.rs\<close>, \<open>rustls/src/server/tls13.rs\<close>) call them,
  and that both ends hold matching keys afterwards and after any number of key updates; the
  encoding of HKDF labels; separation of the secrets.
\<close>

subsection \<open>One handshake\<close>

definition early_secret ::
    "Side \<Rightarrow> ('x, 'e, 'd, 'c, 'q) Tls13ProtocolSuite \<Rightarrow> bytes option \<Rightarrow> ('x, 'e, 'd, 'c, 'q) KeySchedule option" where
  "early_secret side S psk_secret = (case psk_secret of
     Some secret \<Rightarrow> KeySchedule_new side S secret
   | None \<Rightarrow> KeySchedule_new_with_empty_secret side S)"

text \<open>
  \<open>h_sh\<close>, \<open>h_sf\<close>, \<open>h_fin\<close> and \<open>h_cf\<close> are the transcript hashes up to the ServerHello, up to the server's
  Finished, up to what the client's Finished covers, and up to the client's Finished.
\<close>

record ('x, 'e, 'd, 'c, 'q) client_run =
  cr_handshake_decrypter :: 'd
  cr_handshake_encrypter :: "'e Encrypter"
  cr_finished :: Tag
  cr_traffic :: "('x, 'e, 'd, 'c, 'q) ClientTrafficSecrets"
  cr_log :: KeyLog

definition client_keys where
  "client_keys S psk_secret shared_secret h_sh h_sf h_fin h_cf client_random kl = do {
     ks \<leftarrow> early_secret Side_Client S psk_secret;
     ks \<leftarrow> KeySchedulePreHandshake_into_handshake shared_secret ks;
     (hs, kl) \<leftarrow> derive_client_handshake_secrets ks h_sh S client_random kl;
     encrypter \<leftarrow> handshake_encrypter (chs_key_schedule hs);
     ((before_finished, t), kl) \<leftarrow> into_pre_finished_client_traffic (chs_key_schedule hs) h_sf h_fin client_random kl;
     traffic \<leftarrow> KeyScheduleClientBeforeFinished_into_traffic before_finished h_cf;
     Some \<lparr>cr_handshake_decrypter = chs_decrypter hs, cr_handshake_encrypter = encrypter, cr_finished = t,
       cr_traffic = traffic, cr_log = kl\<rparr> }"

record ('x, 'e, 'd, 'c, 'q) server_run =
  sr_handshake_encrypter :: "'e Encrypter"
  sr_handshake_receive :: "'d DecryptionState"
  sr_traffic_encrypter :: "'e Encrypter"
  sr_finished :: Tag
  sr_traffic_receive :: "'d DecryptionState"
  sr_traffic :: "('x, 'e, 'd, 'c, 'q) KeyScheduleTraffic"
  sr_exporter :: "('x, 'e, 'd, 'c, 'q) KeyScheduleExporter"
  sr_resumption :: "('x, 'e, 'd, 'c, 'q) KeyScheduleResumption"
  sr_log :: KeyLog

definition server_keys where
  "server_keys S psk_secret shared_secret h_sh h_sf h_fin h_cf client_random kl receive = do {
     ks \<leftarrow> early_secret Side_Server S psk_secret;
     ks \<leftarrow> KeySchedulePreHandshake_into_handshake shared_secret ks;
     (hs, kl) \<leftarrow> derive_server_handshake_secrets ks h_sh client_random kl;
     hs_receive \<leftarrow> set_handshake_decrypter (shs_key_schedule hs) None receive;
     (ts, kl) \<leftarrow> into_traffic_with_client_finished_pending (shs_key_schedule hs) h_sf client_random kl;
     (before_finished, t, traffic_receive) \<leftarrow> sign_client_finish (sts_key_schedule ts) h_fin hs_receive;
     (traffic, exporter, resumption) \<leftarrow> KeyScheduleBeforeFinished_into_traffic before_finished h_cf;
     Some \<lparr>sr_handshake_encrypter = shs_encrypter hs, sr_handshake_receive = hs_receive,
       sr_traffic_encrypter = sts_encrypter ts, sr_finished = t, sr_traffic_receive = traffic_receive,
       sr_traffic = traffic, sr_exporter = exporter, sr_resumption = resumption, sr_log = kl\<rparr> }"

text \<open>An encrypter and a decrypter made from the same key and IV.\<close>

definition keyed :: "('e, 'd) Tls13AeadAlgorithm \<Rightarrow> 'e \<Rightarrow> 'd \<Rightarrow> bool" where
  "keyed a e d \<longleftrightarrow> (\<exists>key iv. e = aa_encrypter a key iv \<and> d = aa_decrypter a key iv)"

subsection \<open>Derivations do not depend on the side\<close>

definition ks_at ::
    "('x, 'e, 'd, 'c, 'q) Tls13ProtocolSuite \<Rightarrow> Side \<Rightarrow> 'x \<Rightarrow> ('x, 'e, 'd, 'c, 'q) KeySchedule" where
  "ks_at S side x = \<lparr>ks_current = x, ks_inner = \<lparr>kss_side = side, kss_state = S\<rparr>\<rparr>"

lemma ks_at_sel [simp]: "ks_current (ks_at S side x) = x"
    "ks_inner (ks_at S side x) = \<lparr>kss_side = side, kss_state = S\<rparr>"
    "ks_hkdf (ks_at S side x) = cs_hkdf_provider (suite S)"
    "(ks_at S side x)\<lparr>ks_current := y\<rparr> = ks_at S side y"
    "(ks_at S side x)\<lparr>ks_inner := \<lparr>kss_side = side, kss_state = S\<rparr>\<rparr> = ks_at S side x"
  by (simp_all add: ks_at_def ks_hkdf_def)

lemma derive_at_side: "KeySchedule_derive (ks_at S side x) = KeySchedule_derive (ks_at S Side_Client x)"
  by (simp add: KeySchedule_derive_def fun_eq_iff)

lemma derive_logged_at_side:
  "derive_logged_secret (ks_at S side x) = derive_logged_secret (ks_at S Side_Client x)"
  unfolding derive_logged_secret_def fun_eq_iff using derive_at_side [of S side x] by simp

lemma input_at_side:
  "input_secret secret (ks_at S side x) = map_option (\<lambda>k. ks_at S side (ks_current k)) (input_secret secret (ks_at S Side_Client x))"
  "input_empty (ks_at S side x) = map_option (\<lambda>k. ks_at S side (ks_current k)) (input_empty (ks_at S Side_Client x))"
  using derive_at_side [of S side x]
  by (auto simp: input_secret_def input_empty_def derive_for_empty_hash_def Let_def split: bind_split)

lemma suite_at_side:
  "derive_encrypter \<lparr>kss_side = side, kss_state = S\<rparr> = derive_encrypter \<lparr>kss_side = Side_Client, kss_state = S\<rparr>"
  "derive_decrypter \<lparr>kss_side = side, kss_state = S\<rparr> = derive_decrypter \<lparr>kss_side = Side_Client, kss_state = S\<rparr>"
  "sign_finish \<lparr>kss_side = side, kss_state = S\<rparr> = sign_finish \<lparr>kss_side = Side_Client, kss_state = S\<rparr>"
  by (simp_all add: fun_eq_iff derive_encrypter_def derive_decrypter_def sign_finish_def sign_verify_data_def)

lemma derive_pair_keyed:
  "\<lbrakk>derive_encrypter k secret = Some e; derive_decrypter k secret = Some d\<rbrakk> \<Longrightarrow>
     keyed (cs_aead_alg (suite (kss_state k))) (en_encrypter e) d"
  unfolding keyed_def derive_encrypter_def derive_decrypter_def Let_def
  by (fastforce simp: bind_eq_Some_conv)

context hkdf_provider
begin

lemma derive_pair:
  assumes "cs_hkdf_provider (suite S) = H" "aead_fits (cs_aead_alg (suite S))"
  shows "\<exists>e d. (\<forall>side. derive_encrypter \<lparr>kss_side = side, kss_state = S\<rparr> secret = Some e \<and>
      derive_decrypter \<lparr>kss_side = side, kss_state = S\<rparr> secret = Some d) \<and>
    keyed (cs_aead_alg (suite S)) (en_encrypter e) d"
proof -
  from derive_key_iv_total [OF assms(2), of secret] obtain x key iv where
    "expander_for_okm H secret = Some x" "derive_traffic_key H x (cs_aead_alg (suite S)) = Some key"
    "derive_traffic_iv H x (aa_iv_len (cs_aead_alg (suite S))) = Some iv" by blast
  thus ?thesis using assms(1) unfolding keyed_def
    by (auto simp: derive_encrypter_def derive_decrypter_def Let_def)
qed

lemma early_total:
  assumes "cs_hkdf_provider (suite S) = H"
  shows "\<exists>x. valid x \<and> (\<forall>side. early_secret side S psk_secret = Some (ks_at S side x))"
proof -
  have "\<exists>x. valid x \<and> (case psk_secret of Some secret \<Rightarrow> extract_from_secret H None secret
      | None \<Rightarrow> extract_from_zero_ikm H None) = Some x"
    using secret_valid zero_ikm_valid by (cases psk_secret) (auto, blast+)
  then obtain x where x: "valid x" "(case psk_secret of Some secret \<Rightarrow> extract_from_secret H None secret
      | None \<Rightarrow> extract_from_zero_ikm H None) = Some x" by blast
  have "early_secret side S psk_secret = Some (ks_at S side x)" for side
    using x(2) assms by (cases psk_secret)
      (simp_all add: early_secret_def KeySchedule_new_def KeySchedule_new_with_empty_secret_def ks_at_def)
  thus ?thesis using x(1) by blast
qed

lemma input_at_total:
  assumes "cs_hkdf_provider (suite S) = H" "valid x"
  shows "\<exists>y. valid y \<and> (\<forall>side. input_secret secret (ks_at S side x) = Some (ks_at S side y))"
    "\<exists>y. valid y \<and> (\<forall>side. input_empty (ks_at S side x) = Some (ks_at S side y))"
proof -
  from input_total(1) [of "ks_at S Side_Client x" secret] input_total(2) [of "ks_at S Side_Client x"] assms obtain k k' where
    k: "input_secret secret (ks_at S Side_Client x) = Some k" "valid (ks_current k)" and
    k': "input_empty (ks_at S Side_Client x) = Some k'" "valid (ks_current k')" by auto
  have "input_secret secret (ks_at S side x) = Some (ks_at S side (ks_current k))" for side
    unfolding input_at_side(1) [of secret S side x] k(1) by simp
  thus "\<exists>y. valid y \<and> (\<forall>side. input_secret secret (ks_at S side x) = Some (ks_at S side y))" using k(2) by blast
  have "input_empty (ks_at S side x) = Some (ks_at S side (ks_current k'))" for side
    unfolding input_at_side(2) [of S side x] k'(1) by simp
  thus "\<exists>y. valid y \<and> (\<forall>side. input_empty (ks_at S side x) = Some (ks_at S side y))" using k'(2) by blast
qed

lemma derive_logged_at_total:
  assumes "cs_hkdf_provider (suite S) = H" "valid x" "SecretKind_log_label kind \<noteq> None"
  shows "\<exists>okm kl'. \<forall>side. derive_logged_secret (ks_at S side x) kind hs_hash client_random kl = Some (okm, kl')"
proof -
  from derive_logged_total [of "ks_at S Side_Client x" kind hs_hash client_random kl] assms obtain okm kl' where
    "derive_logged_secret (ks_at S Side_Client x) kind hs_hash client_random kl = Some (okm, kl')" by auto
  hence "derive_logged_secret (ks_at S side x) kind hs_hash client_random kl = Some (okm, kl')" for side
    unfolding derive_logged_at_side [of S side x] .
  thus ?thesis by blast
qed

lemma derive_at_total:
  assumes "cs_hkdf_provider (suite S) = H" "valid x"
  shows "\<exists>okm. \<forall>side. KeySchedule_derive (ks_at S side x) kind hs_hash = Some okm"
proof -
  from derive_total [of "ks_at S Side_Client x" kind hs_hash] assms obtain okm where
    "KeySchedule_derive (ks_at S Side_Client x) kind hs_hash = Some okm" by auto
  hence "KeySchedule_derive (ks_at S side x) kind hs_hash = Some okm" for side
    unfolding derive_at_side [of S side x] .
  thus ?thesis by blast
qed

lemma sign_finish_at_total:
  assumes "cs_hkdf_provider (suite S) = H"
  shows "\<exists>t. \<forall>side. sign_finish \<lparr>kss_side = side, kss_state = S\<rparr> secret hs_hash = Some t"
proof -
  from sign_finish_total [of "\<lparr>kss_side = Side_Client, kss_state = S\<rparr>" secret hs_hash] assms obtain t where
    "sign_finish \<lparr>kss_side = Side_Client, kss_state = S\<rparr> secret hs_hash = Some t" by auto
  hence "sign_finish \<lparr>kss_side = side, kss_state = S\<rparr> secret hs_hash = Some t" for side
    unfolding suite_at_side(3) [of side S] .
  thus ?thesis by blast
qed

lemma handshake_agreement:
  assumes H: "cs_hkdf_provider (suite S) = H" and A: "aead_fits (cs_aead_alg (suite S))"
  shows "\<exists>c s. client_keys S psk_secret shared_secret h_sh h_sf h_fin h_cf client_random kl = Some c \<and>
    server_keys S psk_secret shared_secret h_sh h_sf h_fin h_cf client_random kl receive = Some s \<and>
    cr_log c = sr_log s \<and> cr_finished c = sr_finished s \<and>
    keyed (cs_aead_alg (suite S)) (en_encrypter (sr_handshake_encrypter s)) (cr_handshake_decrypter c) \<and>
    (\<exists>d. ds_record_decrypter (sr_handshake_receive s) = Some d \<and>
       keyed (cs_aead_alg (suite S)) (en_encrypter (cr_handshake_encrypter c)) d) \<and>
    keyed (cs_aead_alg (suite S)) (en_encrypter (sr_traffic_encrypter s)) (cts_decrypter (cr_traffic c)) \<and>
    (\<exists>d. ds_record_decrypter (sr_traffic_receive s) = Some d \<and>
       keyed (cs_aead_alg (suite S)) (en_encrypter (cts_encrypter (cr_traffic c))) d) \<and>
    kse_current_exporter_secret (cts_exporter (cr_traffic c)) = kse_current_exporter_secret (sr_exporter s) \<and>
    ksr_resumption_master_secret (cts_resumption (cr_traffic c)) = ksr_resumption_master_secret (sr_resumption s) \<and>
    kst_ks (cts_key_schedule (cr_traffic c)) = \<lparr>kss_side = Side_Client, kss_state = S\<rparr> \<and>
    kst_ks (sr_traffic s) = \<lparr>kss_side = Side_Server, kss_state = S\<rparr> \<and>
    kst_current_client_traffic_secret (cts_key_schedule (cr_traffic c)) = kst_current_client_traffic_secret (sr_traffic s) \<and>
    kst_current_server_traffic_secret (cts_key_schedule (cr_traffic c)) = kst_current_server_traffic_secret (sr_traffic s)"
proof -
  obtain x0 where x0: "valid x0" "\<And>side. early_secret side S psk_secret = Some (ks_at S side x0)"
    using early_total [OF H] by blast
  obtain x1 where x1: "valid x1" "\<And>side. input_secret shared_secret (ks_at S side x0) = Some (ks_at S side x1)"
    using input_at_total(1) [OF H x0(1)] by blast
  obtain x2 where x2: "valid x2" "\<And>side. input_empty (ks_at S side x1) = Some (ks_at S side x2)"
    using input_at_total(2) [OF H x1(1)] by blast
  obtain chs kl1 where chs: "\<And>side. derive_logged_secret (ks_at S side x1) ClientHandshakeTrafficSecret h_sh client_random kl = Some (chs, kl1)"
    using derive_logged_at_total [OF H x1(1), of ClientHandshakeTrafficSecret] by fastforce
  obtain shs kl2 where shs: "\<And>side. derive_logged_secret (ks_at S side x1) ServerHandshakeTrafficSecret h_sh client_random kl1 = Some (shs, kl2)"
    using derive_logged_at_total [OF H x1(1), of ServerHandshakeTrafficSecret] by fastforce
  obtain cap kl3 where cap: "\<And>side. derive_logged_secret (ks_at S side x2) ClientApplicationTrafficSecret h_sf client_random kl2 = Some (cap, kl3)"
    using derive_logged_at_total [OF H x2(1), of ClientApplicationTrafficSecret] by fastforce
  obtain sap kl4 where sap: "\<And>side. derive_logged_secret (ks_at S side x2) ServerApplicationTrafficSecret h_sf client_random kl3 = Some (sap, kl4)"
    using derive_logged_at_total [OF H x2(1), of ServerApplicationTrafficSecret] by fastforce
  obtain exs kl5 where exs: "\<And>side. derive_logged_secret (ks_at S side x2) ExporterMasterSecret h_sf client_random kl4 = Some (exs, kl5)"
    using derive_logged_at_total [OF H x2(1), of ExporterMasterSecret] by fastforce
  obtain rms where rms: "\<And>side. KeySchedule_derive (ks_at S side x2) ResumptionMasterSecret h_cf = Some rms"
    using derive_at_total [OF H x2(1), of ResumptionMasterSecret h_cf] by blast
  obtain t where t: "\<And>side. sign_finish \<lparr>kss_side = side, kss_state = S\<rparr> chs h_fin = Some t"
    using sign_finish_at_total [OF H, of chs h_fin] by blast
  note dp = derive_pair [OF H A]
  from dp [of chs] dp [of shs] dp [of cap] dp [of sap]
  obtain e1 d1 e2 d2 e3 d3 e4 d4 where
    "\<And>side. derive_encrypter \<lparr>kss_side = side, kss_state = S\<rparr> chs = Some e1"
    "\<And>side. derive_decrypter \<lparr>kss_side = side, kss_state = S\<rparr> chs = Some d1" "keyed (cs_aead_alg (suite S)) (en_encrypter e1) d1"
    "\<And>side. derive_encrypter \<lparr>kss_side = side, kss_state = S\<rparr> shs = Some e2"
    "\<And>side. derive_decrypter \<lparr>kss_side = side, kss_state = S\<rparr> shs = Some d2" "keyed (cs_aead_alg (suite S)) (en_encrypter e2) d2"
    "\<And>side. derive_encrypter \<lparr>kss_side = side, kss_state = S\<rparr> cap = Some e3"
    "\<And>side. derive_decrypter \<lparr>kss_side = side, kss_state = S\<rparr> cap = Some d3" "keyed (cs_aead_alg (suite S)) (en_encrypter e3) d3"
    "\<And>side. derive_encrypter \<lparr>kss_side = side, kss_state = S\<rparr> sap = Some e4"
    "\<And>side. derive_decrypter \<lparr>kss_side = side, kss_state = S\<rparr> sap = Some d4" "keyed (cs_aead_alg (suite S)) (en_encrypter e4) d4"
    by metis
  note keys = this
  note derived = x0(2) x1(2) x2(2) chs shs cap sap exs rms t
  show ?thesis
    by (simp add: client_keys_def server_keys_def KeySchedulePreHandshake_into_handshake_def derived keys
        derive_client_handshake_secrets_def derive_server_handshake_secrets_def
        KeyScheduleHandshakeStart_into_handshake_def handshake_encrypter_def set_handshake_decrypter_def
        into_pre_finished_client_traffic_def into_traffic_with_client_finished_pending_def
        KeyScheduleBeforeFinished_new_def KeyScheduleClientBeforeFinished_into_traffic_def
        KeyScheduleBeforeFinished_into_traffic_def sign_client_finish_def set_decrypter_def
        set_record_decrypter_def Let_def)
qed

end

subsection \<open>Key updates\<close>

text \<open>
  \<open>n\<close> key updates at the sender and at the receiver, with the encrypters and decrypters they
  install.
\<close>

fun send_updates ::
    "nat \<Rightarrow> ('x, 'e, 'd, 'c, 'q) KeyScheduleTrafficSend \<Rightarrow>
     ('e Encrypter list \<times> ('x, 'e, 'd, 'c, 'q) KeyScheduleTrafficSend) option" where
  "send_updates 0 s = Some ([], s)"
| "send_updates (Suc n) s = do {
     (e, s) \<leftarrow> update_encrypter s;
     (es, s) \<leftarrow> send_updates n s;
     Some (e # es, s) }"

fun receive_updates ::
    "nat \<Rightarrow> ('x, 'e, 'd, 'c, 'q) KeyScheduleTrafficReceive \<Rightarrow> 'd DecryptionState \<Rightarrow>
     ('d option list \<times> ('x, 'e, 'd, 'c, 'q) KeyScheduleTrafficReceive) option" where
  "receive_updates 0 r receive = Some ([], r)"
| "receive_updates (Suc n) r receive = do {
     (r, receive) \<leftarrow> KeyScheduleTrafficReceive_update_decrypter r receive;
     (ds, r) \<leftarrow> receive_updates n r receive;
     Some (ds_record_decrypter receive # ds, r) }"

context hkdf_provider
begin

lemma update_step:
  assumes "cs_hkdf_provider (suite S) = H" "aead_fits (cs_aead_alg (suite S))"
    and "kss_state (ksts_ks s) = S" "kss_state (kstr_ks r) = S" "ksts_current s = kstr_current r"
  shows "\<exists>e s' r' receive' d. update_encrypter s = Some (e, s') \<and>
    KeyScheduleTrafficReceive_update_decrypter r receive = Some (r', receive') \<and>
    ds_record_decrypter receive' = Some d \<and> keyed (cs_aead_alg (suite S)) (en_encrypter e) d \<and>
    kss_state (ksts_ks s') = S \<and> kss_state (kstr_ks r') = S \<and> ksts_current s' = kstr_current r'"
proof -
  obtain secret where n: "\<And>k. kss_state k = S \<Longrightarrow> derive_next k (kstr_current r) = Some secret"
    using okm_block_total [of "kstr_current r" "ascii ''traffic upd''" "[]"] assms(1)
    by (auto simp: derive_next_def)
  from derive_pair [OF assms(1,2), of secret] obtain e d where
    ed: "\<And>side. derive_encrypter \<lparr>kss_side = side, kss_state = S\<rparr> secret = Some e"
      "\<And>side. derive_decrypter \<lparr>kss_side = side, kss_state = S\<rparr> secret = Some d"
      "keyed (cs_aead_alg (suite S)) (en_encrypter e) d" by blast
  have "ksts_ks s = \<lparr>kss_side = kss_side (ksts_ks s), kss_state = S\<rparr>"
    "kstr_ks r = \<lparr>kss_side = kss_side (kstr_ks r), kss_state = S\<rparr>" using assms(3,4) by auto
  hence "derive_encrypter (ksts_ks s) secret = Some e" "derive_decrypter (kstr_ks r) secret = Some d"
    using ed(1,2) by metis+
  thus ?thesis using n [OF assms(3)] n [OF assms(4)] assms(3,4,5) ed(3)
    by (simp add: update_encrypter_def KeyScheduleTrafficReceive_update_decrypter_def set_decrypter_def
        set_record_decrypter_def)
qed

lemma updates_agree:
  assumes "cs_hkdf_provider (suite S) = H" "aead_fits (cs_aead_alg (suite S))"
    and "kss_state (ksts_ks s) = S" "kss_state (kstr_ks r) = S" "ksts_current s = kstr_current r"
  shows "\<exists>es s' ds r'. send_updates n s = Some (es, s') \<and> receive_updates n r receive = Some (ds, r') \<and>
    list_all2 (\<lambda>e d. \<exists>d'. d = Some d' \<and> keyed (cs_aead_alg (suite S)) (en_encrypter e) d') es ds \<and>
    length es = n \<and> ksts_current s' = kstr_current r'"
  using assms(3-)
proof (induction n arbitrary: s r receive)
  case (Suc n)
  from update_step [OF assms(1,2) Suc.prems, of receive] obtain e s' r' receive' d where
    u: "update_encrypter s = Some (e, s')" "KeyScheduleTrafficReceive_update_decrypter r receive = Some (r', receive')"
      "ds_record_decrypter receive' = Some d" "keyed (cs_aead_alg (suite S)) (en_encrypter e) d"
      "kss_state (ksts_ks s') = S" "kss_state (kstr_ks r') = S" "ksts_current s' = kstr_current r'" by blast
  from Suc.IH [OF u(5-7), of receive'] u(1-4) show ?case by fastforce
qed simp

end

subsection \<open>Labels\<close>

text \<open>
  The label structure determines the output length, the label and the context, as long as each
  fits its length field.
\<close>

lemma hkdf_label_info_concat:
  assumes "length label \<le> 249" "length context \<le> 255" "n < 2 ^ 16"
  shows "concat (hkdf_label_info label context n) =
    to_be_bytes 2 n @ word_of_nat (6 + length label) # LABEL_PREFIX @ label @ word_of_nat (length context) # context"
  using assms by (simp add: hkdf_label_info_def LABEL_PREFIX_def to_be_bytes_def unat_word_of_nat_u8 unat_word_of_nat_u16)

lemma hkdf_label_info_inj:
  assumes "length label \<le> 249" "length context \<le> 255" "n < 2 ^ 16"
    and "length label' \<le> 249" "length context' \<le> 255" "n' < 2 ^ 16"
    and "concat (hkdf_label_info label context n) = concat (hkdf_label_info label' context' n')"
  shows "label = label' \<and> context = context' \<and> n = n'"
proof -
  have eq: "to_be_bytes 2 n @ word_of_nat (6 + length label) # LABEL_PREFIX @ label @ word_of_nat (length context) # context =
      to_be_bytes 2 n' @ word_of_nat (6 + length label') # LABEL_PREFIX @ label' @ word_of_nat (length context') # context'"
    using assms(7) unfolding hkdf_label_info_concat [OF assms(1-3)] hkdf_label_info_concat [OF assms(4-6)] .
  hence "to_be_bytes 2 n = to_be_bytes 2 n'" "(word_of_nat (6 + length label) :: u8) = word_of_nat (6 + length label')"
    "label @ word_of_nat (length context) # context = label' @ word_of_nat (length context') # context'" by simp_all
  moreover from arg_cong [OF this(2), of unat] have "length label = length label'"
    unfolding unat_word_of_nat_u8 using assms(1,4) by simp
  moreover have "n = n'" using calculation(1) assms(3,6) by (simp add: to_be_bytes_eq_iff)
  ultimately show ?thesis by simp
qed

lemma SecretKind_to_bytes_inj: "SecretKind_to_bytes k = SecretKind_to_bytes k' \<longleftrightarrow> k = k'"
  by (cases k; cases k') (simp_all add: ascii_def)

lemma SecretKind_to_bytes_length: "length (SecretKind_to_bytes k) \<le> 249"
  by (cases k) simp_all

text \<open>
  Beyond 249 bytes of label the length field wraps around, so that the structure no longer
  describes the label it contains.
\<close>

lemma hkdf_label_len_wraps:
  "hkdf_label_info (replicate 250 x) context n ! 1 = [0]"
  by (simp add: hkdf_label_info_def LABEL_PREFIX_def to_be_bytes_def)

subsection \<open>The suite of the fuzzing provider\<close>

definition HASH_OUTPUT :: bytes where
  "HASH_OUTPUT = ascii ''HashHashHashHashHashHashHashHash''"

definition fuzz_Hash :: "unit Hash" where
  "fuzz_Hash = \<lparr>hash_start = (), hash_update = (\<lambda>_ _. ()), hash_finish = (\<lambda>_. HASH_OUTPUT),
     hash_hash = (\<lambda>_. HASH_OUTPUT), hash_algorithm = 0xff, hash_output_len = 32\<rparr>"

definition fuzz_Aead :: "(unit, unit) Tls13AeadAlgorithm" where
  "fuzz_Aead = \<lparr>aa_encrypter = (\<lambda>_ _. ()), aa_decrypter = (\<lambda>_ _. ()), aa_key_len = 32, aa_iv_len = NONCE_LEN,
     aa_extract_keys = (\<lambda>_ _. Inl (Error_General ''operation not supported''))\<rparr>"

definition TLS13_FUZZING_SUITE :: "(HkdfExpanderUsingHmac, unit, unit, unit, unit) Tls13CipherSuite" where
  "TLS13_FUZZING_SUITE = \<lparr>cs_common = \<lparr>csc_suite = 0xff13, csc_hash_provider = fuzz_Hash,
       csc_confidentiality_limit = 0xffffffffffffffff\<rparr>,
     cs_hkdf_provider = HkdfUsingHmac fuzz_Hmac, cs_aead_alg = fuzz_Aead, cs_quic = None\<rparr>"

lemma fuzz_Hash_lawful: "Hash_lawful fuzz_Hash"
  by (simp add: Hash_lawful_def fuzz_Hash_def HASH_OUTPUT_def Output_MAX_LEN_def)

lemma fuzz_Aead_fits: "aead_fits fuzz_Aead"
  by (simp add: aead_fits_def fuzz_Aead_def AeadKey_MAX_LEN_def Iv_MAX_LEN_def NONCE_LEN_def)

end
