(* ===== verification/Send_Path.thy ===== *)
theory Send_Path
  imports Key_Agreement Fragmenter
begin

text \<open>
  The data path to the peer (\<open>rustls/src/conn/send.rs\<close>): encryption state, key updates, limits on
  the sequence space, alerts and fragmentation. Every operation gets the output vector \<open>tls\<close> and
  returns it as it left it, also when it fails. \<open>None\<close> is a panic: a failed \<open>assert\<close>, or one inside
  the cipher or the key schedule. The cipher is the parameter \<open>E\<close>; \<open>classify\<close> and \<open>dns_ok\<close> are
  those of the message encoders.
\<close>

subsection \<open>Operations that may fail or panic\<close>

type_synonym ('s, 'r) sending = "'s \<Rightarrow> bytes \<Rightarrow> ((Error + 'r) \<times> 's \<times> bytes) option"

definition returnS :: "'r \<Rightarrow> ('s, 'r) sending" where
  "returnS r s tls = Some (Inr r, s, tls)"

definition failS :: "Error \<Rightarrow> ('s, 'r) sending" where
  "failS e s tls = Some (Inl e, s, tls)"

text \<open>\<open>bindS m f\<close> is \<open>f(m?)\<close>.\<close>

definition bindS :: "('s, 'a) sending \<Rightarrow> ('a \<Rightarrow> ('s, 'b) sending) \<Rightarrow> ('s, 'b) sending" where
  "bindS m f s tls = (case m s tls of
     None \<Rightarrow> None
   | Some (Inl e, s', tls') \<Rightarrow> Some (Inl e, s', tls')
   | Some (Inr r, s', tls') \<Rightarrow> f r s' tls')"

subsection \<open>State\<close>

datatype KeyUpdateLocal = KeyUpdateLocal_Idle | KeyUpdateLocal_Outstanding

datatype KeyUpdateRemote = KeyUpdateRemote_Idle | KeyUpdateRemote_Queued bytes

record ('x, 'e, 'd, 'c, 'q) Encrypting =
  eg_encrypter :: 'e
  eg_write_seq_max :: u64
  eg_write_seq :: u64
  eg_key_update_local :: KeyUpdateLocal
  eg_key_update_remote :: KeyUpdateRemote
  eg_tls13_key_schedule :: "('x, 'e, 'd, 'c, 'q) KeyScheduleTrafficSend option"

datatype ('x, 'e, 'd, 'c, 'q) EncryptionState =
    ES_Handshake
  | ES_Encrypting "('x, 'e, 'd, 'c, 'q) Encrypting"
  | ES_Retired

record ('x, 'e, 'd, 'c, 'q) SendPath =
  sp_encrypt_state :: "('x, 'e, 'd, 'c, 'q) EncryptionState"
  sp_may_send_application_data :: bool
  sp_may_send_half_rtt_data :: bool
  sp_has_sent_close_notify :: bool
  sp_fragmenter :: Fragmenter
  sp_negotiated_version :: "ProtocolVersion option"

datatype 't DataKind = Early 't | Traffic 't

definition SendPath_default :: "('x, 'e, 'd, 'c, 'q) SendPath" where
  "SendPath_default = \<lparr>sp_encrypt_state = ES_Handshake, sp_may_send_application_data = False,
     sp_may_send_half_rtt_data = False, sp_has_sent_close_notify = False,
     sp_fragmenter = Fragmenter_default, sp_negotiated_version = None\<rparr>"

subsection \<open>Encrypting records\<close>

definition encrypted_len :: "'e RecordEncrypter \<Rightarrow> ('x, 'e, 'd, 'c, 'q) Encrypting \<Rightarrow> usize \<Rightarrow> usize" where
  "encrypted_len E eg payload_len = re_encrypted_payload_len E (eg_encrypter eg) payload_len"

fun KeyUpdateRemote_write :: "KeyUpdateRemote \<Rightarrow> bytes \<Rightarrow> KeyUpdateRemote \<times> bytes" where
  "KeyUpdateRemote_write (KeyUpdateRemote_Queued message) tls = (KeyUpdateRemote_Idle, tls @ message)"
| "KeyUpdateRemote_write KeyUpdateRemote_Idle tls = (KeyUpdateRemote_Idle, tls)"

definition write_queued :: "(('x, 'e, 'd, 'c, 'q) Encrypting, unit) sending" where
  "write_queued eg tls =
     (let (remote, tls) = KeyUpdateRemote_write (eg_key_update_remote eg) tls in
      returnS () (eg\<lparr>eg_key_update_remote := remote\<rparr>) tls)"

definition encrypt_outgoing_into ::
    "'e RecordEncrypter \<Rightarrow> OutboundPlain Record \<Rightarrow> (('x, 'e, 'd, 'c, 'q) Encrypting, usize) sending" where
  "encrypt_outgoing_into E plain eg out =
     (if \<not> eg_write_seq eg < SEQ_HARD_LIMIT then None
      else
        let seq = eg_write_seq eg;
            eg = eg\<lparr>eg_write_seq := eg_write_seq eg + 1\<rparr> in
        if length out < HEADER_SIZE then None
        else case re_encrypt E (eg_encrypter eg) plain seq (drop HEADER_SIZE out) of
          None \<Rightarrow> None
        | Some (r, e, body) \<Rightarrow>
            let eg = eg\<lparr>eg_encrypter := e\<rparr> in
            (case r of
               Inl err \<Rightarrow> Some (Inl err, eg, take HEADER_SIZE out @ body)
             | Inr encrypted \<Rightarrow>
                 let len = length (rec_payload encrypted) in
                 Some (Inr (HEADER_SIZE + len), eg,
                   encode_record_header (rec_typ encrypted) (rec_version encrypted) (word_of_nat len) @ body)))"

definition encrypt_outgoing ::
    "'e RecordEncrypter \<Rightarrow> OutboundPlain Record \<Rightarrow> (('x, 'e, 'd, 'c, 'q) Encrypting, unit) sending" where
  "encrypt_outgoing E plain eg tls =
     (let needed = HEADER_SIZE + encrypted_len E eg (OutboundPlain_len (rec_payload plain)) in
      case encrypt_outgoing_into E plain eg (replicate needed 0) of
        None \<Rightarrow> None
      | Some (Inl e, eg, out) \<Rightarrow> Some (Inl e, eg, tls @ out)
      | Some (Inr written, eg, out) \<Rightarrow> Some (Inr (), eg, take (length tls + written) (tls @ out)))"

definition send_short ::
    "'e RecordEncrypter \<Rightarrow> Message \<Rightarrow> (('x, 'e, 'd, 'c, 'q) Encrypting, unit) sending" where
  "send_short E message = bindS write_queued (\<lambda>_.
     encrypt_outgoing E (borrow_outbound (Record_from_Message message)))"

definition send_short_plain :: "Message \<Rightarrow> bytes \<Rightarrow> bytes" where
  "send_short_plain message tls = encode_unencrypted (borrow_outbound (Record_from_Message message)) tls"

definition install_encrypter ::
    "'e Encrypter \<Rightarrow> ('x, 'e, 'd, 'c, 'q) Encrypting \<Rightarrow> ('x, 'e, 'd, 'c, 'q) Encrypting" where
  "install_encrypter enc eg = eg\<lparr>eg_encrypter := en_encrypter enc,
     eg_write_seq_max := min SEQ_SOFT_LIMIT (en_limit enc), eg_write_seq := 0\<rparr>"

definition send_key_update_request ::
    "(bytes \<Rightarrow> ServerNameKind) \<Rightarrow> (bytes \<Rightarrow> bool) \<Rightarrow> 'e RecordEncrypter \<Rightarrow>
     (('x, 'e, 'd, 'c, 'q) Encrypting, unit) sending" where
  "send_key_update_request classify dns_ok E eg tls =
     (if eg_tls13_key_schedule eg = None then failS Error_HandshakeNotComplete eg tls
      else bindS (send_short E (Message_build_key_update_request classify dns_ok)) (\<lambda>_ eg tls.
        case eg_tls13_key_schedule eg of
          None \<Rightarrow> failS Error_HandshakeNotComplete eg tls
        | Some ks \<Rightarrow> (case update_encrypter ks of
            None \<Rightarrow> None
          | Some (enc, ks) \<Rightarrow> returnS () (install_encrypter enc (eg\<lparr>eg_tls13_key_schedule := Some ks,
              eg_key_update_local := KeyUpdateLocal_Outstanding\<rparr>)) tls)) eg tls)"

text \<open>\<open>a.saturating_add(b)\<close> on 64 bits.\<close>

definition saturating_add64 :: "u64 \<Rightarrow> u64 \<Rightarrow> u64" where
  "saturating_add64 a b = (if unat a + unat b < 2 ^ 64 then a + b else 0xffffffffffffffff)"

fun encrypt_record_loop ::
    "(bytes \<Rightarrow> ServerNameKind) \<Rightarrow> (bytes \<Rightarrow> bool) \<Rightarrow> 'e RecordEncrypter \<Rightarrow> OutboundPlain Record list \<Rightarrow>
     (('x, 'e, 'd, 'c, 'q) Encrypting, unit) sending" where
  "encrypt_record_loop classify dns_ok E [] = returnS ()"
| "encrypt_record_loop classify dns_ok E (r # rs) =
     bindS (\<lambda>eg tls.
       if eg_tls13_key_schedule eg \<noteq> None \<and> eg_write_seq eg + 1 \<ge> eg_write_seq_max eg
       then send_key_update_request classify dns_ok E eg tls else returnS () eg tls) (\<lambda>_.
     bindS (encrypt_outgoing E r) (\<lambda>_. encrypt_record_loop classify dns_ok E rs))"

definition encrypt_records ::
    "(bytes \<Rightarrow> ServerNameKind) \<Rightarrow> (bytes \<Rightarrow> bool) \<Rightarrow> 'e RecordEncrypter \<Rightarrow> OutboundPlain Record list \<Rightarrow>
     (('x, 'e, 'd, 'c, 'q) Encrypting, bool) sending" where
  "encrypt_records classify dns_ok E rs eg tls =
     (let count = length rs;
          last = saturating_add64 (eg_write_seq eg) (word_of_nat (count - 1)) in
      if count \<noteq> 0 \<and> last \<ge> SEQ_HARD_LIMIT then failS Error_EncryptError eg tls
      else if count \<noteq> 0 \<and> last \<ge> eg_write_seq_max eg \<and> eg_tls13_key_schedule eg = None then returnS True eg tls
      else bindS (encrypt_record_loop classify dns_ok E rs) (\<lambda>_. returnS False) eg tls)"

subsection \<open>The send path\<close>

definition EncryptionState_set_encrypter ::
    "'e Encrypter \<Rightarrow> ('x, 'e, 'd, 'c, 'q) EncryptionState \<Rightarrow> ('x, 'e, 'd, 'c, 'q) EncryptionState" where
  "EncryptionState_set_encrypter enc st = (case st of
     ES_Handshake \<Rightarrow> ES_Encrypting \<lparr>eg_encrypter = en_encrypter enc,
       eg_write_seq_max = min SEQ_SOFT_LIMIT (en_limit enc), eg_write_seq = 0,
       eg_key_update_local = KeyUpdateLocal_Idle, eg_key_update_remote = KeyUpdateRemote_Idle,
       eg_tls13_key_schedule = None\<rparr>
   | ES_Encrypting eg \<Rightarrow> ES_Encrypting (install_encrypter enc eg)
   | ES_Retired \<Rightarrow> ES_Retired)"

text \<open>Running an operation on the record layer inside the send path.\<close>

definition on_encrypting ::
    "('x, 'e, 'd, 'c, 'q) Encrypting \<Rightarrow> (('x, 'e, 'd, 'c, 'q) Encrypting, 'r) sending \<Rightarrow>
     (('x, 'e, 'd, 'c, 'q) SendPath, 'r) sending" where
  "on_encrypting eg m sp tls = (case m eg tls of
     None \<Rightarrow> None
   | Some (r, eg, tls) \<Rightarrow> Some (r, sp\<lparr>sp_encrypt_state := ES_Encrypting eg\<rparr>, tls))"

definition send_alert ::
    "'e RecordEncrypter \<Rightarrow> AlertLevel \<Rightarrow> AlertDescription \<Rightarrow> (('x, 'e, 'd, 'c, 'q) SendPath, unit) sending" where
  "send_alert E level desc sp tls =
     (let retire = (\<lambda>sp. if level = AlertLevel_Fatal then sp\<lparr>sp_encrypt_state := ES_Retired\<rparr> else sp) in
      case sp_encrypt_state sp of
        ES_Retired \<Rightarrow> returnS () sp tls
      | ES_Encrypting eg \<Rightarrow> map_option (\<lambda>(r, sp, tls). (r, retire sp, tls))
          (on_encrypting eg (send_short E (Message_build_alert level desc)) sp tls)
      | ES_Handshake \<Rightarrow> returnS () (retire sp) (send_short_plain (Message_build_alert level desc) tls))"

definition send_close_notify :: "'e RecordEncrypter \<Rightarrow> (('x, 'e, 'd, 'c, 'q) SendPath, unit) sending" where
  "send_close_notify E sp tls =
     (if sp_has_sent_close_notify sp then returnS () sp tls
      else send_alert E AlertLevel_Warning AlertDescription_CloseNotify
        (sp\<lparr>sp_has_sent_close_notify := True\<rparr>) tls)"

text \<open>What follows an encryption that has reached the limit of its keys.\<close>

definition close_on_limit ::
    "'e RecordEncrypter \<Rightarrow> bool \<Rightarrow> 'r \<Rightarrow> (('x, 'e, 'd, 'c, 'q) SendPath, 'r) sending" where
  "close_on_limit E limit_reached r =
     (if limit_reached then bindS (send_close_notify E) (\<lambda>_. failS Error_EncryptError) else returnS r)"

definition send_appdata_encrypt ::
    "(bytes \<Rightarrow> ServerNameKind) \<Rightarrow> (bytes \<Rightarrow> bool) \<Rightarrow> 'e RecordEncrypter \<Rightarrow> OutboundPlain DataKind \<Rightarrow>
     (('x, 'e, 'd, 'c, 'q) SendPath, usize) sending" where
  "send_appdata_encrypt classify dns_ok E data sp tls =
     (let (early, payload) = (case data of Early p \<Rightarrow> (True, p) | Traffic p \<Rightarrow> (False, p)) in
      if \<not> early \<and> \<not> sp_may_send_application_data sp
      then failS (Error_ApiMisuse WriteBeforeHandshakeComplete) sp tls
      else if sp_has_sent_close_notify sp \<and> \<not> OutboundPlain_is_empty payload
      then failS (Error_ApiMisuse WriteAfterSendPathClosed) sp tls
      else case sp_encrypt_state sp of
        ES_Handshake \<Rightarrow> failS (Error_ApiMisuse WriteBeforeHandshakeComplete) sp tls
      | ES_Retired \<Rightarrow> failS (Error_ApiMisuse WriteAfterSendPathClosed) sp tls
      | ES_Encrypting eg \<Rightarrow>
          let len = OutboundPlain_len payload in
          bindS (on_encrypting eg (bindS write_queued (\<lambda>_ eg.
              encrypt_records classify dns_ok E (Fragmenter_fragment (sp_fragmenter sp)
                ContentType_ApplicationData (Legacy ProtocolVersion_TLSv1_2) payload (encrypted_len E eg 0)) eg)))
            (\<lambda>limit_reached. close_on_limit E limit_reached len) sp tls)"

fun encode_all_unencrypted :: "OutboundPlain Record list \<Rightarrow> bytes \<Rightarrow> bytes" where
  "encode_all_unencrypted [] tls = tls"
| "encode_all_unencrypted (r # rs) tls = encode_all_unencrypted rs (encode_unencrypted r tls)"

definition send_msg ::
    "(bytes \<Rightarrow> ServerNameKind) \<Rightarrow> (bytes \<Rightarrow> bool) \<Rightarrow> 'e RecordEncrypter \<Rightarrow> Message \<Rightarrow> bool \<Rightarrow>
     (('x, 'e, 'd, 'c, 'q) SendPath, unit) sending" where
  "send_msg classify dns_ok E m must_encrypt sp tls =
     (let rec = Record_from_Message m;
          fragments = (\<lambda>overhead. Fragmenter_fragment (sp_fragmenter sp) (rec_typ rec) (rec_version rec)
            (OP_Single (rec_payload rec)) overhead);
          plaintext = returnS () sp (encode_all_unencrypted (fragments 0) tls) in
      case sp_encrypt_state sp of
        ES_Retired \<Rightarrow> failS Error_EncryptError sp tls
      | ES_Handshake \<Rightarrow>
          if must_encrypt then failS (Error_ApiMisuse WriteBeforeHandshakeComplete) sp tls else plaintext
      | ES_Encrypting eg \<Rightarrow>
          if must_encrypt
          then bindS (on_encrypting eg (\<lambda>eg. bindS write_queued
                (\<lambda>_. encrypt_records classify dns_ok E (fragments (encrypted_len E eg 0))) eg))
              (\<lambda>limit_reached. close_on_limit E limit_reached ()) sp tls
          else plaintext)"

definition SendPath_set_max_fragment_size ::
    "usize option \<Rightarrow> ('x, 'e, 'd, 'c, 'q) SendPath \<Rightarrow> (Error + unit) \<times> ('x, 'e, 'd, 'c, 'q) SendPath" where
  "SendPath_set_max_fragment_size new sp = (case set_max_fragment_size new (sp_fragmenter sp) of
     Inl e \<Rightarrow> (Inl e, sp)
   | Inr f \<Rightarrow> (Inr (), sp\<lparr>sp_fragmenter := f\<rparr>))"

definition start_outgoing_traffic :: "('x, 'e, 'd, 'c, 'q) SendPath \<Rightarrow> ('x, 'e, 'd, 'c, 'q) SendPath" where
  "start_outgoing_traffic sp = sp\<lparr>sp_may_send_application_data := True\<rparr>"

definition SendOutput_start_traffic :: "('x, 'e, 'd, 'c, 'q) SendPath \<Rightarrow> ('x, 'e, 'd, 'c, 'q) SendPath" where
  "SendOutput_start_traffic sp = start_outgoing_traffic (sp\<lparr>sp_may_send_half_rtt_data := True\<rparr>)"

definition refresh_traffic_keys ::
    "(bytes \<Rightarrow> ServerNameKind) \<Rightarrow> (bytes \<Rightarrow> bool) \<Rightarrow> 'e RecordEncrypter \<Rightarrow>
     (('x, 'e, 'd, 'c, 'q) SendPath, unit) sending" where
  "refresh_traffic_keys classify dns_ok E sp tls = (case sp_encrypt_state sp of
     ES_Encrypting eg \<Rightarrow>
       if eg_key_update_local eg = KeyUpdateLocal_Outstanding then returnS () sp tls
       else on_encrypting eg (send_key_update_request classify dns_ok E) sp tls
   | ES_Retired \<Rightarrow>
       if sp_may_send_application_data sp then failS Error_EncryptError sp tls
       else failS Error_HandshakeNotComplete sp tls
   | ES_Handshake \<Rightarrow> failS Error_HandshakeNotComplete sp tls)"

definition SendPath_export ::
    "('x, 'e, 'd, 'c, 'q) SendPath \<Rightarrow> Error + u64 \<times> ('x, 'e, 'd, 'c, 'q) KeyScheduleTrafficSend option" where
  "SendPath_export sp = (case sp_encrypt_state sp of
     ES_Encrypting eg \<Rightarrow> Inr (eg_write_seq eg, eg_tls13_key_schedule eg)
   | _ \<Rightarrow> Inl Error_EncryptError)"

definition has_queued_key_update :: "('x, 'e, 'd, 'c, 'q) SendPath \<Rightarrow> bool" where
  "has_queued_key_update sp = (case sp_encrypt_state sp of
     ES_Encrypting eg \<Rightarrow> (case eg_key_update_remote eg of KeyUpdateRemote_Queued _ \<Rightarrow> True | _ \<Rightarrow> False)
   | _ \<Rightarrow> False)"

definition SendOutput_negotiated_version ::
    "ProtocolVersion \<Rightarrow> ('x, 'e, 'd, 'c, 'q) SendPath \<Rightarrow> ('x, 'e, 'd, 'c, 'q) SendPath" where
  "SendOutput_negotiated_version version sp = sp\<lparr>sp_negotiated_version := Some version\<rparr>"

definition queue_requested_key_update ::
    "(bytes \<Rightarrow> ServerNameKind) \<Rightarrow> (bytes \<Rightarrow> bool) \<Rightarrow> 'e RecordEncrypter \<Rightarrow> ('x, 'e, 'd, 'c, 'q) SendPath \<Rightarrow>
     ((Error + unit) \<times> ('x, 'e, 'd, 'c, 'q) SendPath) option" where
  "queue_requested_key_update classify dns_ok E sp = (case sp_encrypt_state sp of
     ES_Encrypting eg \<Rightarrow> (case eg_key_update_remote eg of
         KeyUpdateRemote_Queued _ \<Rightarrow> Some (Inr (), sp)
       | KeyUpdateRemote_Idle \<Rightarrow>
           (case send_short E (Message_build_key_update_notify classify dns_ok) eg [] of
              None \<Rightarrow> None
            | Some (Inl e, eg, _) \<Rightarrow> Some (Inl e, sp\<lparr>sp_encrypt_state := ES_Encrypting eg\<rparr>)
            | Some (Inr _, eg, queued) \<Rightarrow>
                let eg = eg\<lparr>eg_key_update_remote := KeyUpdateRemote_Queued queued\<rparr> in
                (case eg_tls13_key_schedule eg of
                   None \<Rightarrow> Some (Inr (), sp\<lparr>sp_encrypt_state := ES_Encrypting eg\<rparr>)
                 | Some ks \<Rightarrow> (case update_encrypter_for_key_update ks of
                     None \<Rightarrow> None
                   | Some (enc, ks) \<Rightarrow> Some (Inr (), sp\<lparr>sp_encrypt_state := EncryptionState_set_encrypter enc
                       (ES_Encrypting (eg\<lparr>eg_tls13_key_schedule := Some ks\<rparr>))\<rparr>)))))
   | _ \<Rightarrow> Some (Inl Error_EncryptError, sp))"

definition note_key_update_response :: "('x, 'e, 'd, 'c, 'q) SendPath \<Rightarrow> ('x, 'e, 'd, 'c, 'q) SendPath" where
  "note_key_update_response sp = (case sp_encrypt_state sp of
     ES_Encrypting eg \<Rightarrow>
       if eg_key_update_local eg = KeyUpdateLocal_Outstanding
       then sp\<lparr>sp_encrypt_state := ES_Encrypting (eg\<lparr>eg_key_update_local := KeyUpdateLocal_Idle\<rparr>)\<rparr> else sp
   | _ \<Rightarrow> sp)"

definition SendOutput_set_encrypter ::
    "'e Encrypter \<Rightarrow> ('x, 'e, 'd, 'c, 'q) SendPath \<Rightarrow> ('x, 'e, 'd, 'c, 'q) SendPath" where
  "SendOutput_set_encrypter enc sp =
     sp\<lparr>sp_encrypt_state := EncryptionState_set_encrypter enc (sp_encrypt_state sp)\<rparr>"

definition update_key_schedule ::
    "('x, 'e, 'd, 'c, 'q) KeyScheduleTrafficSend \<Rightarrow> ('x, 'e, 'd, 'c, 'q) SendPath \<Rightarrow> ('x, 'e, 'd, 'c, 'q) SendPath" where
  "update_key_schedule schedule sp = (case sp_encrypt_state sp of
     ES_Encrypting eg \<Rightarrow> sp\<lparr>sp_encrypt_state := ES_Encrypting (eg\<lparr>eg_tls13_key_schedule := Some schedule\<rparr>)\<rparr>
   | _ \<Rightarrow> sp)"

subsection \<open>What operations keep\<close>

text \<open>
  \<open>keeps R m\<close>: every run of \<open>m\<close> that does not panic relates the state and output before to those
  after by \<open>R\<close>, also when it fails.
\<close>

definition keeps :: "('s \<Rightarrow> bytes \<Rightarrow> 's \<Rightarrow> bytes \<Rightarrow> bool) \<Rightarrow> ('s, 'r) sending \<Rightarrow> bool" where
  "keeps R m \<longleftrightarrow> (\<forall>s tls r s' tls'. m s tls = Some (r, s', tls') \<longrightarrow> R s tls s' tls')"

lemma keepsI: "(\<And>s tls r s' tls'. m s tls = Some (r, s', tls') \<Longrightarrow> R s tls s' tls') \<Longrightarrow> keeps R m"
  by (simp add: keeps_def)

lemma keepsD: "keeps R m \<Longrightarrow> m s tls = Some (r, s', tls') \<Longrightarrow> R s tls s' tls'"
  unfolding keeps_def by blast

lemma keeps_return: "(\<And>s tls. R s tls s tls) \<Longrightarrow> keeps R (returnS r)" "(\<And>s tls. R s tls s tls) \<Longrightarrow> keeps R (failS e)"
  by (simp_all add: keeps_def returnS_def failS_def)

lemma keeps_bind:
  assumes trans: "\<And>a b c d e f. R a b c d \<Longrightarrow> R c d e f \<Longrightarrow> R a b e f"
    and m: "keeps R m" and f: "\<And>a. keeps R (f a)"
  shows "keeps R (bindS m f)"
proof (rule keepsI)
  fix s tls r s' tls'
  assume b: "bindS m f s tls = Some (r, s', tls')"
  then obtain r1 s1 tls1 where m1: "m s tls = Some (r1, s1, tls1)"
    by (auto simp: bindS_def split: option.splits)
  note R1 = keepsD [OF m m1]
  show "R s tls s' tls'"
  proof (cases r1)
    case (Inl e)
    with b m1 R1 show ?thesis by (simp add: bindS_def)
  next
    case (Inr a)
    with b m1 have "f a s1 tls1 = Some (r, s', tls')" by (simp add: bindS_def)
    from trans [OF R1 keepsD [OF f this]] show ?thesis .
  qed
qed

text \<open>
  A ghost function \<open>used\<close> on encrypters lists the sequence numbers an encrypter has been called
  with. The invariant: an encrypter has been used exactly with the numbers below the current
  one, in order; those are below the hard limit; and every encrypter the key schedule can make
  is fresh.
\<close>

definition logs_seq :: "('e \<Rightarrow> u64 list) \<Rightarrow> 'e RecordEncrypter \<Rightarrow> bool" where
  "logs_seq used E \<longleftrightarrow> (\<forall>e p seq out r e' out'.
     re_encrypt E e p seq out = Some (r, e', out') \<longrightarrow> used e' = used e @ [seq])"

definition fresh_schedule :: "('e \<Rightarrow> u64 list) \<Rightarrow> ('x, 'e, 'd, 'c, 'q) KeyScheduleTrafficSend \<Rightarrow> bool" where
  "fresh_schedule used ks \<longleftrightarrow>
     (\<forall>key iv. used (aa_encrypter (cs_aead_alg (suite (kss_state (ksts_ks ks)))) key iv) = [])"

definition seq_inv :: "('e \<Rightarrow> u64 list) \<Rightarrow> ('x, 'e, 'd, 'c, 'q) Encrypting \<Rightarrow> bool" where
  "seq_inv used eg \<longleftrightarrow> used (eg_encrypter eg) = map word_of_nat [0..<unat (eg_write_seq eg)] \<and>
     eg_write_seq eg \<le> SEQ_HARD_LIMIT \<and>
     (case eg_tls13_key_schedule eg of None \<Rightarrow> True | Some ks \<Rightarrow> fresh_schedule used ks)"

definition eg_step ::
    "('e \<Rightarrow> u64 list) \<Rightarrow> ('x, 'e, 'd, 'c, 'q) Encrypting \<Rightarrow> bytes \<Rightarrow> ('x, 'e, 'd, 'c, 'q) Encrypting \<Rightarrow> bytes \<Rightarrow> bool" where
  "eg_step used eg tls eg' tls' \<longleftrightarrow> (\<exists>x. tls' = tls @ x) \<and> (seq_inv used eg \<longrightarrow> seq_inv used eg')"

lemma eg_step_refl: "eg_step used eg tls eg tls"
  by (simp add: eg_step_def)

lemma eg_step_trans: "eg_step used a b c d \<Longrightarrow> eg_step used c d e f \<Longrightarrow> eg_step used a b e f"
  by (auto simp: eg_step_def)

lemmas eg_keeps_return = keeps_return [of "eg_step used" for used, OF eg_step_refl]

lemma eg_keeps_bind:
  "keeps (eg_step used) m \<Longrightarrow> (\<And>a. keeps (eg_step used) (f a)) \<Longrightarrow> keeps (eg_step used) (bindS m f)"
  by (rule keeps_bind) (auto intro: eg_step_trans)

lemma update_encrypter_fresh:
  assumes "update_encrypter ks = Some (enc, ks')" "fresh_schedule used ks"
  shows "used (en_encrypter enc) = []" "fresh_schedule used ks'"
  using assms by (auto simp: update_encrypter_def derive_encrypter_def Let_def bind_eq_Some_conv fresh_schedule_def)

lemma update_encrypter_for_key_update_fresh:
  assumes "update_encrypter_for_key_update ks = Some (enc, ks')" "fresh_schedule used ks"
  shows "used (en_encrypter enc) = []" "fresh_schedule used ks'"
  using update_encrypter_fresh [of ks enc ks' used] assms
  by (simp_all add: update_encrypter_def update_encrypter_for_key_update_def)

lemma seq_inv_install:
  "used (en_encrypter enc) = [] \<Longrightarrow>
     (case eg_tls13_key_schedule eg of None \<Rightarrow> True | Some ks \<Rightarrow> fresh_schedule used ks) \<Longrightarrow>
   seq_inv used (install_encrypter enc eg)"
  by (simp add: seq_inv_def install_encrypter_def SEQ_HARD_LIMIT_def)

lemma seq_inv_next:
  assumes "seq_inv used eg" "eg_write_seq eg < SEQ_HARD_LIMIT" "used e = used (eg_encrypter eg) @ [eg_write_seq eg]"
  shows "seq_inv used (eg\<lparr>eg_write_seq := eg_write_seq eg + 1, eg_encrypter := e\<rparr>)"
proof -
  have "unat (eg_write_seq eg + 1) = unat (eg_write_seq eg) + 1"
    using assms(2) by (simp add: SEQ_HARD_LIMIT_def word_less_nat_alt unat_word_ariths)
  moreover have "eg_write_seq eg + 1 \<le> SEQ_HARD_LIMIT"
    using assms(2) calculation by (simp add: word_less_nat_alt word_le_nat_alt)
  ultimately show ?thesis using assms(1,3) by (simp add: seq_inv_def)
qed

lemma write_queued_step:
  assumes "write_queued s tls = Some (r, s', tls')"
  shows "eg_step used s tls s' tls'"
  using assms by (cases "eg_key_update_remote s") (auto simp: write_queued_def returnS_def eg_step_def seq_inv_def)

lemma keeps_write_queued: "keeps (eg_step used) write_queued"
  by (rule keepsI) (rule write_queued_step)

lemma keeps_encrypt_outgoing:
  assumes "logs_seq used E"
  shows "keeps (eg_step used) (encrypt_outgoing E plain)"
proof (rule keepsI)
  fix s tls r s' tls'
  assume e: "encrypt_outgoing E plain s tls = Some (r, s', tls')"
  hence lt: "eg_write_seq s < SEQ_HARD_LIMIT"
    by (auto simp: encrypt_outgoing_def encrypt_outgoing_into_def Let_def split: if_splits)
  with e obtain e' where "used e' = used (eg_encrypter s) @ [eg_write_seq s]"
      "s' = s\<lparr>eg_write_seq := eg_write_seq s + 1, eg_encrypter := e'\<rparr>" "\<exists>x. tls' = tls @ x"
    using assms by (fastforce simp: encrypt_outgoing_def encrypt_outgoing_into_def Let_def logs_seq_def
        split: if_splits option.splits prod.splits sum.splits)
  thus "eg_step used s tls s' tls'" using seq_inv_next [OF _ lt] by (simp add: eg_step_def)
qed

lemma keeps_send_short: "logs_seq used E \<Longrightarrow> keeps (eg_step used) (send_short E m)"
  unfolding send_short_def by (intro eg_keeps_bind keeps_write_queued keeps_encrypt_outgoing)

definition update_schedule :: "(('x, 'e, 'd, 'c, 'q) Encrypting, unit) sending" where
  "update_schedule eg tls = (case eg_tls13_key_schedule eg of
     None \<Rightarrow> failS Error_HandshakeNotComplete eg tls
   | Some ks \<Rightarrow> (case update_encrypter ks of
       None \<Rightarrow> None
     | Some (enc, ks) \<Rightarrow> returnS () (install_encrypter enc (eg\<lparr>eg_tls13_key_schedule := Some ks,
         eg_key_update_local := KeyUpdateLocal_Outstanding\<rparr>)) tls))"

lemma update_schedule_step:
  assumes u: "update_schedule s tls = Some (r, s', tls')"
  shows "eg_step used s tls s' tls'"
proof (cases "eg_tls13_key_schedule s")
    case None
    with u show ?thesis by (auto simp: update_schedule_def failS_def eg_step_def)
  next
    case (Some ks)
    with u obtain enc ks' where e: "update_encrypter ks = Some (enc, ks')" and s': "tls' = tls"
        "s' = install_encrypter enc (s\<lparr>eg_tls13_key_schedule := Some ks', eg_key_update_local := KeyUpdateLocal_Outstanding\<rparr>)"
      by (auto simp: update_schedule_def returnS_def split: option.splits)
    have "seq_inv used s'" if "seq_inv used s"
    proof -
      have "fresh_schedule used ks" using that Some by (simp add: seq_inv_def)
      from update_encrypter_fresh [OF e this] show ?thesis unfolding s' by (intro seq_inv_install) simp_all
    qed
    thus ?thesis using s'(1) by (simp add: eg_step_def)
qed

lemma keeps_update_schedule: "keeps (eg_step used) update_schedule"
  by (rule keepsI) (rule update_schedule_step)

lemma keeps_send_key_update_request:
  assumes "logs_seq used E"
  shows "keeps (eg_step used) (send_key_update_request classify dns_ok E)"
proof (rule keepsI)
  fix s tls r s' tls'
  assume m: "send_key_update_request classify dns_ok E s tls = Some (r, s', tls')"
  have k: "keeps (eg_step used) (bindS (send_short E (Message_build_key_update_request classify dns_ok)) (\<lambda>_. update_schedule))"
    by (intro eg_keeps_bind keeps_send_short keeps_update_schedule assms)
  show "eg_step used s tls s' tls'"
  proof (cases "eg_tls13_key_schedule s = None")
    case True
    with m show ?thesis by (simp add: send_key_update_request_def failS_def eg_step_refl)
  next
    case False
    with m have "bindS (send_short E (Message_build_key_update_request classify dns_ok)) (\<lambda>_. update_schedule) s tls =
        Some (r, s', tls')"
      unfolding send_key_update_request_def update_schedule_def [abs_def] by simp
    from keepsD [OF k this] show ?thesis .
  qed
qed

lemma keeps_encrypt_record_loop:
  assumes "logs_seq used E"
  shows "keeps (eg_step used) (encrypt_record_loop classify dns_ok E rs)"
proof (induction rs)
  case (Cons r rs)
  have "keeps (eg_step used) (\<lambda>eg tls. if eg_tls13_key_schedule eg \<noteq> None \<and> eg_write_seq eg + 1 \<ge> eg_write_seq_max eg
       then send_key_update_request classify dns_ok E eg tls else returnS () eg tls)"
    using keepsD [OF keeps_send_key_update_request [OF assms]] keepsD [OF eg_keeps_return(1)]
    by (intro keepsI) (simp split: if_splits)
  thus ?case unfolding encrypt_record_loop.simps
    by (intro eg_keeps_bind keeps_encrypt_outgoing assms Cons)
qed (simp add: eg_keeps_return)

lemma keeps_encrypt_records:
  assumes "logs_seq used E"
  shows "keeps (eg_step used) (encrypt_records classify dns_ok E rs)"
proof (rule keepsI)
  fix s tls r s' tls'
  assume m: "encrypt_records classify dns_ok E rs s tls = Some (r, s', tls')"
  have k: "keeps (eg_step used) (bindS (encrypt_record_loop classify dns_ok E rs) (\<lambda>_. returnS False))"
    by (intro eg_keeps_bind eg_keeps_return keeps_encrypt_record_loop assms)
  show "eg_step used s tls s' tls'"
    using m keepsD [OF k, of s tls r s' tls'] unfolding encrypt_records_def Let_def
    by (simp add: returnS_def failS_def split: if_splits) (simp_all add: eg_step_refl)
qed

subsection \<open>The send path as a state machine\<close>

definition sp_retired :: "('x, 'e, 'd, 'c, 'q) SendPath \<Rightarrow> bool" where
  "sp_retired sp \<longleftrightarrow> (case sp_encrypt_state sp of ES_Retired \<Rightarrow> True | _ \<Rightarrow> False)"

definition sp_inv :: "('e \<Rightarrow> u64 list) \<Rightarrow> ('x, 'e, 'd, 'c, 'q) SendPath \<Rightarrow> bool" where
  "sp_inv used sp \<longleftrightarrow> (case sp_encrypt_state sp of ES_Encrypting eg \<Rightarrow> seq_inv used eg | _ \<Rightarrow> True)"

definition sp_step ::
    "('e \<Rightarrow> u64 list) \<Rightarrow> ('x, 'e, 'd, 'c, 'q) SendPath \<Rightarrow> bytes \<Rightarrow> ('x, 'e, 'd, 'c, 'q) SendPath \<Rightarrow> bytes \<Rightarrow> bool" where
  "sp_step used sp tls sp' tls' \<longleftrightarrow>
     (\<exists>x. tls' = tls @ x) \<and> (sp_inv used sp \<longrightarrow> sp_inv used sp') \<and>
     (sp_retired sp \<longrightarrow> sp_retired sp' \<and> tls' = tls) \<and>
     (sp_has_sent_close_notify sp \<longrightarrow> sp_has_sent_close_notify sp')"

lemma sp_step_refl: "sp_step used sp tls sp tls"
  by (simp add: sp_step_def)

lemma sp_step_trans: "sp_step used a b c d \<Longrightarrow> sp_step used c d e f \<Longrightarrow> sp_step used a b e f"
  by (auto simp: sp_step_def)

lemmas sp_keeps_return = keeps_return [of "sp_step used" for used, OF sp_step_refl]

lemma sp_keeps_bind:
  "keeps (sp_step used) m \<Longrightarrow> (\<And>a. keeps (sp_step used) (f a)) \<Longrightarrow> keeps (sp_step used) (bindS m f)"
  by (rule keeps_bind) (auto intro: sp_step_trans)

lemma on_encrypting_step:
  assumes "keeps (eg_step used) m" "on_encrypting eg m sp tls = Some (r, sp', tls')"
    "sp_encrypt_state sp = ES_Encrypting eg"
  shows "sp_step used sp tls sp' tls'"
proof -
  from assms(2) obtain eg' where m: "m eg tls = Some (r, eg', tls')" and sp': "sp' = sp\<lparr>sp_encrypt_state := ES_Encrypting eg'\<rparr>"
    by (auto simp: on_encrypting_def split: option.splits)
  from keepsD [OF assms(1) m] show ?thesis
    using assms(3) sp' by (auto simp: eg_step_def sp_step_def sp_inv_def sp_retired_def)
qed

lemma encode_unencrypted_appends: "\<exists>x. encode_unencrypted r tls = tls @ x"
  by (simp add: encode_unencrypted_def copy_to_vec_eq)

lemma encode_all_unencrypted_appends: "\<exists>x. encode_all_unencrypted rs tls = tls @ x"
proof (induction rs arbitrary: tls)
  case (Cons r rs)
  obtain x where "encode_unencrypted r tls = tls @ x" using encode_unencrypted_appends by blast
  with Cons [of "tls @ x"] show ?case by auto
qed simp

lemma send_alert_step:
  assumes E: "logs_seq used E" and m: "send_alert E level desc sp tls = Some (r, sp', tls')"
  shows "sp_step used sp tls sp' tls'"
proof (cases "sp_encrypt_state sp")
  case ES_Handshake
  with m encode_unencrypted_appends show ?thesis
    by (auto simp: send_alert_def send_short_plain_def returnS_def sp_step_def sp_inv_def sp_retired_def)
next
  case (ES_Encrypting eg)
  with m obtain sp1 where o: "on_encrypting eg (send_short E (Message_build_alert level desc)) sp tls = Some (r, sp1, tls')"
    and sp': "sp' = sp1 \<or> sp' = sp1\<lparr>sp_encrypt_state := ES_Retired\<rparr>"
    by (auto simp: send_alert_def split: if_splits)
  have "sp_step used sp1 tls' sp' tls'" using sp' by (auto simp: sp_step_def sp_inv_def sp_retired_def)
  from sp_step_trans [OF on_encrypting_step [OF keeps_send_short [OF E] o ES_Encrypting] this] show ?thesis .
next
  case ES_Retired
  with m show ?thesis by (auto simp: send_alert_def returnS_def sp_step_refl)
qed

lemma send_close_notify_step:
  assumes E: "logs_seq used E" and m: "send_close_notify E sp tls = Some (r, sp', tls')"
  shows "sp_step used sp tls sp' tls'"
proof (cases "sp_has_sent_close_notify sp")
  case True
  with m show ?thesis by (auto simp: send_close_notify_def returnS_def sp_step_refl)
next
  case False
  with m have "send_alert E AlertLevel_Warning AlertDescription_CloseNotify (sp\<lparr>sp_has_sent_close_notify := True\<rparr>) tls = Some (r, sp', tls')"
    by (simp add: send_close_notify_def)
  from send_alert_step [OF E this] show ?thesis by (auto simp: sp_step_def sp_inv_def sp_retired_def)
qed

lemma keeps_send_close_notify: "logs_seq used E \<Longrightarrow> keeps (sp_step used) (send_close_notify E)"
  by (rule keepsI) (rule send_close_notify_step)

lemma keeps_close_on_limit: "logs_seq used E \<Longrightarrow> keeps (sp_step used) (close_on_limit E limit_reached r)"
  by (cases limit_reached)
    (simp_all add: close_on_limit_def sp_keeps_bind sp_keeps_return keeps_send_close_notify)

lemma encrypt_then_close_step:
  assumes E: "logs_seq used E" and k: "keeps (eg_step used) m" and st: "sp_encrypt_state sp = ES_Encrypting eg"
    and b: "bindS (on_encrypting eg m) (\<lambda>limit_reached. close_on_limit E limit_reached len) sp tls = Some (r, sp', tls')"
  shows "sp_step used sp tls sp' tls'"
proof -
  from b obtain r1 sp1 tls1 where o: "on_encrypting eg m sp tls = Some (r1, sp1, tls1)"
    by (auto simp: bindS_def split: option.splits)
  note s1 = on_encrypting_step [OF k o st]
  show ?thesis
  proof (cases r1)
    case (Inl e)
    with b o s1 show ?thesis by (simp add: bindS_def)
  next
    case (Inr limit)
    with b o have "close_on_limit E limit len sp1 tls1 = Some (r, sp', tls')" by (simp add: bindS_def)
    from sp_step_trans [OF s1 keepsD [OF keeps_close_on_limit [OF E] this]] show ?thesis .
  qed
qed

lemma keeps_dependent: "(\<And>s0. keeps R (f s0)) \<Longrightarrow> keeps R (\<lambda>s. f s s)"
  by (simp add: keeps_def)

lemma send_appdata_encrypt_cases:
  assumes "send_appdata_encrypt classify dns_ok E data sp tls = Some (r, sp', tls')"
  obtains (fails) "sp' = sp" "tls' = tls" "isl r"
  | (sends) eg payload where "sp_encrypt_state sp = ES_Encrypting eg"
      "data = Early payload \<or> data = Traffic payload \<and> sp_may_send_application_data sp"
      "sp_has_sent_close_notify sp \<longrightarrow> OutboundPlain_is_empty payload"
      "bindS (on_encrypting eg (bindS write_queued (\<lambda>_ eg.
          encrypt_records classify dns_ok E (Fragmenter_fragment (sp_fragmenter sp)
            ContentType_ApplicationData (Legacy ProtocolVersion_TLSv1_2) payload (encrypted_len E eg 0)) eg)))
        (\<lambda>limit_reached. close_on_limit E limit_reached (OutboundPlain_len payload)) sp tls = Some (r, sp', tls')"
proof (cases "sp_encrypt_state sp")
  case (ES_Encrypting eg)
  with assms sends show ?thesis
    by (cases data) (auto simp: send_appdata_encrypt_def Let_def failS_def intro: fails split: if_splits)
qed (use assms fails in \<open>auto simp: send_appdata_encrypt_def Let_def failS_def split: if_splits DataKind.splits prod.splits\<close>)

lemma send_appdata_encrypt_step:
  assumes E: "logs_seq used E" and m: "send_appdata_encrypt classify dns_ok E data sp tls = Some (r, sp', tls')"
  shows "sp_step used sp tls sp' tls'"
  using m
proof (cases rule: send_appdata_encrypt_cases)
  case fails
  thus ?thesis by (simp add: sp_step_refl)
next
  case (sends eg payload)
  show ?thesis
    by (rule encrypt_then_close_step [OF E _ sends(1) sends(4)])
      (rule eg_keeps_bind [OF keeps_write_queued], rule keeps_dependent, rule keeps_encrypt_records [OF E])
qed

lemma send_msg_step:
  assumes E: "logs_seq used E" and m: "send_msg classify dns_ok E msg must_encrypt sp tls = Some (r, sp', tls')"
  shows "sp_step used sp tls sp' tls'"
proof (cases "sp_encrypt_state sp")
  case ES_Retired
  with m show ?thesis by (auto simp: send_msg_def Let_def failS_def sp_step_refl)
next
  case ES_Handshake
  with m show ?thesis using encode_all_unencrypted_appends
    by (auto simp: send_msg_def Let_def failS_def returnS_def sp_step_def sp_retired_def split: if_splits)
next
  case (ES_Encrypting eg)
  show ?thesis
  proof (cases must_encrypt)
    case False
    with m ES_Encrypting show ?thesis using encode_all_unencrypted_appends
      by (auto simp: send_msg_def Let_def failS_def returnS_def sp_step_def sp_retired_def split: if_splits)
  next
    case True
    with m ES_Encrypting have b: "bindS (on_encrypting eg (\<lambda>eg. bindS write_queued (\<lambda>_.
          encrypt_records classify dns_ok E (Fragmenter_fragment (sp_fragmenter sp)
            (rec_typ (Record_from_Message msg)) (rec_version (Record_from_Message msg))
            (OP_Single (rec_payload (Record_from_Message msg))) (encrypted_len E eg 0))) eg))
        (\<lambda>limit_reached. close_on_limit E limit_reached ()) sp tls = Some (r, sp', tls')"
      by (simp add: send_msg_def Let_def)
    show ?thesis
      by (rule encrypt_then_close_step [OF E _ ES_Encrypting b])
        (rule keeps_dependent, rule eg_keeps_bind [OF keeps_write_queued], rule keeps_encrypt_records [OF E])
  qed
qed

lemma refresh_traffic_keys_step:
  assumes E: "logs_seq used E" and m: "refresh_traffic_keys classify dns_ok E sp tls = Some (r, sp', tls')"
  shows "sp_step used sp tls sp' tls'"
proof (cases "sp_encrypt_state sp")
  case (ES_Encrypting eg)
  show ?thesis
  proof (cases "eg_key_update_local eg = KeyUpdateLocal_Outstanding")
    case True
    with m ES_Encrypting show ?thesis by (auto simp: refresh_traffic_keys_def returnS_def sp_step_refl)
  next
    case False
    with m ES_Encrypting have "on_encrypting eg (send_key_update_request classify dns_ok E) sp tls = Some (r, sp', tls')"
      by (simp add: refresh_traffic_keys_def)
    from on_encrypting_step [OF keeps_send_key_update_request [OF E] this ES_Encrypting] show ?thesis .
  qed
qed (use m in \<open>auto simp: refresh_traffic_keys_def failS_def sp_step_refl split: if_splits\<close>)

lemma seq_inv_remote [simp]: "seq_inv used (eg\<lparr>eg_key_update_remote := k\<rparr>) = seq_inv used eg"
  "seq_inv used (eg\<lparr>eg_key_update_local := l\<rparr>) = seq_inv used eg"
  by (simp_all add: seq_inv_def)

lemma queue_requested_key_update_step:
  assumes E: "logs_seq used E" and m: "queue_requested_key_update classify dns_ok E sp = Some (r, sp')"
  shows "sp_step used sp tls sp' tls"
proof (cases "sp_encrypt_state sp")
  case (ES_Encrypting eg)
  show ?thesis
  proof (cases "eg_key_update_remote eg")
    case (KeyUpdateRemote_Queued q)
    with m ES_Encrypting show ?thesis by (simp add: queue_requested_key_update_def sp_step_refl)
  next
    case KeyUpdateRemote_Idle
    with m ES_Encrypting obtain r1 eg1 queued
      where s: "send_short E (Message_build_key_update_notify classify dns_ok) eg [] = Some (r1, eg1, queued)"
      by (auto simp: queue_requested_key_update_def split: option.splits)
    have inv: "seq_inv used eg \<longrightarrow> seq_inv used eg1" using keepsD [OF keeps_send_short [OF E] s] by (simp add: eg_step_def)
    have "\<exists>eg'. sp' = sp\<lparr>sp_encrypt_state := ES_Encrypting eg'\<rparr> \<and> (seq_inv used eg1 \<longrightarrow> seq_inv used eg')"
    proof (cases "isl r1 \<or> eg_tls13_key_schedule eg1 = None")
      case True
      with m ES_Encrypting KeyUpdateRemote_Idle s show ?thesis
        by (cases r1) (auto simp: queue_requested_key_update_def)
    next
      case False
      then obtain a ks where a: "r1 = Inr a" "eg_tls13_key_schedule eg1 = Some ks" by (cases r1) auto
      with m ES_Encrypting KeyUpdateRemote_Idle s obtain enc ks' where u: "update_encrypter_for_key_update ks = Some (enc, ks')"
        and sp': "sp' = sp\<lparr>sp_encrypt_state := ES_Encrypting (install_encrypter enc
          (eg1\<lparr>eg_key_update_remote := KeyUpdateRemote_Queued queued, eg_tls13_key_schedule := Some ks'\<rparr>))\<rparr>"
        by (auto simp: queue_requested_key_update_def Let_def EncryptionState_set_encrypter_def split: option.splits)
      have "seq_inv used (install_encrypter enc
          (eg1\<lparr>eg_key_update_remote := KeyUpdateRemote_Queued queued, eg_tls13_key_schedule := Some ks'\<rparr>))"
        if "seq_inv used eg1"
      proof -
        from that a have "fresh_schedule used ks" by (simp add: seq_inv_def)
        from update_encrypter_for_key_update_fresh [OF u this] show ?thesis by (intro seq_inv_install) simp_all
      qed
      with sp' show ?thesis by blast
    qed
    with inv ES_Encrypting show ?thesis by (auto simp: sp_step_def sp_inv_def sp_retired_def)
  qed
qed (use m in \<open>auto simp: queue_requested_key_update_def sp_step_refl\<close>)

lemma note_key_update_response_step: "sp_step used sp tls (note_key_update_response sp) tls"
  by (cases "sp_encrypt_state sp")
    (auto simp: note_key_update_response_def sp_step_def sp_inv_def sp_retired_def)

lemma set_encrypter_step:
  assumes "used (en_encrypter enc) = []"
  shows "sp_step used sp tls (SendOutput_set_encrypter enc sp) tls"
proof (cases "sp_encrypt_state sp")
  case ES_Handshake
  with assms show ?thesis
    by (simp add: SendOutput_set_encrypter_def EncryptionState_set_encrypter_def sp_step_def sp_inv_def sp_retired_def
        seq_inv_def SEQ_HARD_LIMIT_def)
next
  case (ES_Encrypting eg)
  with seq_inv_install [of used enc eg] assms show ?thesis
    by (simp add: SendOutput_set_encrypter_def EncryptionState_set_encrypter_def sp_step_def sp_inv_def sp_retired_def
        seq_inv_def)
next
  case ES_Retired
  thus ?thesis
    by (simp add: SendOutput_set_encrypter_def EncryptionState_set_encrypter_def sp_step_def sp_inv_def sp_retired_def)
qed

lemma update_key_schedule_step:
  assumes "fresh_schedule used ks"
  shows "sp_step used sp tls (update_key_schedule ks sp) tls"
  using assms by (cases "sp_encrypt_state sp")
    (auto simp: update_key_schedule_def sp_step_def sp_inv_def sp_retired_def seq_inv_def)

text \<open>
  Every operation of the send path as a transition. The encrypters the handshake installs are
  new, and so are those the schedule it hands over will make.
\<close>

inductive send_step ::
    "(bytes \<Rightarrow> ServerNameKind) \<Rightarrow> (bytes \<Rightarrow> bool) \<Rightarrow> 'e RecordEncrypter \<Rightarrow> ('e \<Rightarrow> u64 list) \<Rightarrow>
     ('x, 'e, 'd, 'c, 'q) SendPath \<times> bytes \<Rightarrow> ('x, 'e, 'd, 'c, 'q) SendPath \<times> bytes \<Rightarrow> bool"
  for classify dns_ok E used where
  alert: "send_alert E level desc sp tls = Some (r, sp', tls') \<Longrightarrow> send_step classify dns_ok E used (sp, tls) (sp', tls')"
| close: "send_close_notify E sp tls = Some (r, sp', tls') \<Longrightarrow> send_step classify dns_ok E used (sp, tls) (sp', tls')"
| appdata: "send_appdata_encrypt classify dns_ok E data sp tls = Some (r', sp', tls') \<Longrightarrow>
    send_step classify dns_ok E used (sp, tls) (sp', tls')"
| msg: "send_msg classify dns_ok E m must_encrypt sp tls = Some (r, sp', tls') \<Longrightarrow>
    send_step classify dns_ok E used (sp, tls) (sp', tls')"
| refresh: "refresh_traffic_keys classify dns_ok E sp tls = Some (r, sp', tls') \<Longrightarrow>
    send_step classify dns_ok E used (sp, tls) (sp', tls')"
| queue: "queue_requested_key_update classify dns_ok E sp = Some (r, sp') \<Longrightarrow>
    send_step classify dns_ok E used (sp, tls) (sp', tls)"
| response: "send_step classify dns_ok E used (sp, tls) (note_key_update_response sp, tls)"
| encrypter: "used (en_encrypter enc) = [] \<Longrightarrow>
    send_step classify dns_ok E used (sp, tls) (SendOutput_set_encrypter enc sp, tls)"
| schedule: "fresh_schedule used ks \<Longrightarrow>
    send_step classify dns_ok E used (sp, tls) (update_key_schedule ks sp, tls)"
| fragment_size: "SendPath_set_max_fragment_size new sp = (r, sp') \<Longrightarrow>
    send_step classify dns_ok E used (sp, tls) (sp', tls)"
| traffic: "send_step classify dns_ok E used (sp, tls) (SendOutput_start_traffic sp, tls)"
| outgoing: "send_step classify dns_ok E used (sp, tls) (start_outgoing_traffic sp, tls)"
| version: "send_step classify dns_ok E used (sp, tls) (SendOutput_negotiated_version v sp, tls)"

lemma pure_steps:
  "SendPath_set_max_fragment_size new sp = (r, sp') \<Longrightarrow> sp_step used sp tls sp' tls"
  "sp_step used sp tls (SendOutput_start_traffic sp) tls"
  "sp_step used sp tls (start_outgoing_traffic sp) tls"
  "sp_step used sp tls (SendOutput_negotiated_version v sp) tls"
  by (auto simp: SendPath_set_max_fragment_size_def SendOutput_start_traffic_def start_outgoing_traffic_def
      SendOutput_negotiated_version_def sp_step_def sp_inv_def sp_retired_def split: sum.splits)

lemma send_step_sound:
  assumes E: "logs_seq used E" and "send_step classify dns_ok E used c c'"
  shows "sp_step used (fst c) (snd c) (fst c') (snd c')"
  using assms(2)
  by cases (auto intro: send_alert_step [OF E] send_close_notify_step [OF E] send_appdata_encrypt_step [OF E]
      send_msg_step [OF E] refresh_traffic_keys_step [OF E] queue_requested_key_update_step [OF E]
      note_key_update_response_step set_encrypter_step update_key_schedule_step pure_steps)

lemma send_steps_sound:
  assumes E: "logs_seq used E" and "(send_step classify dns_ok E used)\<^sup>*\<^sup>* c c'"
  shows "sp_step used (fst c) (snd c) (fst c') (snd c')"
  using assms(2) by (induction rule: rtranclp_induct) (auto intro: sp_step_refl sp_step_trans send_step_sound [OF E])

text \<open>
  When the cipher refuses a record, the space reserved for it stays in the output: an all-zero header
  and whatever the cipher left.
\<close>

lemma encrypt_error_keeps_output:
  assumes "eg_write_seq eg < SEQ_HARD_LIMIT"
    and "re_encrypt E (eg_encrypter eg) plain (eg_write_seq eg)
           (replicate (encrypted_len E eg (OutboundPlain_len (rec_payload plain))) 0) =
         Some (Inl err, e', body)"
  shows "\<exists>eg'. encrypt_outgoing E plain eg tls = Some (Inl err, eg', tls @ replicate HEADER_SIZE 0 @ body)"
  using assms by (simp add: encrypt_outgoing_def encrypt_outgoing_into_def Let_def)

end
