(* ===== verification/Receive_Path.thy ===== *)
theory Receive_Path
  imports Send_Path Deframer
begin

text \<open>
  The data path from the peer (\<open>rustls/src/conn/receive.rs\<close>): records are cut out of the input
  buffer, decrypted in place, and either returned or fed to the deframer until it has a whole
  handshake message; then alerts, middlebox records and renegotiation requests are taken out of
  the stream. The input buffer is passed and returned; \<open>None\<close> is a panic. The cipher is the
  parameter \<open>D\<close>, that of the sending side \<open>E\<close>.
\<close>

subsection \<open>Limits on what a peer may do\<close>

record TemperCounters =
  tc_allowed_warning_alerts :: u8
  tc_allowed_renegotiation_requests :: u8
  tc_allowed_middlebox_ccs :: u8

definition TemperCounters_default :: TemperCounters where
  "TemperCounters_default = \<lparr>tc_allowed_warning_alerts = 4, tc_allowed_renegotiation_requests = 1,
     tc_allowed_middlebox_ccs = 2\<rparr>"

definition received_warning_alert :: "TemperCounters \<Rightarrow> Error + TemperCounters" where
  "received_warning_alert tc =
     (if tc_allowed_warning_alerts tc = 0 then Inl (Error_PeerMisbehaved TooManyWarningAlertsReceived)
      else Inr (tc\<lparr>tc_allowed_warning_alerts := tc_allowed_warning_alerts tc - 1\<rparr>))"

definition received_renegotiation_request :: "TemperCounters \<Rightarrow> Error + TemperCounters" where
  "received_renegotiation_request tc =
     (if tc_allowed_renegotiation_requests tc = 0 then Inl (Error_PeerMisbehaved TooManyRenegotiationRequests)
      else Inr (tc\<lparr>tc_allowed_renegotiation_requests := tc_allowed_renegotiation_requests tc - 1\<rparr>))"

definition received_tls13_change_cipher_spec :: "TemperCounters \<Rightarrow> Error + TemperCounters" where
  "received_tls13_change_cipher_spec tc =
     (if tc_allowed_middlebox_ccs tc = 0 then Inl (Error_PeerMisbehaved IllegalMiddleboxChangeCipherSpec)
      else Inr (tc\<lparr>tc_allowed_middlebox_ccs := tc_allowed_middlebox_ccs tc - 1\<rparr>))"

record TrafficTemperCounters =
  ttc_allowed_consecutive_handshake_messages :: u8

definition MAX_CONSECUTIVE_HANDSHAKE_MESSAGES :: u8 where
  "MAX_CONSECUTIVE_HANDSHAKE_MESSAGES = 32"

definition TrafficTemperCounters_default :: TrafficTemperCounters where
  "TrafficTemperCounters_default =
     \<lparr>ttc_allowed_consecutive_handshake_messages = MAX_CONSECUTIVE_HANDSHAKE_MESSAGES\<rparr>"

definition received_handshake_message :: "TrafficTemperCounters \<Rightarrow> Error + TrafficTemperCounters" where
  "received_handshake_message t =
     (if ttc_allowed_consecutive_handshake_messages t = 0
      then Inl (Error_PeerMisbehaved TooManyConsecutiveHandshakeMessagesAfterHandshake)
      else Inr (t\<lparr>ttc_allowed_consecutive_handshake_messages := ttc_allowed_consecutive_handshake_messages t - 1\<rparr>))"

definition received_app_data :: "TrafficTemperCounters \<Rightarrow> TrafficTemperCounters" where
  "received_app_data t = t\<lparr>ttc_allowed_consecutive_handshake_messages := MAX_CONSECUTIVE_HANDSHAKE_MESSAGES\<rparr>"

definition ALLOWED_CONSECUTIVE_EMPTY_FRAGMENTS_MAX :: u8 where
  "ALLOWED_CONSECUTIVE_EMPTY_FRAGMENTS_MAX = 32"

subsection \<open>State\<close>

record 'd ReceivePath =
  rp_side :: Side
  rp_decrypt_state :: "'d DecryptionState"
  rp_may_receive_application_data :: bool
  rp_has_received_close_notify :: bool
  rp_temper_counters :: TemperCounters
  rp_negotiated_version :: "ProtocolVersion option"
  rp_deframer :: Deframer
  rp_seen_consecutive_empty_fragments :: u8
  rp_tls13_tickets_received :: u32

definition ReceivePath_new :: "Side \<Rightarrow> 'd ReceivePath" where
  "ReceivePath_new side = \<lparr>rp_side = side, rp_decrypt_state = DecryptionState_new,
     rp_may_receive_application_data = False, rp_has_received_close_notify = False,
     rp_temper_counters = TemperCounters_default, rp_negotiated_version = None,
     rp_deframer = Deframer_default, rp_seen_consecutive_empty_fragments = 0, rp_tls13_tickets_received = 0\<rparr>"

subsection \<open>Records out of the buffer\<close>

text \<open>The location of a plaintext is relative to the whole input buffer.\<close>

datatype DeframeResult = DR_Decrypted Decrypted usize usize | DR_DecryptionFailed | DR_None

definition locate :: "usize \<Rightarrow> Located \<Rightarrow> Located" where
  "locate offset l = l\<lparr>lo_start := offset + lo_start l\<rparr>"

definition allowed_plaintext :: "bytes Record \<Rightarrow> 'd ReceivePath \<Rightarrow> bool" where
  "allowed_plaintext rec rp \<longleftrightarrow>
     rec_typ rec = ContentType_ChangeCipherSpec \<or>
     rec_typ rec = ContentType_Alert \<and> rp_negotiated_version rp = Some ProtocolVersion_TLSv1_3 \<and>
       \<not> ds_has_decrypted (rp_decrypt_state rp) \<and> length (rec_payload rec) \<le> 2"

text \<open>
  Decryption writes within the payload of its record: a result of another length is not one a
  slice could have.
\<close>

definition decrypt_deframed ::
    "'d RecordDecrypter \<Rightarrow> Deframed \<Rightarrow> bytes \<Rightarrow> 'd ReceivePath \<Rightarrow>
     ((Error + DeframeResult) \<times> 'd ReceivePath \<times> bytes) option" where
  "decrypt_deframed D deframed buf rp =
     (let rec = dfd_record deframed;
          offset = dfd_start deframed + HEADER_SIZE in
      case decrypt_incoming D rec (rp_decrypt_state rp) of
        None \<Rightarrow> None
      | Some (r, ds, payload) \<Rightarrow>
          if length payload \<noteq> length (rec_payload rec) then None
          else
            let rp = rp\<lparr>rp_decrypt_state := ds\<rparr>;
                buf = write_at offset payload buf in
            (case r of
               Inl err \<Rightarrow> Some (Inl err, rp, buf)
             | Inr (Some decrypted) \<Rightarrow>
                 let l = locate offset (dc_plaintext decrypted) in
                 Some (Inr (DR_Decrypted (decrypted\<lparr>dc_plaintext := l\<rparr>) (lo_start l) (lo_start l + lo_len l)), rp, buf)
             | Inr None \<Rightarrow>
                 if Deframer_aligned (rp_deframer rp) = None
                 then Some (Inl (Error_PeerMisbehaved RejectedEarlyDataInterleavedWithHandshakeMessage), rp, buf)
                 else Some (Inr DR_DecryptionFailed, rp, buf)))"

definition deframe_decrypted ::
    "'d RecordDecrypter \<Rightarrow> bytes \<Rightarrow> 'd ReceivePath \<Rightarrow> ((Error + DeframeResult) \<times> 'd ReceivePath \<times> bytes) option" where
  "deframe_decrypted D buf rp = (case Deframer_deframe buf (rp_deframer rp) of
     (None, d) \<Rightarrow> Some (Inr DR_None, rp\<lparr>rp_deframer := d\<rparr>, buf)
   | (Some (Inl err), d) \<Rightarrow> Some (Inl err, rp\<lparr>rp_deframer := d\<rparr>, buf)
   | (Some (Inr deframed), d) \<Rightarrow>
       let rp = rp\<lparr>rp_deframer := d\<rparr>;
           rec = dfd_record deframed in
       if allowed_plaintext rec rp \<and> \<not> Deframer_is_active d
       then Some (Inr (DR_Decrypted \<lparr>dc_want_close_before_decrypt = False,
           dc_plaintext = locate (dfd_start deframed + HEADER_SIZE) (located_front (into_plain_record rec))\<rparr>
           (dfd_start deframed) (dfd_end deframed)), rp, buf)
       else decrypt_deframed D deframed buf rp)"

text \<open>The record handed to the caller.\<close>

record DecryptedRecord =
  dr_plaintext :: "bytes Record"
  dr_want_close_before_decrypt :: bool

text \<open>The bookkeeping of empty fragments.\<close>

definition count_empty_fragments :: "Located \<Rightarrow> 'd ReceivePath \<Rightarrow> Error + 'd ReceivePath" where
  "count_empty_fragments l rp =
     (if lo_len l = 0 then
        if rp_seen_consecutive_empty_fragments rp = ALLOWED_CONSECUTIVE_EMPTY_FRAGMENTS_MAX
        then Inl (Error_PeerMisbehaved TooManyEmptyFragments)
        else Inr (rp\<lparr>rp_seen_consecutive_empty_fragments := rp_seen_consecutive_empty_fragments rp + 1\<rparr>)
      else if lo_typ l \<in> {ContentType_Handshake, ContentType_ApplicationData}
      then Inr (rp\<lparr>rp_seen_consecutive_empty_fragments := 0\<rparr>)
      else Inr rp)"

lemma deframe_decrypted_progress:
  assumes "deframe_decrypted D buf rp = Some (Inr r, rp', buf')" "r \<noteq> DR_None"
  shows "length buf' = length buf" "df_processed (rp_deframer rp) < df_processed (rp_deframer rp')"
    "df_processed (rp_deframer rp') \<le> length buf"
  using assms
  by (auto simp: deframe_decrypted_def decrypt_deframed_def Let_def Deframer_deframe_def HEADER_SIZE_def
      split: prod.splits option.splits sum.splits if_splits RecordError.splits)

text \<open>The inner loop, which skips records that fail trial decryption.\<close>

function deframe_next ::
    "'d RecordDecrypter \<Rightarrow> bytes \<Rightarrow> 'd ReceivePath \<Rightarrow>
     ((Error + (Decrypted \<times> usize \<times> usize) option) \<times> 'd ReceivePath \<times> bytes) option" where
  "deframe_next D buf rp = (case deframe_decrypted D buf rp of
     None \<Rightarrow> None
   | Some (Inl err, rp, buf) \<Rightarrow> Some (Inl err, rp, buf)
   | Some (Inr (DR_Decrypted decrypted start fin), rp, buf) \<Rightarrow> Some (Inr (Some (decrypted, start, fin)), rp, buf)
   | Some (Inr DR_DecryptionFailed, rp, buf) \<Rightarrow> deframe_next D buf rp
   | Some (Inr DR_None, rp, buf) \<Rightarrow> Some (Inr None, rp, buf))"
  by pat_completeness auto
termination
proof (relation "measure (\<lambda>(_, buf, rp). length buf - df_processed (rp_deframer rp))", goal_cases)
  case (2 D buf rp)
  thus ?case using deframe_decrypted_progress by fastforce
qed simp

declare deframe_next.simps [simp del]

lemma deframe_next_progress:
  "deframe_next D buf rp = Some (Inr (Some r), rp', buf') \<Longrightarrow>
    length buf' = length buf \<and> df_processed (rp_deframer rp) < df_processed (rp_deframer rp') \<and>
    df_processed (rp_deframer rp') \<le> length buf"
proof (induction D buf rp rule: deframe_next.induct)
  case (1 D buf rp)
  from "1.prems" obtain x rp1 buf1 where d: "deframe_decrypted D buf rp = Some (Inr x, rp1, buf1)"
    by (subst (asm) deframe_next.simps) (auto split: option.splits sum.splits prod.splits)
  with "1.prems" have "x \<noteq> DR_None" by (subst (asm) deframe_next.simps) auto
  note p = deframe_decrypted_progress [OF d this]
  show ?case
  proof (cases x)
    case (DR_Decrypted dc a b)
    with "1.prems" d have "rp' = rp1" "buf' = buf1" by (subst (asm) deframe_next.simps, simp)+
    with p show ?thesis by simp
  next
    case DR_DecryptionFailed
    with "1.prems" d have "deframe_next D buf1 rp1 = Some (Inr (Some r), rp', buf')"
      by (subst (asm) deframe_next.simps) simp
    with "1.IH" [OF d refl refl _ refl this] DR_DecryptionFailed p show ?thesis by auto
  qed (use \<open>x \<noteq> DR_None\<close> in simp)
qed

lemma coalesce_one_keeps:
  assumes "coalesce_one index buf d = Some (d', buf')"
  shows "length buf' = length buf" "df_processed d' = df_processed d"
proof -
  have "df_processed (insert_spans i ss e) = df_processed e" for i ss e
    by (induction i ss e rule: insert_spans.induct) simp_all
  with assms show "df_processed d' = df_processed d"
    by (auto simp: coalesce_one_def Let_def bind_eq_Some_conv)
  show "length buf' = length buf" using assms
    by (auto simp: coalesce_one_def Let_def bind_eq_Some_conv copy_within_def length_slice split: if_splits)
qed

lemma Deframer_coalesce_keeps:
  "Deframer_coalesce buf d = Some (r, d', buf') \<Longrightarrow> length buf' = length buf \<and> df_processed d' = df_processed d"
proof (induction buf d rule: Deframer_coalesce.induct)
  case (1 buf d)
  show ?case
  proof (cases "df_too_large d \<or> first_incomplete (df_spans d) = None")
    case True
    with "1.prems" show ?thesis by (subst (asm) Deframer_coalesce.simps) (auto split: if_splits)
  next
    case False
    then obtain index where i: "first_incomplete (df_spans d) = Some index" "\<not> df_too_large d" by auto
    with "1.prems" obtain d1 buf1 where c: "coalesce_one index buf d = Some (d1, buf1)"
      "Deframer_coalesce buf1 d1 = Some (r, d', buf')"
      by (subst (asm) Deframer_coalesce.simps) (auto split: option.splits)
    from "1.IH" [OF i(2,1) c(1) refl c(2)] coalesce_one_keeps [OF c(1)] show ?thesis by simp
  qed
qed

lemma input_message_processed [simp]:
  "df_processed (Deframer_input_message version start fin buf d) = df_processed d"
  by (simp add: Deframer_input_message_def push_spans_eq)

lemma count_empty_fragments_deframer:
  "count_empty_fragments l rp = Inr rp' \<Longrightarrow> rp_deframer rp' = rp_deframer rp"
  by (auto simp: count_empty_fragments_def split: if_splits)

text \<open>
  The outer loop. A handshake record goes to the deframer; the loop goes round until a whole
  message is there, or the buffer is used up.
\<close>

function deframe_loop ::
    "'d RecordDecrypter \<Rightarrow> bool \<Rightarrow> bytes \<Rightarrow> 'd ReceivePath \<Rightarrow>
     ((Error + DecryptedRecord option) \<times> 'd ReceivePath \<times> bytes) option" where
  "deframe_loop D want_close_before_decrypt buf rp =
     (case Deframer_complete_span (rp_deframer rp) of
        (Some span, d) \<Rightarrow> (case Deframer_record span buf d of
            None \<Rightarrow> None
          | Some (plaintext, d) \<Rightarrow> Some (Inr (Some \<lparr>dr_plaintext = plaintext,
                dr_want_close_before_decrypt = want_close_before_decrypt\<rparr>),
              rp\<lparr>rp_deframer := d, rp_decrypt_state := finish_trial_decryption (rp_decrypt_state rp)\<rparr>, buf))
      | (None, _) \<Rightarrow> (case deframe_next D buf rp of
            None \<Rightarrow> None
          | Some (Inl err, rp, buf) \<Rightarrow> Some (Inl err, rp, buf)
          | Some (Inr None, rp, buf) \<Rightarrow> Some (Inr None, rp, buf)
          | Some (Inr (Some (decrypted, start, fin)), rp, buf) \<Rightarrow>
              let want_close_before_decrypt = dc_want_close_before_decrypt decrypted;
                  l = dc_plaintext decrypted in
              if Deframer_aligned (rp_deframer rp) = None \<and> lo_typ l \<noteq> ContentType_Handshake
              then Some (Inl (Error_PeerMisbehaved MessageInterleavedWithHandshakeMessage), rp, buf)
              else (case count_empty_fragments l rp of
                  Inl err \<Rightarrow> Some (Inl err, rp, buf)
                | Inr rp \<Rightarrow>
                    if lo_typ l \<noteq> ContentType_Handshake
                    then Some (Inr (Some \<lparr>dr_plaintext = reborrow buf l,
                        dr_want_close_before_decrypt = want_close_before_decrypt\<rparr>),
                      rp\<lparr>rp_deframer := Deframer_discard_processed (rp_deframer rp)\<rparr>, buf)
                    else (case Deframer_coalesce buf (Deframer_input_message
                        (EncodableVersion_version (lo_version l)) start fin buf (rp_deframer rp)) of
                      None \<Rightarrow> None
                    | Some (Inl err, d, buf) \<Rightarrow> Some (Inl (Error_InvalidMessage err), rp\<lparr>rp_deframer := d\<rparr>, buf)
                    | Some (Inr _, d, buf) \<Rightarrow> deframe_loop D want_close_before_decrypt buf (rp\<lparr>rp_deframer := d\<rparr>)))))"
  by pat_completeness auto
termination
  by (relation "measure (\<lambda>(_, _, buf, rp). length buf - df_processed (rp_deframer rp))")
    (auto dest!: deframe_next_progress Deframer_coalesce_keeps count_empty_fragments_deframer)

declare deframe_loop.simps [simp del]

definition ReceivePath_deframe ::
    "'d RecordDecrypter \<Rightarrow> bytes \<Rightarrow> 'd ReceivePath \<Rightarrow>
     ((Error + DecryptedRecord option) \<times> 'd ReceivePath \<times> bytes) option" where
  "ReceivePath_deframe D buf rp = deframe_loop D False buf rp"

subsection \<open>From records to inputs of the state machine\<close>

definition drop_tls13_ccs :: "bytes Record \<Rightarrow> 'd ReceivePath \<Rightarrow> (Error + bool) \<times> 'd ReceivePath" where
  "drop_tls13_ccs rec rp =
     (if rp_may_receive_application_data rp \<or> rp_negotiated_version rp \<noteq> Some ProtocolVersion_TLSv1_3
      then (Inr False, rp)
      else if \<not> is_valid_ccs rec
      then (Inl (Error_PeerMisbehaved IllegalMiddleboxChangeCipherSpec), rp)
      else case received_tls13_change_cipher_spec (rp_temper_counters rp) of
        Inl e \<Rightarrow> (Inl e, rp)
      | Inr tc \<Rightarrow> (Inr True, rp\<lparr>rp_temper_counters := tc\<rparr>))"

definition reject_renegotiation_request ::
    "'e RecordEncrypter \<Rightarrow> Message \<Rightarrow> 'd ReceivePath \<Rightarrow> ('x, 'e, 'd, 'c, 'q) SendPath \<Rightarrow> bytes \<Rightarrow>
     ((Error + bool) \<times> 'd ReceivePath \<times> ('x, 'e, 'd, 'c, 'q) SendPath \<times> bytes) option" where
  "reject_renegotiation_request E msg rp sp tls =
     (if \<not> rp_may_receive_application_data rp \<or> rp_negotiated_version rp = Some ProtocolVersion_TLSv1_3
      then Some (Inr False, rp, sp, tls)
      else
        let reject_ty = (case rp_side rp of Side_Client \<Rightarrow> HandshakeType_HelloRequest
              | Side_Server \<Rightarrow> HandshakeType_ClientHello) in
        if Message_handshake_type msg \<noteq> Some reject_ty then Some (Inr False, rp, sp, tls)
        else case received_renegotiation_request (rp_temper_counters rp) of
          Inl e \<Rightarrow> Some (Inl e, rp, sp, tls)
        | Inr tc \<Rightarrow>
            let rp = rp\<lparr>rp_temper_counters := tc\<rparr> in
            (case send_alert E AlertLevel_Warning AlertDescription_NoRenegotiation sp tls of
               None \<Rightarrow> None
             | Some (Inl e, sp, tls) \<Rightarrow> Some (Inl e, rp, sp, tls)
             | Some (Inr _, sp, tls) \<Rightarrow> Some (Inr True, rp, sp, tls)))"

definition process_alert :: "AlertMessagePayload \<Rightarrow> 'd ReceivePath \<Rightarrow> (Error + unit) \<times> 'd ReceivePath" where
  "process_alert alert rp =
     (if al_level alert \<notin> set AlertLevel_known
      then (Inl (Error_PeerMisbehaved (IllegalAlertLevel (al_level alert) (al_description alert))), rp)
      else if rp_may_receive_application_data rp \<and> al_description alert = AlertDescription_CloseNotify
      then (Inr (), rp\<lparr>rp_has_received_close_notify := True\<rparr>)
      else if al_level alert = AlertLevel_Warning
      then (case received_warning_alert (rp_temper_counters rp) of
          Inl e \<Rightarrow> (Inl e, rp)
        | Inr tc \<Rightarrow>
            let rp = rp\<lparr>rp_temper_counters := tc\<rparr> in
            if rp_negotiated_version rp = Some ProtocolVersion_TLSv1_3 \<and> al_description alert \<noteq> AlertDescription_UserCanceled
            then (Inl (Error_PeerMisbehaved (IllegalWarningAlert (al_description alert))), rp)
            else (Inr (), rp))
      else (Inl (Error_AlertReceived (al_description alert)), rp))"

record Input =
  in_message :: Message
  in_aligned_handshake :: "unit option"

definition check_aligned_handshake :: "Input \<Rightarrow> Error + unit" where
  "check_aligned_handshake i = (case in_aligned_handshake i of
     Some proof_of_alignment \<Rightarrow> Inr proof_of_alignment
   | None \<Rightarrow> Inl (Error_PeerMisbehaved KeyEpochWithPendingFragment))"

definition receive_record ::
    "(bytes \<Rightarrow> ServerNameKind) \<Rightarrow> (bytes \<Rightarrow> bool) \<Rightarrow> 'e RecordEncrypter \<Rightarrow> bytes Record \<Rightarrow> unit option \<Rightarrow>
     'd ReceivePath \<Rightarrow> ('x, 'e, 'd, 'c, 'q) SendPath \<Rightarrow> bytes \<Rightarrow>
     ((Error + Input option) \<times> 'd ReceivePath \<times> ('x, 'e, 'd, 'c, 'q) SendPath \<times> bytes) option" where
  "receive_record classify dns_ok E rec aligned rp sp tls =
     (let (dropped, rp) = (if rec_typ rec = ContentType_ChangeCipherSpec then drop_tls13_ccs rec rp else (Inr False, rp)) in
      case dropped of
        Inl e \<Rightarrow> Some (Inl e, rp, sp, tls)
      | Inr True \<Rightarrow> Some (Inr None, rp, sp, tls)
      | Inr False \<Rightarrow> (case Message_try_from classify dns_ok rec of
          Inl e \<Rightarrow> Some (Inl (Error_InvalidMessage e), rp, sp, tls)
        | Inr message \<Rightarrow> (case msg_payload message of
            MP_Alert alert \<Rightarrow>
              let (r, rp) = process_alert alert rp in
              Some (map_Inr (\<lambda>_. None) r, rp, sp, tls)
          | _ \<Rightarrow> (case reject_renegotiation_request E message rp sp tls of
              None \<Rightarrow> None
            | Some (Inl e, rp, sp, tls) \<Rightarrow> Some (Inl e, rp, sp, tls)
            | Some (Inr True, rp, sp, tls) \<Rightarrow> Some (Inr None, rp, sp, tls)
            | Some (Inr False, rp, sp, tls) \<Rightarrow>
                Some (Inr (Some \<lparr>in_message = message, in_aligned_handshake = aligned\<rparr>), rp, sp, tls)))))"

subsection \<open>The receive path does not panic\<close>

text \<open>A decrypter that works within the slice it is given, for whatever bytes are in it.\<close>

definition decrypter_total :: "'d RecordDecrypter \<Rightarrow> bool" where
  "decrypter_total D \<longleftrightarrow> (\<forall>d rec seq. \<exists>r d' buf. rd_decrypt D d rec seq = Some (r, d', buf) \<and>
     length buf = length (rec_payload rec) \<and> (\<forall>l. r = Inr l \<longrightarrow> lo_start l + lo_len l \<le> length buf))"

definition deframer_ok :: "bytes \<Rightarrow> Deframer \<Rightarrow> bool" where
  "deframer_ok buf d \<longleftrightarrow> Deframer_settled buf d \<and> \<not> df_too_large d \<and> df_discard d \<le> df_processed d \<and>
     (\<forall>s \<in> set (df_spans d). df_discard d \<le> fs_start s)"

lemma decrypt_incoming_total:
  assumes "decrypter_total D"
  obtains r ds' payload where "decrypt_incoming D rec ds = Some (r, ds', payload)" "length payload = length (rec_payload rec)"
    "\<And>dc. r = Inr (Some dc) \<Longrightarrow> lo_start (dc_plaintext dc) + lo_len (dc_plaintext dc) \<le> length (rec_payload rec)"
proof (cases "ds_record_decrypter ds")
  case None
  thus ?thesis using that
    by (auto simp: decrypt_incoming_def located_front_def into_plain_record_def)
next
  case (Some dec)
  from assms obtain r dec' buf where d: "rd_decrypt D dec rec (ds_read_seq ds) = Some (r, dec', buf)"
    "length buf = length (rec_payload rec)" "\<forall>l. r = Inr l \<longrightarrow> lo_start l + lo_len l \<le> length buf"
    unfolding decrypter_total_def by blast
  show ?thesis
  proof (cases r)
    case (Inl e)
    obtain doing s where s: "doing_trial_decryption (length (rec_payload rec)) (ds\<lparr>ds_record_decrypter := Some dec'\<rparr>) = (doing, s)"
      by force
    have "\<exists>r s'. decrypt_incoming D rec ds = Some (r, s', buf) \<and> (\<forall>dc. r \<noteq> Inr (Some dc))"
      using Some d(1) Inl s by (cases doing) (auto simp: decrypt_incoming_def Let_def)
    with d(2) that show ?thesis by blast
  next
    case (Inr l)
    with Some d that show ?thesis by (auto simp: decrypt_incoming_def Let_def)
  qed
qed

lemma slice_write_at_before: "b \<le> off \<Longrightarrow> off \<le> length buf \<Longrightarrow> slice a b (write_at off bs buf) = slice a b buf"
  by (rule write_at_slice_before)

lemma settled_write_behind:
  assumes "Deframer_settled buf d" "df_processed d \<le> off" "off + length bs \<le> length buf"
    "df_spans d' = df_spans d" "df_too_large d' = df_too_large d" "df_processed d \<le> df_processed d'" "df_processed d' \<le> length buf"
  shows "Deframer_settled (write_at off bs buf) d' \<and> handshake_stream (write_at off bs buf) d' = handshake_stream buf d"
proof -
  have sb: "span_bytes (write_at off bs buf) s = span_bytes buf s" if "s \<in> set (df_spans d)" for s
    using assms(1-3) that spans_between_set [of 0 "df_spans d" "df_processed d" s]
    by (auto simp: Deframer_settled_def span_bytes_def intro!: slice_write_at_before)
  hence m: "map (span_bytes (write_at off bs buf)) (df_spans d') = map (span_bytes buf) (df_spans d)"
    using assms(4) by simp
  have "spans_between 0 (df_spans d') (df_processed d')"
    using assms(1,4,6) spans_between_mono [of 0 "df_spans d" "df_processed d"] by (simp add: Deframer_settled_def)
  thus ?thesis using assms sb m unfolding Deframer_settled_def handshake_stream_def m
    by simp
qed

lemma settled_advance:
  assumes "Deframer_settled buf d" "df_processed d \<le> n" "n \<le> length buf"
  shows "Deframer_settled buf (d\<lparr>df_processed := n\<rparr>)"
  using assms spans_between_mono [of 0 "df_spans d" "df_processed d" 0 n]
  by (simp add: Deframer_settled_def handshake_stream_def)

text \<open>What taking one record out of the buffer does to a sound state.\<close>

definition takes_record :: "bytes \<Rightarrow> 'd ReceivePath \<Rightarrow> 'd ReceivePath \<Rightarrow> bytes \<Rightarrow> bool" where
  "takes_record buf rp rp' buf' \<longleftrightarrow> length buf' = length buf \<and> deframer_ok buf' (rp_deframer rp') \<and>
     df_spans (rp_deframer rp') = df_spans (rp_deframer rp) \<and>
     handshake_stream buf' (rp_deframer rp') = handshake_stream buf (rp_deframer rp) \<and>
     df_processed (rp_deframer rp) \<le> df_processed (rp_deframer rp') \<and>
     df_discard (rp_deframer rp') = df_discard (rp_deframer rp)"

definition record_bounds :: "'d ReceivePath \<Rightarrow> 'd ReceivePath \<Rightarrow> Located \<Rightarrow> usize \<Rightarrow> usize \<Rightarrow> bool" where
  "record_bounds rp rp' l start fin \<longleftrightarrow>
     df_processed (rp_deframer rp) \<le> lo_start l \<and> lo_start l + lo_len l \<le> df_processed (rp_deframer rp') \<and>
     (lo_typ l = ContentType_Handshake \<longrightarrow> start = lo_start l \<and> fin = lo_start l + lo_len l)"

lemma Deframer_deframe_cases:
  assumes "Deframer_deframe buf d = (r, d')" "df_processed d \<le> length buf"
  obtains "r = None" "d' = d" | e where "r = Some (Inl e)" "d' = d"
  | dfd where "r = Some (Inr dfd)" "dfd_start dfd = df_processed d" "d' = d\<lparr>df_processed := dfd_end dfd\<rparr>"
      "dfd_end dfd = df_processed d + HEADER_SIZE + length (rec_payload (dfd_record dfd))" "dfd_end dfd \<le> length buf"
proof (cases "read_record_header (drop (df_processed d) buf)")
  case (Inl e)
  thus ?thesis using assms that(1,2) by (cases e) (auto simp: Deframer_deframe_def)
next
  case (Inr x)
  obtain ctyp version len rest where x: "x = ((ctyp, version, len), rest)" by (metis prod.exhaust)
  show ?thesis
  proof (cases "length buf < df_processed d + HEADER_SIZE + unat len")
    case True
    thus ?thesis using assms Inr x that(1) by (auto simp: Deframer_deframe_def)
  next
    case False
    show ?thesis
      by (rule that(3) [of "the (case r of Some (Inr y) \<Rightarrow> Some y | _ \<Rightarrow> None)"])
        (use assms Inr x False in \<open>auto simp: Deframer_deframe_def Let_def length_slice\<close>)
  qed
qed

lemma decrypt_deframed_total:
  assumes D: "decrypter_total D" and ok: "deframer_ok buf (rp_deframer rp)"
    and dfd: "dfd_start dfd = df_processed (rp_deframer rp)"
      "dfd_end dfd = df_processed (rp_deframer rp) + HEADER_SIZE + length (rec_payload (dfd_record dfd))" "dfd_end dfd \<le> length buf"
    and rp1: "rp1 = rp\<lparr>rp_deframer := (rp_deframer rp)\<lparr>df_processed := dfd_end dfd\<rparr>\<rparr>"
  shows "\<exists>r rp' buf'. decrypt_deframed D dfd buf rp1 = Some (r, rp', buf') \<and> takes_record buf rp rp' buf' \<and>
    (\<forall>dc start fin. r = Inr (DR_Decrypted dc start fin) \<longrightarrow> record_bounds rp rp' (dc_plaintext dc) start fin)"
proof -
  let ?rec = "dfd_record dfd" and ?off = "dfd_start dfd + HEADER_SIZE"
  obtain r ds payload where di: "decrypt_incoming D ?rec (rp_decrypt_state rp) = Some (r, ds, payload)"
    and len: "length payload = length (rec_payload ?rec)"
    and l: "\<And>dc. r = Inr (Some dc) \<Longrightarrow> lo_start (dc_plaintext dc) + lo_len (dc_plaintext dc) \<le> length (rec_payload ?rec)"
    using decrypt_incoming_total [OF D] by metis
  let ?buf = "write_at ?off payload buf" and ?rp = "rp1\<lparr>rp_decrypt_state := ds\<rparr>"
  have "Deframer_settled ?buf (rp_deframer rp1) \<and> handshake_stream ?buf (rp_deframer rp1) = handshake_stream buf (rp_deframer rp)"
    using ok dfd len unfolding rp1 by (intro settled_write_behind) (auto simp: deframer_ok_def)
  hence t: "takes_record buf rp ?rp ?buf"
    using ok dfd len by (auto simp: deframer_ok_def takes_record_def rp1)
  have b: "record_bounds rp ?rp (locate ?off (dc_plaintext dc))
      (lo_start (locate ?off (dc_plaintext dc))) (lo_start (locate ?off (dc_plaintext dc)) + lo_len (locate ?off (dc_plaintext dc)))"
    if "r = Inr (Some dc)" for dc
    using l [OF that] dfd by (simp add: record_bounds_def locate_def rp1)
  have di': "decrypt_incoming D ?rec (rp_decrypt_state rp1) = Some (r, ds, payload)" using di by (simp add: rp1)
  show ?thesis
  proof (cases r)
    case (Inl e)
    thus ?thesis using di' len t by (simp add: decrypt_deframed_def Let_def)
  next
    case (Inr x)
    show ?thesis
    proof (cases x)
      case None
      thus ?thesis using di' len t Inr by (simp add: decrypt_deframed_def Let_def)
    next
      case (Some dc)
      thus ?thesis using di' len t Inr b [of dc] by (simp add: decrypt_deframed_def Let_def)
    qed
  qed
qed

lemma deframe_decrypted_total:
  assumes D: "decrypter_total D" and ok: "deframer_ok buf (rp_deframer rp)"
  shows "\<exists>r rp' buf'. deframe_decrypted D buf rp = Some (r, rp', buf') \<and> takes_record buf rp rp' buf' \<and>
    (\<forall>dc start fin. r = Inr (DR_Decrypted dc start fin) \<longrightarrow> record_bounds rp rp' (dc_plaintext dc) start fin)"
proof -
  let ?d = "rp_deframer rp"
  obtain r d' where dd: "Deframer_deframe buf ?d = (r, d')" by force
  have le: "df_processed ?d \<le> length buf" using ok by (simp add: deframer_ok_def Deframer_settled_def)
  from dd le show ?thesis
  proof (cases rule: Deframer_deframe_cases)
    case 1
    thus ?thesis using dd ok by (simp add: deframe_decrypted_def takes_record_def)
  next
    case (2 e)
    thus ?thesis using dd ok by (simp add: deframe_decrypted_def takes_record_def)
  next
    case (3 dfd)
    let ?rec = "dfd_record dfd" and ?off = "dfd_start dfd + HEADER_SIZE"
    let ?rp = "rp\<lparr>rp_deframer := d'\<rparr>"
    show ?thesis
    proof (cases "allowed_plaintext ?rec ?rp \<and> \<not> Deframer_is_active d'")
      case True
      have "deframer_ok buf d'" "handshake_stream buf d' = handshake_stream buf ?d"
        using ok settled_advance [of buf ?d "dfd_end dfd"] 3 by (auto simp: deframer_ok_def handshake_stream_def)
      moreover have "rec_typ ?rec \<noteq> ContentType_Handshake" using True by (auto simp: allowed_plaintext_def)
      ultimately show ?thesis using dd 3 True
        by (simp add: deframe_decrypted_def takes_record_def record_bounds_def Let_def locate_def located_front_def
            into_plain_record_def)
    next
      case False
      hence "deframe_decrypted D buf rp = decrypt_deframed D dfd buf ?rp"
        using dd 3(1) by (cases "allowed_plaintext ?rec ?rp") (simp_all add: deframe_decrypted_def)
      thus ?thesis using decrypt_deframed_total [OF D ok 3(2,4,5)] 3(3) by simp
    qed
  qed
qed

lemma takes_record_trans: "takes_record a b c d \<Longrightarrow> takes_record d c e f \<Longrightarrow> takes_record a b e f"
  by (simp add: takes_record_def)

lemma deframe_next_total:
  assumes D: "decrypter_total D" and ok: "deframer_ok buf (rp_deframer rp)"
  shows "\<exists>r rp' buf'. deframe_next D buf rp = Some (r, rp', buf') \<and> takes_record buf rp rp' buf' \<and>
    (\<forall>dc start fin. r = Inr (Some (dc, start, fin)) \<longrightarrow> record_bounds rp rp' (dc_plaintext dc) start fin)"
  using D ok
proof (induction D buf rp rule: deframe_next.induct)
  case (1 D buf rp)
  from deframe_decrypted_total [OF "1.prems"] obtain r rp1 buf1 where
    d: "deframe_decrypted D buf rp = Some (r, rp1, buf1)" and t: "takes_record buf rp rp1 buf1" and
    b: "\<And>dc start fin. r = Inr (DR_Decrypted dc start fin) \<Longrightarrow> record_bounds rp rp1 (dc_plaintext dc) start fin" by blast
  show ?case
  proof (cases "r = Inr DR_DecryptionFailed")
    case False
    show ?thesis
    proof (cases r)
      case (Inl e)
      thus ?thesis using d t by (simp add: deframe_next.simps [of D buf])
    next
      case (Inr x)
      thus ?thesis using d t b False by (cases x) (simp_all add: deframe_next.simps [of D buf])
    qed
  next
    case True
    have ok1: "deframer_ok buf1 (rp_deframer rp1)" using t by (simp add: takes_record_def)
    from "1.IH" [OF d refl True _ refl "1.prems"(1) ok1] obtain r' rp' buf' where
      n: "deframe_next D buf1 rp1 = Some (r', rp', buf')" "takes_record buf1 rp1 rp' buf'"
        "\<forall>dc start fin. r' = Inr (Some (dc, start, fin)) \<longrightarrow> record_bounds rp1 rp' (dc_plaintext dc) start fin" by auto
    have "record_bounds rp rp' l start fin" if "record_bounds rp1 rp' l start fin" for l start fin
      using that t by (simp add: record_bounds_def takes_record_def)
    thus ?thesis using d True n takes_record_trans [OF t n(2)] by (simp add: deframe_next.simps [of D buf])
  qed
qed

lemma Dissect_starts: "s \<in> set (DissectHandshakeIter version payload start fin) \<Longrightarrow> start \<le> fs_start s"
proof (induction version payload start fin rule: DissectHandshakeIter.induct)
  case (1 version payload start fin)
  let ?n = "be_nat (drop 1 (take HANDSHAKE_HEADER_LEN payload))"
  have IH: "start \<le> fs_start s" if "payload \<noteq> []" "\<not> length payload < HANDSHAKE_HEADER_LEN"
      "?n \<le> length (drop HANDSHAKE_HEADER_LEN payload)"
      "s \<in> set (DissectHandshakeIter version (drop ?n (drop HANDSHAKE_HEADER_LEN payload))
        (start + (length (take HANDSHAKE_HEADER_LEN payload) + ?n)) fin)"
    using "1.IH" [OF that(1,2) refl refl refl that(3) refl that(4)] by simp
  from "1.prems" show ?case
    by (subst (asm) DissectHandshakeIter.simps) (auto simp only: Let_def list.set FragmentSpan.simps intro: IH split: if_splits)
qed

definition starts_from :: "usize \<Rightarrow> Deframer \<Rightarrow> bool" where
  "starts_from n d \<longleftrightarrow> (\<forall>s \<in> set (df_spans d). n \<le> fs_start s)"

lemma starts_from_input: "starts_from n d \<Longrightarrow> n \<le> start \<Longrightarrow> starts_from n (Deframer_input_message version start fin buf d)"
  using Dissect_starts by (fastforce simp: starts_from_def Deframer_input_message_def push_spans_eq)

lemma starts_from_coalesce_one:
  assumes "coalesce_one index buf d = Some (d', buf')" "index + 1 < length (df_spans d)" "starts_from n d"
  shows "starts_from n d'"
proof -
  let ?first = "df_spans d ! index"
  have "?first \<in> set (df_spans d)" using assms(2) by simp
  hence n: "n \<le> fs_start ?first" using assms(3) by (simp add: starts_from_def)
  from assms(1,2) obtain version payload fin where
    "df_spans d' = take index (df_spans d) @ DissectHandshakeIter version payload (fs_start ?first) fin @ drop (index + 2) (df_spans d)"
    by (auto simp: coalesce_one_def Let_def bind_eq_Some_conv insert_spans_eq min_def)
  thus ?thesis using assms(3) n by (auto simp: starts_from_def dest!: Dissect_starts in_set_takeD in_set_dropD)
qed

lemma starts_from_coalesce:
  "Deframer_coalesce buf d = Some (r, d', buf') \<Longrightarrow> starts_from n d \<Longrightarrow> starts_from n d'"
proof (induction buf d rule: Deframer_coalesce.induct)
  case (1 buf d)
  show ?case
  proof (cases "df_too_large d \<or> first_incomplete (df_spans d) = None")
    case True
    with "1.prems" show ?thesis by (subst (asm) Deframer_coalesce.simps) (auto split: if_splits)
  next
    case False
    then obtain index where i: "first_incomplete (df_spans d) = Some index" "\<not> df_too_large d" by auto
    with "1.prems"(1) obtain d1 buf1 where c: "coalesce_one index buf d = Some (d1, buf1)"
      "Deframer_coalesce buf1 d1 = Some (r, d', buf')"
      by (subst (asm) Deframer_coalesce.simps) (auto split: option.splits)
    from "1.IH" [OF i(2,1) c(1) refl c(2) starts_from_coalesce_one [OF c(1) first_incomplete_SomeD(1) [OF i(1)] "1.prems"(2)]]
    show ?thesis .
  qed
qed

lemma coalesce_ok:
  assumes ok: "deframer_ok buf d" and b: "df_discard d \<le> start" "spans_between 0 (df_spans d) start" "start \<le> fin" "fin \<le> df_processed d"
  shows "\<exists>r d' buf'. Deframer_coalesce buf (Deframer_input_message version start fin buf d) = Some (r, d', buf') \<and>
    length buf' = length buf \<and> (\<forall>u. r = Inr u \<longrightarrow> deframer_ok buf' d' \<and> df_processed d' = df_processed d)"
proof -
  from input_coalesce_delivers [of buf d start fin version] ok b obtain res d' buf' where
    c: "Deframer_coalesce buf (Deframer_input_message version start fin buf d) = Some (res, d', buf')"
      "delivers buf d fin (slice start fin buf) res d' buf'" by (auto simp: deframer_ok_def)
  have "starts_from (df_discard d) d" using ok by (simp add: deframer_ok_def starts_from_def)
  hence "starts_from (df_discard d) d'" using starts_from_coalesce [OF c(1)] starts_from_input b(1) by blast
  thus ?thesis using c ok by (auto simp: delivers_def deframer_ok_def starts_from_def split: if_splits)
qed

text \<open>
  What one call promises: it returns, keeps the length of the buffer, and unless it reports an
  error the state is sound again. A handshake record is one whole message; any other record comes
  with no handshake message pending; nothing comes only when no whole message is buffered.
\<close>

definition deframe_ok :: "bytes \<Rightarrow> (Error + DecryptedRecord option) \<Rightarrow> 'd ReceivePath \<Rightarrow> bytes \<Rightarrow> bool" where
  "deframe_ok buf r rp' buf' \<longleftrightarrow> length buf' = length buf \<and> (case r of
     Inl _ \<Rightarrow> True
   | Inr None \<Rightarrow> deframer_ok buf' (rp_deframer rp') \<and>
       (\<forall>m rest. handshake_stream buf' (rp_deframer rp') = m @ rest \<longrightarrow> \<not> complete_message m)
   | Inr (Some dr) \<Rightarrow> deframer_ok buf' (rp_deframer rp') \<and>
       (if rec_typ (dr_plaintext dr) = ContentType_Handshake then complete_message (rec_payload (dr_plaintext dr))
        else df_spans (rp_deframer rp') = []))"

lemma complete_span_ok:
  assumes ok: "deframer_ok buf d" and "Deframer_complete_span d = (Some span, d1)"
  shows "\<exists>rec d2. Deframer_record span buf d1 = Some (rec, d2) \<and> rec_typ rec = ContentType_Handshake \<and>
    complete_message (rec_payload rec) \<and> deframer_ok buf d2"
proof -
  from next_message [of buf d span d1] assms obtain rec d2 where r: "Deframer_record span buf d1 = Some (rec, d2)"
    "rec_typ rec = ContentType_Handshake" "complete_message (rec_payload rec)" "Deframer_settled buf d2"
    by (auto simp: deframer_ok_def)
  from assms(2) obtain ss where d1: "df_spans d = span # ss" "d1 = d\<lparr>df_spans := ss\<rparr>"
    by (auto simp: Deframer_complete_span_def split: list.splits if_splits)
  with r(1) have "d2 = (if ss = [] then d1\<lparr>df_discard := df_processed d1\<rparr> else d1)"
    by (auto simp: Deframer_record_def Let_def bind_eq_Some_conv)
  hence "deframer_ok buf d2" using ok r(4) d1 by (auto simp: deframer_ok_def)
  with r show ?thesis by blast
qed

lemma coalesce_taken:
  assumes ok: "deframer_ok buf (rp_deframer rp)" and t: "takes_record buf rp rp1 buf1"
    and b: "record_bounds rp rp1 l start fin" "lo_typ l = ContentType_Handshake"
  shows "\<exists>r d' buf'. Deframer_coalesce buf1 (Deframer_input_message version start fin buf1 (rp_deframer rp1)) = Some (r, d', buf') \<and>
    length buf' = length buf \<and> (\<forall>u. r = Inr u \<longrightarrow> deframer_ok buf' d' \<and> df_processed d' = df_processed (rp_deframer rp1))"
proof -
  have ok1: "deframer_ok buf1 (rp_deframer rp1)" and sp: "df_spans (rp_deframer rp1) = df_spans (rp_deframer rp)"
    and len: "length buf1 = length buf" using t by (simp_all add: takes_record_def)
  have s: "df_processed (rp_deframer rp) \<le> start" "start \<le> fin" "fin \<le> df_processed (rp_deframer rp1)"
    using b by (auto simp: record_bounds_def)
  have "spans_between 0 (df_spans (rp_deframer rp1)) start"
    using ok sp s(1) spans_between_mono [of 0 _ "df_processed (rp_deframer rp)" 0 start]
    by (simp add: deframer_ok_def Deframer_settled_def)
  moreover have "df_discard (rp_deframer rp1) \<le> start" using t s(1) ok by (simp add: takes_record_def deframer_ok_def)
  ultimately show ?thesis using coalesce_ok [OF ok1 _ _ s(2,3)] len by simp
qed

lemma discard_processed_ok:
  "deframer_ok buf d \<Longrightarrow> df_spans d = [] \<Longrightarrow> deframer_ok buf (Deframer_discard_processed d)"
  by (simp add: deframer_ok_def Deframer_discard_processed_def Deframer_settled_def handshake_stream_def)

lemma deframe_loop_total:
  assumes D: "decrypter_total D" and ok: "deframer_ok buf (rp_deframer rp)"
  shows "\<exists>r rp' buf'. deframe_loop D want_close buf rp = Some (r, rp', buf') \<and> deframe_ok buf r rp' buf'"
  using ok
proof (induction "length buf - df_processed (rp_deframer rp)" arbitrary: want_close buf rp rule: less_induct)
  case less
  obtain sp d1 where cs: "Deframer_complete_span (rp_deframer rp) = (sp, d1)" by force
  show ?case
  proof (cases sp)
    case (Some span)
    from complete_span_ok [OF less.prems] cs Some show ?thesis
      by (auto simp: deframe_loop.simps [of D] deframe_ok_def)
  next
    case None
    from deframe_next_total [OF D less.prems] obtain r rp1 buf1 where
      n: "deframe_next D buf rp = Some (r, rp1, buf1)" and t: "takes_record buf rp rp1 buf1" and
      b: "\<And>dc start fin. r = Inr (Some (dc, start, fin)) \<Longrightarrow> record_bounds rp rp1 (dc_plaintext dc) start fin" by blast
    have st: "Deframer_settled buf (rp_deframer rp)" using less.prems by (simp add: deframer_ok_def)
    consider (err) e where "r = Inl e" | (none) "r = Inr None" | (some) dc start fin where "r = Inr (Some (dc, start, fin))"
      by (metis old.sum.exhaust option.exhaust prod_cases3)
    thus ?thesis
    proof cases
      case err
      thus ?thesis using cs None n t by (simp add: deframe_loop.simps [of D _ buf] deframe_ok_def takes_record_def)
    next
      case none
      thus ?thesis using cs None n t no_message [OF st cs [unfolded None]]
        by (simp add: deframe_loop.simps [of D _ buf] deframe_ok_def takes_record_def)
    next
      case (some dc start fin)
      let ?l = "dc_plaintext dc"
      note bd = b [OF some]
      show ?thesis
      proof (cases "Deframer_aligned (rp_deframer rp1) = None \<and> lo_typ ?l \<noteq> ContentType_Handshake")
        case True
        thus ?thesis using cs None n some t by (simp add: deframe_loop.simps [of D _ buf] deframe_ok_def takes_record_def)
      next
        case False
        show ?thesis
        proof (cases "count_empty_fragments ?l rp1")
          case (Inl e)
          thus ?thesis using cs None n some t False
            by (auto simp: deframe_loop.simps [of D _ buf] deframe_ok_def takes_record_def)
        next
          case (Inr rp2)
          note d2 = count_empty_fragments_deframer [OF Inr]
          show ?thesis
          proof (cases "lo_typ ?l = ContentType_Handshake")
            case False
            with \<open>\<not> (_ \<and> _)\<close> have "df_spans (rp_deframer rp1) = []"
              by (auto simp: Deframer_aligned_def Deframer_is_active_def split: if_splits)
            thus ?thesis using cs None n some t False Inr d2 discard_processed_ok [of buf1 "rp_deframer rp1"]
              by (simp add: deframe_loop.simps [of D _ buf] deframe_ok_def takes_record_def reborrow_def Let_def
                  Deframer_aligned_def Deframer_is_active_def) (simp add: Deframer_discard_processed_def)
          next
            case True
            have pr: "df_processed (rp_deframer rp) < df_processed (rp_deframer rp1)" "length buf1 = length buf"
              using deframe_next_progress [OF n [unfolded some]] by simp_all
            from coalesce_taken [OF less.prems t bd True] obtain r' d' buf' where
              c: "Deframer_coalesce buf1 (Deframer_input_message (EncodableVersion_version (lo_version ?l))
                start fin buf1 (rp_deframer rp1)) = Some (r', d', buf')" "length buf' = length buf"
              "\<And>u. r' = Inr u \<Longrightarrow> deframer_ok buf' d' \<and> df_processed d' = df_processed (rp_deframer rp1)" by metis
            show ?thesis
            proof (cases r')
              case (Inl e)
              thus ?thesis using cs None n some t True Inr d2 c(1,2) pr
                by (simp add: deframe_loop.simps [of D _ buf] deframe_ok_def)
            next
              case (Inr u)
              have "\<exists>r rp' buf''. deframe_loop D (dc_want_close_before_decrypt dc) buf' (rp2\<lparr>rp_deframer := d'\<rparr>) = Some (r, rp', buf'') \<and>
                  deframe_ok buf' r rp' buf''"
                by (rule less.hyps) (use c(2) c(3) [OF Inr] pr less.prems in \<open>auto simp: deframer_ok_def Deframer_settled_def\<close>)
              thus ?thesis using cs None n some True \<open>count_empty_fragments ?l rp1 = Inr rp2\<close> d2 c(1,2) Inr pr
                by (auto simp: deframe_loop.simps [of D _ buf] deframe_ok_def)
            qed
          qed
        qed
      qed
    qed
  qed
qed

end
