(* ===== verification/Record_Path.thy ===== *)
theory Record_Path
  imports Receive_Path
begin

text \<open>
  The send path and the receive path against each other: what one end encrypts into its output
  is what the other end takes out of its input buffer, for every cipher that meets
  \<open>record_protection\<close>.
\<close>

subsection \<open>One record\<close>

text \<open>A record as it travels.\<close>

definition wire_record :: "bytes Record \<Rightarrow> bytes" where
  "wire_record c = encode_record_header (rec_typ c) (rec_version c) (word_of_nat (length (rec_payload c))) @ rec_payload c"

lemma length_wire_record [simp]: "length (wire_record c) = HEADER_SIZE + length (rec_payload c)"
  by (simp add: wire_record_def)

definition advance_write :: "'e \<Rightarrow> ('x, 'e, 'd, 'c, 'q) Encrypting \<Rightarrow> ('x, 'e, 'd, 'c, 'q) Encrypting" where
  "advance_write e eg = eg\<lparr>eg_write_seq := eg_write_seq eg + 1, eg_encrypter := e\<rparr>"

definition advance_read :: "'d \<Rightarrow> 'd DecryptionState \<Rightarrow> 'd DecryptionState" where
  "advance_read d ds = ds\<lparr>ds_record_decrypter := Some d, ds_read_seq := ds_read_seq ds + 1, ds_has_decrypted := True\<rparr>"

text \<open>A deframer with nothing pending that has processed \<open>n\<close> bytes.\<close>

definition deframer_at :: "usize \<Rightarrow> Deframer \<Rightarrow> bool" where
  "deframer_at n d \<longleftrightarrow> df_spans d = [] \<and> df_processed d = n"

lemma Deframer_deframe_wire:
  assumes "deframer_at (length pre) d" "rec_typ c \<in> set ContentType_known" "length (rec_payload c) < unat MAX_PAYLOAD"
    "rec_payload c \<noteq> []"
  shows "Deframer_deframe (pre @ wire_record c @ rest) d =
    (Some (Inr \<lparr>dfd_record = c\<lparr>rec_version := Legacy (EncodableVersion_encode (rec_version c))\<rparr>,
       dfd_start = length pre, dfd_end = length pre + length (wire_record c)\<rparr>),
     d\<lparr>df_processed := length pre + length (wire_record c)\<rparr>)"
proof -
  let ?n = "length (rec_payload c)"
  have n: "unat (word_of_nat ?n :: u16) = ?n"
    using assms(3) by (simp add: unat_word_of_nat_simps MAX_PAYLOAD_def)
  have "read_record_header (wire_record c @ rest) =
      Inr ((rec_typ c, EncodableVersion_encode (rec_version c), word_of_nat ?n), rec_payload c @ rest)"
    using assms(2-4) n unfolding wire_record_def append_assoc
    by (intro read_record_header_encode) (auto simp: word_less_nat_alt dest: arg_cong [of _ _ unat])
  moreover have "slice (length pre + HEADER_SIZE) (length pre + HEADER_SIZE + ?n) (pre @ wire_record c @ rest) = rec_payload c"
    by (simp add: slice_def wire_record_def)
  ultimately show ?thesis using assms(1) n
    by (cases c) (simp add: Deframer_deframe_def deframer_at_def Let_def)
qed

context record_protection
begin

lemma encrypt_outgoing_wire:
  assumes "paired (eg_encrypter eg) d" "OutboundPlain_wf (rec_payload p)" "admits (rec_typ p)"
    "OutboundPlain_len (rec_payload p) \<le> MAX_FRAGMENT_LEN" "eg_write_seq eg < SEQ_HARD_LIMIT"
  obtains c e' d' l buf where
    "encrypt_outgoing E p eg tls = Some (Inr (), advance_write e' eg, tls @ wire_record c)"
    "rec_typ c \<in> set ContentType_known" "rec_typ c \<noteq> ContentType_ChangeCipherSpec"
    "2 < length (rec_payload c)" "length (rec_payload c) < unat MAX_PAYLOAD"
    "rd_decrypt D d (c\<lparr>rec_version := Legacy (EncodableVersion_encode (rec_version c))\<rparr>) (eg_write_seq eg) = Some (Inr l, d', buf)"
    "paired e' d'" "length buf = length (rec_payload c)" "lo_start l + lo_len l \<le> length buf"
    "reborrow buf l = \<lparr>rec_typ = rec_typ p, rec_version = received_version (rec_version p),
       rec_payload = OutboundPlain_to_vec (rec_payload p)\<rparr>"
proof -
  let ?n = "re_encrypted_payload_len E (eg_encrypter eg) (OutboundPlain_len (rec_payload p))"
  have "?n \<le> length (replicate ?n (0 :: u8))" by simp
  from protects [OF assms(1-4) this] obtain c e' d' l buf where
    enc: "re_encrypt E (eg_encrypter eg) p (eg_write_seq eg) (replicate ?n 0) =
      Some (Inr c, e', rec_payload c @ drop (length (rec_payload c)) (replicate ?n 0))" and
    c: "rec_version c = rec_version p" "rec_typ c \<in> set ContentType_known" "rec_typ c \<noteq> ContentType_ChangeCipherSpec"
      "length (rec_payload c) = ?n" and
    dec: "rd_decrypt D d (c\<lparr>rec_version := Legacy (EncodableVersion_encode (rec_version p))\<rparr>) (eg_write_seq eg) = Some (Inr l, d', buf)"
      "paired e' d'" "length buf = length (rec_payload c)" "lo_start l + lo_len l \<le> length buf"
      "reborrow buf l = \<lparr>rec_typ = rec_typ p, rec_version = received_version (rec_version p),
         rec_payload = OutboundPlain_to_vec (rec_payload p)\<rparr>" by blast
  have out: "encrypt_outgoing E p eg tls = Some (Inr (), advance_write e' eg, tls @ wire_record c)"
    using assms(5) enc c(1,4)
    by (simp add: encrypt_outgoing_def encrypt_outgoing_into_def encrypted_len_def advance_write_def wire_record_def Let_def)
  have len: "2 < length (rec_payload c)" "length (rec_payload c) < unat MAX_PAYLOAD"
    using expansion [of "eg_encrypter eg" "OutboundPlain_len (rec_payload p)"] assms(4) c(4)
    by (simp_all add: MAX_PAYLOAD_def MAX_FRAGMENT_LEN_def)
  show ?thesis by (rule that [OF out c(2,3) len _ dec(2-5)]) (use dec(1) c(1) in simp)
qed

lemma deframe_wire:
  assumes c: "rec_typ c \<in> set ContentType_known" "rec_typ c \<noteq> ContentType_ChangeCipherSpec"
      "2 < length (rec_payload c)" "length (rec_payload c) < unat MAX_PAYLOAD"
    and dec: "rd_decrypt D d (c\<lparr>rec_version := Legacy (EncodableVersion_encode (rec_version c))\<rparr>) (ds_read_seq (rp_decrypt_state rp)) =
        Some (Inr l, d', buf)" "length buf = length (rec_payload c)" "lo_start l + lo_len l \<le> length buf"
    and rp: "deframer_at (length pre) (rp_deframer rp)" "ds_record_decrypter (rp_decrypt_state rp) = Some d"
  shows "deframe_next D (pre @ wire_record c @ rest) rp =
    Some (Inr (Some (\<lparr>dc_want_close_before_decrypt = ds_read_seq (rp_decrypt_state rp) = SEQ_SOFT_LIMIT,
        dc_plaintext = locate (length pre + HEADER_SIZE) l\<rparr>, length pre + HEADER_SIZE + lo_start l,
        length pre + HEADER_SIZE + lo_start l + lo_len l)),
      rp\<lparr>rp_deframer := (rp_deframer rp)\<lparr>df_processed := length pre + length (wire_record c)\<rparr>,
         rp_decrypt_state := advance_read d' (rp_decrypt_state rp)\<rparr>,
      pre @ encode_record_header (rec_typ c) (rec_version c) (word_of_nat (length (rec_payload c))) @ buf @ rest)"
proof -
  let ?c = "c\<lparr>rec_version := Legacy (EncodableVersion_encode (rec_version c))\<rparr>"
  let ?h = "encode_record_header (rec_typ c) (rec_version c) (word_of_nat (length (rec_payload c)))"
  have pl: "\<not> allowed_plaintext ?c r" for r :: "'d ReceivePath" using c(2,3) by (auto simp: allowed_plaintext_def)
  have w: "write_at (length pre + HEADER_SIZE) buf (pre @ wire_record c @ rest) = pre @ ?h @ buf @ rest"
    using write_at_prefix [of "rec_payload c" buf "pre @ ?h" rest] dec(2) by (simp add: wire_record_def)
  have di: "decrypt_incoming D ?c (rp_decrypt_state rp) = Some (Inr (Some
      \<lparr>dc_want_close_before_decrypt = ds_read_seq (rp_decrypt_state rp) = SEQ_SOFT_LIMIT, dc_plaintext = l\<rparr>),
      advance_read d' (rp_decrypt_state rp), buf)"
    using dec(1) rp(2) by (simp add: decrypt_incoming_def advance_read_def Let_def)
  have "rec_payload c \<noteq> []" using c(3) by auto
  note df = Deframer_deframe_wire [OF rp(1) c(1,4) this, of rest]
  show ?thesis
    using df di w dec(2) pl
    by (simp add: deframe_next.simps [of D "pre @ wire_record c @ rest"] deframe_decrypted_def decrypt_deframed_def Let_def locate_def)
qed

end

subsection \<open>A sequence of records\<close>

text \<open>Calling \<open>deframe\<close> once per record, on one buffer.\<close>

fun deframe_times ::
    "'d RecordDecrypter \<Rightarrow> nat \<Rightarrow> bytes \<Rightarrow> 'd ReceivePath \<Rightarrow> (bytes Record list \<times> 'd ReceivePath \<times> bytes) option" where
  "deframe_times D 0 buf rp = Some ([], rp, buf)"
| "deframe_times D (Suc n) buf rp = (case ReceivePath_deframe D buf rp of
     Some (Inr (Some dr), rp, buf) \<Rightarrow> map_option (\<lambda>(rs, x). (dr_plaintext dr # rs, x)) (deframe_times D n buf rp)
   | _ \<Rightarrow> None)"

text \<open>Data that needs no reassembly.\<close>

definition plain_data :: "(ContentType \<Rightarrow> bool) \<Rightarrow> OutboundPlain Record \<Rightarrow> bool" where
  "plain_data admits p \<longleftrightarrow> OutboundPlain_wf (rec_payload p) \<and> admits (rec_typ p) \<and> rec_typ p \<noteq> ContentType_Handshake \<and>
     OutboundPlain_len (rec_payload p) \<noteq> 0 \<and> OutboundPlain_len (rec_payload p) \<le> MAX_FRAGMENT_LEN"

definition received_record :: "(EncodableVersion \<Rightarrow> EncodableVersion) \<Rightarrow> OutboundPlain Record \<Rightarrow> bytes Record" where
  "received_record received_version p = \<lparr>rec_typ = rec_typ p, rec_version = received_version (rec_version p),
     rec_payload = OutboundPlain_to_vec (rec_payload p)\<rparr>"

definition in_step ::
    "('e \<Rightarrow> 'd \<Rightarrow> bool) \<Rightarrow> ('x, 'e, 'd, 'c, 'q) Encrypting \<Rightarrow> 'd ReceivePath \<Rightarrow> usize \<Rightarrow> bool" where
  "in_step paired eg rp n \<longleftrightarrow> (\<exists>d. ds_record_decrypter (rp_decrypt_state rp) = Some d \<and> paired (eg_encrypter eg) d) \<and>
     ds_read_seq (rp_decrypt_state rp) = eg_write_seq eg \<and> deframer_at n (rp_deframer rp)"

text \<open>What taking a record out of the buffer changes, beyond the keys: all that is processed may be discarded.\<close>

definition record_frame :: "'d ReceivePath \<Rightarrow> 'd ReceivePath \<Rightarrow> usize \<Rightarrow> bool" where
  "record_frame rp rp' n \<longleftrightarrow>
     rp_deframer rp' = (rp_deframer rp)\<lparr>df_processed := n, df_discard := n\<rparr> \<and>
     (\<exists>df ds k. rp' = rp\<lparr>rp_deframer := df, rp_decrypt_state := ds, rp_seen_consecutive_empty_fragments := k\<rparr>)"

lemma length_pieces_le: "0 < n \<Longrightarrow> length (pieces n xs) \<le> length xs"
proof (induction n xs rule: pieces.induct)
  case (1 n xs)
  show ?case
  proof (cases "xs = []")
    case False
    with 1 have "length (pieces n xs) = Suc (length (pieces n (drop n xs)))" "length (pieces n (drop n xs)) \<le> length xs - n"
      by (simp_all add: pieces.simps [of n xs])
    moreover have "0 < length xs" using False by simp
    ultimately show ?thesis using 1(2) by linarith
  qed simp
qed

lemma encrypt_records_below_limit:
  assumes "unat (eg_write_seq eg) + length rs < unat (eg_write_seq_max eg)" "eg_write_seq_max eg \<le> SEQ_HARD_LIMIT"
  shows "encrypt_records classify dns_ok E rs eg tls =
    bindS (encrypt_record_loop classify dns_ok E rs) (\<lambda>_. returnS False) eg tls"
proof -
  let ?last = "saturating_add64 (eg_write_seq eg) (word_of_nat (length rs - 1))"
  have u: "unat (eg_write_seq_max eg) < 2 ^ 64" using unsigned_less [of "eg_write_seq_max eg"] by simp
  hence small: "unat (eg_write_seq eg) + (length rs - 1) < 2 ^ 64" using assms(1) by linarith
  hence n: "unat (word_of_nat (length rs - 1) :: u64) = length rs - 1"
    unfolding unat_of_nat by simp
  have "unat ?last = unat (eg_write_seq eg) + (length rs - 1)"
    using small unfolding saturating_add64_def n by (simp only: if_True unat_word_ariths n) simp
  hence "?last < eg_write_seq_max eg" if "rs \<noteq> []"
    using assms(1) that by (cases rs) (simp_all add: word_less_nat_alt)
  thus ?thesis using assms(2) unfolding encrypt_records_def Let_def by (auto simp: not_le)
qed

lemma appdata_fragments:
  assumes "OutboundPlain_wf payload" "Fragmenter_wf f" "admits ContentType_ApplicationData"
    and rs: "rs = Fragmenter_fragment f ContentType_ApplicationData version payload overhead"
  shows "\<forall>p \<in> set rs. plain_data admits p \<and> rec_typ p = ContentType_ApplicationData"
    "concat (map (\<lambda>r. OutboundPlain_to_vec (rec_payload r)) rs) = OutboundPlain_to_vec payload"
    "length rs \<le> OutboundPlain_len payload"
proof -
  let ?n = "max 1 (max_frag f - overhead)"
  note fr = Fragmenter_fragment_pieces [OF assms(1), of f ContentType_ApplicationData version overhead, folded rs]
  have n: "0 < ?n" "?n \<le> MAX_FRAGMENT_LEN" using assms(2) by (auto simp: Fragmenter_wf_def MAX_FRAGMENT_LEN_def)
  show "concat (map (\<lambda>r. OutboundPlain_to_vec (rec_payload r)) rs) = OutboundPlain_to_vec payload"
    using fr concat_pieces [OF n(1)] by simp
  have "length rs = length (pieces ?n (OutboundPlain_to_vec payload))" using fr by (metis length_map)
  thus "length rs \<le> OutboundPlain_len payload" using length_pieces_le [OF n(1)] length_to_vec [OF assms(1)] by metis
  show "\<forall>p \<in> set rs. plain_data admits p \<and> rec_typ p = ContentType_ApplicationData"
  proof
    fix p assume p: "p \<in> set rs"
    hence "OutboundPlain_to_vec (rec_payload p) \<in> set (pieces ?n (OutboundPlain_to_vec payload))"
      using fr by (metis (no_types, lifting) image_eqI list.set_map)
    from pieces_sizes [OF this] have "OutboundPlain_to_vec (rec_payload p) \<noteq> []" "length (OutboundPlain_to_vec (rec_payload p)) \<le> ?n"
      by simp_all
    thus "plain_data admits p \<and> rec_typ p = ContentType_ApplicationData"
      using fr p n(2) assms(3) by (auto simp: plain_data_def length_to_vec [symmetric])
  qed
qed

context record_protection
begin

lemma one_record_arrives:
  assumes st: "in_step paired eg rp (length pre)" and p: "plain_data admits p" and seq: "eg_write_seq eg < SEQ_HARD_LIMIT"
  shows "\<exists>e' wire dr rp' pre'. encrypt_outgoing E p eg tls = Some (Inr (), advance_write e' eg, tls @ wire) \<and>
    (\<forall>rest. ReceivePath_deframe D (pre @ wire @ rest) rp = Some (Inr (Some dr), rp', pre' @ rest)) \<and>
    dr_plaintext dr = received_record received_version p \<and> in_step paired (advance_write e' eg) rp' (length pre') \<and>
    dr_want_close_before_decrypt dr = (eg_write_seq eg = SEQ_SOFT_LIMIT) \<and> record_frame rp rp' (length pre') \<and>
    length pre' = length pre + length wire"
proof -
  from st obtain d where d: "ds_record_decrypter (rp_decrypt_state rp) = Some d" "paired (eg_encrypter eg) d"
    "ds_read_seq (rp_decrypt_state rp) = eg_write_seq eg" "deframer_at (length pre) (rp_deframer rp)"
    by (auto simp: in_step_def)
  have wf: "OutboundPlain_wf (rec_payload p)" "admits (rec_typ p)" "OutboundPlain_len (rec_payload p) \<le> MAX_FRAGMENT_LEN"
    using p by (simp_all add: plain_data_def)
  obtain c e' d' l buf where
    out: "encrypt_outgoing E p eg tls = Some (Inr (), advance_write e' eg, tls @ wire_record c)" and
    c: "rec_typ c \<in> set ContentType_known" "rec_typ c \<noteq> ContentType_ChangeCipherSpec"
      "2 < length (rec_payload c)" "length (rec_payload c) < unat MAX_PAYLOAD" and
    dec: "rd_decrypt D d (c\<lparr>rec_version := Legacy (EncodableVersion_encode (rec_version c))\<rparr>) (eg_write_seq eg) = Some (Inr l, d', buf)"
      "paired e' d'" "length buf = length (rec_payload c)" "lo_start l + lo_len l \<le> length buf"
      "reborrow buf l = received_record received_version p"
    by (rule encrypt_outgoing_wire [OF d(2) wf seq, of tls, folded received_record_def]) blast
  let ?h = "encode_record_header (rec_typ c) (rec_version c) (word_of_nat (length (rec_payload c)))"
  let ?pre = "pre @ ?h @ buf"
  note dn = deframe_wire [OF c dec(1) [folded d(3)] dec(3,4) d(4,1)]
  have "lo_len l = length (rec_payload (reborrow buf l))" using dec(4) by (simp add: reborrow_def length_slice)
  hence l: "lo_len l \<noteq> 0" using p unfolding dec(5) by (simp add: received_record_def plain_data_def length_to_vec)
  have t: "lo_typ l = rec_typ p" using arg_cong [OF dec(5), of rec_typ] by (simp add: received_record_def reborrow_def)
  have rb: "reborrow (?pre @ rest) (locate (length pre + HEADER_SIZE) l) = received_record received_version p" for rest
    using dec(4,5) by (simp add: reborrow_def locate_def slice_def)
  let ?rp = "rp\<lparr>rp_deframer := (rp_deframer rp)\<lparr>df_processed := length ?pre, df_discard := length ?pre\<rparr>,
      rp_decrypt_state := advance_read d' (rp_decrypt_state rp),
      rp_seen_consecutive_empty_fragments := (if rec_typ p = ContentType_ApplicationData then 0
        else rp_seen_consecutive_empty_fragments rp)\<rparr>"
  let ?dr = "\<lparr>dr_plaintext = received_record received_version p,
      dr_want_close_before_decrypt = ds_read_seq (rp_decrypt_state rp) = SEQ_SOFT_LIMIT\<rparr>"
  have "ReceivePath_deframe D (pre @ wire_record c @ rest) rp = Some (Inr (Some ?dr), ?rp, ?pre @ rest)" for rest
    using d(4) p l t dn [of rest] rb [of rest] dec(3)
    by (simp add: ReceivePath_deframe_def deframe_loop.simps [of D False "pre @ wire_record c @ rest"]
        Deframer_complete_span_def deframer_at_def Deframer_aligned_def Deframer_is_active_def count_empty_fragments_def
        plain_data_def locate_def Let_def Deframer_discard_processed_def)
  moreover have "in_step paired (advance_write e' eg) ?rp (length ?pre)"
    using d dec(2) by (simp add: in_step_def advance_read_def advance_write_def deframer_at_def)
  moreover have "record_frame rp ?rp (length ?pre)"
    unfolding record_frame_def
    by (intro conjI exI [of _ "rp_deframer ?rp"] exI [of _ "rp_decrypt_state ?rp"] exI [of _ "rp_seen_consecutive_empty_fragments ?rp"])
       simp_all
  ultimately show ?thesis using out d(3) dec(3) by (intro exI [of _ e'] exI [of _ "wire_record c"] exI [of _ ?dr] exI [of _ ?rp] exI [of _ ?pre]) simp
qed

text \<open>
  As long as the sequence numbers stay below the limit of the keys, a whole batch of records
  arrives, in order, and the two ends are in step again afterwards.
\<close>

lemma records_arrive:
  assumes "in_step paired eg rp (length pre)" "\<forall>p \<in> set rs. plain_data admits p"
    "unat (eg_write_seq eg) + length rs < unat (eg_write_seq_max eg)" "eg_write_seq_max eg \<le> SEQ_HARD_LIMIT"
  shows "\<exists>eg' wire rp' pre'. encrypt_record_loop classify dns_ok E rs eg tls = Some (Inr (), eg', tls @ wire) \<and>
    (\<forall>rest. deframe_times D (length rs) (pre @ wire @ rest) rp = Some (map (received_record received_version) rs, rp', pre' @ rest)) \<and>
    in_step paired eg' rp' (length pre') \<and> unat (eg_write_seq eg') = unat (eg_write_seq eg) + length rs"
  using assms
proof (induction rs arbitrary: eg rp pre tls)
  case Nil
  thus ?case by (auto simp: returnS_def intro: exI [of _ "[]"] exI [of _ pre])
next
  case (Cons p rs)
  have lt: "eg_write_seq eg < SEQ_HARD_LIMIT" "\<not> eg_write_seq_max eg \<le> eg_write_seq eg + 1"
    and inc: "unat (eg_write_seq eg + 1) = unat (eg_write_seq eg) + 1"
  proof -
    have u: "unat (eg_write_seq eg) + 1 < unat (eg_write_seq_max eg)" "unat (eg_write_seq_max eg) < 2 ^ 64"
      using Cons.prems(3) unsigned_less [of "eg_write_seq_max eg"] by simp_all
    hence "unat (eg_write_seq eg) + 1 < 2 ^ 64" by (rule less_trans)
    thus inc: "unat (eg_write_seq eg + 1) = unat (eg_write_seq eg) + 1" by (simp add: unat_word_ariths)
    show "eg_write_seq eg < SEQ_HARD_LIMIT" "\<not> eg_write_seq_max eg \<le> eg_write_seq eg + 1"
      using u(1) inc Cons.prems(4) by (simp_all add: word_less_nat_alt word_le_nat_alt)
  qed
  from one_record_arrives [OF Cons.prems(1) _ lt(1), of p tls] Cons.prems(2) obtain e' wire dr rp1 pre1 where
    one: "encrypt_outgoing E p eg tls = Some (Inr (), advance_write e' eg, tls @ wire)"
      "\<And>rest. ReceivePath_deframe D (pre @ wire @ rest) rp = Some (Inr (Some dr), rp1, pre1 @ rest)"
      "dr_plaintext dr = received_record received_version p" "in_step paired (advance_write e' eg) rp1 (length pre1)" by auto
  from Cons.IH [of "advance_write e' eg" rp1 pre1 "tls @ wire"] one(4) Cons.prems(2-4) inc
  obtain eg' wire' rp' pre' where
    more: "encrypt_record_loop classify dns_ok E rs (advance_write e' eg) (tls @ wire) = Some (Inr (), eg', (tls @ wire) @ wire')"
      "\<And>rest. deframe_times D (length rs) (pre1 @ wire' @ rest) rp1 = Some (map (received_record received_version) rs, rp', pre' @ rest)"
      "in_step paired eg' rp' (length pre')" "unat (eg_write_seq eg') = unat (eg_write_seq eg) + 1 + length rs"
    by (auto simp: advance_write_def)
  have "encrypt_record_loop classify dns_ok E (p # rs) eg tls = Some (Inr (), eg', tls @ wire @ wire')"
    using lt(2) one(1) more(1) by (simp add: bindS_def returnS_def)
  moreover have "deframe_times D (length (p # rs)) (pre @ (wire @ wire') @ rest) rp =
      Some (map (received_record received_version) (p # rs), rp', pre' @ rest)" for rest
    using one(2) [of "wire' @ rest"] one(3) more(2) [of rest] by simp
  ultimately show ?case using more(3,4)
    by (intro exI [of _ eg'] exI [of _ "wire @ wire'"] exI [of _ rp'] exI [of _ pre']) simp
qed

text \<open>Application data through the whole send path.\<close>

lemma application_data_arrives:
  assumes sp: "sp_encrypt_state sp = ES_Encrypting eg" "sp_may_send_application_data sp" "\<not> sp_has_sent_close_notify sp"
    "eg_key_update_remote eg = KeyUpdateRemote_Idle" "Fragmenter_wf (sp_fragmenter sp)"
    and st: "in_step paired eg rp (length pre)" "admits ContentType_ApplicationData" "OutboundPlain_wf payload"
    and lim: "unat (eg_write_seq eg) + OutboundPlain_len payload < unat (eg_write_seq_max eg)" "eg_write_seq_max eg \<le> SEQ_SOFT_LIMIT"
  shows "\<exists>eg' wire rs rp' pre'. send_appdata_encrypt classify dns_ok E (Traffic payload) sp tls =
      Some (Inr (OutboundPlain_len payload), sp\<lparr>sp_encrypt_state := ES_Encrypting eg'\<rparr>, tls @ wire) \<and>
    (\<forall>rest. deframe_times D (length rs) (pre @ wire @ rest) rp = Some (rs, rp', pre' @ rest)) \<and>
    (\<forall>r \<in> set rs. rec_typ r = ContentType_ApplicationData) \<and>
    concat (map rec_payload rs) = OutboundPlain_to_vec payload \<and> in_step paired eg' rp' (length pre')"
proof -
  let ?frags = "Fragmenter_fragment (sp_fragmenter sp) ContentType_ApplicationData (Legacy ProtocolVersion_TLSv1_2) payload
      (encrypted_len E eg 0)"
  note fr = appdata_fragments [of payload "sp_fragmenter sp" admits ?frags "Legacy ProtocolVersion_TLSv1_2" "encrypted_len E eg 0",
      OF st(3) sp(5) st(2) refl]
  have "SEQ_SOFT_LIMIT \<le> SEQ_HARD_LIMIT" by (simp add: SEQ_SOFT_LIMIT_def SEQ_HARD_LIMIT_def)
  hence l: "unat (eg_write_seq eg) + length ?frags < unat (eg_write_seq_max eg)" "eg_write_seq_max eg \<le> SEQ_HARD_LIMIT"
    using lim fr(3) by auto
  from records_arrive [OF st(1) _ l, of classify dns_ok tls] fr(1) obtain eg' wire rp' pre' where
    send: "encrypt_record_loop classify dns_ok E ?frags eg tls = Some (Inr (), eg', tls @ wire)" and
    recv: "\<And>rest. deframe_times D (length ?frags) (pre @ wire @ rest) rp = Some (map (received_record received_version) ?frags, rp', pre' @ rest)" and
    st': "in_step paired eg' rp' (length pre')" by blast
  have wq: "write_queued eg tls = Some (Inr (), eg, tls)"
    using sp(4) by (cases eg) (simp add: write_queued_def returnS_def)
  have "send_appdata_encrypt classify dns_ok E (Traffic payload) sp tls =
      Some (Inr (OutboundPlain_len payload), sp\<lparr>sp_encrypt_state := ES_Encrypting eg'\<rparr>, tls @ wire)"
    using sp(1-3) wq send encrypt_records_below_limit [OF l, of classify dns_ok E tls]
    by (simp add: send_appdata_encrypt_def on_encrypting_def bindS_def close_on_limit_def returnS_def)
  moreover have "\<forall>r \<in> set (map (received_record received_version) ?frags). rec_typ r = ContentType_ApplicationData"
    using fr(1) by (auto simp: received_record_def)
  moreover have "concat (map rec_payload (map (received_record received_version) ?frags)) = OutboundPlain_to_vec payload"
    using fr(2) by (simp add: received_record_def o_def)
  ultimately show ?thesis using recv st'
    by (intro exI [of _ eg'] exI [of _ wire] exI [of _ "map (received_record received_version) ?frags"] exI [of _ rp'] exI [of _ pre']) simp
qed

end

end
