(* ===== verification/Input_Buffer.thy ===== *)
theory Input_Buffer
  imports Receive_Path
begin

text \<open>
  The buffers received bytes are kept in (\<open>rustls/src/conn/receive.rs\<close>): \<open>VecInput\<close>, which reads from a
  socket and moves what is pending to the front, and \<open>SliceInput\<close>, which only counts.  The trait
  \<open>TlsInputBuffer\<close> is a record of functions on a buffer's state; \<open>slice_mut\<close> is a pair of functions,
  one that reads the slice and one that writes it back.  The documented contract of the trait is the
  locale \<open>tls_input_buffer\<close>, and both buffers interpret it.
\<close>

record 'i TlsInputBuffer =
  ib_slice :: "'i \<Rightarrow> bytes"
  ib_write :: "bytes \<Rightarrow> 'i \<Rightarrow> 'i"
  ib_discard :: "usize \<Rightarrow> 'i \<Rightarrow> 'i"
  ib_received_close_notify :: "'i \<Rightarrow> 'i"
  ib_has_seen_eof :: "'i \<Rightarrow> bool"

subsection \<open>An owned buffer\<close>

record VecInput =
  vi_buf :: bytes
  vi_used :: usize
  vi_has_seen_eof :: bool
  vi_received_close_notify :: bool

definition VecInput_default :: VecInput where
  "VecInput_default = \<lparr>vi_buf = [], vi_used = 0, vi_has_seen_eof = False, vi_received_close_notify = False\<rparr>"

definition VecInput_discard :: "usize \<Rightarrow> VecInput \<Rightarrow> VecInput" where
  "VecInput_discard taken v =
     (if taken < vi_used v
      then v\<lparr>vi_buf := write_at 0 (slice taken (vi_used v) (vi_buf v)) (vi_buf v),
             vi_used := vi_used v - taken\<rparr>
      else v\<lparr>vi_used := 0\<rparr>)"

definition VecInput_filled :: "VecInput \<Rightarrow> bytes" where
  "VecInput_filled v = take (vi_used v) (vi_buf v)"

text \<open>Writing through \<open>filled_mut\<close>; a slice keeps its length.\<close>

definition VecInput_write_filled :: "bytes \<Rightarrow> VecInput \<Rightarrow> VecInput" where
  "VecInput_write_filled bs v = v\<lparr>vi_buf := write_at 0 bs (vi_buf v)\<rparr>"

definition MAX_INPUT_SIZE :: usize where
  "MAX_INPUT_SIZE = 0xffff"

definition READ_SIZE :: usize where
  "READ_SIZE = 4096"

definition resize :: "usize \<Rightarrow> bytes \<Rightarrow> bytes" where
  "resize n bs = take n bs @ replicate (n - length bs) 0"

definition VecInput_prepare_read :: "VecInput \<Rightarrow> string + VecInput" where
  "VecInput_prepare_read v =
     (if vi_used v \<ge> MAX_INPUT_SIZE then Inl ''message buffer full''
      else
        let need_capacity = min MAX_INPUT_SIZE (vi_used v + READ_SIZE) in
        if need_capacity > length (vi_buf v) \<or> vi_used v = 0 \<or> length (vi_buf v) > MAX_INPUT_SIZE
        then Inr (v\<lparr>vi_buf := resize need_capacity (vi_buf v)\<rparr>)
        else Inr v)"

datatype 'err io_error = InvalidData string | ReadError 'err

text \<open>
  A reader fills the front of the slice it is given, of which it gets the length, or fails.  A reader
  that returns more bytes than fit is not one the trait allows; indexing would panic later.
\<close>

definition VecInput_read ::
  "(usize \<Rightarrow> 'err + bytes) \<Rightarrow> VecInput \<Rightarrow> ('err io_error + usize) \<times> VecInput" where
  "VecInput_read rd v =
     (if vi_received_close_notify v then (Inr 0, v)
      else case VecInput_prepare_read v of
        Inl err \<Rightarrow> (Inl (InvalidData err), v)
      | Inr v \<Rightarrow>
          (case rd (length (vi_buf v) - vi_used v) of
             Inl e \<Rightarrow> (Inl (ReadError e), v)
           | Inr new \<Rightarrow>
               let v = v\<lparr>vi_buf := write_at (vi_used v) new (vi_buf v)\<rparr>;
                   v = (if new = [] then v\<lparr>vi_has_seen_eof := True\<rparr> else v)
               in (Inr (length new), v\<lparr>vi_used := vi_used v + length new\<rparr>)))"

definition VecInput_buffer :: "VecInput TlsInputBuffer" where
  "VecInput_buffer =
     \<lparr>ib_slice = VecInput_filled, ib_write = VecInput_write_filled, ib_discard = VecInput_discard,
      ib_received_close_notify = (\<lambda>v. v\<lparr>vi_received_close_notify := True\<rparr>),
      ib_has_seen_eof = vi_has_seen_eof\<rparr>"

subsection \<open>A borrowed buffer\<close>

record SliceInput =
  si_buf :: bytes
  si_discard :: usize
  si_has_seen_eof :: bool
  si_received_close_notify :: bool

definition SliceInput_new :: "bytes \<Rightarrow> SliceInput" where
  "SliceInput_new buf = \<lparr>si_buf = buf, si_discard = 0, si_has_seen_eof = False, si_received_close_notify = False\<rparr>"

definition SliceInput_into_used :: "SliceInput \<Rightarrow> usize" where
  "SliceInput_into_used s = si_discard s"

definition SliceInput_buffer :: "SliceInput TlsInputBuffer" where
  "SliceInput_buffer =
     \<lparr>ib_slice = (\<lambda>s. drop (si_discard s) (si_buf s)),
      ib_write = (\<lambda>bs s. s\<lparr>si_buf := write_at (si_discard s) bs (si_buf s)\<rparr>),
      ib_discard = (\<lambda>n s. s\<lparr>si_discard := si_discard s + n\<rparr>),
      ib_received_close_notify = (\<lambda>s. s\<lparr>si_received_close_notify := True\<rparr>),
      ib_has_seen_eof = si_has_seen_eof\<rparr>"

subsection \<open>The contract of an input buffer\<close>

text \<open>
  \<open>discard\<close> takes bytes from the front of the slice, writing through the slice changes nothing but its
  contents, and neither does the signal that the peer closed the connection.
\<close>

locale tls_input_buffer =
  fixes I :: "'i TlsInputBuffer" and valid :: "'i \<Rightarrow> bool"
  assumes slice_discard: "valid i \<Longrightarrow> n \<le> length (ib_slice I i) \<Longrightarrow>
            valid (ib_discard I n i) \<and> ib_slice I (ib_discard I n i) = drop n (ib_slice I i)"
    and slice_write: "valid i \<Longrightarrow> length bs = length (ib_slice I i) \<Longrightarrow>
            valid (ib_write I bs i) \<and> ib_slice I (ib_write I bs i) = bs"
    and slice_close: "valid i \<Longrightarrow>
            valid (ib_received_close_notify I i) \<and> ib_slice I (ib_received_close_notify I i) = ib_slice I i"
begin

text \<open>Discards add up.\<close>

lemma discard_discard:
  assumes "valid i" "m + n \<le> length (ib_slice I i)"
  shows "ib_slice I (ib_discard I n (ib_discard I m i)) = ib_slice I (ib_discard I (m + n) i)"
  using assms slice_discard [of i m] slice_discard [of "ib_discard I m i" n] slice_discard [of i "m + n"]
  by (simp add: add.commute)

end

definition VecInput_ok :: "VecInput \<Rightarrow> bool" where
  "VecInput_ok v \<longleftrightarrow> vi_used v \<le> length (vi_buf v) \<and> length (vi_buf v) \<le> MAX_INPUT_SIZE"

definition SliceInput_ok :: "SliceInput \<Rightarrow> bool" where
  "SliceInput_ok s \<longleftrightarrow> si_discard s \<le> length (si_buf s)"

lemma VecInput_discard_filled:
  assumes "VecInput_ok v" "n \<le> vi_used v"
  shows "VecInput_ok (VecInput_discard n v)" "VecInput_filled (VecInput_discard n v) = drop n (VecInput_filled v)"
proof -
  show "VecInput_ok (VecInput_discard n v)"
    using assms by (auto simp: VecInput_ok_def VecInput_discard_def length_write_at length_slice)
  show "VecInput_filled (VecInput_discard n v) = drop n (VecInput_filled v)"
    using assms
    by (auto simp: VecInput_ok_def VecInput_discard_def VecInput_filled_def write_at_def slice_def drop_take)
qed

interpretation vec_input: tls_input_buffer VecInput_buffer VecInput_ok
proof unfold_locales
  show "VecInput_ok (ib_discard VecInput_buffer n i) \<and>
      ib_slice VecInput_buffer (ib_discard VecInput_buffer n i) = drop n (ib_slice VecInput_buffer i)"
    if "VecInput_ok i" "n \<le> length (ib_slice VecInput_buffer i)" for i n
    using that VecInput_discard_filled [of i n]
    by (simp add: VecInput_buffer_def VecInput_filled_def)
qed (auto simp: VecInput_buffer_def VecInput_filled_def VecInput_write_filled_def VecInput_ok_def write_at_def)

interpretation slice_input: tls_input_buffer SliceInput_buffer SliceInput_ok
  by unfold_locales (auto simp: SliceInput_buffer_def SliceInput_ok_def write_at_def add.commute)

subsection \<open>Reading\<close>

text \<open>A reader that respects the slice it is given.\<close>

definition reader_ok :: "(usize \<Rightarrow> 'err + bytes) \<Rightarrow> bool" where
  "reader_ok rd \<longleftrightarrow> (\<forall>n bs. rd n = Inr bs \<longrightarrow> length bs \<le> n)"

lemma prepare_read_ok:
  assumes "VecInput_ok v" "VecInput_prepare_read v = Inr v'"
  shows "VecInput_ok v'" "VecInput_filled v' = VecInput_filled v" "vi_used v' = vi_used v"
    "vi_used v' < length (vi_buf v')" "vi_received_close_notify v' = vi_received_close_notify v"
  using assms
  by (auto simp: VecInput_prepare_read_def VecInput_ok_def VecInput_filled_def resize_def Let_def
      MAX_INPUT_SIZE_def READ_SIZE_def split: if_splits)

text \<open>
  Reading appends what the reader returned, never holds more than the limit, offers the reader room
  for at least one byte, and does nothing once the peer has closed.
\<close>

lemma VecInput_read_ok:
  assumes v: "VecInput_ok v" and rd: "reader_ok rd"
  shows "VecInput_ok (snd (VecInput_read rd v))"
    "\<exists>new. VecInput_filled (snd (VecInput_read rd v)) = VecInput_filled v @ new \<and>
       (case fst (VecInput_read rd v) of Inl _ \<Rightarrow> new = [] | Inr n \<Rightarrow> length new = n)"
proof -
  consider (closed) "vi_received_close_notify v" | (full) err where "\<not> vi_received_close_notify v"
      "VecInput_prepare_read v = Inl err"
    | (rd) v1 where "\<not> vi_received_close_notify v" "VecInput_prepare_read v = Inr v1"
    by (cases "vi_received_close_notify v"; cases "VecInput_prepare_read v") auto
  then have "VecInput_ok (snd (VecInput_read rd v)) \<and>
    (\<exists>new. VecInput_filled (snd (VecInput_read rd v)) = VecInput_filled v @ new \<and>
       (case fst (VecInput_read rd v) of Inl _ \<Rightarrow> new = [] | Inr n \<Rightarrow> length new = n))"
  proof cases
    case (rd v1)
    note p = prepare_read_ok [OF v rd(2)]
    show ?thesis
    proof (cases "rd (length (vi_buf v1) - vi_used v1)" )
      case (Inl e)
      then show ?thesis using rd p by (simp add: VecInput_read_def)
    next
      case (Inr new)
      then have len: "length new \<le> length (vi_buf v1) - vi_used v1"
        using assms(2) by (auto simp: reader_ok_def)
      have "take (vi_used v1 + length new) (write_at (vi_used v1) new (vi_buf v1)) =
          take (vi_used v1) (vi_buf v1) @ new"
        using p(4) len by (simp add: write_at_def)
      then show ?thesis using rd p len Inr
        by (auto simp: VecInput_read_def Let_def VecInput_ok_def VecInput_filled_def length_write_at)
    qed
  qed (use v in \<open>auto simp: VecInput_read_def\<close>)
  then show "VecInput_ok (snd (VecInput_read rd v))"
    "\<exists>new. VecInput_filled (snd (VecInput_read rd v)) = VecInput_filled v @ new \<and>
       (case fst (VecInput_read rd v) of Inl _ \<Rightarrow> new = [] | Inr n \<Rightarrow> length new = n)" by auto
qed

end
