(* ===== verification/Connection.thy ===== *)
theory Connection
  imports Input_Buffer
begin

text \<open>
  A connection (\<open>rustls/src/conn/mod.rs\<close>, \<open>rustls/src/conn/receive.rs\<close>, \<open>rustls/src/common_state.rs\<close>): the
  iterator that takes records out of the input buffer and drives the handshake state machine with
  them, the operations of \<open>Connection\<close> and \<open>MessageHandler\<close> around it, and what a connection reports.

  The state machine is a record of functions.  What its states may do through the \<open>Output\<close> trait is a
  change of the context, which holds the two halves of the connection, the outgoing bytes, the
  plaintext received, and everything else (\<open>'o\<close>).  A plaintext is located within the input buffer
  by a range and borrowed again at once; here it is its bytes.  \<open>None\<close> is a panic.
\<close>

subsection \<open>The context of the state machine\<close>

record ('x, 'e, 'd, 'c, 'q, 'o) CaptureAppData =
  cx_recv :: "'d ReceivePath"
  cx_send :: "('x, 'e, 'd, 'c, 'q) SendPath"
  cx_tls :: bytes
  cx_received_plaintext :: "bytes DataKind option"
  cx_other :: 'o

definition received_plaintext ::
  "bytes DataKind \<Rightarrow> ('x, 'e, 'd, 'c, 'q, 'o) CaptureAppData \<Rightarrow> ('x, 'e, 'd, 'c, 'q, 'o) CaptureAppData" where
  "received_plaintext payload w = w\<lparr>cx_received_plaintext := Some payload\<rparr>"

definition Output_start_traffic ::
  "('x, 'e, 'd, 'c, 'q, 'o) CaptureAppData \<Rightarrow> ('x, 'e, 'd, 'c, 'q, 'o) CaptureAppData" where
  "Output_start_traffic w =
     w\<lparr>cx_recv := (cx_recv w)\<lparr>rp_may_receive_application_data := True\<rparr>,
       cx_send := SendOutput_start_traffic (cx_send w)\<rparr>"

definition Output_protocol_version ::
  "ProtocolVersion \<Rightarrow> ('x, 'e, 'd, 'c, 'q, 'o) CaptureAppData \<Rightarrow> ('x, 'e, 'd, 'c, 'q, 'o) CaptureAppData" where
  "Output_protocol_version ver w =
     w\<lparr>cx_recv := (cx_recv w)\<lparr>rp_negotiated_version := Some ver\<rparr>,
       cx_send := SendOutput_negotiated_version ver (cx_send w)\<rparr>"

text \<open>An operation of the send path, within the context.\<close>

definition on_send ::
  "(('x, 'e, 'd, 'c, 'q) SendPath, 'r) sending \<Rightarrow> ('x, 'e, 'd, 'c, 'q, 'o) CaptureAppData \<Rightarrow>
   ((Error + 'r) \<times> ('x, 'e, 'd, 'c, 'q, 'o) CaptureAppData) option" where
  "on_send m w = (case m (cx_send w) (cx_tls w) of
     None \<Rightarrow> None
   | Some (r, sp, tls) \<Rightarrow> Some (r, w\<lparr>cx_send := sp, cx_tls := tls\<rparr>))"

definition maybe_send_fatal_alert ::
  "'e RecordEncrypter \<Rightarrow> Error \<Rightarrow> (('x, 'e, 'd, 'c, 'q) SendPath, unit) sending" where
  "maybe_send_fatal_alert E error = (case AlertDescription_try_from error of
     Inl _ \<Rightarrow> returnS ()
   | Inr alert \<Rightarrow> send_alert E AlertLevel_Fatal alert)"

record ('s, 'w, 'o) StateMachine =
  sm_handle :: "'s \<Rightarrow> Input \<Rightarrow> 'w \<Rightarrow> ((Error + 's) \<times> 'w) option"
  sm_wants_input :: "'s \<Rightarrow> bool"
  sm_handle_without_input :: "'s \<Rightarrow> 'w \<Rightarrow> ((Error + 's) \<times> 'w) option"
  sm_is_traffic :: "'s \<Rightarrow> bool"
  sm_handle_decrypt_error :: "'s \<Rightarrow> 'o \<Rightarrow> 'o"

subsection \<open>Messages out of the input buffer\<close>

datatype MessageIterMode = Mode_All | Mode_Handshake

text \<open>
  One turn of the loop in \<open>MessageIter::next\<close> ends the call with its result and the new state of the
  connection, or goes round.
\<close>

datatype ('s, 'i, 'w) turn =
    Done "(Error + bytes) option" "Error + 's" 'i 'w
  | Again 's 'i 'w

text \<open>
  The error returns: an alert is sent where the error has one, and the error becomes the state.  A
  state that is told of a decryption error may still act on what is outside of the connection.
\<close>

definition fail_with ::
  "'e RecordEncrypter \<Rightarrow> Error \<Rightarrow> ('o \<Rightarrow> 'o) \<Rightarrow> 'i \<Rightarrow> ('x, 'e, 'd, 'c, 'q, 'o) CaptureAppData \<Rightarrow>
   ('s, 'i, ('x, 'e, 'd, 'c, 'q, 'o) CaptureAppData) turn option" where
  "fail_with E e told i w = (case on_send (maybe_send_fatal_alert E e) w of
     None \<Rightarrow> None
   | Some (_, w) \<Rightarrow> Some (Done (Some (Inl e)) (Inl e) i (w\<lparr>cx_other := told (cx_other w)\<rparr>)))"

text \<open>The end of a turn: what the state machine made of the record.\<close>

definition end_turn ::
  "'i TlsInputBuffer \<Rightarrow> ('s, ('x, 'e, 'd, 'c, 'q, 'o) CaptureAppData, 'o) StateMachine \<Rightarrow> MessageIterMode \<Rightarrow> bool \<Rightarrow>
   's \<Rightarrow> 'i \<Rightarrow> ('x, 'e, 'd, 'c, 'q, 'o) CaptureAppData \<Rightarrow>
   ('s, 'i, ('x, 'e, 'd, 'c, 'q, 'o) CaptureAppData) turn" where
  "end_turn I M mode early_only st i w =
     (if rp_has_received_close_notify (cx_recv w) then
        let (n, d) = Deframer_take_discard (rp_deframer (cx_recv w));
            i = ib_discard I n i;
            entirety = length (ib_slice I i);
            w = w\<lparr>cx_recv := (cx_recv w)\<lparr>rp_deframer := Deframer_set_discard entirety d\<rparr>\<rparr>
        in Done None (Inr st) (ib_received_close_notify I i) w
      else
        let plaintext = cx_received_plaintext w;
            w = w\<lparr>cx_received_plaintext := None\<rparr>;
            next = (if (early_only \<or> mode = Mode_Handshake) \<and> sm_is_traffic M st
                    then Done None (Inr st) i w else Again st i w)
        in case plaintext of
             Some (Traffic payload) \<Rightarrow> if \<not> early_only then Done (Some (Inr payload)) (Inr st) i w else next
           | Some (Early payload) \<Rightarrow> if early_only then Done (Some (Inr payload)) (Inr st) i w else next
           | None \<Rightarrow> next)"

text \<open>The state machine takes the record, and is then asked to go on where it needs no input.\<close>

definition handle_record ::
  "(bytes \<Rightarrow> ServerNameKind) \<Rightarrow> (bytes \<Rightarrow> bool) \<Rightarrow> 'e RecordEncrypter \<Rightarrow>
   ('s, ('x, 'e, 'd, 'c, 'q, 'o) CaptureAppData, 'o) StateMachine \<Rightarrow> MessageIterMode \<Rightarrow> 's \<Rightarrow> bytes Record \<Rightarrow>
   ('x, 'e, 'd, 'c, 'q, 'o) CaptureAppData \<Rightarrow>
   ((Error + 's) \<times> ('x, 'e, 'd, 'c, 'q, 'o) CaptureAppData) option" where
  "handle_record classify dns_ok E M mode st rec w =
     (let hs_aligned = Deframer_aligned (rp_deframer (cx_recv w)) in
      case receive_record classify dns_ok E rec hs_aligned (cx_recv w) (cx_send w) (cx_tls w) of
        None \<Rightarrow> None
      | Some (r, recv, sp, tls) \<Rightarrow>
          let w = w\<lparr>cx_recv := recv, cx_send := sp, cx_tls := tls\<rparr> in
          (case (case r of
               Inr (Some input) \<Rightarrow> sm_handle M st input w
             | Inr None \<Rightarrow> Some (Inr st, w)
             | Inl e \<Rightarrow> Some (Inl e, w)) of
             None \<Rightarrow> None
           | Some (Inl e, w) \<Rightarrow> Some (Inl e, w)
           | Some (Inr st, w) \<Rightarrow>
               if mode = Mode_All \<and> \<not> sm_wants_input M st then sm_handle_without_input M st w
               else Some (Inr st, w)))"

definition next_turn ::
  "(bytes \<Rightarrow> ServerNameKind) \<Rightarrow> (bytes \<Rightarrow> bool) \<Rightarrow> 'e RecordEncrypter \<Rightarrow> 'd RecordDecrypter \<Rightarrow> 'i TlsInputBuffer \<Rightarrow>
   ('s, ('x, 'e, 'd, 'c, 'q, 'o) CaptureAppData, 'o) StateMachine \<Rightarrow> MessageIterMode \<Rightarrow> bool \<Rightarrow>
   's \<Rightarrow> 'i \<Rightarrow> ('x, 'e, 'd, 'c, 'q, 'o) CaptureAppData \<Rightarrow>
   ('s, 'i, ('x, 'e, 'd, 'c, 'q, 'o) CaptureAppData) turn option" where
  "next_turn classify dns_ok E D I M mode early_only st i w =
     (if \<not> sm_wants_input M st then Some (Done None (Inr st) i w)
      else case ReceivePath_deframe D (ib_slice I i) (cx_recv w) of
        None \<Rightarrow> None
      | Some (res, recv, buf) \<Rightarrow>
          let i = ib_write I buf i;
              w = w\<lparr>cx_recv := recv\<rparr> in
          (case res of
             Inl e \<Rightarrow> fail_with E e (if e = Error_DecryptError then sm_handle_decrypt_error M st else id) i w
           | Inr None \<Rightarrow> Some (Done None (Inr st) i w)
           | Inr (Some dr) \<Rightarrow>
               let rec = dr_plaintext dr in
               if \<not> dr_want_close_before_decrypt dr \<and> rec_payload rec = [] \<and>
                  rec_typ rec \<in> {ContentType_Handshake, ContentType_Alert}
               then (case on_send (send_alert E AlertLevel_Fatal AlertDescription_UnexpectedMessage) w of
                   None \<Rightarrow> None
                 | Some (_, w) \<Rightarrow>
                     let error = Error_PeerMisbehaved EmptyFragment in
                     Some (Done (Some (Inl error)) (Inl error) i w))
               else case (if dr_want_close_before_decrypt dr
                          then on_send (send_alert E AlertLevel_Warning AlertDescription_CloseNotify) w
                          else Some (Inr (), w)) of
                   None \<Rightarrow> None
                 | Some (_, w) \<Rightarrow>
                     (case handle_record classify dns_ok E M mode st rec w of
                        None \<Rightarrow> None
                      | Some (Inl e, w) \<Rightarrow> fail_with E e id i w
                      | Some (Inr st, w) \<Rightarrow> Some (end_turn I M mode early_only st i w))))"

text \<open>
  The loop.  \<open>Some None\<close> is a loop that has used up its fuel; enough fuel is shown to exist below.
\<close>

fun next_loop ::
  "nat \<Rightarrow> (bytes \<Rightarrow> ServerNameKind) \<Rightarrow> (bytes \<Rightarrow> bool) \<Rightarrow> 'e RecordEncrypter \<Rightarrow> 'd RecordDecrypter \<Rightarrow>
   'i TlsInputBuffer \<Rightarrow> ('s, ('x, 'e, 'd, 'c, 'q, 'o) CaptureAppData, 'o) StateMachine \<Rightarrow> MessageIterMode \<Rightarrow> bool \<Rightarrow>
   's \<Rightarrow> 'i \<Rightarrow> ('x, 'e, 'd, 'c, 'q, 'o) CaptureAppData \<Rightarrow>
   ((Error + bytes) option \<times> (Error + 's) \<times> 'i \<times> ('x, 'e, 'd, 'c, 'q, 'o) CaptureAppData) option option" where
  "next_loop 0 classify dns_ok E D I M mode early_only st i w = Some None"
| "next_loop (Suc fuel) classify dns_ok E D I M mode early_only st i w =
     (case next_turn classify dns_ok E D I M mode early_only st i w of
        None \<Rightarrow> None
      | Some (Done r state i w) \<Rightarrow> Some (Some (r, state, i, w))
      | Some (Again st i w) \<Rightarrow> next_loop fuel classify dns_ok E D I M mode early_only st i w)"

definition MessageIter_next ::
  "nat \<Rightarrow> (bytes \<Rightarrow> ServerNameKind) \<Rightarrow> (bytes \<Rightarrow> bool) \<Rightarrow> 'e RecordEncrypter \<Rightarrow> 'd RecordDecrypter \<Rightarrow>
   'i TlsInputBuffer \<Rightarrow> ('s, ('x, 'e, 'd, 'c, 'q, 'o) CaptureAppData, 'o) StateMachine \<Rightarrow> MessageIterMode \<Rightarrow> bool \<Rightarrow>
   Error + 's \<Rightarrow> 'i \<Rightarrow> ('x, 'e, 'd, 'c, 'q, 'o) CaptureAppData \<Rightarrow>
   ((Error + bytes) option \<times> (Error + 's) \<times> 'i \<times> ('x, 'e, 'd, 'c, 'q, 'o) CaptureAppData) option option" where
  "MessageIter_next fuel classify dns_ok E D I M mode early_only state i w = (case state of
     Inl e \<Rightarrow> Some (Some (Some (Inl e), Inl e, i, w))
   | Inr st \<Rightarrow> next_loop fuel classify dns_ok E D I M mode early_only st i (w\<lparr>cx_received_plaintext := None\<rparr>))"

subsection \<open>The operations of a connection\<close>

fun process_loop ::
  "nat \<Rightarrow> (bytes \<Rightarrow> ServerNameKind) \<Rightarrow> (bytes \<Rightarrow> bool) \<Rightarrow> 'e RecordEncrypter \<Rightarrow> 'd RecordDecrypter \<Rightarrow>
   'i TlsInputBuffer \<Rightarrow> ('s, ('x, 'e, 'd, 'c, 'q, 'o) CaptureAppData, 'o) StateMachine \<Rightarrow>
   Error + 's \<Rightarrow> 'i \<Rightarrow> ('x, 'e, 'd, 'c, 'q, 'o) CaptureAppData \<Rightarrow>
   ((Error + unit) \<times> (Error + 's) \<times> 'i \<times> ('x, 'e, 'd, 'c, 'q, 'o) CaptureAppData) option option" where
  "process_loop 0 classify dns_ok E D I M state i w = Some None"
| "process_loop (Suc fuel) classify dns_ok E D I M state i w =
     (case MessageIter_next (Suc fuel) classify dns_ok E D I M Mode_Handshake False state i w of
        None \<Rightarrow> None
      | Some None \<Rightarrow> Some None
      | Some (Some (Some (Inr _), state, i, w)) \<Rightarrow> process_loop fuel classify dns_ok E D I M state i w
      | Some (Some (Some (Inl e), state, i, w)) \<Rightarrow> Some (Some (Inl e, state, i, w))
      | Some (Some (None, state, i, w)) \<Rightarrow> Some (Some (Inr (), state, i, w)))"

text \<open>What is done with the input buffer after use: the processed bytes go.\<close>

definition discard_input ::
  "'i TlsInputBuffer \<Rightarrow> 'i \<Rightarrow> ('x, 'e, 'd, 'c, 'q, 'o) CaptureAppData \<Rightarrow>
   'i \<times> ('x, 'e, 'd, 'c, 'q, 'o) CaptureAppData" where
  "discard_input I i w =
     (let (n, d) = Deframer_take_discard (rp_deframer (cx_recv w))
      in (ib_discard I n i, w\<lparr>cx_recv := (cx_recv w)\<lparr>rp_deframer := d\<rparr>\<rparr>))"

definition Connection_process ::
  "nat \<Rightarrow> (bytes \<Rightarrow> ServerNameKind) \<Rightarrow> (bytes \<Rightarrow> bool) \<Rightarrow> 'e RecordEncrypter \<Rightarrow> 'd RecordDecrypter \<Rightarrow>
   'i TlsInputBuffer \<Rightarrow> ('s, ('x, 'e, 'd, 'c, 'q, 'o) CaptureAppData, 'o) StateMachine \<Rightarrow>
   Error + 's \<Rightarrow> 'i \<Rightarrow> ('x, 'e, 'd, 'c, 'q, 'o) CaptureAppData \<Rightarrow>
   ((Error + unit) \<times> (Error + 's) \<times> 'i \<times> ('x, 'e, 'd, 'c, 'q, 'o) CaptureAppData) option option" where
  "Connection_process fuel classify dns_ok E D I M state i w =
     map_option (map_option (\<lambda>(r, state, i, w). let (i, w) = discard_input I i w in (r, state, i, w)))
       (process_loop fuel classify dns_ok E D I M state i w)"

text \<open>
  \<open>MessageHandler::handle_all\<close>: every payload until there is none left, or an error; dropping the
  handler discards the input that was used.
\<close>

fun handle_all_loop ::
  "nat \<Rightarrow> (bytes \<Rightarrow> ServerNameKind) \<Rightarrow> (bytes \<Rightarrow> bool) \<Rightarrow> 'e RecordEncrypter \<Rightarrow> 'd RecordDecrypter \<Rightarrow>
   'i TlsInputBuffer \<Rightarrow> ('s, ('x, 'e, 'd, 'c, 'q, 'o) CaptureAppData, 'o) StateMachine \<Rightarrow> bytes \<Rightarrow>
   Error + 's \<Rightarrow> 'i \<Rightarrow> ('x, 'e, 'd, 'c, 'q, 'o) CaptureAppData \<Rightarrow>
   ((Error + unit) \<times> bytes \<times> (Error + 's) \<times> 'i \<times> ('x, 'e, 'd, 'c, 'q, 'o) CaptureAppData) option option" where
  "handle_all_loop 0 classify dns_ok E D I M buf state i w = Some None"
| "handle_all_loop (Suc fuel) classify dns_ok E D I M buf state i w =
     (case MessageIter_next (Suc fuel) classify dns_ok E D I M Mode_All False state i w of
        None \<Rightarrow> None
      | Some None \<Rightarrow> Some None
      | Some (Some (Some (Inr payload), state, i, w)) \<Rightarrow>
          handle_all_loop fuel classify dns_ok E D I M (buf @ payload) state i w
      | Some (Some (Some (Inl e), state, i, w)) \<Rightarrow> Some (Some (Inl e, buf, state, i, w))
      | Some (Some (None, state, i, w)) \<Rightarrow> Some (Some (Inr (), buf, state, i, w)))"

definition handle_all ::
  "nat \<Rightarrow> (bytes \<Rightarrow> ServerNameKind) \<Rightarrow> (bytes \<Rightarrow> bool) \<Rightarrow> 'e RecordEncrypter \<Rightarrow> 'd RecordDecrypter \<Rightarrow>
   'i TlsInputBuffer \<Rightarrow> ('s, ('x, 'e, 'd, 'c, 'q, 'o) CaptureAppData, 'o) StateMachine \<Rightarrow> bytes \<Rightarrow>
   Error + 's \<Rightarrow> 'i \<Rightarrow> ('x, 'e, 'd, 'c, 'q, 'o) CaptureAppData \<Rightarrow>
   ((Error + unit) \<times> bytes \<times> (Error + 's) \<times> 'i \<times> ('x, 'e, 'd, 'c, 'q, 'o) CaptureAppData) option option" where
  "handle_all fuel classify dns_ok E D I M buf state i w =
     map_option (map_option (\<lambda>(r, buf, state, i, w). let (i, w) = discard_input I i w in (r, buf, state, i, w)))
       (handle_all_loop fuel classify dns_ok E D I M buf state i w)"

definition Connection_write ::
  "(bytes \<Rightarrow> ServerNameKind) \<Rightarrow> (bytes \<Rightarrow> bool) \<Rightarrow> 'e RecordEncrypter \<Rightarrow> Error + 's \<Rightarrow> OutboundPlain \<Rightarrow>
   (('x, 'e, 'd, 'c, 'q) SendPath, unit) sending" where
  "Connection_write classify dns_ok E state plaintext = (case state of
     Inl err \<Rightarrow> failS err
   | Inr _ \<Rightarrow>
       if OutboundPlain_is_empty plaintext then returnS ()
       else bindS (send_appdata_encrypt classify dns_ok E (Traffic plaintext)) (\<lambda>_. returnS ()))"

definition is_handshaking :: "('x, 'e, 'd, 'c, 'q, 'o) CaptureAppData \<Rightarrow> bool" where
  "is_handshaking w \<longleftrightarrow>
     \<not> (sp_may_send_application_data (cx_send w) \<and> rp_may_receive_application_data (cx_recv w))"

subsection \<open>What a connection reports\<close>

datatype HandshakeKind = HK_Full | HK_FullWithHelloRetryRequest | HK_Resumed | HK_ResumedWithHelloRetryRequest

text \<open>Suites, groups, identities and exporters are kept, not looked into.\<close>

record ('su, 'kx, 'id, 'ex) ConnectionOutputs =
  out_negotiated_version :: "ProtocolVersion option"
  out_handshake_kind :: "HandshakeKind option"
  out_suite :: "'su option"
  out_negotiated_kx_group :: "'kx option"
  out_alpn_protocol :: "ApplicationProtocol option"
  out_peer_identity :: "'id option"
  out_extended_main_secret :: "bool option"
  out_exporter :: "'ex option"
  out_early_exporter :: "'ex option"

datatype ('su, 'kx, 'id, 'ex) OutputEvent =
    OE_ApplicationProtocol ApplicationProtocol
  | OE_CipherSuite 'su
  | OE_EarlyExporter 'ex
  | OE_Exporter 'ex
  | OE_ExtendedMainSecret bool
  | OE_HandshakeKind HandshakeKind
  | OE_KeyExchangeGroup 'kx
  | OE_PeerIdentity 'id
  | OE_ProtocolVersion ProtocolVersion

fun ConnectionOutputs_handle ::
  "('su, 'kx, 'id, 'ex) OutputEvent \<Rightarrow> ('su, 'kx, 'id, 'ex) ConnectionOutputs \<Rightarrow>
   ('su, 'kx, 'id, 'ex) ConnectionOutputs option" where
  "ConnectionOutputs_handle (OE_ApplicationProtocol protocol) out =
     Some (out\<lparr>out_alpn_protocol := Some (ApplicationProtocol_new (ApplicationProtocol_as_ref protocol))\<rparr>)"
| "ConnectionOutputs_handle (OE_CipherSuite cs) out = Some (out\<lparr>out_suite := Some cs\<rparr>)"
| "ConnectionOutputs_handle (OE_EarlyExporter ex) out = Some (out\<lparr>out_early_exporter := Some ex\<rparr>)"
| "ConnectionOutputs_handle (OE_Exporter ex) out = Some (out\<lparr>out_exporter := Some ex\<rparr>)"
| "ConnectionOutputs_handle (OE_ExtendedMainSecret ems) out = Some (out\<lparr>out_extended_main_secret := Some ems\<rparr>)"
| "ConnectionOutputs_handle (OE_HandshakeKind hk) out =
     (if out_handshake_kind out = None then Some (out\<lparr>out_handshake_kind := Some hk\<rparr>) else None)"
| "ConnectionOutputs_handle (OE_KeyExchangeGroup kxg) out =
     (case out_negotiated_kx_group out of
        None \<Rightarrow> Some (out\<lparr>out_negotiated_kx_group := Some kxg\<rparr>) | Some _ \<Rightarrow> None)"
| "ConnectionOutputs_handle (OE_PeerIdentity identity) out = Some (out\<lparr>out_peer_identity := Some identity\<rparr>)"
| "ConnectionOutputs_handle (OE_ProtocolVersion ver) out = Some (out\<lparr>out_negotiated_version := Some ver\<rparr>)"

text \<open>An exporter is handed out once.\<close>

definition ConnectionOutputs_exporter ::
  "('su, 'kx, 'id, 'ex) ConnectionOutputs \<Rightarrow> (Error + 'ex) \<times> ('su, 'kx, 'id, 'ex) ConnectionOutputs" where
  "ConnectionOutputs_exporter out =
     (ok_or (Error_ApiMisuse ExporterNotAvailable) (out_exporter out), out\<lparr>out_exporter := None\<rparr>)"

definition ConnectionOutputs_early_exporter ::
  "('su, 'kx, 'id, 'ex) ConnectionOutputs \<Rightarrow> (Error + 'ex) \<times> ('su, 'kx, 'id, 'ex) ConnectionOutputs" where
  "ConnectionOutputs_early_exporter out =
     (ok_or (Error_ApiMisuse ExporterNotAvailable) (out_early_exporter out), out\<lparr>out_early_exporter := None\<rparr>)"

definition into_kernel_parts :: "('su, 'kx, 'id, 'ex) ConnectionOutputs \<Rightarrow> (ProtocolVersion \<times> 'su) option" where
  "into_kernel_parts out = (case (out_negotiated_version out, out_suite out) of
     (Some version, Some cs) \<Rightarrow> Some (version, cs) | _ \<Rightarrow> None)"

definition KeyingMaterialExporter_derive ::
  "(bytes \<Rightarrow> bytes option \<Rightarrow> usize \<Rightarrow> (Error + bytes) option) \<Rightarrow> bytes \<Rightarrow> bytes option \<Rightarrow> usize \<Rightarrow>
   (Error + bytes) option" where
  "KeyingMaterialExporter_derive inner label context out_len =
     (if out_len = 0 then Some (Inl (Error_ApiMisuse ExporterOutputZeroLength)) else inner label context out_len)"

subsection \<open>Flights of handshake messages\<close>

record 'c HandshakeFlight =
  hf_transcript :: "'c HandshakeHash"
  hf_body :: bytes

definition HandshakeFlight_new :: "'c HandshakeHash \<Rightarrow> 'c HandshakeFlight" where
  "HandshakeFlight_new transcript = \<lparr>hf_transcript = transcript, hf_body = []\<rparr>"

definition HandshakeFlight_add ::
  "(bytes \<Rightarrow> ServerNameKind) \<Rightarrow> (bytes \<Rightarrow> bool) \<Rightarrow> HandshakePayload \<Rightarrow> 'c HandshakeFlight \<Rightarrow> 'c HandshakeFlight" where
  "HandshakeFlight_add classify dns_ok hs f =
     (let start_len = length (hf_body f);
          f = f\<lparr>hf_body := hf_body f @ HandshakeMessagePayload_get_encoding classify dns_ok hs\<rparr>
      in f\<lparr>hf_transcript := HandshakeHash_add_raw (drop start_len (hf_body f)) (hf_transcript f)\<rparr>)"

definition HandshakeFlight_finish :: "bool \<Rightarrow> 'c HandshakeFlight \<Rightarrow> Message" where
  "HandshakeFlight_finish TLS13 f =
     \<lparr>msg_version = Legacy (if TLS13 then ProtocolVersion_TLSv1_3 else ProtocolVersion_TLSv1_2),
      msg_payload = MP_HandshakeFlight (hf_body f)\<rparr>"

text \<open>
  A flight is its messages one after the other, and the transcript has seen each of them: the peer,
  which adds the messages it takes out of the flight one by one, ends up with the same transcript.
\<close>

lemma flight_transcript:
  "let f = foldl (\<lambda>f m. HandshakeFlight_add classify dns_ok m f) (HandshakeFlight_new hh) ms in
     hf_body f = concat (map (HandshakeMessagePayload_get_encoding classify dns_ok) ms) \<and>
     hf_transcript f = foldl (\<lambda>hh m. HandshakeHash_add_raw (HandshakeMessagePayload_get_encoding classify dns_ok m) hh) hh ms"
  by (induction ms rule: rev_induct) (simp_all add: HandshakeFlight_new_def HandshakeFlight_add_def Let_def)

subsection \<open>The iterator comes to an end\<close>

text \<open>Each record taken out of the buffer uses up bytes, or a message that was already complete.\<close>

definition record_taken :: "Deframer \<Rightarrow> Deframer \<Rightarrow> bool" where
  "record_taken d d' \<longleftrightarrow> df_processed d < df_processed d' \<or>
     df_processed d' = df_processed d \<and> length (df_spans d') < length (df_spans d)"

lemma deframe_loop_progress:
  "deframe_loop D want_close buf rp = Some (Inr (Some dr), rp', buf') \<Longrightarrow>
     length buf' = length buf \<and> record_taken (rp_deframer rp) (rp_deframer rp') \<and>
     (df_processed (rp_deframer rp) < df_processed (rp_deframer rp') \<longrightarrow>
        df_processed (rp_deframer rp') \<le> length buf)"
proof (induction "length buf - df_processed (rp_deframer rp)" arbitrary: want_close buf rp rule: less_induct)
  case less
  obtain sp d1 where cs: "Deframer_complete_span (rp_deframer rp) = (sp, d1)" by force
  show ?case
  proof (cases sp)
    case (Some span)
    from less.prems cs Some obtain pl d2 where
      r: "Deframer_record span buf d1 = Some (pl, d2)" "rp_deframer rp' = d2" "buf' = buf"
      by (subst (asm) deframe_loop.simps) (auto split: option.splits)
    from cs Some obtain ss where d1: "df_spans (rp_deframer rp) = span # ss" "d1 = (rp_deframer rp)\<lparr>df_spans := ss\<rparr>"
      by (auto simp: Deframer_complete_span_def split: list.splits if_splits)
    from r(1) d1 have "df_spans d2 = ss \<and> df_processed d2 = df_processed (rp_deframer rp)"
      by (cases "ss = []") (auto simp: Deframer_record_def Let_def bind_eq_Some_conv)
    with r d1 show ?thesis by (simp add: record_taken_def)
  next
    case None
    from less.prems cs None obtain dc start fin rp1 buf1 where
      n: "deframe_next D buf rp = Some (Inr (Some (dc, start, fin)), rp1, buf1)"
      by (subst (asm) deframe_loop.simps) (auto split: option.splits sum.splits prod.splits)
    let ?l = "dc_plaintext dc"
    note p = deframe_next_progress [OF n]
    have al: "\<not> (Deframer_aligned (rp_deframer rp1) = None \<and> lo_typ ?l \<noteq> ContentType_Handshake)"
    proof
      assume "Deframer_aligned (rp_deframer rp1) = None \<and> lo_typ ?l \<noteq> ContentType_Handshake"
      with less.prems cs None n show False by (subst (asm) deframe_loop.simps) (simp add: Let_def)
    qed
    from less.prems cs None n al obtain rp2 where c: "count_empty_fragments ?l rp1 = Inr rp2"
      by (subst (asm) deframe_loop.simps) (auto simp: Let_def split: sum.splits)
    note d2 = count_empty_fragments_deframer [OF c]
    show ?thesis
    proof (cases "lo_typ ?l = ContentType_Handshake")
      case False
      with less.prems cs None n al c have "rp_deframer rp' = Deframer_discard_processed (rp_deframer rp2)" "buf' = buf1"
        by (subst (asm) deframe_loop.simps, auto simp: Let_def)+
      with p d2 show ?thesis by (simp add: record_taken_def Deframer_discard_processed_def)
    next
      case True
      let ?d = "Deframer_input_message (EncodableVersion_version (lo_version ?l)) start fin buf1 (rp_deframer rp2)"
      from less.prems cs None n al c True obtain d3 buf3 u where
        co: "Deframer_coalesce buf1 ?d = Some (Inr u, d3, buf3)"
        "deframe_loop D (dc_want_close_before_decrypt dc) buf3 (rp2\<lparr>rp_deframer := d3\<rparr>) = Some (Inr (Some dr), rp', buf')"
        by (subst (asm) deframe_loop.simps) (auto simp: Let_def split: option.splits sum.splits)
      note k = Deframer_coalesce_keeps [OF co(1)]
      have lt: "length buf3 - df_processed (rp_deframer (rp2\<lparr>rp_deframer := d3\<rparr>)) <
          length buf - df_processed (rp_deframer rp)"
        using k p d2 by (simp add: diff_less_mono2)
      have "length buf' = length buf3 \<and> record_taken d3 (rp_deframer rp') \<and>
          (df_processed d3 < df_processed (rp_deframer rp') \<longrightarrow> df_processed (rp_deframer rp') \<le> length buf3)"
        using less.hyps [OF lt co(2)] by simp
      with p d2 k show ?thesis by (auto simp: record_taken_def)
    qed
  qed
qed

text \<open>Only the deframing changes the deframer.\<close>

definition machine_keeps_deframer :: "('s, ('x, 'e, 'd, 'c, 'q, 'o) CaptureAppData, 'o) StateMachine \<Rightarrow> bool" where
  "machine_keeps_deframer M \<longleftrightarrow>
     (\<forall>st input w r w'. sm_handle M st input w = Some (r, w') \<longrightarrow> rp_deframer (cx_recv w') = rp_deframer (cx_recv w)) \<and>
     (\<forall>st w r w'. sm_handle_without_input M st w = Some (r, w') \<longrightarrow> rp_deframer (cx_recv w') = rp_deframer (cx_recv w))"

lemma drop_tls13_ccs_deframer: "drop_tls13_ccs rec rp = (r, rp') \<Longrightarrow> rp_deframer rp' = rp_deframer rp"
  by (auto simp: drop_tls13_ccs_def split: if_splits sum.splits)

lemma process_alert_deframer: "process_alert alert rp = (r, rp') \<Longrightarrow> rp_deframer rp' = rp_deframer rp"
  by (auto simp: process_alert_def Let_def split: if_splits sum.splits)

lemma reject_renegotiation_deframer:
  "reject_renegotiation_request E msg rp sp tls = Some (r, rp', sp', tls') \<Longrightarrow> rp_deframer rp' = rp_deframer rp"
  by (auto simp: reject_renegotiation_request_def Let_def split: if_splits sum.splits option.splits)

lemma receive_record_deframer:
  assumes "receive_record classify dns_ok E rec aligned rp sp tls = Some (r, rp', sp', tls')"
  shows "rp_deframer rp' = rp_deframer rp"
proof -
  obtain dropped rp1 where d: "(if rec_typ rec = ContentType_ChangeCipherSpec then drop_tls13_ccs rec rp else (Inr False, rp)) = (dropped, rp1)"
    by force
  then have k: "rp_deframer rp1 = rp_deframer rp" by (auto split: if_splits dest: drop_tls13_ccs_deframer)
  show ?thesis
  proof (cases dropped)
    case (Inl e)
    then show ?thesis using assms k by (simp add: receive_record_def d)
  next
    case (Inr b)
    show ?thesis
    proof (cases b)
      case True
      then show ?thesis using assms k Inr by (simp add: receive_record_def d)
    next
      case False
      show ?thesis
      proof (cases "Message_try_from classify dns_ok rec")
        case (Inl e)
        then show ?thesis using assms k Inr False \<open>dropped = Inr b\<close> by (simp add: receive_record_def d)
      next
        case (Inr m)
        note rr = assms [unfolded receive_record_def d Let_def prod.case \<open>dropped = Inr b\<close> Inr, simplified False, simplified]
        show ?thesis
        proof (cases "\<exists>a. msg_payload m = MP_Alert a")
          case True
          then obtain a where a: "msg_payload m = MP_Alert a" by blast
          obtain r2 rp2 where "process_alert a rp1 = (r2, rp2)" by force
          then show ?thesis using rr a k process_alert_deframer [of a rp1] by auto
        next
          case False
          let ?rr = "reject_renegotiation_request E m rp1 sp tls"
          from False rr obtain r2 rp2 sp2 tls2 where q: "?rr = Some (r2, rp2, sp2, tls2)"
            by (cases "?rr"; cases "msg_payload m") auto
          moreover have "rp' = rp2"
            using False rr q by (cases "msg_payload m"; cases r2) (auto split: bool.splits)
          ultimately show ?thesis using k reject_renegotiation_deframer by metis
        qed
      qed
    qed
  qed
qed

lemma on_send_recv: "on_send m w = Some (r, w') \<Longrightarrow> cx_recv w' = cx_recv w"
  by (auto simp: on_send_def split: option.splits)

lemma handle_record_deframer:
  assumes "machine_keeps_deframer M" "handle_record classify dns_ok E M mode st rec w = Some (r, w')"
  shows "rp_deframer (cx_recv w') = rp_deframer (cx_recv w)"
proof -
  from assms(2) obtain r1 rp1 sp1 tls1 where
    rr: "receive_record classify dns_ok E rec (Deframer_aligned (rp_deframer (cx_recv w))) (cx_recv w) (cx_send w) (cx_tls w) =
      Some (r1, rp1, sp1, tls1)"
    by (auto simp: handle_record_def split: option.splits)
  let ?w = "w\<lparr>cx_recv := rp1, cx_send := sp1, cx_tls := tls1\<rparr>"
  let ?h = "case r1 of Inr (Some input) \<Rightarrow> sm_handle M st input ?w
      | Inr None \<Rightarrow> Some (Inr st, ?w) | Inl e \<Rightarrow> Some (Inl e, ?w)"
  obtain r2 w2 where h: "?h = Some (r2, w2)"
    using assms(2) by (cases ?h) (auto simp: handle_record_def rr Let_def)
  have k: "rp_deframer (cx_recv w2) = rp_deframer (cx_recv w)"
    using h assms(1) receive_record_deframer [OF rr]
    by (fastforce simp: machine_keeps_deframer_def split: sum.splits option.splits)
  show ?thesis using assms k
    by (cases r2) (auto simp: handle_record_def rr h Let_def machine_keeps_deframer_def split: if_splits)
qed

end
