(* ===== verification/Connection_Loop.thy ===== *)
theory Connection_Loop
  imports Connection
begin

text \<open>
  What holds of the iterator of \<open>rustls/src/conn/receive.rs\<close> and the loops around it whatever the state
  machine is: it comes to an end, and an error is final.
\<close>

subsection \<open>A turn of the loop\<close>

text \<open>What is left to do: bytes that are not processed, then complete messages that are not taken.\<close>

definition left_to_do :: "'i TlsInputBuffer \<Rightarrow> 'i \<Rightarrow> ('x, 'e, 'd, 'c, 'q, 'o) CaptureAppData \<Rightarrow> nat \<times> nat" where
  "left_to_do I i w =
     (length (ib_slice I i) - df_processed (rp_deframer (cx_recv w)), length (df_spans (rp_deframer (cx_recv w))))"

abbreviation smaller :: "((nat \<times> nat) \<times> nat \<times> nat) set" where
  "smaller \<equiv> less_than <*lex*> less_than"

lemma smaller_trans: "(a, b) \<in> smaller \<Longrightarrow> (b, c) \<in> smaller \<Longrightarrow> (a, c) \<in> smaller"
  by (cases a; cases b; cases c) auto

lemma left_to_do_plaintext [simp]: "left_to_do I i (w\<lparr>cx_received_plaintext := p\<rparr>) = left_to_do I i w"
  by (simp add: left_to_do_def)

text \<open>A turn that goes on, or that hands out a payload.\<close>

fun turn_goes_on :: "('s, 'i, 'w) turn \<Rightarrow> ('i \<times> 'w) option" where
  "turn_goes_on (Again st i w) = Some (i, w)"
| "turn_goes_on (Done (Some (Inr payload)) (Inr st) i w) = Some (i, w)"
| "turn_goes_on (Done _ _ i w) = None"

lemma fail_with_eq:
  "fail_with E e told i w = Some t \<Longrightarrow>
     \<exists>r w'. on_send (maybe_send_fatal_alert E e) w = Some (r, w') \<and>
       t = Done (Some (Inl e)) (Inl e) i (w'\<lparr>cx_other := told (cx_other w')\<rparr>)"
  by (auto simp: fail_with_def split: option.splits)

lemma sum_option_cases:
  obtains (Err) e where "x = Inl e" | (Nothing) "x = Inr None" | (Something) y where "x = Inr (Some y)"
  by (cases x) (metis option.exhaust)+

text \<open>The ways a turn ends.\<close>

lemma next_turn_cases:
  assumes t: "next_turn classify dns_ok E D I M mode early_only st i w = Some t"
  obtains (stop) i' w' where "t = Done None (Inr st) i' w'"
  | (fail) e told w1 i' where "fail_with E e told i' w1 = Some t"
  | (empty) r w1 w' i' where "on_send (send_alert E AlertLevel_Fatal AlertDescription_UnexpectedMessage) w1 = Some (r, w')"
      "t = Done (Some (Inl (Error_PeerMisbehaved EmptyFragment))) (Inl (Error_PeerMisbehaved EmptyFragment)) i' w'"
  | (taken) dr rp buf w1 st2 w2 where
      "ReceivePath_deframe D (ib_slice I i) (cx_recv w) = Some (Inr (Some dr), rp, buf)" "cx_recv w1 = rp"
      "handle_record classify dns_ok E M mode st (dr_plaintext dr) w1 = Some (Inr st2, w2)"
      "t = end_turn I M mode early_only st2 (ib_write I buf i) w2"
proof (cases "sm_wants_input M st")
  case False
  with t stop show thesis by (auto simp: next_turn_def)
next
  case wi: True
  let ?df = "ReceivePath_deframe D (ib_slice I i) (cx_recv w)"
  obtain res rp1 buf1 where df: "?df = Some (res, rp1, buf1)"
    using t wi by (cases ?df) (auto simp: next_turn_def)
  let ?w = "w\<lparr>cx_recv := rp1\<rparr>" and ?i = "ib_write I buf1 i"
  show thesis
  proof (cases res rule: sum_option_cases)
    case (Err e)
    with t wi df fail show thesis by (auto simp: next_turn_def)
  next
    case Nothing
    with t wi df stop show thesis by (auto simp: next_turn_def)
  next
    case (Something dr)
    note d = df [unfolded Something]
    let ?e = "\<not> dr_want_close_before_decrypt dr \<and> rec_payload (dr_plaintext dr) = [] \<and>
      rec_typ (dr_plaintext dr) \<in> {ContentType_Handshake, ContentType_Alert}"
    let ?s = "if dr_want_close_before_decrypt dr
           then on_send (send_alert E AlertLevel_Warning AlertDescription_CloseNotify) ?w
           else Some (Inr (), ?w)"
    show thesis
    proof (cases ?e)
      case True
      with t wi d obtain r w' where
        "on_send (send_alert E AlertLevel_Fatal AlertDescription_UnexpectedMessage) ?w = Some (r, w')"
        "t = Done (Some (Inl (Error_PeerMisbehaved EmptyFragment))) (Inl (Error_PeerMisbehaved EmptyFragment)) ?i w'"
        by (auto simp: next_turn_def Let_def split: option.splits)
      then show thesis by (rule empty)
    next
      case False
      have t2: "(case ?s of None \<Rightarrow> None
          | Some (_, w) \<Rightarrow> (case handle_record classify dns_ok E M mode st (dr_plaintext dr) w of
               None \<Rightarrow> None
             | Some (Inl e, w) \<Rightarrow> fail_with E e id ?i w
             | Some (Inr st, w) \<Rightarrow> Some (end_turn I M mode early_only st ?i w))) = Some t"
        using t wi
        by (simp only: next_turn_def Let_def d option.case prod.case sum.case False if_True if_False not_True_eq_False)
      then obtain r1 w1 where s: "?s = Some (r1, w1)" by (cases ?s) auto
      let ?h = "handle_record classify dns_ok E M mode st (dr_plaintext dr) w1"
      obtain r2 w2 where h: "?h = Some (r2, w2)" using t2 [unfolded s] by (cases ?h) auto
      note t3 = t2 [unfolded s option.case prod.case h]
      have w1: "cx_recv w1 = rp1" using s by (auto split: if_splits dest: on_send_recv)
      show thesis
      proof (cases r2)
        case (Inl e)
        with t3 show thesis by (intro fail [of e id ?i w2]) simp
      next
        case (Inr st2)
        with t3 h show thesis by (intro taken [OF d w1, of st2 w2]) (simp_all add: eq_commute)
      qed
    qed
  qed
qed

lemma end_turn_goes_on:
  "turn_goes_on (end_turn I M mode early_only st i w) = Some (i', w') \<Longrightarrow>
     i' = i \<and> rp_deframer (cx_recv w') = rp_deframer (cx_recv w)"
  by (auto simp: end_turn_def Let_def split: if_splits prod.splits option.splits DataKind.splits)

text \<open>The loops of \<open>handle_all\<close> and \<open>process\<close> both drain the iterator, in their modes.\<close>

fun drain ::
  "MessageIterMode \<Rightarrow> nat \<Rightarrow> (bytes \<Rightarrow> ServerNameKind) \<Rightarrow> (bytes \<Rightarrow> bool) \<Rightarrow> 'e RecordEncrypter \<Rightarrow> 'd RecordDecrypter \<Rightarrow>
   'i TlsInputBuffer \<Rightarrow> ('s, ('x, 'e, 'd, 'c, 'q, 'o) CaptureAppData, 'o) StateMachine \<Rightarrow> bytes \<Rightarrow>
   Error + 's \<Rightarrow> 'i \<Rightarrow> ('x, 'e, 'd, 'c, 'q, 'o) CaptureAppData \<Rightarrow>
   ((Error + unit) \<times> bytes \<times> (Error + 's) \<times> 'i \<times> ('x, 'e, 'd, 'c, 'q, 'o) CaptureAppData) option option" where
  "drain mode 0 classify dns_ok E D I M buf state i w = Some None"
| "drain mode (Suc fuel) classify dns_ok E D I M buf state i w =
     (case MessageIter_next (Suc fuel) classify dns_ok E D I M mode False state i w of
        None \<Rightarrow> None
      | Some None \<Rightarrow> Some None
      | Some (Some (Some (Inr payload), state, i, w)) \<Rightarrow> drain mode fuel classify dns_ok E D I M (buf @ payload) state i w
      | Some (Some (Some (Inl e), state, i, w)) \<Rightarrow> Some (Some (Inl e, buf, state, i, w))
      | Some (Some (None, state, i, w)) \<Rightarrow> Some (Some (Inr (), buf, state, i, w)))"

lemma handle_all_loop_drain:
  "handle_all_loop fuel classify dns_ok E D I M buf state i w = drain Mode_All fuel classify dns_ok E D I M buf state i w"
  by (induction fuel arbitrary: buf state i w) (auto split: option.splits sum.splits)

lemma process_loop_drain:
  "process_loop fuel classify dns_ok E D I M state i w =
     map_option (map_option (\<lambda>(r, buf, rest). (r, rest))) (drain Mode_Handshake fuel classify dns_ok E D I M buf state i w)"
  by (induction fuel arbitrary: buf state i w) (auto split: option.splits sum.splits)

subsection \<open>The loops come to an end\<close>

context tls_input_buffer begin

lemma turn_progress:
  assumes M: "machine_keeps_deframer M" and i: "valid i"
    and t: "next_turn classify dns_ok E D I M mode early_only st i w = Some t" "turn_goes_on t = Some (i', w')"
  shows "valid i' \<and> (left_to_do I i' w', left_to_do I i w) \<in> smaller"
  using t(1)
proof (cases rule: next_turn_cases)
  case (fail e told w1 i')
  then show ?thesis using t(2) by (auto dest: fail_with_eq)
next
  case (taken dr rp buf w1 st2 w2)
  note p = deframe_loop_progress [OF taken(1) [unfolded ReceivePath_deframe_def]]
  have e: "i' = ib_write I buf i" "rp_deframer (cx_recv w') = rp_deframer rp"
    using end_turn_goes_on [OF t(2) [unfolded taken(4)]] handle_record_deframer [OF M taken(3)] taken(2) by auto
  moreover have "valid (ib_write I buf i) \<and> ib_slice I (ib_write I buf i) = buf"
    using slice_write [OF i] p by simp
  ultimately show ?thesis using p by (auto simp: left_to_do_def record_taken_def)
qed (use t(2) in simp_all)

text \<open>Enough fuel: the loop returns, and more fuel changes nothing.\<close>

lemma loop_terminates:
  assumes M: "machine_keeps_deframer M" and i: "valid i"
  shows "\<exists>n. next_loop n classify dns_ok E D I M mode early_only st i w \<noteq> Some None \<and>
    (\<forall>m \<ge> n. next_loop m classify dns_ok E D I M mode early_only st i w =
             next_loop n classify dns_ok E D I M mode early_only st i w)"
  using i
proof (induction "left_to_do I i w" arbitrary: st i w rule: wf_induct_rule [OF wf_lex_prod [OF wf_less_than wf_less_than]])
  case (1 i w st)
  let ?t = "next_turn classify dns_ok E D I M mode early_only st i w"
  consider (again) st' i' w' where "?t = Some (Again st' i' w')" | (none) "?t = None"
    | (ended) r state i' w' where "?t = Some (Done r state i' w')"
    by (metis option.exhaust turn.exhaust)
  then show ?case
  proof cases
    case (again st' i' w')
    note p = turn_progress [OF M "1.prems" again, of i' w', simplified]
    from "1.hyps" [of i' w' st'] p obtain n where
      n: "next_loop n classify dns_ok E D I M mode early_only st' i' w' \<noteq> Some None"
      "\<And>m. n \<le> m \<Longrightarrow> next_loop m classify dns_ok E D I M mode early_only st' i' w' =
               next_loop n classify dns_ok E D I M mode early_only st' i' w'" by blast
    have "next_loop m classify dns_ok E D I M mode early_only st i w =
        next_loop n classify dns_ok E D I M mode early_only st' i' w'" if "Suc n \<le> m" for m
      using that n(2) [of "m - 1"] again by (cases m) simp_all
    with n(1) again show ?thesis by (intro exI [of _ "Suc n"]) simp
  next
    case none
    have "next_loop m classify dns_ok E D I M mode early_only st i w = None" if "Suc 0 \<le> m" for m
      using that none by (cases m) simp_all
    then show ?thesis using none by (intro exI [of _ "Suc 0"]) simp
  next
    case (ended r state i' w')
    have "next_loop m classify dns_ok E D I M mode early_only st i w = Some (Some (r, state, i', w'))" if "Suc 0 \<le> m" for m
      using that ended by (cases m) simp_all
    then show ?thesis using ended by (intro exI [of _ "Suc 0"]) simp
  qed
qed

lemma next_terminates:
  assumes "machine_keeps_deframer M" "valid i"
  obtains n where "MessageIter_next n classify dns_ok E D I M mode early_only state i w \<noteq> Some None"
    "\<And>m. m \<ge> n \<Longrightarrow> MessageIter_next m classify dns_ok E D I M mode early_only state i w =
             MessageIter_next n classify dns_ok E D I M mode early_only state i w"
proof (cases state)
  case (Inr st)
  then have "MessageIter_next m classify dns_ok E D I M mode early_only state i w =
      next_loop m classify dns_ok E D I M mode early_only st i (w\<lparr>cx_received_plaintext := None\<rparr>)" for m
    by (simp add: MessageIter_next_def)
  with loop_terminates [OF assms] that show thesis by metis
qed (use that in \<open>simp add: MessageIter_next_def\<close>)

lemma loop_payload_progress:
  "machine_keeps_deframer M \<Longrightarrow> valid i \<Longrightarrow>
   next_loop n classify dns_ok E D I M mode early_only st i w = Some (Some (Some (Inr payload), state, i', w')) \<Longrightarrow>
     valid i' \<and> (left_to_do I i' w', left_to_do I i w) \<in> smaller"
proof (induction n arbitrary: st i w)
  case (Suc n)
  then obtain t where t: "next_turn classify dns_ok E D I M mode early_only st i w = Some t"
    by (auto split: option.splits)
  show ?case
  proof (cases t)
    case (Again st1 i1 w1)
    then have "valid i1 \<and> (left_to_do I i1 w1, left_to_do I i w) \<in> smaller"
      using turn_progress [OF Suc.prems(1,2) t] by simp
    moreover have "next_loop n classify dns_ok E D I M mode early_only st1 i1 w1 = Some (Some (Some (Inr payload), state, i', w'))"
      using Suc.prems(3) t Again by simp
    ultimately show ?thesis using Suc.IH [OF Suc.prems(1), of i1 st1 w1] smaller_trans by blast
  next
    case (Done r state1 i1 w1)
    then have eq: "t = Done (Some (Inr payload)) state i' w'" using Suc.prems(3) t by simp
    moreover have "\<exists>st'. state = Inr st'" using t
    proof (cases rule: next_turn_cases)
      case (fail e told w1 i')
      then show ?thesis using eq by (auto dest: fail_with_eq)
    next
      case (taken dr rp buf w1 st2 w2)
      then show ?thesis using eq
        by (auto simp: end_turn_def Let_def split: if_splits prod.splits option.splits DataKind.splits)
    qed (use eq in simp_all)
    ultimately show ?thesis using turn_progress [OF Suc.prems(1,2) t] by auto
  qed
qed simp

lemma next_payload_progress:
  assumes "machine_keeps_deframer M" "valid i"
    "MessageIter_next n classify dns_ok E D I M mode early_only state i w = Some (Some (Some (Inr payload), state', i', w'))"
  shows "valid i' \<and> (left_to_do I i' w', left_to_do I i w) \<in> smaller"
  using assms(3) loop_payload_progress [OF assms(1,2), of n classify dns_ok E D mode early_only _ "w\<lparr>cx_received_plaintext := None\<rparr>"]
  by (auto simp: MessageIter_next_def split: sum.splits)

lemma drain_terminates:
  assumes M: "machine_keeps_deframer M" and i: "valid i"
  shows "\<exists>n. drain mode n classify dns_ok E D I M buf state i w \<noteq> Some None \<and>
    (\<forall>m \<ge> n. drain mode m classify dns_ok E D I M buf state i w =
             drain mode n classify dns_ok E D I M buf state i w)"
  using i
proof (induction "left_to_do I i w" arbitrary: buf state i w rule: wf_induct_rule [OF wf_lex_prod [OF wf_less_than wf_less_than]])
  case (1 i w buf state)
  obtain n where n: "MessageIter_next n classify dns_ok E D I M mode False state i w \<noteq> Some None"
    "\<And>m. m \<ge> n \<Longrightarrow> MessageIter_next m classify dns_ok E D I M mode False state i w =
             MessageIter_next n classify dns_ok E D I M mode False state i w"
    using next_terminates [OF M "1.prems"] by blast
  let ?r = "MessageIter_next n classify dns_ok E D I M mode False state i w"
  show ?case
  proof (cases "\<exists>payload state' i' w'. ?r = Some (Some (Some (Inr payload), state', i', w'))")
    case True
    then obtain payload state' i' w' where r: "?r = Some (Some (Some (Inr payload), state', i', w'))" by blast
    from "1.hyps" [of i' w' "buf @ payload" state'] next_payload_progress [OF M "1.prems" r] obtain k where
      k: "drain mode k classify dns_ok E D I M (buf @ payload) state' i' w' \<noteq> Some None"
      "\<And>m. k \<le> m \<Longrightarrow> drain mode m classify dns_ok E D I M (buf @ payload) state' i' w' =
               drain mode k classify dns_ok E D I M (buf @ payload) state' i' w'" by blast
    have "drain mode m classify dns_ok E D I M buf state i w =
        drain mode k classify dns_ok E D I M (buf @ payload) state' i' w'" if "Suc (max n k) \<le> m" for m
      using that n(2) [of m] k(2) [of "m - 1"] r by (cases m) simp_all
    with k(1) show ?thesis by (metis le_refl)
  next
    case False
    have out: "\<exists>out. out \<noteq> Some None \<and> (\<forall>m \<ge> Suc n. drain mode m classify dns_ok E D I M buf state i w = out)"
    proof (cases ?r)
      case None
      have "drain mode m classify dns_ok E D I M buf state i w = None" if "Suc n \<le> m" for m
        using that n(2) [of m] None by (cases m) simp_all
      then show ?thesis by blast
    next
      case (Some r)
      with n(1) obtain res state' i' w' where r: "?r = Some (Some (res, state', i', w'))" by (cases r) auto
      show ?thesis
      proof (cases res)
        case None
        have "drain mode m classify dns_ok E D I M buf state i w = Some (Some (Inr (), buf, state', i', w'))" if "Suc n \<le> m" for m
          using that n(2) [of m] r None by (cases m) simp_all
        then show ?thesis by blast
      next
        case (Some x)
        then obtain e where e: "x = Inl e" using False r by (cases x) auto
        have "drain mode m classify dns_ok E D I M buf state i w = Some (Some (Inl e, buf, state', i', w'))" if "Suc n \<le> m" for m
          using that n(2) [of m] r Some e by (cases m) simp_all
        then show ?thesis by blast
      qed
    qed
    then show ?thesis by (metis le_refl)
  qed
qed

lemma handle_all_terminates:
  assumes "machine_keeps_deframer M" "valid i"
  obtains n where "handle_all n classify dns_ok E D I M buf state i w \<noteq> Some None"
    "\<And>m. m \<ge> n \<Longrightarrow> handle_all m classify dns_ok E D I M buf state i w = handle_all n classify dns_ok E D I M buf state i w"
proof -
  from drain_terminates [OF assms] obtain n where
    n: "drain Mode_All n classify dns_ok E D I M buf state i w \<noteq> Some None"
    "\<And>m. m \<ge> n \<Longrightarrow> drain Mode_All m classify dns_ok E D I M buf state i w = drain Mode_All n classify dns_ok E D I M buf state i w"
    by blast
  show thesis
  proof (rule that [of n])
    show "handle_all n classify dns_ok E D I M buf state i w \<noteq> Some None"
      using n(1) by (auto simp: handle_all_def handle_all_loop_drain)
    show "handle_all m classify dns_ok E D I M buf state i w =
        handle_all n classify dns_ok E D I M buf state i w" if "n \<le> m" for m
      using n(2) [OF that] by (simp add: handle_all_def handle_all_loop_drain)
  qed
qed

lemma process_terminates:
  assumes "machine_keeps_deframer M" "valid i"
  obtains n where "Connection_process n classify dns_ok E D I M state i w \<noteq> Some None"
    "\<And>m. m \<ge> n \<Longrightarrow> Connection_process m classify dns_ok E D I M state i w = Connection_process n classify dns_ok E D I M state i w"
proof -
  from drain_terminates [OF assms] obtain n where
    n: "drain Mode_Handshake n classify dns_ok E D I M [] state i w \<noteq> Some None"
    "\<And>m. m \<ge> n \<Longrightarrow> drain Mode_Handshake m classify dns_ok E D I M [] state i w = drain Mode_Handshake n classify dns_ok E D I M [] state i w"
    by blast
  show thesis
  proof (rule that [of n])
    show "Connection_process n classify dns_ok E D I M state i w \<noteq> Some None"
      using n(1) by (auto simp: Connection_process_def process_loop_drain [where buf = "[]"])
    show "Connection_process m classify dns_ok E D I M state i w =
        Connection_process n classify dns_ok E D I M state i w" if "n \<le> m" for m
      using n(2) [OF that] by (simp add: Connection_process_def process_loop_drain [where buf = "[]"])
  qed
qed

end

subsection \<open>Errors are final\<close>

lemma send_fatal_alert_retires:
  "send_alert E AlertLevel_Fatal a sp tls = Some (r, sp', tls') \<Longrightarrow> sp_encrypt_state sp' = ES_Retired"
  by (auto simp: send_alert_def returnS_def Let_def split: EncryptionState.splits)

lemma turn_error:
  assumes "next_turn classify dns_ok E D I M mode early_only st i w = Some (Done (Some (Inl e)) state i' w')"
  shows "state = Inl e \<and> (\<forall>a. AlertDescription_try_from e = Inr a \<longrightarrow> sp_encrypt_state (cx_send w') = ES_Retired)"
  using assms
proof (cases rule: next_turn_cases)
  case (fail e1 told w1 i1)
  then obtain r w2 where o: "on_send (maybe_send_fatal_alert E e1) w1 = Some (r, w2)"
    and eq: "e = e1" "state = Inl e" "cx_send w' = cx_send w2"
    by (auto dest: fail_with_eq)
  have "sp_encrypt_state (cx_send w2) = ES_Retired" if "AlertDescription_try_from e1 = Inr a" for a
    using o that send_fatal_alert_retires
    by (auto simp: on_send_def maybe_send_fatal_alert_def split: option.splits)
  with eq show ?thesis by simp
next
  case (empty r w1 w2 i2)
  then show ?thesis by (auto simp: on_send_def split: option.splits dest: send_fatal_alert_retires)
next
  case (taken dr rp buf w1 st2 w2)
  then show ?thesis by (auto simp: end_turn_def Let_def split: if_splits prod.splits option.splits DataKind.splits)
qed simp

lemma loop_error:
  "next_loop n classify dns_ok E D I M mode early_only st i w = Some (Some (Some (Inl e), state, i', w')) \<Longrightarrow>
     state = Inl e \<and> (\<forall>a. AlertDescription_try_from e = Inr a \<longrightarrow> sp_encrypt_state (cx_send w') = ES_Retired)"
proof (induction n arbitrary: st i w)
  case (Suc n)
  then obtain t where t: "next_turn classify dns_ok E D I M mode early_only st i w = Some t"
    by (auto split: option.splits)
  with Suc turn_error [of classify dns_ok E D I M mode early_only st i w e state i' w'] show ?case
    by (cases t) auto
qed simp

text \<open>Once the peer has closed, nothing is delivered; a delivered payload comes before it.\<close>

lemma turn_payload_open:
  assumes "next_turn classify dns_ok E D I M mode early_only st i w = Some (Done (Some (Inr payload)) state i' w')"
  shows "\<not> rp_has_received_close_notify (cx_recv w') \<and> (\<exists>st'. state = Inr st')"
  using assms
proof (cases rule: next_turn_cases)
  case (fail e1 told w1 i1)
  then show ?thesis by (auto dest: fail_with_eq)
next
  case (taken dr rp buf w1 st2 w2)
  then show ?thesis by (auto simp: end_turn_def Let_def split: if_splits prod.splits option.splits DataKind.splits)
qed simp_all

lemma loop_payload_open:
  "next_loop n classify dns_ok E D I M mode early_only st i w = Some (Some (Some (Inr payload), state, i', w')) \<Longrightarrow>
     \<not> rp_has_received_close_notify (cx_recv w') \<and> (\<exists>st'. state = Inr st')"
proof (induction n arbitrary: st i w)
  case (Suc n)
  then obtain t where t: "next_turn classify dns_ok E D I M mode early_only st i w = Some t"
    by (auto split: option.splits)
  with Suc turn_payload_open [of classify dns_ok E D I M mode early_only st i w payload state i' w'] show ?case
    by (cases t) auto
qed simp

end
