(* ===== verification/Tls12_Secrets.thy ===== *)
theory Tls12_Secrets
  imports Key_Schedule
begin

text \<open>
  TLS 1.2 keying material (\<open>rustls/src/tls12.rs\<close>, \<open>rustls/src/crypto/tls12.rs\<close>): the PRF over an HMAC,
  the master secret and its seed, the key block and the ciphers cut from it for each side,
  \<open>Finished\<close> values, exported keying material.  The traits \<open>Prf\<close>, \<open>PrfSecret\<close> and
  \<open>Tls12AeadAlgorithm\<close> are records of functions; the suites of the ring and the fuzzing provider
  are instances.  The PRF is shown equal to \<open>P_hash\<close> of RFC 5246, and the two sides of a connection
  to hold matching ciphers.  \<open>None\<close> is a panic.
\<close>

subsection \<open>The PRF\<close>

text \<open>
  The loop of \<open>prf\<close> over the chunks of the output: \<open>len\<close> bytes are still to be filled.  A zero tag length
  makes \<open>chunks_mut\<close> panic, and a tag shorter than its chunk the slice.
\<close>

function prf_chunks :: "Hmac \<Rightarrow> bytes \<Rightarrow> bytes \<Rightarrow> bytes \<Rightarrow> Tag option \<Rightarrow> usize \<Rightarrow> bytes option" where
  "prf_chunks H key label seed previous_a len =
     (if hmac_tag_len H = 0 then None
      else if len = 0 then Some []
      else do {
        let chunk_len = min (hmac_tag_len H) len;
        let a_i = (case previous_a of
            None \<Rightarrow> hmac_sign H key [label, seed]
          | Some a \<Rightarrow> hmac_sign H key [Tag_as_ref a]);
        let p_term = hmac_sign H key [Tag_as_ref a_i, label, seed];
        chunk \<leftarrow> (if chunk_len \<le> length (Tag_as_ref p_term)
                  then Some (take chunk_len (Tag_as_ref p_term)) else None);
        rest \<leftarrow> prf_chunks H key label seed (Some a_i) (len - chunk_len);
        Some (chunk @ rest) })"
  by auto
termination by (relation "measure (\<lambda>(_, _, _, _, _, len). len)") auto

declare prf_chunks.simps [simp del]

definition tls12_prf :: "Hmac \<Rightarrow> usize \<Rightarrow> bytes \<Rightarrow> bytes \<Rightarrow> bytes \<Rightarrow> bytes option" where
  "tls12_prf H out_len hmac_key label seed = prf_chunks H hmac_key label seed None out_len"

text \<open>
  The traits.  A key exchange and the peer's public value complete to a shared secret or an error,
  which is the argument \<open>shared\<close> here.
\<close>

record 'p Prf =
  prf_for_key_exchange :: "usize \<Rightarrow> Error + bytes \<Rightarrow> bytes \<Rightarrow> bytes \<Rightarrow> (Error + bytes) option"
  prf_new_secret :: "bytes \<Rightarrow> 'p option"
  prf_secret_prf :: "'p \<Rightarrow> usize \<Rightarrow> bytes \<Rightarrow> bytes \<Rightarrow> bytes option"

definition PrfUsingHmac_for_key_exchange ::
  "Hmac \<Rightarrow> usize \<Rightarrow> Error + bytes \<Rightarrow> bytes \<Rightarrow> bytes \<Rightarrow> (Error + bytes) option" where
  "PrfUsingHmac_for_key_exchange H out_len shared label seed =
     (case shared of
        Inl e \<Rightarrow> Some (Inl e)
      | Inr secret \<Rightarrow> map_option Inr (tls12_prf H out_len secret label seed))"

text \<open>\<open>PrfSecretUsingHmac\<close> holds the keyed HMAC.\<close>

definition PrfUsingHmac :: "Hmac \<Rightarrow> bytes Prf" where
  "PrfUsingHmac H =
     \<lparr>prf_for_key_exchange = PrfUsingHmac_for_key_exchange H,
      prf_new_secret = Some,
      prf_secret_prf = (\<lambda>key out_len label seed. tls12_prf H out_len key label seed)\<rparr>"

subsection \<open>Suites\<close>

record KeyBlockShape =
  enc_key_len :: usize
  fixed_iv_len :: usize
  explicit_nonce_len :: usize

record ('e, 'd) Tls12AeadAlgorithm =
  a2_encrypter :: "AeadKey \<Rightarrow> bytes \<Rightarrow> bytes \<Rightarrow> 'e option"
  a2_decrypter :: "AeadKey \<Rightarrow> bytes \<Rightarrow> 'd option"
  a2_key_block_shape :: KeyBlockShape
  a2_extract_keys :: "AeadKey \<Rightarrow> bytes \<Rightarrow> bytes \<Rightarrow> (Error + ConnectionTrafficSecrets) option"

record ('p, 'e, 'd, 'c) Tls12CipherSuite =
  t12_common :: "'c CipherSuiteCommon"
  t12_prf_provider :: "'p Prf"
  t12_kx :: KeyExchangeAlgorithm
  t12_sign :: "SignatureScheme list"
  t12_aead_alg :: "('e, 'd) Tls12AeadAlgorithm"

definition resolve_sig_schemes ::
  "('p, 'e, 'd, 'c) Tls12CipherSuite \<Rightarrow> SignatureScheme list \<Rightarrow> SignatureScheme list" where
  "resolve_sig_schemes cs offered = filter (\<lambda>pref. pref \<in> set offered) (t12_sign cs)"

definition ring_Gcm_key_block_shape :: "'k Aead \<Rightarrow> KeyBlockShape" where
  "ring_Gcm_key_block_shape A = \<lparr>enc_key_len = aead_key_len A, fixed_iv_len = 4, explicit_nonce_len = 8\<rparr>"

definition ring_Gcm_extract_keys ::
  "'k Aead \<Rightarrow> AeadKey \<Rightarrow> bytes \<Rightarrow> bytes \<Rightarrow> (Error + ConnectionTrafficSecrets) option" where
  "ring_Gcm_extract_keys A key write_iv explicit = do {
     iv \<leftarrow> gcm_iv write_iv explicit;
     if aead_key_len A = 16 then Some (Inr (Aes128Gcm key iv))
     else if aead_key_len A = 32 then Some (Inr (Aes256Gcm key iv))
     else None }"

definition ring_GcmAlgorithm :: "'k Aead \<Rightarrow> ('k RingCipher, 'k GcmDecrypter) Tls12AeadAlgorithm" where
  "ring_GcmAlgorithm A =
     \<lparr>a2_encrypter = ring_Gcm_encrypter A, a2_decrypter = ring_Gcm_decrypter A,
      a2_key_block_shape = ring_Gcm_key_block_shape A, a2_extract_keys = ring_Gcm_extract_keys A\<rparr>"

definition ring_ChaCha_key_block_shape :: KeyBlockShape where
  "ring_ChaCha_key_block_shape = \<lparr>enc_key_len = 32, fixed_iv_len = 12, explicit_nonce_len = 0\<rparr>"

definition ring_ChaCha_extract_keys ::
  "AeadKey \<Rightarrow> bytes \<Rightarrow> bytes \<Rightarrow> (Error + ConnectionTrafficSecrets) option" where
  "ring_ChaCha_extract_keys key iv explicit =
     (case Iv_new iv of Inr iv \<Rightarrow> Some (Inr (Chacha20Poly1305 key iv)) | Inl _ \<Rightarrow> None)"

definition ring_ChaCha20Poly1305 :: "'k Aead \<Rightarrow> ('k RingCipher, 'k RingCipher) Tls12AeadAlgorithm" where
  "ring_ChaCha20Poly1305 A =
     \<lparr>a2_encrypter = (\<lambda>key iv _. ring_ChaCha_cipher A key iv), a2_decrypter = ring_ChaCha_cipher A,
      a2_key_block_shape = ring_ChaCha_key_block_shape, a2_extract_keys = ring_ChaCha_extract_keys\<rparr>"

definition fuzz_Tls12Aead :: "(unit, unit) Tls12AeadAlgorithm" where
  "fuzz_Tls12Aead =
     \<lparr>a2_encrypter = (\<lambda>_ _ _. Some ()), a2_decrypter = (\<lambda>_ _. Some ()),
      a2_key_block_shape = \<lparr>enc_key_len = 32, fixed_iv_len = 12, explicit_nonce_len = 0\<rparr>,
      a2_extract_keys = (\<lambda>_ _ _. Some (Inl (Error_General ''operation not supported'')))\<rparr>"

subsection \<open>The secrets of a connection\<close>

record ConnectionRandoms =
  randoms_client :: bytes
  randoms_server :: bytes

record ('p, 'e, 'd, 'c) ConnectionSecrets =
  sec_randoms :: ConnectionRandoms
  sec_suite :: "('p, 'e, 'd, 'c) Tls12CipherSuite"
  sec_master_secret :: bytes
  sec_master_secret_prf :: 'p

definition join_randoms :: "bytes \<Rightarrow> bytes \<Rightarrow> bytes" where
  "join_randoms first second = first @ second"

datatype Seed = Seed_Ems bytes | Seed_Randoms bytes

fun Seed_as_ref :: "Seed \<Rightarrow> bytes" where
  "Seed_as_ref (Seed_Ems seed) = seed"
| "Seed_as_ref (Seed_Randoms randoms) = randoms"

definition ConnectionSecrets_from_key_exchange ::
  "Error + bytes \<Rightarrow> bytes option \<Rightarrow> ConnectionRandoms \<Rightarrow> ('p, 'e, 'd, 'c) Tls12CipherSuite \<Rightarrow>
   (Error + ('p, 'e, 'd, 'c) ConnectionSecrets) option" where
  "ConnectionSecrets_from_key_exchange shared ems_seed randoms cs = do {
     let (label, seed) = (case ems_seed of
         Some seed \<Rightarrow> (ascii ''extended master secret'', Seed_Ems seed)
       | None \<Rightarrow> (ascii ''master secret'',
                  Seed_Randoms (join_randoms (randoms_client randoms) (randoms_server randoms))));
     r \<leftarrow> prf_for_key_exchange (t12_prf_provider cs) 48 shared label (Seed_as_ref seed);
     case r of
       Inl e \<Rightarrow> Some (Inl e)
     | Inr master_secret \<Rightarrow> do {
         master_secret_prf \<leftarrow> prf_new_secret (t12_prf_provider cs) master_secret;
         Some (Inr \<lparr>sec_randoms = randoms, sec_suite = cs, sec_master_secret = master_secret,
                    sec_master_secret_prf = master_secret_prf\<rparr>) } }"

definition ConnectionSecrets_new_resume ::
  "ConnectionRandoms \<Rightarrow> ('p, 'e, 'd, 'c) Tls12CipherSuite \<Rightarrow> bytes \<Rightarrow>
   ('p, 'e, 'd, 'c) ConnectionSecrets option" where
  "ConnectionSecrets_new_resume randoms cs master_secret = do {
     master_secret_prf \<leftarrow> prf_new_secret (t12_prf_provider cs) master_secret;
     Some \<lparr>sec_randoms = randoms, sec_suite = cs, sec_master_secret = master_secret,
           sec_master_secret_prf = master_secret_prf\<rparr> }"

definition make_key_block :: "('p, 'e, 'd, 'c) ConnectionSecrets \<Rightarrow> bytes option" where
  "make_key_block s =
     (let shape = a2_key_block_shape (t12_aead_alg (sec_suite s));
          len = (enc_key_len shape + fixed_iv_len shape) * 2 + explicit_nonce_len shape;
          randoms = join_randoms (randoms_server (sec_randoms s)) (randoms_client (sec_randoms s))
      in prf_secret_prf (t12_prf_provider (sec_suite s)) (sec_master_secret_prf s) len
           (ascii ''key expansion'') randoms)"

text \<open>\<open>split_at\<close> of the standard library's slices panics beyond the end.\<close>

definition split_at :: "bytes \<Rightarrow> usize \<Rightarrow> (bytes \<times> bytes) option" where
  "split_at bs n = (if n \<le> length bs then Some (take n bs, drop n bs) else None)"

text \<open>The key block, chopped up: both keys, both IVs, and what is left.\<close>

definition chop_key_block ::
  "KeyBlockShape \<Rightarrow> bytes \<Rightarrow> (bytes \<times> bytes \<times> bytes \<times> bytes \<times> bytes) option" where
  "chop_key_block shape key_block = do {
     (client_write_key, key_block) \<leftarrow> split_at key_block (enc_key_len shape);
     (server_write_key, key_block) \<leftarrow> split_at key_block (enc_key_len shape);
     (client_write_iv, key_block) \<leftarrow> split_at key_block (fixed_iv_len shape);
     (server_write_iv, extra) \<leftarrow> split_at key_block (fixed_iv_len shape);
     Some (client_write_key, server_write_key, client_write_iv, server_write_iv, extra) }"

definition make_cipher_pair :: "('p, 'e, 'd, 'c) ConnectionSecrets \<Rightarrow> Side \<Rightarrow> ('d \<times> 'e) option" where
  "make_cipher_pair s side = do {
     key_block \<leftarrow> make_key_block s;
     (client_write_key, server_write_key, client_write_iv, server_write_iv, extra) \<leftarrow>
       chop_key_block (a2_key_block_shape (t12_aead_alg (sec_suite s))) key_block;
     let (write_key, write_iv, read_key, read_iv) =
       (case side of
          Side_Client \<Rightarrow> (client_write_key, client_write_iv, server_write_key, server_write_iv)
        | Side_Server \<Rightarrow> (server_write_key, server_write_iv, client_write_key, client_write_iv));
     read_key \<leftarrow> AeadKey_new read_key;
     dec \<leftarrow> a2_decrypter (t12_aead_alg (sec_suite s)) read_key read_iv;
     write_key \<leftarrow> AeadKey_new write_key;
     enc \<leftarrow> a2_encrypter (t12_aead_alg (sec_suite s)) write_key write_iv extra;
     Some (dec, enc) }"

definition make_verify_data :: "('p, 'e, 'd, 'c) ConnectionSecrets \<Rightarrow> bytes \<Rightarrow> bytes \<Rightarrow> bytes option" where
  "make_verify_data s handshake_hash label =
     prf_secret_prf (t12_prf_provider (sec_suite s)) (sec_master_secret_prf s) 12 label handshake_hash"

definition client_verify_data :: "('p, 'e, 'd, 'c) ConnectionSecrets \<Rightarrow> bytes \<Rightarrow> bytes option" where
  "client_verify_data s handshake_hash = make_verify_data s handshake_hash (ascii ''client finished'')"

definition server_verify_data :: "('p, 'e, 'd, 'c) ConnectionSecrets \<Rightarrow> bytes \<Rightarrow> bytes option" where
  "server_verify_data s handshake_hash = make_verify_data s handshake_hash (ascii ''server finished'')"

record PartiallyExtractedSecrets =
  pes_tx :: ConnectionTrafficSecrets
  pes_rx :: ConnectionTrafficSecrets

definition tls12_extract_secrets ::
  "('p, 'e, 'd, 'c) ConnectionSecrets \<Rightarrow> Side \<Rightarrow> (Error + PartiallyExtractedSecrets) option" where
  "tls12_extract_secrets s side = do {
     key_block \<leftarrow> make_key_block s;
     (client_key, server_key, client_iv, server_iv, explicit_nonce) \<leftarrow>
       chop_key_block (a2_key_block_shape (t12_aead_alg (sec_suite s))) key_block;
     client_key \<leftarrow> AeadKey_new client_key;
     client_secrets \<leftarrow> a2_extract_keys (t12_aead_alg (sec_suite s)) client_key client_iv explicit_nonce;
     case client_secrets of
       Inl e \<Rightarrow> Some (Inl e)
     | Inr client_secrets \<Rightarrow> do {
         server_key \<leftarrow> AeadKey_new server_key;
         server_secrets \<leftarrow> a2_extract_keys (t12_aead_alg (sec_suite s)) server_key server_iv explicit_nonce;
         case server_secrets of
           Inl e \<Rightarrow> Some (Inl e)
         | Inr server_secrets \<Rightarrow>
             Some (Inr (case side of
                Side_Client \<Rightarrow> \<lparr>pes_tx = client_secrets, pes_rx = server_secrets\<rparr>
              | Side_Server \<Rightarrow> \<lparr>pes_tx = server_secrets, pes_rx = client_secrets\<rparr>)) } }"

record ('p, 'e, 'd, 'c) Tls12Exporter =
  te_randoms :: ConnectionRandoms
  te_prf_provider :: "'p Prf"
  te_master_secret_prf :: 'p

definition into_exporter :: "('p, 'e, 'd, 'c) ConnectionSecrets \<Rightarrow> ('p, 'e, 'd, 'c) Tls12Exporter" where
  "into_exporter s = \<lparr>te_randoms = sec_randoms s, te_prf_provider = t12_prf_provider (sec_suite s),
     te_master_secret_prf = sec_master_secret_prf s\<rparr>"

definition Tls12Exporter_derive ::
  "('p, 'e, 'd, 'c) Tls12Exporter \<Rightarrow> bytes \<Rightarrow> bytes option \<Rightarrow> usize \<Rightarrow> (Error + bytes) option" where
  "Tls12Exporter_derive x label context out_len =
     (let randoms = randoms_client (te_randoms x) @ randoms_server (te_randoms x);
          derive = (\<lambda>seed. map_option Inr
            (prf_secret_prf (te_prf_provider x) (te_master_secret_prf x) out_len label seed))
      in case context of
           None \<Rightarrow> derive randoms
         | Some context \<Rightarrow>
             if length context < 2 ^ 16
             then derive (randoms @ to_be_bytes 2 (length context) @ context)
             else Some (Inl (Error_ApiMisuse ExporterContextTooLong)))"

definition decode_kx_params ::
  "(KeyExchangeAlgorithm \<Rightarrow> 'a decoder) \<Rightarrow> KeyExchangeAlgorithm \<Rightarrow> bytes \<Rightarrow> Error + 'a" where
  "decode_kx_params decode kx_algorithm kx_params =
     (case decode kx_algorithm kx_params of
        Inl e \<Rightarrow> Inl (Error_InvalidMessage e)
      | Inr (params, left) \<Rightarrow>
          if left = [] then Inr params else Inl (Error_InvalidMessage InvalidDhParams))"

definition DOWNGRADE_SENTINEL :: bytes where
  "DOWNGRADE_SENTINEL = [0x44, 0x4f, 0x57, 0x4e, 0x47, 0x52, 0x44, 0x01]"

subsection \<open>Reference: \<open>P_hash\<close> of RFC 5246\<close>

text \<open>\<open>A(0) = seed\<close>, \<open>A(i+1) = HMAC(secret, A(i))\<close>; the output is \<open>HMAC(secret, A(1) | seed) | HMAC(secret, A(2) | seed) | ...\<close>.\<close>

fun prf_A :: "Hmac \<Rightarrow> bytes \<Rightarrow> bytes \<Rightarrow> nat \<Rightarrow> bytes" where
  "prf_A H secret seed 0 = seed"
| "prf_A H secret seed (Suc i) = hmac_bytes H secret (prf_A H secret seed i)"

definition P_hash :: "Hmac \<Rightarrow> bytes \<Rightarrow> bytes \<Rightarrow> nat \<Rightarrow> bytes" where
  "P_hash H secret seed len =
     take len (concat (map (\<lambda>i. hmac_bytes H secret (prf_A H secret seed i @ seed)) [1..<1 + len]))"

lemma prf_chunks_eq:
  assumes law: "Hmac_lawful H"
  shows "(case previous_a of None \<Rightarrow> n = 0 | Some a \<Rightarrow> Tag_as_ref a = prf_A H key (label @ seed) n \<and> 0 < n) \<Longrightarrow>
    prf_chunks H key label seed previous_a len =
      Some (take len (concat (map (\<lambda>i. hmac_bytes H key (prf_A H key (label @ seed) i @ label @ seed))
        [Suc n..<Suc n + len])))"
proof (induction len arbitrary: n previous_a rule: less_induct)
  case (less len)
  let ?T = "\<lambda>i. hmac_bytes H key (prf_A H key (label @ seed) i @ label @ seed)"
  let ?c = "min (hmac_tag_len H) len"
  let ?a = "case previous_a of None \<Rightarrow> hmac_sign H key [label, seed] | Some a \<Rightarrow> hmac_sign H key [Tag_as_ref a]"
  have tl: "0 < hmac_tag_len H" using law by (simp add: Hmac_lawful_def)
  have a: "Tag_as_ref ?a = prf_A H key (label @ seed) (Suc n)"
    using less.prems
    by (cases previous_a) (simp_all add: hmac_sign_def hmac_sign_bytes(1) [OF law])
  have hs: "Tag_as_ref (hmac_sign H key [x, label, seed]) = hmac_bytes H key (x @ label @ seed)"
    for x by (simp add: hmac_sign_def hmac_sign_bytes(1) [OF law])
  have t: "Tag_as_ref (hmac_sign H key [Tag_as_ref ?a, label, seed]) = ?T (Suc n)"
    unfolding hs a ..
  have lT: "length (?T i) = hmac_tag_len H" for i using hmac_sign_bytes(2) [OF law] .
  show ?case
  proof (cases "len = 0")
    case True
    then show ?thesis using tl by (simp add: prf_chunks.simps [of H key label seed previous_a 0])
  next
    case False
    have r: "prf_chunks H key label seed (Some ?a) (len - ?c) =
        Some (take (len - ?c) (concat (map ?T [Suc (Suc n)..<Suc (Suc n) + (len - ?c)])))"
      by (rule less.IH) (use a False tl in auto)
    have "prf_chunks H key label seed previous_a len =
        Some (take ?c (?T (Suc n)) @ take (len - ?c) (concat (map ?T [Suc (Suc n)..<Suc (Suc n) + (len - ?c)])))"
      using False tl lT [of "Suc n"]
      by (subst prf_chunks.simps, simp only: Let_def t r bind.simps min.cobounded1 if_True if_False) simp
    then show ?thesis using fill_round [of "hmac_tag_len H" len "Suc n" ?T] lT False tl by simp
  qed
qed

lemma tls12_prf_eq:
  assumes "Hmac_lawful H"
  shows "tls12_prf H out_len key label seed = Some (P_hash H key (label @ seed) out_len)"
  using prf_chunks_eq [OF assms, where previous_a = None and n = 0 and key = key and label = label and seed = seed and len = out_len] by (simp add: tls12_prf_def P_hash_def)

lemma length_P_hash:
  assumes "Hmac_lawful H"
  shows "length (P_hash H secret seed len) = len"
proof -
  have "length (hmac_bytes H secret (prf_A H secret seed i @ seed)) = hmac_tag_len H" for i
    using hmac_sign_bytes(2) [OF assms] .
  then show ?thesis
    using length_filled [of "hmac_tag_len H" 1 "\<lambda>i. hmac_bytes H secret (prf_A H secret seed i @ seed)" len] assms
    by (simp add: P_hash_def Hmac_lawful_def)
qed

subsection \<open>What the secrets rely on\<close>

text \<open>A PRF fills its output; the exchange's error is passed on.\<close>

locale prf_provider =
  fixes P :: "'p Prf" and usable :: "'p \<Rightarrow> bool"
  assumes exchange_error: "prf_for_key_exchange P n (Inl e) label seed = Some (Inl e)"
    and exchange_fills: "\<exists>out. prf_for_key_exchange P n (Inr z) label seed = Some (Inr out) \<and> length out = n"
    and secret_made: "length ms = 48 \<Longrightarrow> \<exists>p. prf_new_secret P ms = Some p \<and> usable p"
    and secret_fills: "usable p \<Longrightarrow> \<exists>out. prf_secret_prf P p n label seed = Some out \<and> length out = n"

lemma PrfUsingHmac_provider:
  assumes "Hmac_lawful H"
  shows "prf_provider (PrfUsingHmac H) (\<lambda>_. True)"
  by unfold_locales
     (simp_all add: PrfUsingHmac_def PrfUsingHmac_for_key_exchange_def tls12_prf_eq [OF assms]
        length_P_hash [OF assms])

interpretation fuzz_prf: prf_provider "PrfUsingHmac fuzz_Hmac" "\<lambda>_. True"
  by (rule PrfUsingHmac_provider) (rule fuzz_Hmac_lawful)

text \<open>
  An AEAD for TLS 1.2 makes ciphers of material of the lengths its shape gives, and an encrypter and a
  decrypter made of the same key and IV belong together.
\<close>

locale tls12_aead =
  fixes A :: "('e, 'd) Tls12AeadAlgorithm" and paired :: "'e \<Rightarrow> 'd \<Rightarrow> bool"
  assumes key_fits: "enc_key_len (a2_key_block_shape A) \<le> AeadKey_MAX_LEN"
    and makes_pair:
      "\<lbrakk>AeadKey_new key = Some k; length key = enc_key_len (a2_key_block_shape A);
        length iv = fixed_iv_len (a2_key_block_shape A);
        length extra = explicit_nonce_len (a2_key_block_shape A)\<rbrakk> \<Longrightarrow>
       \<exists>e d. a2_encrypter A k iv extra = Some e \<and> a2_decrypter A k iv = Some d \<and> paired e d"

interpretation fuzz_tls12_aead: tls12_aead fuzz_Tls12Aead "\<lambda>_ _. True"
  by unfold_locales (simp_all add: fuzz_Tls12Aead_def AeadKey_MAX_LEN_def)

lemma ring_GcmAlgorithm_aead:
  assumes A: "Aead_lawful A" "aead_key_len A \<le> AeadKey_MAX_LEN"
  shows "tls12_aead (ring_GcmAlgorithm A)
    (\<lambda>e d. gd_key d = rc_key e \<and> iv12 (rc_iv e) \<and> gd_salt d = take 4 (Iv_as_ref (rc_iv e)))"
proof (unfold_locales, goal_cases)
  case 1
  show ?case using A(2) by (simp add: ring_GcmAlgorithm_def ring_Gcm_key_block_shape_def)
next
  case (2 key k iv extra)
  then have l: "length key = aead_key_len A" "length iv = 4" "length extra = 8"
    by (simp_all add: ring_GcmAlgorithm_def ring_Gcm_key_block_shape_def)
  have k: "AeadKey_as_ref k = key" using AeadKey_new_Some [OF 2(1)] by simp
  obtain ck where ck: "aead_new_key A key = Some ck" using A(1) l(1) by (auto simp: Aead_lawful_def)
  obtain v where v: "gcm_iv iv extra = Some v"
    using l by (auto simp: gcm_iv_def NONCE_LEN_def Iv_new_def Iv_MAX_LEN_def split: sum.split)
  have "ring_Gcm_encrypter A k iv extra = Some \<lparr>rc_key = ck, rc_iv = v\<rparr>"
    "ring_Gcm_decrypter A k iv = Some \<lparr>gd_key = ck, gd_salt = iv\<rparr>"
    using k ck v l by (simp_all add: ring_Gcm_encrypter_def ring_Gcm_decrypter_def)
  moreover from ring_Gcm_paired [OF this]
  have "gd_key \<lparr>gd_key = ck, gd_salt = iv\<rparr> = rc_key \<lparr>rc_key = ck, rc_iv = v\<rparr> \<and>
      iv12 (rc_iv \<lparr>rc_key = ck, rc_iv = v\<rparr>) \<and>
      gd_salt \<lparr>gd_key = ck, gd_salt = iv\<rparr> = take 4 (Iv_as_ref (rc_iv \<lparr>rc_key = ck, rc_iv = v\<rparr>))" .
  ultimately show ?case by (auto simp: ring_GcmAlgorithm_def)
qed

lemma ring_ChaCha20Poly1305_aead:
  assumes A: "Aead_lawful A" "aead_key_len A = 32"
  shows "tls12_aead (ring_ChaCha20Poly1305 A) (\<lambda>e d. e = d \<and> iv12 (rc_iv e))"
proof (unfold_locales, goal_cases)
  case 1
  show ?case by (simp add: ring_ChaCha20Poly1305_def ring_ChaCha_key_block_shape_def AeadKey_MAX_LEN_def)
next
  case (2 key k iv extra)
  then have l: "length key = 32" "length iv = NONCE_LEN"
    by (simp_all add: ring_ChaCha20Poly1305_def ring_ChaCha_key_block_shape_def NONCE_LEN_def)
  have k: "AeadKey_as_ref k = key" using AeadKey_new_Some [OF 2(1)] by simp
  obtain ck where ck: "aead_new_key A key = Some ck" using A l(1) by (auto simp: Aead_lawful_def)
  obtain v where "Iv_new iv = Inr v"
    using l by (auto simp: NONCE_LEN_def Iv_new_def Iv_MAX_LEN_def)
  then have c: "ring_ChaCha_cipher A k iv = Some \<lparr>rc_key = ck, rc_iv = v\<rparr>"
    using k ck by (simp add: ring_ChaCha_cipher_def)
  with ring_ChaCha_paired [OF c l(2)] show ?case by (simp add: ring_ChaCha20Poly1305_def)
qed

subsection \<open>Both sides hold matching ciphers\<close>

locale tls12_keys = pr: prf_provider P usable + aead: tls12_aead A paired
  for P :: "'p Prf" and usable and A :: "('e, 'd) Tls12AeadAlgorithm" and paired
begin

lemma chop_total:
  assumes "length kb = (enc_key_len sh + fixed_iv_len sh) * 2 + explicit_nonce_len sh"
  shows "\<exists>ck sk ci si x. chop_key_block sh kb = Some (ck, sk, ci, si, x) \<and> kb = ck @ sk @ ci @ si @ x \<and>
    length ck = enc_key_len sh \<and> length sk = enc_key_len sh \<and> length ci = fixed_iv_len sh \<and>
    length si = fixed_iv_len sh \<and> length x = explicit_nonce_len sh"
  using assms by (simp add: chop_key_block_def split_at_def) (metis append_take_drop_id drop_drop)

lemma ciphers_match:
  assumes s: "t12_prf_provider (sec_suite s) = P" "t12_aead_alg (sec_suite s) = A"
    and u: "usable (sec_master_secret_prf s)"
  shows "\<exists>dc ec ds es. make_cipher_pair s Side_Client = Some (dc, ec) \<and>
    make_cipher_pair s Side_Server = Some (ds, es) \<and> paired ec ds \<and> paired es dc"
proof -
  let ?sh = "a2_key_block_shape A"
  obtain kb where kb: "make_key_block s = Some kb"
    "length kb = (enc_key_len ?sh + fixed_iv_len ?sh) * 2 + explicit_nonce_len ?sh"
    using pr.secret_fills [OF u] by (simp add: make_key_block_def s Let_def) blast
  obtain ck sk ci si x where c: "chop_key_block ?sh kb = Some (ck, sk, ci, si, x)"
    and l: "length ck = enc_key_len ?sh" "length sk = enc_key_len ?sh" "length ci = fixed_iv_len ?sh"
      "length si = fixed_iv_len ?sh" "length x = explicit_nonce_len ?sh"
    using chop_total [OF kb(2)] by blast
  obtain kc where kc: "AeadKey_new ck = Some kc" using l(1) aead.key_fits by (auto simp: AeadKey_new_def)
  obtain ks where ks: "AeadKey_new sk = Some ks" using l(2) aead.key_fits by (auto simp: AeadKey_new_def)
  obtain ec ds where "a2_encrypter A kc ci x = Some ec" "a2_decrypter A kc ci = Some ds" "paired ec ds"
    using aead.makes_pair [OF kc l(1,3,5)] by blast
  moreover obtain es dc where "a2_encrypter A ks si x = Some es" "a2_decrypter A ks si = Some dc" "paired es dc"
    using aead.makes_pair [OF ks l(2,4,5)] by blast
  ultimately show ?thesis using kb(1) c kc ks by (simp add: make_cipher_pair_def s)
qed

lemma exchange_total:
  assumes "t12_prf_provider cs = P"
  shows "\<exists>s. ConnectionSecrets_from_key_exchange (Inr z) ems randoms cs = Some (Inr s) \<and>
    sec_suite s = cs \<and> sec_randoms s = randoms \<and> length (sec_master_secret s) = 48 \<and>
    usable (sec_master_secret_prf s) \<and>
    prf_new_secret P (sec_master_secret s) = Some (sec_master_secret_prf s)"
proof -
  obtain label seed where ls: "(case ems of
         Some seed \<Rightarrow> (ascii ''extended master secret'', Seed_Ems seed)
       | None \<Rightarrow> (ascii ''master secret'',
                  Seed_Randoms (join_randoms (randoms_client randoms) (randoms_server randoms)))) = (label, seed)"
    by fastforce
  obtain ms where ms: "prf_for_key_exchange P 48 (Inr z) label (Seed_as_ref seed) = Some (Inr ms)" "length ms = 48"
    using pr.exchange_fills by blast
  obtain p where "prf_new_secret P ms = Some p" "usable p" using pr.secret_made [OF ms(2)] by blast
  then show ?thesis using ms assms by (simp add: ConnectionSecrets_from_key_exchange_def ls)
qed

lemma resume_total:
  assumes "t12_prf_provider cs = P" "length ms = 48"
  shows "\<exists>s. ConnectionSecrets_new_resume randoms cs ms = Some s \<and> sec_suite s = cs \<and>
    sec_master_secret s = ms \<and> usable (sec_master_secret_prf s)"
  using pr.secret_made [OF assms(2)] assms(1) by (auto simp: ConnectionSecrets_new_resume_def)

end

interpretation fuzz_tls12_keys:
  tls12_keys "PrfUsingHmac fuzz_Hmac" "\<lambda>_. True" fuzz_Tls12Aead "\<lambda>_ _. True"
  by unfold_locales

end
