(* ===== verification/Session_Store.thy ===== *)
theory Session_Store
  imports Wire_Enums "HOL-Library.Multiset"
begin

text \<open>
  Session storage: the bounded cache of \<open>limited_cache.rs\<close>, the client's and the
  server's in-memory stores built on it (\<open>client/handy.rs\<close>, \<open>server/handy.rs\<close>) and
  the stores that keep nothing.  The two storage traits are records of functions
  on a store's state, and their documented contracts are locales that both stores
  of each kind interpret.  The cache is shown to be a queue of entries of bounded
  length; the stores return what was put last, and a ticket at most once.  A
  mutex is held for the whole of each operation, so operations are atomic.
\<close>

subsection \<open>The bounded cache\<close>

record ('k, 'v) LimitedCache =
  lc_map :: "'k \<rightharpoonup> 'v"
  lc_oldest :: "'k list"
  lc_max :: usize

definition LimitedCache_new :: "usize \<Rightarrow> ('k, 'v) LimitedCache" where
  "LimitedCache_new n = \<lparr>lc_map = Map.empty, lc_oldest = [], lc_max = n\<rparr>"

text \<open>The end of both insertions: over the limit, the oldest key goes.\<close>

definition evict_oldest :: "('k, 'v) LimitedCache \<Rightarrow> ('k, 'v) LimitedCache" where
  "evict_oldest c =
     (if length (lc_oldest c) > lc_max c then
        (case lc_oldest c of
           [] \<Rightarrow> c
         | oldest_key # rest \<Rightarrow>
             c\<lparr>lc_oldest := rest, lc_map := (lc_map c)(oldest_key := None)\<rparr>)
      else c)"

definition LimitedCache_insert ::
  "('k, 'v) LimitedCache \<Rightarrow> 'k \<Rightarrow> 'v \<Rightarrow> ('k, 'v) LimitedCache" where
  "LimitedCache_insert c k v =
     (case lc_map c k of
        Some old \<Rightarrow> c\<lparr>lc_map := (lc_map c)(k \<mapsto> v)\<rparr>
      | None \<Rightarrow>
          evict_oldest (c\<lparr>lc_oldest := lc_oldest c @ [k], lc_map := (lc_map c)(k \<mapsto> v)\<rparr>))"

definition LimitedCache_get :: "('k, 'v) LimitedCache \<Rightarrow> 'k \<Rightarrow> 'v option" where
  "LimitedCache_get c k = lc_map c k"

text \<open>
  \<open>get_mut\<close> lends the stored entry; its users change it and take a result out of
  it, which is the function \<open>f\<close>.
\<close>

definition LimitedCache_get_mut ::
  "('k, 'v) LimitedCache \<Rightarrow> 'k \<Rightarrow> ('v \<Rightarrow> 'v \<times> 'r) \<Rightarrow> ('k, 'v) LimitedCache \<times> 'r option" where
  "LimitedCache_get_mut c k f =
     (case lc_map c k of
        None \<Rightarrow> (c, None)
      | Some v \<Rightarrow> (c\<lparr>lc_map := (lc_map c)(k \<mapsto> fst (f v))\<rparr>, Some (snd (f v))))"

definition LimitedCache_remove ::
  "('k, 'v) LimitedCache \<Rightarrow> 'k \<Rightarrow> ('k, 'v) LimitedCache \<times> 'v option" where
  "LimitedCache_remove c k =
     (case lc_map c k of
        None \<Rightarrow> (c, None)
      | Some v \<Rightarrow>
          (c\<lparr>lc_map := (lc_map c)(k := None), lc_oldest := remove1 k (lc_oldest c)\<rparr>, Some v))"

definition LimitedCache_get_or_insert_default_and_edit ::
  "'v \<Rightarrow> ('k, 'v) LimitedCache \<Rightarrow> 'k \<Rightarrow> ('v \<Rightarrow> 'v) \<Rightarrow> ('k, 'v) LimitedCache" where
  "LimitedCache_get_or_insert_default_and_edit V_default c k edit =
     (case lc_map c k of
        Some v \<Rightarrow> c\<lparr>lc_map := (lc_map c)(k \<mapsto> edit v)\<rparr>
      | None \<Rightarrow>
          evict_oldest (c\<lparr>lc_oldest := lc_oldest c @ [k],
                          lc_map := (lc_map c)(k \<mapsto> edit V_default)\<rparr>))"

subsection \<open>Server session stores\<close>

record 's StoresServerSessions =
  ss_put :: "'s \<Rightarrow> bytes \<Rightarrow> bytes \<Rightarrow> 's \<times> bool"
  ss_get :: "'s \<Rightarrow> bytes \<Rightarrow> bytes option"
  ss_take :: "'s \<Rightarrow> bytes \<Rightarrow> 's \<times> bytes option"
  ss_can_cache :: "'s \<Rightarrow> bool"

definition NoServerSessionStorage :: "unit StoresServerSessions" where
  "NoServerSessionStorage =
     \<lparr>ss_put = \<lambda>s _ _. (s, False), ss_get = \<lambda>_ _. None, ss_take = \<lambda>s _. (s, None),
      ss_can_cache = \<lambda>_. False\<rparr>"

type_synonym ServerSessionMemoryCache = "(bytes, bytes) LimitedCache"

definition ServerSessionMemoryCache_new :: "usize \<Rightarrow> ServerSessionMemoryCache" where
  "ServerSessionMemoryCache_new n = LimitedCache_new n"

definition ServerSessionMemoryCache_put ::
  "ServerSessionMemoryCache \<Rightarrow> bytes \<Rightarrow> bytes \<Rightarrow> ServerSessionMemoryCache \<times> bool" where
  "ServerSessionMemoryCache_put s key v = (LimitedCache_insert s key v, True)"

definition ServerSessionMemoryCache_get :: "ServerSessionMemoryCache \<Rightarrow> bytes \<Rightarrow> bytes option" where
  "ServerSessionMemoryCache_get s key = LimitedCache_get s key"

definition ServerSessionMemoryCache_take ::
  "ServerSessionMemoryCache \<Rightarrow> bytes \<Rightarrow> ServerSessionMemoryCache \<times> bytes option" where
  "ServerSessionMemoryCache_take s key = LimitedCache_remove s key"

definition ServerSessionMemoryCache :: "ServerSessionMemoryCache StoresServerSessions" where
  "ServerSessionMemoryCache =
     \<lparr>ss_put = ServerSessionMemoryCache_put, ss_get = ServerSessionMemoryCache_get,
      ss_take = ServerSessionMemoryCache_take, ss_can_cache = \<lambda>_. True\<rparr>"

subsection \<open>Client session stores\<close>

text \<open>\<open>ServerName\<close> belongs to another crate and is the type variable \<open>'n\<close>.\<close>

record 'n ClientSessionKey =
  config_hash :: bytes
  key_server_name :: 'n

text \<open>
  The trait, over the state \<open>'s\<close> of a store, the keys \<open>'k\<close>, the TLS 1.2 sessions
  \<open>'a\<close> and the TLS 1.3 tickets \<open>'t\<close>, which a store only keeps.
\<close>

record ('s, 'k, 'a, 't) ClientSessionStore =
  cs_set_kx_hint :: "'s \<Rightarrow> 'k \<Rightarrow> NamedGroup \<Rightarrow> 's"
  cs_kx_hint :: "'s \<Rightarrow> 'k \<Rightarrow> NamedGroup option"
  cs_set_tls12_session :: "'s \<Rightarrow> 'k \<Rightarrow> 'a \<Rightarrow> 's"
  cs_tls12_session :: "'s \<Rightarrow> 'k \<Rightarrow> 'a option"
  cs_remove_tls12_session :: "'s \<Rightarrow> 'k \<Rightarrow> 's"
  cs_insert_tls13_ticket :: "'s \<Rightarrow> 'k \<Rightarrow> 't \<Rightarrow> 's"
  cs_take_tls13_ticket :: "'s \<Rightarrow> 'k \<Rightarrow> 's \<times> 't option"

definition NoClientSessionStorage :: "(unit, 'k, 'a, 't) ClientSessionStore" where
  "NoClientSessionStorage =
     \<lparr>cs_set_kx_hint = \<lambda>s _ _. s, cs_kx_hint = \<lambda>_ _. None,
      cs_set_tls12_session = \<lambda>s _ _. s, cs_tls12_session = \<lambda>_ _. None,
      cs_remove_tls12_session = \<lambda>s _. s,
      cs_insert_tls13_ticket = \<lambda>s _ _. s, cs_take_tls13_ticket = \<lambda>s _. (s, None)\<rparr>"

definition MAX_TLS13_TICKETS_PER_SERVER :: usize where
  "MAX_TLS13_TICKETS_PER_SERVER = 8"

text \<open>
  The deque of tickets is compared with its capacity, which is a field here: it
  is allocated for eight tickets, and only a push onto a full deque would grow it.
\<close>

record ('a, 't) ServerData =
  sd_kx_hint :: "NamedGroup option"
  sd_tls12 :: "'a option"
  sd_tls13 :: "'t list"
  sd_tls13_capacity :: usize

definition ServerData_default :: "('a, 't) ServerData" where
  "ServerData_default =
     \<lparr>sd_kx_hint = None, sd_tls12 = None, sd_tls13 = [],
      sd_tls13_capacity = MAX_TLS13_TICKETS_PER_SERVER\<rparr>"

type_synonym ('k, 'a, 't) ClientSessionMemoryCache = "('k, ('a, 't) ServerData) LimitedCache"

definition saturating_add :: "usize \<Rightarrow> usize \<Rightarrow> usize" where
  "saturating_add a b = min (a + b) usize_MAX"

definition ClientSessionMemoryCache_new :: "usize \<Rightarrow> ('k, 'a, 't) ClientSessionMemoryCache" where
  "ClientSessionMemoryCache_new n =
     LimitedCache_new
       (saturating_add n (MAX_TLS13_TICKETS_PER_SERVER - 1) div MAX_TLS13_TICKETS_PER_SERVER)"

definition ClientSessionMemoryCache_set_kx_hint ::
  "('k, 'a, 't) ClientSessionMemoryCache \<Rightarrow> 'k \<Rightarrow> NamedGroup \<Rightarrow> ('k, 'a, 't) ClientSessionMemoryCache" where
  "ClientSessionMemoryCache_set_kx_hint s key g =
     LimitedCache_get_or_insert_default_and_edit ServerData_default s key
       (\<lambda>d. d\<lparr>sd_kx_hint := Some g\<rparr>)"

definition ClientSessionMemoryCache_kx_hint ::
  "('k, 'a, 't) ClientSessionMemoryCache \<Rightarrow> 'k \<Rightarrow> NamedGroup option" where
  "ClientSessionMemoryCache_kx_hint s key = Option.bind (LimitedCache_get s key) sd_kx_hint"

definition ClientSessionMemoryCache_set_tls12_session ::
  "('k, 'a, 't) ClientSessionMemoryCache \<Rightarrow> 'k \<Rightarrow> 'a \<Rightarrow> ('k, 'a, 't) ClientSessionMemoryCache" where
  "ClientSessionMemoryCache_set_tls12_session s key v =
     LimitedCache_get_or_insert_default_and_edit ServerData_default s key
       (\<lambda>d. d\<lparr>sd_tls12 := Some v\<rparr>)"

definition ClientSessionMemoryCache_tls12_session ::
  "('k, 'a, 't) ClientSessionMemoryCache \<Rightarrow> 'k \<Rightarrow> 'a option" where
  "ClientSessionMemoryCache_tls12_session s key = Option.bind (LimitedCache_get s key) sd_tls12"

definition ClientSessionMemoryCache_remove_tls12_session ::
  "('k, 'a, 't) ClientSessionMemoryCache \<Rightarrow> 'k \<Rightarrow> ('k, 'a, 't) ClientSessionMemoryCache" where
  "ClientSessionMemoryCache_remove_tls12_session s key =
     fst (LimitedCache_get_mut s key (\<lambda>d. (d\<lparr>sd_tls12 := None\<rparr>, sd_tls12 d)))"

text \<open>\<open>insert_tls13_ticket\<close>'s edit: a full deque loses its oldest ticket first.\<close>

definition push_ticket :: "'t \<Rightarrow> ('a, 't) ServerData \<Rightarrow> ('a, 't) ServerData" where
  "push_ticket t d =
     (let d = (if length (sd_tls13 d) = sd_tls13_capacity d
               then d\<lparr>sd_tls13 := tl (sd_tls13 d)\<rparr> else d)
      in d\<lparr>sd_tls13 := sd_tls13 d @ [t]\<rparr>)"

definition ClientSessionMemoryCache_insert_tls13_ticket ::
  "('k, 'a, 't) ClientSessionMemoryCache \<Rightarrow> 'k \<Rightarrow> 't \<Rightarrow> ('k, 'a, 't) ClientSessionMemoryCache" where
  "ClientSessionMemoryCache_insert_tls13_ticket s key t =
     LimitedCache_get_or_insert_default_and_edit ServerData_default s key (push_ticket t)"

definition pop_ticket :: "('a, 't) ServerData \<Rightarrow> ('a, 't) ServerData \<times> 't option" where
  "pop_ticket d =
     (if sd_tls13 d = [] then (d, None)
      else (d\<lparr>sd_tls13 := butlast (sd_tls13 d)\<rparr>, Some (last (sd_tls13 d))))"

definition ClientSessionMemoryCache_take_tls13_ticket ::
  "('k, 'a, 't) ClientSessionMemoryCache \<Rightarrow> 'k \<Rightarrow>
   ('k, 'a, 't) ClientSessionMemoryCache \<times> 't option" where
  "ClientSessionMemoryCache_take_tls13_ticket s key =
     (let (s', r) = LimitedCache_get_mut s key pop_ticket in (s', Option.bind r id))"

definition ClientSessionMemoryCache ::
  "(('k, 'a, 't) ClientSessionMemoryCache, 'k, 'a, 't) ClientSessionStore" where
  "ClientSessionMemoryCache =
     \<lparr>cs_set_kx_hint = ClientSessionMemoryCache_set_kx_hint,
      cs_kx_hint = ClientSessionMemoryCache_kx_hint,
      cs_set_tls12_session = ClientSessionMemoryCache_set_tls12_session,
      cs_tls12_session = ClientSessionMemoryCache_tls12_session,
      cs_remove_tls12_session = ClientSessionMemoryCache_remove_tls12_session,
      cs_insert_tls13_ticket = ClientSessionMemoryCache_insert_tls13_ticket,
      cs_take_tls13_ticket = ClientSessionMemoryCache_take_tls13_ticket\<rparr>"

subsection \<open>The cache is a bounded queue of entries\<close>

definition LimitedCache_inv :: "('k, 'v) LimitedCache \<Rightarrow> bool" where
  "LimitedCache_inv c \<longleftrightarrow>
     distinct (lc_oldest c) \<and> set (lc_oldest c) = dom (lc_map c) \<and> length (lc_oldest c) \<le> lc_max c"

text \<open>The entries, oldest first: what the map and the deque represent together.\<close>

definition cache_entries :: "('k, 'v) LimitedCache \<Rightarrow> ('k \<times> 'v) list" where
  "cache_entries c = map (\<lambda>k. (k, the (lc_map c k))) (lc_oldest c)"

definition queue_update :: "'k \<Rightarrow> 'v \<Rightarrow> ('k \<times> 'v) list \<Rightarrow> ('k \<times> 'v) list" where
  "queue_update k v q = map (\<lambda>(k', v'). (k', if k' = k then v else v')) q"

text \<open>
  The specification: an entry that is present is replaced where it stands; a new
  one goes to the end, and over the limit the first one is dropped.
\<close>

definition queue_insert :: "usize \<Rightarrow> 'k \<Rightarrow> 'v \<Rightarrow> ('k \<times> 'v) list \<Rightarrow> ('k \<times> 'v) list" where
  "queue_insert n k v q =
     (if k \<in> fst ` set q then queue_update k v q
      else if length q < n then q @ [(k, v)] else tl (q @ [(k, v)]))"

definition queue_remove :: "'k \<Rightarrow> ('k \<times> 'v) list \<Rightarrow> ('k \<times> 'v) list" where
  "queue_remove k q = filter (\<lambda>e. fst e \<noteq> k) q"

text \<open>Both insertions replace one entry by a function of what was there.\<close>

definition cache_upsert ::
  "('v option \<Rightarrow> 'v) \<Rightarrow> 'k \<Rightarrow> ('k, 'v) LimitedCache \<Rightarrow> ('k, 'v) LimitedCache" where
  "cache_upsert f k c =
     (case lc_map c k of
        Some v \<Rightarrow> c\<lparr>lc_map := (lc_map c)(k \<mapsto> f (Some v))\<rparr>
      | None \<Rightarrow>
          evict_oldest (c\<lparr>lc_oldest := lc_oldest c @ [k], lc_map := (lc_map c)(k \<mapsto> f None)\<rparr>))"

lemma insert_is_upsert: "LimitedCache_insert c k v = cache_upsert (\<lambda>_. v) k c"
  by (simp add: LimitedCache_insert_def cache_upsert_def)

lemma edit_is_upsert:
  "LimitedCache_get_or_insert_default_and_edit D c k f =
     cache_upsert (\<lambda>old. f (case old of None \<Rightarrow> D | Some v \<Rightarrow> v)) k c"
  by (simp add: LimitedCache_get_or_insert_default_and_edit_def cache_upsert_def split: option.split)

lemma LimitedCache_new_inv: "LimitedCache_inv (LimitedCache_new n)"
  by (simp add: LimitedCache_inv_def LimitedCache_new_def)

lemma lc_max_upsert [simp]: "lc_max (cache_upsert f k c) = lc_max c"
  by (auto simp: cache_upsert_def evict_oldest_def split: option.split list.split)

lemma lc_max_remove [simp]: "lc_max (fst (LimitedCache_remove c k)) = lc_max c"
  by (simp add: LimitedCache_remove_def split: option.split)

lemma lc_max_get_mut [simp]: "lc_max (fst (LimitedCache_get_mut c k f)) = lc_max c"
  by (simp add: LimitedCache_get_mut_def split: option.split)

lemma cache_upsert_inv:
  assumes "LimitedCache_inv c" shows "LimitedCache_inv (cache_upsert f k c)"
proof (cases "lc_map c k")
  case None
  then show ?thesis using assms
    by (cases "lc_oldest c")
       (auto simp: LimitedCache_inv_def cache_upsert_def evict_oldest_def)
qed (use assms in \<open>auto simp: LimitedCache_inv_def cache_upsert_def\<close>)

lemma cache_remove_inv:
  assumes "LimitedCache_inv c" shows "LimitedCache_inv (fst (LimitedCache_remove c k))"
  using assms by (auto simp: LimitedCache_inv_def LimitedCache_remove_def length_remove1
                       split: option.split)

lemma cache_get_mut_inv:
  assumes "LimitedCache_inv c" shows "LimitedCache_inv (fst (LimitedCache_get_mut c k f))"
  using assms by (auto simp: LimitedCache_inv_def LimitedCache_get_mut_def split: option.split)

lemma cache_entries_keys [simp]: "fst ` set (cache_entries c) = set (lc_oldest c)"
  by (force simp: cache_entries_def)

lemma length_cache_entries [simp]: "length (cache_entries c) = length (lc_oldest c)"
  by (simp add: cache_entries_def)

lemma cache_entries_lookup:
  assumes "LimitedCache_inv c"
  shows "map_of (cache_entries c) k = LimitedCache_get c k"
proof -
  have "map_of (cache_entries c) = (\<lambda>k. Some (the (lc_map c k))) |` set (lc_oldest c)"
    by (simp add: cache_entries_def map_of_map_restrict o_def)
  then show ?thesis
    using assms by (auto simp: LimitedCache_inv_def LimitedCache_get_def restrict_map_def dom_def)
qed

lemma cache_upsert_entries:
  assumes "LimitedCache_inv c"
  shows "cache_entries (cache_upsert f k c) =
           queue_insert (lc_max c) k (f (LimitedCache_get c k)) (cache_entries c)"
proof (cases "lc_map c k")
  case None
  then have k: "k \<notin> set (lc_oldest c)" using assms by (auto simp: LimitedCache_inv_def)
  then show ?thesis
    using assms None
    by (cases "lc_oldest c")
       (auto simp: cache_upsert_def evict_oldest_def queue_insert_def cache_entries_def
                   LimitedCache_inv_def LimitedCache_get_def)
next
  case (Some v)
  then have k: "k \<in> set (lc_oldest c)" using assms by (auto simp: LimitedCache_inv_def)
  with Some show ?thesis
    by (simp add: cache_upsert_def queue_insert_def LimitedCache_get_def)
       (auto simp: cache_entries_def queue_update_def)
qed

lemma cache_remove_entries:
  assumes "LimitedCache_inv c"
  shows "cache_entries (fst (LimitedCache_remove c k)) = queue_remove k (cache_entries c)"
proof (cases "lc_map c k")
  case None
  then have "k \<notin> set (lc_oldest c)" using assms by (auto simp: LimitedCache_inv_def)
  then show ?thesis using None
    by (auto simp: LimitedCache_remove_def queue_remove_def cache_entries_def
             intro!: filter_True [symmetric])
next
  case (Some v)
  have "distinct (lc_oldest c)" using assms by (simp add: LimitedCache_inv_def)
  with Some show ?thesis
    by (auto simp: LimitedCache_remove_def queue_remove_def cache_entries_def filter_map o_def
                   distinct_remove1_removeAll removeAll_filter_not_eq intro!: map_cong filter_cong)
qed

lemma cache_upsert_lookup:
  assumes "LimitedCache_get (cache_upsert f k c) k' = Some w"
  shows "if k' = k then w = f (LimitedCache_get c k) else LimitedCache_get c k' = Some w"
  using assms
  by (auto simp: cache_upsert_def evict_oldest_def LimitedCache_get_def
           split: option.splits list.splits if_splits)

lemma cache_upsert_kept:
  assumes "LimitedCache_inv c" "0 < lc_max c"
  shows "LimitedCache_get (cache_upsert f k c) k = Some (f (LimitedCache_get c k))"
proof (cases "lc_map c k")
  case None
  then have "k \<notin> set (lc_oldest c)" using assms by (auto simp: LimitedCache_inv_def)
  then show ?thesis using None assms
    by (cases "lc_oldest c") (auto simp: cache_upsert_def evict_oldest_def LimitedCache_get_def)
qed (simp add: cache_upsert_def LimitedCache_get_def)

lemma cache_remove_lookup:
  "LimitedCache_get (fst (LimitedCache_remove c k)) k' =
     (if k' = k then None else LimitedCache_get c k')"
  "snd (LimitedCache_remove c k) = LimitedCache_get c k"
  by (auto simp: LimitedCache_remove_def LimitedCache_get_def split: option.split)

lemma cache_get_mut_lookup:
  "LimitedCache_get (fst (LimitedCache_get_mut c k f)) k' =
     (if k' = k then map_option (fst \<circ> f) (LimitedCache_get c k) else LimitedCache_get c k')"
  "snd (LimitedCache_get_mut c k f) = map_option (snd \<circ> f) (LimitedCache_get c k)"
  by (auto simp: LimitedCache_get_mut_def LimitedCache_get_def split: option.split)

subsection \<open>What a server session store promises\<close>

datatype server_store_op =
    PutSession bytes bytes
  | TakeSession bytes

text \<open>A sequence of operations, with what each \<open>take\<close> returned.\<close>

fun server_store_run ::
  "'s StoresServerSessions \<Rightarrow> 's \<Rightarrow> server_store_op list \<Rightarrow> 's \<times> bytes option list" where
  "server_store_run T s [] = (s, [])"
| "server_store_run T s (PutSession k v # ops) = server_store_run T (fst (ss_put T s k v)) ops"
| "server_store_run T s (TakeSession k # ops) =
     (let (s', r) = ss_take T s k; (s'', rs) = server_store_run T s' ops in (s'', r # rs))"

text \<open>The specification is a map that remembers everything.\<close>

fun server_store_spec ::
  "(bytes \<rightharpoonup> bytes) \<Rightarrow> server_store_op list \<Rightarrow> (bytes \<rightharpoonup> bytes) \<times> bytes option list" where
  "server_store_spec m [] = (m, [])"
| "server_store_spec m (PutSession k v # ops) = server_store_spec (m(k \<mapsto> v)) ops"
| "server_store_spec m (TakeSession k # ops) =
     (let (m', rs) = server_store_spec (m(k := None)) ops in (m', m k # rs))"

locale server_session_store =
  fixes T :: "'s StoresServerSessions"
  assumes put_latest: "ss_get T (fst (ss_put T s k v)) k' = Some w \<Longrightarrow>
            if k' = k then w = v else ss_get T s k' = Some w"
    and take_returns: "snd (ss_take T s k) = ss_get T s k"
    and take_deletes: "ss_get T (fst (ss_take T s k)) k' =
            (if k' = k then None else ss_get T s k')"
begin

lemma put_below: "ss_get T s \<subseteq>\<^sub>m m \<Longrightarrow> ss_get T (fst (ss_put T s k v)) \<subseteq>\<^sub>m m(k \<mapsto> v)"
  using put_latest [of s k v] by (force simp: map_le_def dom_def split: if_splits)

lemma take_below: "ss_get T s \<subseteq>\<^sub>m m \<Longrightarrow> ss_get T (fst (ss_take T s k)) \<subseteq>\<^sub>m m(k := None)"
  by (force simp: map_le_def dom_def take_deletes split: if_splits)

lemma run_below_spec:
  assumes "ss_get T s \<subseteq>\<^sub>m m"
  shows "ss_get T (fst (server_store_run T s ops)) \<subseteq>\<^sub>m fst (server_store_spec m ops) \<and>
         list_all2 (\<lambda>r r'. r = None \<or> r = r') (snd (server_store_run T s ops))
           (snd (server_store_spec m ops))"
  using assms
proof (induction ops arbitrary: s m)
  case (Cons op ops)
  show ?case
  proof (cases op)
    case (PutSession k v)
    then show ?thesis using Cons.IH [OF put_below [OF Cons.prems, of k v]]
      by (simp add: fun_upd_def)
  next
    case (TakeSession k)
    have "snd (ss_take T s k) = None \<or> snd (ss_take T s k) = m k"
      using Cons.prems by (auto simp: take_returns map_le_def dom_def)
    then show ?thesis using TakeSession Cons.IH [OF take_below [OF Cons.prems], of k]
      by (auto simp: split_beta Let_def fun_upd_def)
  qed
qed simp

end

interpretation no_server_store: server_session_store NoServerSessionStorage
  by unfold_locales (simp_all add: NoServerSessionStorage_def)

interpretation memory_server_store: server_session_store ServerSessionMemoryCache
  by unfold_locales
     (auto simp: ServerSessionMemoryCache_def ServerSessionMemoryCache_put_def
        ServerSessionMemoryCache_get_def ServerSessionMemoryCache_take_def
        insert_is_upsert cache_remove_lookup dest: cache_upsert_lookup)

subsection \<open>What a client session store promises\<close>

datatype ('k, 'a, 't) client_store_op =
    SetKxHint 'k NamedGroup
  | SetTls12 'k 'a
  | RemoveTls12 'k
  | InsertTicket 'k 't
  | TakeTicket 'k

text \<open>A sequence of operations, with the tickets taken out on the way.\<close>

fun client_store_step ::
  "('s, 'k, 'a, 't) ClientSessionStore \<Rightarrow> 's \<Rightarrow> ('k, 'a, 't) client_store_op \<Rightarrow> 's \<times> 't option" where
  "client_store_step T s (SetKxHint k g) = (cs_set_kx_hint T s k g, None)"
| "client_store_step T s (SetTls12 k v) = (cs_set_tls12_session T s k v, None)"
| "client_store_step T s (RemoveTls12 k) = (cs_remove_tls12_session T s k, None)"
| "client_store_step T s (InsertTicket k t) = (cs_insert_tls13_ticket T s k t, None)"
| "client_store_step T s (TakeTicket k) = cs_take_tls13_ticket T s k"

fun client_store_run ::
  "('s, 'k, 'a, 't) ClientSessionStore \<Rightarrow> 's \<Rightarrow> ('k, 'a, 't) client_store_op list \<Rightarrow>
   's \<times> ('k \<times> 't) list" where
  "client_store_run T s [] = (s, [])"
| "client_store_run T s (op # ops) =
     (let (s', r) = client_store_step T s op; (s'', taken) = client_store_run T s' ops
      in (s'', (case (op, r) of (TakeTicket k, Some t) \<Rightarrow> (k, t) # taken | _ \<Rightarrow> taken)))"

definition tickets_of :: "'k \<Rightarrow> ('k \<times> 't) list \<Rightarrow> 't multiset" where
  "tickets_of k ts = mset (map snd (filter (\<lambda>e. fst e = k) ts))"

fun inserted_tickets :: "('k, 'a, 't) client_store_op list \<Rightarrow> ('k \<times> 't) list" where
  "inserted_tickets [] = []"
| "inserted_tickets (InsertTicket k t # ops) = (k, t) # inserted_tickets ops"
| "inserted_tickets (_ # ops) = inserted_tickets ops"

text \<open>What was last set for a key: the hints and the TLS 1.2 sessions a perfect memory has.\<close>

fun hint_spec :: "('k \<rightharpoonup> NamedGroup) \<Rightarrow> ('k, 'a, 't) client_store_op list \<Rightarrow> 'k \<rightharpoonup> NamedGroup" where
  "hint_spec m [] = m"
| "hint_spec m (SetKxHint k g # ops) = hint_spec (m(k \<mapsto> g)) ops"
| "hint_spec m (_ # ops) = hint_spec m ops"

fun tls12_spec :: "('k \<rightharpoonup> 'a) \<Rightarrow> ('k, 'a, 't) client_store_op list \<Rightarrow> 'k \<rightharpoonup> 'a" where
  "tls12_spec m [] = m"
| "tls12_spec m (SetTls12 k v # ops) = tls12_spec (m(k \<mapsto> v)) ops"
| "tls12_spec m (RemoveTls12 k # ops) = tls12_spec (m(k := None)) ops"
| "tls12_spec m (_ # ops) = tls12_spec m ops"

text \<open>
  \<open>tickets s k\<close> is the multiset of tickets a store in state \<open>s\<close> could still return
  for \<open>k\<close>.  The laws are the documentation of the trait: a ticket is returned at
  most once, a hint is the one most recently set, a TLS 1.2 session the one most
  recently saved and not removed since.
\<close>

lemma submset_chain:
  fixes a :: "'a multiset"
  assumes "a + x \<subseteq># b + i" "b + t \<subseteq># c + j"
  shows "a + (t + x) \<subseteq># c + (j + i)"
proof (rule mset_subset_eqI)
  fix e
  show "count (a + (t + x)) e \<le> count (c + (j + i)) e"
    using mset_subset_eq_count [OF assms(1), of e] mset_subset_eq_count [OF assms(2), of e] by simp
qed

locale client_session_store =
  fixes T :: "('s, 'k, 'a, 't) ClientSessionStore"
    and tickets :: "'s \<Rightarrow> 'k \<Rightarrow> 't multiset"
  assumes ticket_kept: "(case op of InsertTicket _ _ \<Rightarrow> False | TakeTicket _ \<Rightarrow> False | _ \<Rightarrow> True) \<Longrightarrow>
            tickets (fst (client_store_step T s op)) k' \<subseteq># tickets s k'"
    and ticket_inserted: "tickets (cs_insert_tls13_ticket T s k t) k' \<subseteq>#
            tickets s k' + (if k' = k then {#t#} else {#})"
    and ticket_taken: "tickets (fst (cs_take_tls13_ticket T s k)) k' +
            (if k' = k then (case snd (cs_take_tls13_ticket T s k) of None \<Rightarrow> {#} | Some t \<Rightarrow> {#t#})
             else {#}) \<subseteq># tickets s k'"
    and hint_latest: "cs_kx_hint T s \<subseteq>\<^sub>m m \<Longrightarrow>
            cs_kx_hint T (fst (client_store_step T s op)) \<subseteq>\<^sub>m hint_spec m [op]"
    and tls12_latest: "cs_tls12_session T s \<subseteq>\<^sub>m m' \<Longrightarrow>
            cs_tls12_session T (fst (client_store_step T s op)) \<subseteq>\<^sub>m tls12_spec m' [op]"
begin

lemma step_tickets:
  "tickets (fst (client_store_step T s op)) k +
     (case (op, snd (client_store_step T s op)) of
        (TakeTicket k', Some t) \<Rightarrow> if k = k' then {#t#} else {#} | _ \<Rightarrow> {#}) \<subseteq>#
   tickets s k + tickets_of k (inserted_tickets [op])"
proof (cases op)
  case (InsertTicket k' t)
  then show ?thesis using ticket_inserted [of s k' t k] by (auto simp: tickets_of_def)
next
  case (TakeTicket k')
  then show ?thesis using ticket_taken [of s k' k]
    by (cases "k = k'"; cases "snd (cs_take_tls13_ticket T s k')") (simp_all add: tickets_of_def)
qed (use ticket_kept [of op s k] in \<open>simp_all add: tickets_of_def\<close>)

lemma run_tickets:
  "tickets (fst (client_store_run T s ops)) k + tickets_of k (snd (client_store_run T s ops)) \<subseteq>#
   tickets s k + tickets_of k (inserted_tickets ops)"
proof (induction ops arbitrary: s)
  case (Cons op ops)
  obtain s' r where st: "client_store_step T s op = (s', r)" by fastforce
  have run: "client_store_run T s (op # ops) =
      (fst (client_store_run T s' ops),
       (case (op, r) of (TakeTicket k, Some t) \<Rightarrow> (k, t) # snd (client_store_run T s' ops)
                      | _ \<Rightarrow> snd (client_store_run T s' ops)))"
    using st by (cases op; cases r) (auto simp: split_beta)
  define taken where "taken = (case (op, r) of
        (TakeTicket k', Some t) \<Rightarrow> if k = k' then {#t#} else {#} | _ \<Rightarrow> {#})"
  have ins: "tickets_of k (inserted_tickets (op # ops)) =
      tickets_of k (inserted_tickets [op]) + tickets_of k (inserted_tickets ops)"
    by (cases op) (auto simp: tickets_of_def)
  have out: "tickets_of k (snd (client_store_run T s (op # ops))) =
      taken + tickets_of k (snd (client_store_run T s' ops))"
    by (subst run) (cases op; cases r; simp add: taken_def tickets_of_def)
  have "tickets s' k + taken \<subseteq># tickets s k + tickets_of k (inserted_tickets [op])"
    using step_tickets [of s op k] by (simp add: st taken_def)
  then show ?case
    using submset_chain [OF Cons.IH [of s']] unfolding ins out by (subst run) simp
qed (simp add: tickets_of_def)

lemma run_hints:
  "cs_kx_hint T s \<subseteq>\<^sub>m m \<Longrightarrow> cs_kx_hint T (fst (client_store_run T s ops)) \<subseteq>\<^sub>m hint_spec m ops"
proof (induction ops arbitrary: s m)
  case (Cons op ops)
  have "hint_spec m (op # ops) = hint_spec (hint_spec m [op]) ops" by (cases op) simp_all
  then show ?case using Cons.IH [OF hint_latest [OF Cons.prems, of op]]
    by (simp add: split_beta)
qed simp

lemma run_tls12:
  "cs_tls12_session T s \<subseteq>\<^sub>m m \<Longrightarrow>
   cs_tls12_session T (fst (client_store_run T s ops)) \<subseteq>\<^sub>m tls12_spec m ops"
proof (induction ops arbitrary: s m)
  case (Cons op ops)
  have "tls12_spec m (op # ops) = tls12_spec (tls12_spec m [op]) ops" by (cases op) simp_all
  then show ?case using Cons.IH [OF tls12_latest [OF Cons.prems, of op]]
    by (simp add: split_beta)
qed simp

end

definition memory_tickets :: "('k, 'a, 't) ClientSessionMemoryCache \<Rightarrow> 'k \<Rightarrow> 't multiset" where
  "memory_tickets s k = (case LimitedCache_get s k of None \<Rightarrow> {#} | Some d \<Rightarrow> mset (sd_tls13 d))"

interpretation no_client_store: client_session_store NoClientSessionStorage "\<lambda>_ _. {#}"
  by unfold_locales (auto simp: NoClientSessionStorage_def map_le_def)

lemmas memory_client_store_defs =
  ClientSessionMemoryCache_def ClientSessionMemoryCache_set_kx_hint_def
  ClientSessionMemoryCache_kx_hint_def ClientSessionMemoryCache_set_tls12_session_def
  ClientSessionMemoryCache_tls12_session_def ClientSessionMemoryCache_remove_tls12_session_def
  ClientSessionMemoryCache_insert_tls13_ticket_def ClientSessionMemoryCache_take_tls13_ticket_def

text \<open>
  Every operation of the memory store either edits the entry of its key or, after
  an eviction, has lost it: an observation of the entries is at most what the
  edit makes of it.
\<close>

lemma edit_observation:
  assumes "LimitedCache_get (LimitedCache_get_or_insert_default_and_edit D c k f) k' = Some d"
  shows "if k' = k then d = f (case LimitedCache_get c k of None \<Rightarrow> D | Some v \<Rightarrow> v)
         else LimitedCache_get c k' = Some d"
  using cache_upsert_lookup [OF assms [unfolded edit_is_upsert]] .

lemma mset_push_ticket:
  "mset (sd_tls13 (push_ticket t d)) \<subseteq># add_mset t (mset (sd_tls13 d))"
  by (cases "sd_tls13 d") (auto simp: push_ticket_def Let_def)

lemma mset_pop_ticket:
  "mset (sd_tls13 (fst (pop_ticket d))) +
     (case snd (pop_ticket d) of None \<Rightarrow> {#} | Some t \<Rightarrow> {#t#}) = mset (sd_tls13 d)"
proof (cases "sd_tls13 d = []")
  case False
  then have "mset (sd_tls13 d) = mset (butlast (sd_tls13 d) @ [last (sd_tls13 d)])" by simp
  then show ?thesis using False by (simp add: pop_ticket_def del: append_butlast_last_id)
qed (simp add: pop_ticket_def)

text \<open>A field \<open>p\<close> of the entries, as the map from keys to it.\<close>

definition observe :: "('v \<Rightarrow> 'x option) \<Rightarrow> ('k, 'v) LimitedCache \<Rightarrow> 'k \<rightharpoonup> 'x" where
  "observe p c k = Option.bind (LimitedCache_get c k) p"

lemma observe_le:
  "observe p c \<subseteq>\<^sub>m m \<longleftrightarrow> (\<forall>k d x. LimitedCache_get c k = Some d \<longrightarrow> p d = Some x \<longrightarrow> m k = Some x)"
  by (force simp: map_le_def observe_def dom_def bind_eq_Some_conv)

lemma observe_edit_same:
  assumes le: "observe p c \<subseteq>\<^sub>m m" and p: "\<And>d. p (f d) = p d" "p D = None"
  shows "observe p (LimitedCache_get_or_insert_default_and_edit D c k f) \<subseteq>\<^sub>m m"
  unfolding observe_le
proof (intro allI impI)
  fix k' d x
  assume *: "LimitedCache_get (LimitedCache_get_or_insert_default_and_edit D c k f) k' = Some d"
    "p d = Some x"
  show "m k' = Some x"
    using edit_observation [OF *(1)] *(2) p le [unfolded observe_le]
    by (cases "k' = k"; cases "LimitedCache_get c k") auto
qed

lemma observe_edit_set:
  assumes le: "observe p c \<subseteq>\<^sub>m m" and p: "\<And>d. p (f d) = Some v"
  shows "observe p (LimitedCache_get_or_insert_default_and_edit D c k f) \<subseteq>\<^sub>m m(k \<mapsto> v)"
  unfolding observe_le
proof (intro allI impI)
  fix k' d x
  assume *: "LimitedCache_get (LimitedCache_get_or_insert_default_and_edit D c k f) k' = Some d"
    "p d = Some x"
  show "(m(k \<mapsto> v)) k' = Some x"
    using edit_observation [OF *(1)] *(2) p le [unfolded observe_le] by (cases "k' = k") auto
qed

lemma observe_get_mut_same:
  assumes "observe p c \<subseteq>\<^sub>m m" "\<And>d. p (fst (f d)) = p d"
  shows "observe p (fst (LimitedCache_get_mut c k f)) \<subseteq>\<^sub>m m"
  using assms unfolding map_le_def observe_def dom_def
  by (fastforce simp: bind_eq_Some_conv cache_get_mut_lookup split: if_splits)

lemma observe_get_mut_clear:
  assumes "observe p c \<subseteq>\<^sub>m m" "\<And>d. p (fst (f d)) = None"
  shows "observe p (fst (LimitedCache_get_mut c k f)) \<subseteq>\<^sub>m m(k := None)"
  using assms unfolding map_le_def observe_def dom_def
  by (fastforce simp: bind_eq_Some_conv cache_get_mut_lookup split: if_splits)

lemma push_ticket_fields [simp]:
  "sd_kx_hint (push_ticket t d) = sd_kx_hint d" "sd_tls12 (push_ticket t d) = sd_tls12 d"
  by (simp_all add: push_ticket_def Let_def)

lemma pop_ticket_fields [simp]:
  "sd_kx_hint (fst (pop_ticket d)) = sd_kx_hint d" "sd_tls12 (fst (pop_ticket d)) = sd_tls12 d"
  by (simp_all add: pop_ticket_def)

lemma memory_observations:
  "cs_kx_hint ClientSessionMemoryCache = observe sd_kx_hint"
  "cs_tls12_session ClientSessionMemoryCache = observe sd_tls12"
  by (simp_all add: memory_client_store_defs observe_def fun_eq_iff)

interpretation memory_client_store:
  client_session_store "ClientSessionMemoryCache :: (_, 'k, 'a, 't) ClientSessionStore" memory_tickets
proof unfold_locales
  fix s :: "('k, 'a, 't) ClientSessionMemoryCache" and op :: "('k, 'a, 't) client_store_op" and k'
  assume "case op of InsertTicket _ _ \<Rightarrow> False | TakeTicket _ \<Rightarrow> False | _ \<Rightarrow> True"
  then show "memory_tickets (fst (client_store_step ClientSessionMemoryCache s op)) k' \<subseteq>#
      memory_tickets s k'"
    by (cases op)
       (auto simp: memory_client_store_defs memory_tickets_def cache_get_mut_lookup
             ServerData_default_def dest!: edit_observation split: option.split if_splits)
next
  fix s :: "('k, 'a, 't) ClientSessionMemoryCache" and k t k'
  show "memory_tickets (cs_insert_tls13_ticket ClientSessionMemoryCache s k t) k' \<subseteq>#
      memory_tickets s k' + (if k' = k then {#t#} else {#})"
    using mset_push_ticket [of t "case LimitedCache_get s k of None \<Rightarrow> ServerData_default | Some v \<Rightarrow> v"]
    by (auto simp: memory_client_store_defs memory_tickets_def ServerData_default_def
             dest!: edit_observation split: option.split option.splits if_splits)
next
  fix s :: "('k, 'a, 't) ClientSessionMemoryCache" and k k'
  show "memory_tickets (fst (cs_take_tls13_ticket ClientSessionMemoryCache s k)) k' +
      (if k' = k then case snd (cs_take_tls13_ticket ClientSessionMemoryCache s k) of
         None \<Rightarrow> {#} | Some t \<Rightarrow> {#t#} else {#}) \<subseteq># memory_tickets s k'"
    using mset_pop_ticket [of "the (LimitedCache_get s k)"]
    by (auto simp: memory_client_store_defs memory_tickets_def split_beta cache_get_mut_lookup
             split: option.split)
next
  fix s :: "('k, 'a, 't) ClientSessionMemoryCache" and m and op :: "('k, 'a, 't) client_store_op"
  assume "cs_kx_hint ClientSessionMemoryCache s \<subseteq>\<^sub>m m"
  then show "cs_kx_hint ClientSessionMemoryCache
      (fst (client_store_step ClientSessionMemoryCache s op)) \<subseteq>\<^sub>m hint_spec m [op]"
    unfolding memory_observations
    by (cases op)
       (simp_all add: memory_client_store_defs split_beta ServerData_default_def
          observe_edit_same observe_edit_set observe_get_mut_same)
next
  fix s :: "('k, 'a, 't) ClientSessionMemoryCache" and m and op :: "('k, 'a, 't) client_store_op"
  assume "cs_tls12_session ClientSessionMemoryCache s \<subseteq>\<^sub>m m"
  then show "cs_tls12_session ClientSessionMemoryCache
      (fst (client_store_step ClientSessionMemoryCache s op)) \<subseteq>\<^sub>m tls12_spec m [op]"
    unfolding memory_observations
    by (cases op)
       (simp_all add: memory_client_store_defs split_beta ServerData_default_def
          observe_edit_same observe_edit_set observe_get_mut_same observe_get_mut_clear)
qed

subsection \<open>The server's store refines the bounded queue\<close>

fun server_queue_run ::
  "usize \<Rightarrow> (bytes \<times> bytes) list \<Rightarrow> server_store_op list \<Rightarrow>
   (bytes \<times> bytes) list \<times> bytes option list" where
  "server_queue_run n q [] = (q, [])"
| "server_queue_run n q (PutSession k v # ops) = server_queue_run n (queue_insert n k v q) ops"
| "server_queue_run n q (TakeSession k # ops) =
     (let (q', rs) = server_queue_run n (queue_remove k q) ops in (q', map_of q k # rs))"

lemma memory_server_store_refines:
  assumes "LimitedCache_inv s"
  shows "LimitedCache_inv (fst (server_store_run ServerSessionMemoryCache s ops)) \<and>
         cache_entries (fst (server_store_run ServerSessionMemoryCache s ops)) =
           fst (server_queue_run (lc_max s) (cache_entries s) ops) \<and>
         snd (server_store_run ServerSessionMemoryCache s ops) =
           snd (server_queue_run (lc_max s) (cache_entries s) ops)"
  using assms
proof (induction ops arbitrary: s)
  case (Cons op ops)
  show ?case
  proof (cases op)
    case (PutSession k v)
    then show ?thesis
      using Cons.IH [OF cache_upsert_inv [OF Cons.prems, of "\<lambda>_. v" k]]
      by (simp add: ServerSessionMemoryCache_def ServerSessionMemoryCache_put_def
          insert_is_upsert cache_upsert_entries [OF Cons.prems])
  next
    case (TakeSession k)
    then show ?thesis
      using Cons.IH [OF cache_remove_inv [OF Cons.prems, of k]]
      by (simp add: ServerSessionMemoryCache_def ServerSessionMemoryCache_take_def split_beta Let_def
          cache_remove_entries [OF Cons.prems] cache_remove_lookup cache_entries_lookup [OF Cons.prems])
  qed
qed simp

subsection \<open>The client's store stays within its limits\<close>

definition memory_store_inv :: "usize \<Rightarrow> ('k, 'a, 't) ClientSessionMemoryCache \<Rightarrow> bool" where
  "memory_store_inv n s \<longleftrightarrow>
     LimitedCache_inv s \<and> lc_max s = n \<and>
     (\<forall>k d. LimitedCache_get s k = Some d \<longrightarrow>
        length (sd_tls13 d) \<le> MAX_TLS13_TICKETS_PER_SERVER \<and>
        sd_tls13_capacity d = MAX_TLS13_TICKETS_PER_SERVER)"

abbreviation ticket_data_ok :: "('a, 't) ServerData \<Rightarrow> bool" where
  "ticket_data_ok d \<equiv> length (sd_tls13 d) \<le> MAX_TLS13_TICKETS_PER_SERVER \<and>
     sd_tls13_capacity d = MAX_TLS13_TICKETS_PER_SERVER"

lemma memory_edit_inv:
  assumes inv: "memory_store_inv n s" and f: "\<And>d. ticket_data_ok d \<Longrightarrow> ticket_data_ok (f d)"
  shows "memory_store_inv n (LimitedCache_get_or_insert_default_and_edit ServerData_default s k f)"
    (is "memory_store_inv n ?s")
  unfolding memory_store_inv_def
proof (intro conjI allI impI)
  show "LimitedCache_inv ?s" "lc_max ?s = n"
    using inv by (simp_all add: memory_store_inv_def edit_is_upsert cache_upsert_inv)
  fix k' d assume d: "LimitedCache_get ?s k' = Some d"
  have "ticket_data_ok (ServerData_default :: ('b, 'c) ServerData)"
    by (simp add: ServerData_default_def)
  then have "ticket_data_ok (case LimitedCache_get s k of None \<Rightarrow> ServerData_default | Some v \<Rightarrow> v)"
    using inv by (simp add: memory_store_inv_def split: option.split)
  then have ok: "ticket_data_ok d"
    using edit_observation [OF d] f inv by (auto simp: memory_store_inv_def split: if_splits)
  show "length (sd_tls13 d) \<le> MAX_TLS13_TICKETS_PER_SERVER" using ok by simp
  show "sd_tls13_capacity d = MAX_TLS13_TICKETS_PER_SERVER" using ok by simp
qed

lemma memory_get_mut_inv:
  assumes "memory_store_inv n s" "\<And>d. ticket_data_ok d \<Longrightarrow> ticket_data_ok (fst (f d))"
  shows "memory_store_inv n (fst (LimitedCache_get_mut s k f))"
  using assms
  by (auto simp: memory_store_inv_def cache_get_mut_inv cache_get_mut_lookup split: if_splits)

lemma push_ticket_ok: "ticket_data_ok d \<Longrightarrow> ticket_data_ok (push_ticket t d)"
  by (auto simp: push_ticket_def Let_def MAX_TLS13_TICKETS_PER_SERVER_def)

lemma pop_ticket_ok: "ticket_data_ok d \<Longrightarrow> ticket_data_ok (fst (pop_ticket d))"
  by (auto simp: pop_ticket_def)

lemma memory_step_inv:
  assumes "memory_store_inv n s"
  shows "memory_store_inv n (fst (client_store_step ClientSessionMemoryCache s op))"
  by (cases op)
     (simp_all add: memory_client_store_defs split_beta memory_edit_inv memory_get_mut_inv assms
        push_ticket_ok pop_ticket_ok)

lemma memory_run_inv:
  assumes "memory_store_inv n s"
  shows "memory_store_inv n (fst (client_store_run ClientSessionMemoryCache s ops))"
  using assms
proof (induction ops arbitrary: s)
  case (Cons op ops)
  then show ?case using memory_step_inv [OF Cons.prems, of op] by (simp add: split_beta)
qed simp

lemma memory_new_inv:
  "memory_store_inv (lc_max (ClientSessionMemoryCache_new n :: ('k, 'a, 't) ClientSessionMemoryCache))
     (ClientSessionMemoryCache_new n :: ('k, 'a, 't) ClientSessionMemoryCache)"
  by (simp add: memory_store_inv_def ClientSessionMemoryCache_new_def LimitedCache_new_inv)
     (simp add: LimitedCache_new_def LimitedCache_get_def)

lemma max_servers_bound:
  "lc_max (ClientSessionMemoryCache_new n :: ('k, 'a, 't) ClientSessionMemoryCache) \<le> (n + 7) div 8"
  by (simp add: ClientSessionMemoryCache_new_def LimitedCache_new_def saturating_add_def
        MAX_TLS13_TICKETS_PER_SERVER_def div_le_mono)

lemma memory_store_sizes:
  assumes "memory_store_inv n s"
  shows "card (dom (lc_map s)) \<le> n" "size (memory_tickets s k) \<le> 8"
proof -
  have "LimitedCache_inv s" using assms by (simp add: memory_store_inv_def)
  then have "card (dom (lc_map s)) = length (lc_oldest s)"
    unfolding LimitedCache_inv_def by (metis distinct_card)
  then show "card (dom (lc_map s)) \<le> n"
    using assms by (simp add: memory_store_inv_def LimitedCache_inv_def)
  show "size (memory_tickets s k) \<le> 8"
    using assms
    by (auto simp: memory_tickets_def memory_store_inv_def MAX_TLS13_TICKETS_PER_SERVER_def
             split: option.split)
qed

text \<open>A ticket just received is the next one used, unless the store may hold nothing at all.\<close>

lemma memory_take_newest:
  assumes "memory_store_inv n s" "0 < n"
  shows "snd (cs_take_tls13_ticket ClientSessionMemoryCache
            (cs_insert_tls13_ticket ClientSessionMemoryCache s k t) k) = Some t"
proof -
  have "LimitedCache_inv s" "0 < lc_max s" using assms by (simp_all add: memory_store_inv_def)
  from cache_upsert_kept [OF this] show ?thesis
    by (simp add: memory_client_store_defs edit_is_upsert split_beta cache_get_mut_lookup
          pop_ticket_def push_ticket_def Let_def)
qed

end
