(* ===== verification/Ticketer.thy ===== *)
theory Ticketer
  imports Record_Cipher
begin

text \<open>
  Session tickets: the \<open>TicketRotator\<close> of \<open>ticketer.rs\<close>, which replaces its ticketer
  every \<open>lifetime\<close> and keeps the one before, and the ticketers of the providers: the
  AEAD ticketer of \<open>rustls-ring\<close>, the RFC 5077 ticketer of \<open>rustls-aws-lc-rs\<close> and the
  one of the fuzzing provider.  The trait \<open>TicketProducer\<close> is a record of functions
  on a producer's state; what the rotator relies on is the locale
  \<open>ticket_producer\<close>, which all three interpret.

  A point in time and a duration are natural numbers.  What the system's random
  source returns, and the outcome of the generator, are arguments of the
  operations that ask for them.  The read-write lock is held by one writer or by
  readers, so the section of \<open>maybe_roll\<close> under the write lock and the use of the
  state under the read lock are single steps, and threads interleave these steps.
\<close>

subsection \<open>The trait, and what its users rely on\<close>

record 'p TicketProducer =
  tp_encrypt :: "'p \<Rightarrow> bytes option \<Rightarrow> bytes \<Rightarrow> 'p \<times> bytes option"
  tp_decrypt :: "'p \<Rightarrow> bytes \<Rightarrow> bytes option"
  tp_lifetime :: "'p \<Rightarrow> Duration"

text \<open>
  \<open>accepts p c m\<close>: the producer decrypts the ticket \<open>c\<close> to \<open>m\<close>, now and after issuing more tickets;
  \<open>foreign p c\<close>: it rejects \<open>c\<close>, now and then; \<open>able p rng m\<close>: it can encrypt \<open>m\<close>.
\<close>

locale ticket_producer =
  fixes T :: "'p TicketProducer"
    and able :: "'p \<Rightarrow> bytes option \<Rightarrow> bytes \<Rightarrow> bool"
    and foreign :: "'p \<Rightarrow> bytes \<Rightarrow> bool"
  assumes encrypt_able: "able p rng m \<Longrightarrow>
            \<exists>p' c. tp_encrypt T p rng m = (p', Some c) \<and> tp_decrypt T p' c = Some m"
    and decrypt_kept: "tp_decrypt T p c = Some m \<Longrightarrow>
            tp_decrypt T (fst (tp_encrypt T p rng m')) c = Some m"
    and foreign_kept: "foreign p c \<Longrightarrow> foreign (fst (tp_encrypt T p rng m')) c"
    and foreign_rejects: "foreign p c \<Longrightarrow> tp_decrypt T p c = None"

subsection \<open>The rotator\<close>

record 'p Generation =
  producer :: 'p
  expires_at :: nat

definition in_grace_period :: "'p Generation \<Rightarrow> nat \<Rightarrow> nat \<Rightarrow> bool" where
  "in_grace_period g now lifetime \<longleftrightarrow> now \<le> expires_at g + lifetime"

record 'p TicketRotatorState =
  current :: "'p Generation option"
  previous :: "'p Generation option"

definition TicketRotator_new :: "nat \<Rightarrow> Error + 'p \<Rightarrow> nat \<Rightarrow> Error + 'p TicketRotatorState" where
  "TicketRotator_new lifetime generated now =
     bindR generated (\<lambda>p.
       Inr \<lparr>current = Some \<lparr>producer = p, expires_at = now + lifetime\<rparr>, previous = None\<rparr>)"

text \<open>The fast path of \<open>maybe_roll\<close>: the current ticketer has not expired.\<close>

definition roll_not_needed :: "nat \<Rightarrow> 'p TicketRotatorState \<Rightarrow> bool" where
  "roll_not_needed now st \<longleftrightarrow> (case current st of Some g \<Rightarrow> now \<le> expires_at g | None \<Rightarrow> False)"

text \<open>The section of \<open>maybe_roll\<close> that holds the write lock.\<close>

definition roll_locked ::
  "nat \<Rightarrow> Error + 'p \<Rightarrow> nat \<Rightarrow> 'p TicketRotatorState \<Rightarrow> 'p TicketRotatorState" where
  "roll_locked lifetime generated now st =
     (if roll_not_needed now st then st
      else
        let next = (case generated of
                      Inl _ \<Rightarrow> None
                    | Inr p \<Rightarrow> Some \<lparr>producer = p, expires_at = now + lifetime\<rparr>);
            prev = current st;
            st = st\<lparr>current := next\<rparr>
        in if prev \<noteq> None then st\<lparr>previous := prev\<rparr> else st)"

definition maybe_roll ::
  "nat \<Rightarrow> Error + 'p \<Rightarrow> nat \<Rightarrow> 'p TicketRotatorState \<Rightarrow> 'p TicketRotatorState" where
  "maybe_roll lifetime generated now st =
     (if roll_not_needed now st then st else roll_locked lifetime generated now st)"

text \<open>
  \<open>encrypt_at\<close> and \<open>decrypt_at\<close> after \<open>maybe_roll\<close> has returned the state for
  reading.  A producer counts what it issued behind a shared reference, so
  encrypting changes the producer within its generation.
\<close>

definition encrypt_in ::
  "'p TicketProducer \<Rightarrow> nat \<Rightarrow> nat \<Rightarrow> bytes option \<Rightarrow> bytes \<Rightarrow> 'p TicketRotatorState \<Rightarrow>
   'p TicketRotatorState \<times> bytes option" where
  "encrypt_in T lifetime now rng msg st =
     (case current st of
        Some g \<Rightarrow>
          let (p, r) = tp_encrypt T (producer g) rng msg
          in (st\<lparr>current := Some (g\<lparr>producer := p\<rparr>)\<rparr>, r)
      | None \<Rightarrow>
          (case previous st of
             None \<Rightarrow> (st, None)
           | Some g \<Rightarrow>
               if \<not> in_grace_period g now lifetime then (st, None)
               else
                 let (p, r) = tp_encrypt T (producer g) rng msg
                 in (st\<lparr>previous := Some (g\<lparr>producer := p\<rparr>)\<rparr>, r)))"

definition decrypt_previous ::
  "'p TicketProducer \<Rightarrow> nat \<Rightarrow> nat \<Rightarrow> bytes \<Rightarrow> 'p TicketRotatorState \<Rightarrow> bytes option" where
  "decrypt_previous T lifetime now ciphertext st =
     (case previous st of
        None \<Rightarrow> None
      | Some g \<Rightarrow>
          if \<not> in_grace_period g now lifetime then None
          else tp_decrypt T (producer g) ciphertext)"

definition decrypt_in ::
  "'p TicketProducer \<Rightarrow> nat \<Rightarrow> nat \<Rightarrow> bytes \<Rightarrow> 'p TicketRotatorState \<Rightarrow> bytes option" where
  "decrypt_in T lifetime now ciphertext st =
     (case current st of
        Some g \<Rightarrow>
          (case tp_decrypt T (producer g) ciphertext of
             Some plain \<Rightarrow> Some plain
           | None \<Rightarrow> decrypt_previous T lifetime now ciphertext st)
      | None \<Rightarrow> decrypt_previous T lifetime now ciphertext st)"

definition encrypt_at ::
  "'p TicketProducer \<Rightarrow> nat \<Rightarrow> Error + 'p \<Rightarrow> nat \<Rightarrow> bytes option \<Rightarrow> bytes \<Rightarrow>
   'p TicketRotatorState \<Rightarrow> 'p TicketRotatorState \<times> bytes option" where
  "encrypt_at T lifetime generated now rng msg st =
     encrypt_in T lifetime now rng msg (maybe_roll lifetime generated now st)"

definition decrypt_at ::
  "'p TicketProducer \<Rightarrow> nat \<Rightarrow> Error + 'p \<Rightarrow> nat \<Rightarrow> bytes \<Rightarrow>
   'p TicketRotatorState \<Rightarrow> 'p TicketRotatorState \<times> bytes option" where
  "decrypt_at T lifetime generated now ciphertext st =
     (let st = maybe_roll lifetime generated now st
      in (st, decrypt_in T lifetime now ciphertext st))"

subsection \<open>The AEAD ticketer of the ring provider\<close>

text \<open>\<open>split_at_checked\<close> of the standard library's slices.\<close>

definition split_at_checked :: "usize \<Rightarrow> bytes \<Rightarrow> (bytes \<times> bytes) option" where
  "split_at_checked n bs = (if n \<le> length bs then Some (take n bs, drop n bs) else None)"

record 'k AeadTicketer =
  at_key :: 'k
  at_key_name :: bytes
  at_maximum_ciphertext_len :: usize

text \<open>\<open>None\<close> is the panic of the \<open>unwrap\<close> on a key of the wrong length.\<close>

definition AeadTicketer_new ::
  "'k Aead \<Rightarrow> bytes option \<Rightarrow> bytes option \<Rightarrow> (Error + 'k AeadTicketer) option" where
  "AeadTicketer_new A key_rng name_rng =
     (case key_rng of
        None \<Rightarrow> Some (Inl Error_FailedToGetRandomBytes)
      | Some key \<Rightarrow>
          (case aead_new_key A key of
             None \<Rightarrow> None
           | Some k \<Rightarrow>
               (case name_rng of
                  None \<Rightarrow> Some (Inl Error_FailedToGetRandomBytes)
                | Some key_name \<Rightarrow>
                    Some (Inr \<lparr>at_key = k, at_key_name = key_name, at_maximum_ciphertext_len = 0\<rparr>))))"

definition AeadTicketer_encrypt ::
  "'k Aead \<Rightarrow> 'k AeadTicketer \<Rightarrow> bytes option \<Rightarrow> bytes \<Rightarrow> 'k AeadTicketer \<times> bytes option" where
  "AeadTicketer_encrypt A t rng msg =
     (case rng of
        None \<Rightarrow> (t, None)
      | Some nonce \<Rightarrow>
          (case aead_seal A (at_key t) nonce (at_key_name t) msg of
             (_, None) \<Rightarrow> (t, None)
           | (sealed, Some tag) \<Rightarrow>
               let ciphertext = at_key_name t @ nonce @ sealed @ tag
               in (t\<lparr>at_maximum_ciphertext_len :=
                       max (at_maximum_ciphertext_len t) (length ciphertext)\<rparr>,
                   Some ciphertext)))"

definition AeadTicketer_decrypt :: "'k Aead \<Rightarrow> 'k AeadTicketer \<Rightarrow> bytes \<Rightarrow> bytes option" where
  "AeadTicketer_decrypt A t ciphertext =
     (if length ciphertext > at_maximum_ciphertext_len t then None
      else do {
        (alleged_key_name, ciphertext) \<leftarrow> split_at_checked (length (at_key_name t)) ciphertext;
        (nonce, ciphertext) \<leftarrow> split_at_checked NONCE_LEN ciphertext;
        if at_key_name t \<noteq> alleged_key_name then None
        else
          let (out, plain_len) = aead_open_within A (at_key t) nonce alleged_key_name ciphertext 0
          in map_option (\<lambda>n. take n out) plain_len })"

definition AeadTicketer_TicketProducer :: "'k Aead \<Rightarrow> 'k AeadTicketer TicketProducer" where
  "AeadTicketer_TicketProducer A =
     \<lparr>tp_encrypt = AeadTicketer_encrypt A, tp_decrypt = AeadTicketer_decrypt A,
      tp_lifetime = \<lambda>_. 0\<rparr>"

subsection \<open>The RFC 5077 ticketer of the aws-lc-rs provider\<close>

text \<open>
  The parts of the aws-lc-rs crate it uses: AES-256 in CBC mode with PKCS\#7 padding, which picks
  the IV itself (from \<open>rng\<close>) and returns it, and HMAC-SHA256.
\<close>

record ('c, 'h) TicketCrypto =
  cbc_new :: "bytes \<Rightarrow> 'c option"
  cbc_encrypt :: "'c \<Rightarrow> bytes option \<Rightarrow> bytes \<Rightarrow> (bytes \<times> bytes) option"
  cbc_decrypt :: "'c \<Rightarrow> bytes \<Rightarrow> bytes \<Rightarrow> bytes option"
  th_generate :: "bytes option \<Rightarrow> 'h option"
  th_sign :: "'h \<Rightarrow> bytes \<Rightarrow> bytes"
  th_output_len :: usize
  AES_CBC_IV_LEN :: usize

text \<open>What is documented of them: CBC decryption inverts encryption, the tag has a fixed length.\<close>

definition TicketCrypto_lawful :: "('c, 'h) TicketCrypto \<Rightarrow> bool" where
  "TicketCrypto_lawful K \<longleftrightarrow>
     (\<forall>k rng m. case cbc_encrypt K k rng m of
        None \<Rightarrow> True
      | Some (iv, ct) \<Rightarrow> length iv = AES_CBC_IV_LEN K \<and> cbc_decrypt K k iv ct = Some m) \<and>
     (\<forall>h d. length (th_sign K h d) = th_output_len K)"

record ('c, 'h) Rfc5077Ticketer =
  rt_aes_encrypt_key :: 'c
  rt_aes_decrypt_key :: 'c
  rt_hmac_key :: 'h
  rt_key_name :: bytes
  rt_maximum_ciphertext_len :: usize

definition Rfc5077Ticketer_new ::
  "('c, 'h) TicketCrypto \<Rightarrow> Error \<Rightarrow> bytes option \<Rightarrow> bytes option \<Rightarrow> bytes option \<Rightarrow>
   Error + ('c, 'h) Rfc5077Ticketer" where
  "Rfc5077Ticketer_new K unspecified_err aes_rng hmac_rng name_rng =
     bindR (ok_or Error_FailedToGetRandomBytes aes_rng) (\<lambda>aes_key.
     bindR (ok_or unspecified_err (cbc_new K aes_key)) (\<lambda>aes_encrypt_key.
     bindR (ok_or unspecified_err (cbc_new K aes_key)) (\<lambda>aes_decrypt_key.
     bindR (ok_or unspecified_err (th_generate K hmac_rng)) (\<lambda>hmac_key.
     bindR (ok_or Error_FailedToGetRandomBytes name_rng) (\<lambda>key_name.
     Inr \<lparr>rt_aes_encrypt_key = aes_encrypt_key, rt_aes_decrypt_key = aes_decrypt_key,
          rt_hmac_key = hmac_key, rt_key_name = key_name, rt_maximum_ciphertext_len = 0\<rparr>)))))"

text \<open>The MAC's input; \<open>None\<close> where the length of the state does not fit its two bytes.\<close>

definition ticket_hmac_data :: "bytes \<Rightarrow> bytes \<Rightarrow> bytes \<Rightarrow> bytes option" where
  "ticket_hmac_data key_name iv state =
     (if length state < 2 ^ 16
      then Some (key_name @ iv @ to_be_bytes 2 (length state) @ state)
      else None)"

definition Rfc5077Ticketer_encrypt ::
  "('c, 'h) TicketCrypto \<Rightarrow> ('c, 'h) Rfc5077Ticketer \<Rightarrow> bytes option \<Rightarrow> bytes \<Rightarrow>
   ('c, 'h) Rfc5077Ticketer \<times> bytes option" where
  "Rfc5077Ticketer_encrypt K t rng msg =
     (case cbc_encrypt K (rt_aes_encrypt_key t) rng msg of
        None \<Rightarrow> (t, None)
      | Some (iv, encrypted_state) \<Rightarrow>
          (case ticket_hmac_data (rt_key_name t) iv encrypted_state of
             None \<Rightarrow> (t, None)
           | Some hmac_data \<Rightarrow>
               let tag = th_sign K (rt_hmac_key t) hmac_data;
                   ciphertext = rt_key_name t @ iv @ encrypted_state @ tag
               in (t\<lparr>rt_maximum_ciphertext_len :=
                       max (rt_maximum_ciphertext_len t) (length ciphertext)\<rparr>,
                   Some ciphertext)))"

definition Rfc5077Ticketer_decrypt ::
  "('c, 'h) TicketCrypto \<Rightarrow> ('c, 'h) Rfc5077Ticketer \<Rightarrow> bytes \<Rightarrow> bytes option" where
  "Rfc5077Ticketer_decrypt K t ciphertext =
     (if length ciphertext > rt_maximum_ciphertext_len t then None
      else do {
        (alleged_key_name, ciphertext) \<leftarrow> split_at_checked (length (rt_key_name t)) ciphertext;
        (iv, ciphertext) \<leftarrow> split_at_checked (AES_CBC_IV_LEN K) ciphertext;
        n \<leftarrow> (if th_output_len K \<le> length ciphertext
              then Some (length ciphertext - th_output_len K) else None);
        (enc_state, mac) \<leftarrow> split_at_checked n ciphertext;
        hmac_data \<leftarrow> ticket_hmac_data alleged_key_name iv enc_state;
        if th_sign K (rt_hmac_key t) hmac_data \<noteq> mac then None
        else cbc_decrypt K (rt_aes_decrypt_key t) iv enc_state })"

definition Rfc5077Ticketer_TicketProducer ::
  "('c, 'h) TicketCrypto \<Rightarrow> ('c, 'h) Rfc5077Ticketer TicketProducer" where
  "Rfc5077Ticketer_TicketProducer K =
     \<lparr>tp_encrypt = Rfc5077Ticketer_encrypt K, tp_decrypt = Rfc5077Ticketer_decrypt K,
      tp_lifetime = \<lambda>_. 0\<rparr>"

subsection \<open>The ticketer of the fuzzing provider\<close>

definition fuzz_Ticketer :: "unit TicketProducer" where
  "fuzz_Ticketer = \<lparr>tp_encrypt = (\<lambda>t rng plain. (t, Some plain)), tp_decrypt = (\<lambda>t cipher. Some cipher),
     tp_lifetime = (\<lambda>_. Duration_from_secs (60 * 60 * 6))\<rparr>"

subsection \<open>The ticketers keep the contract\<close>

interpretation fuzz_ticketer: ticket_producer fuzz_Ticketer "\<lambda>_ _ _. True" "\<lambda>_ _. False"
  by unfold_locales (simp_all add: fuzz_Ticketer_def)

definition aead_able :: "'k Aead \<Rightarrow> 'k AeadTicketer \<Rightarrow> bytes option \<Rightarrow> bytes \<Rightarrow> bool" where
  "aead_able A t rng msg \<longleftrightarrow> Aead_lawful A \<and> length msg \<le> MAX_FRAGMENT_LEN + 1 \<and>
     (\<exists>nonce. rng = Some nonce \<and> length nonce = NONCE_LEN)"

text \<open>A ticket of another ticketer starts with another key name.\<close>

definition aead_foreign :: "'k AeadTicketer \<Rightarrow> bytes \<Rightarrow> bool" where
  "aead_foreign t c \<longleftrightarrow> take (length (at_key_name t)) c \<noteq> at_key_name t"

lemma AeadTicketer_encrypt_decrypt:
  assumes "aead_able A t rng msg"
  shows "\<exists>t' c. AeadTicketer_encrypt A t rng msg = (t', Some c) \<and> AeadTicketer_decrypt A t' c = Some msg"
proof -
  obtain nonce where rng: "rng = Some nonce" "length nonce = NONCE_LEN"
    using assms by (auto simp: aead_able_def)
  obtain c tag where s: "aead_seal A (at_key t) nonce (at_key_name t) msg = (c, Some tag)"
    and o: "\<forall>pre. \<exists>buf. aead_open_within A (at_key t) nonce (at_key_name t) (pre @ c @ tag) (length pre) =
        (buf, Some (length msg)) \<and> length buf = length pre + length msg + 16 \<and> take (length msg) buf = msg"
    using assms rng(2) unfolding aead_able_def Aead_lawful_def by blast
  obtain buf where "aead_open_within A (at_key t) nonce (at_key_name t) (c @ tag) 0 =
      (buf, Some (length msg))" "take (length msg) buf = msg"
    using o [rule_format, of "[]"] by auto
  then show ?thesis
    by (simp add: AeadTicketer_encrypt_def AeadTicketer_decrypt_def rng s split_at_checked_def Let_def)
qed

lemma AeadTicketer_encrypt_state:
  "fst (AeadTicketer_encrypt A t rng msg) =
     t\<lparr>at_maximum_ciphertext_len := at_maximum_ciphertext_len (fst (AeadTicketer_encrypt A t rng msg))\<rparr>"
  "at_maximum_ciphertext_len t \<le> at_maximum_ciphertext_len (fst (AeadTicketer_encrypt A t rng msg))"
  by (simp_all add: AeadTicketer_encrypt_def Let_def split: option.split prod.split)

interpretation aead_ticketer:
  ticket_producer "AeadTicketer_TicketProducer A" "aead_able A" aead_foreign
proof unfold_locales
  show "\<exists>p' c. tp_encrypt (AeadTicketer_TicketProducer A) p rng m = (p', Some c) \<and>
      tp_decrypt (AeadTicketer_TicketProducer A) p' c = Some m"
    if "aead_able A p rng m" for p rng m
    using AeadTicketer_encrypt_decrypt [OF that] by (simp add: AeadTicketer_TicketProducer_def)
next
  fix p c m rng m'
  obtain n where n: "n \<ge> at_maximum_ciphertext_len p"
    "fst (AeadTicketer_encrypt A p rng m') = p\<lparr>at_maximum_ciphertext_len := n\<rparr>"
    using AeadTicketer_encrypt_state by metis
  show "tp_decrypt (AeadTicketer_TicketProducer A) (fst (tp_encrypt (AeadTicketer_TicketProducer A) p rng m')) c
      = Some m"
    if "tp_decrypt (AeadTicketer_TicketProducer A) p c = Some m"
    using that n
    by (simp add: AeadTicketer_TicketProducer_def AeadTicketer_decrypt_def cong: if_cong split: if_splits)
  show "aead_foreign (fst (tp_encrypt (AeadTicketer_TicketProducer A) p rng m')) c"
    if "aead_foreign p c"
    using that n by (simp add: AeadTicketer_TicketProducer_def aead_foreign_def)
next
  show "tp_decrypt (AeadTicketer_TicketProducer A) p c = None" if "aead_foreign p c" for p c
    using that
    by (auto simp: AeadTicketer_TicketProducer_def aead_foreign_def AeadTicketer_decrypt_def
          split_at_checked_def bind_eq_None_conv)
qed

definition rfc5077_able ::
  "('c, 'h) TicketCrypto \<Rightarrow> ('c, 'h) Rfc5077Ticketer \<Rightarrow> bytes option \<Rightarrow> bytes \<Rightarrow> bool" where
  "rfc5077_able K t rng msg \<longleftrightarrow> TicketCrypto_lawful K \<and> rt_aes_encrypt_key t = rt_aes_decrypt_key t \<and>
     (\<exists>iv ct. cbc_encrypt K (rt_aes_encrypt_key t) rng msg = Some (iv, ct) \<and> length ct < 2 ^ 16)"

text \<open>A foreign ticket here is one the MAC or the padding rejects, however long it may be.\<close>

definition rfc5077_foreign :: "('c, 'h) TicketCrypto \<Rightarrow> ('c, 'h) Rfc5077Ticketer \<Rightarrow> bytes \<Rightarrow> bool" where
  "rfc5077_foreign K t c \<longleftrightarrow>
     Rfc5077Ticketer_decrypt K (t\<lparr>rt_maximum_ciphertext_len := length c\<rparr>) c = None"

lemma Rfc5077Ticketer_encrypt_decrypt:
  assumes "rfc5077_able K t rng msg"
  shows "\<exists>t' c. Rfc5077Ticketer_encrypt K t rng msg = (t', Some c) \<and>
           Rfc5077Ticketer_decrypt K t' c = Some msg"
proof -
  obtain iv ct where e: "cbc_encrypt K (rt_aes_encrypt_key t) rng msg = Some (iv, ct)" "length ct < 2 ^ 16"
    using assms by (auto simp: rfc5077_able_def)
  have k: "rt_aes_decrypt_key t = rt_aes_encrypt_key t" and K: "TicketCrypto_lawful K"
    using assms by (simp_all add: rfc5077_able_def)
  have "length iv = AES_CBC_IV_LEN K \<and> cbc_decrypt K (rt_aes_encrypt_key t) iv ct = Some msg"
    using K [unfolded TicketCrypto_lawful_def] e(1) by (auto dest!: spec [of _ "rt_aes_encrypt_key t"]
      spec [of _ rng] spec [of _ msg])
  moreover have "length (th_sign K h d) = th_output_len K" for h d
    using K by (simp add: TicketCrypto_lawful_def)
  ultimately show ?thesis
    using e by (simp add: Rfc5077Ticketer_encrypt_def Rfc5077Ticketer_decrypt_def ticket_hmac_data_def
        split_at_checked_def Let_def k)
qed

lemma Rfc5077Ticketer_encrypt_state:
  "fst (Rfc5077Ticketer_encrypt K t rng msg) =
     t\<lparr>rt_maximum_ciphertext_len := rt_maximum_ciphertext_len (fst (Rfc5077Ticketer_encrypt K t rng msg))\<rparr>"
  "rt_maximum_ciphertext_len t \<le> rt_maximum_ciphertext_len (fst (Rfc5077Ticketer_encrypt K t rng msg))"
  by (simp_all add: Rfc5077Ticketer_encrypt_def Let_def split: option.split prod.split)

interpretation rfc5077_ticketer:
  ticket_producer "Rfc5077Ticketer_TicketProducer K" "rfc5077_able K" "rfc5077_foreign K"
proof unfold_locales
  show "\<exists>p' c. tp_encrypt (Rfc5077Ticketer_TicketProducer K) p rng m = (p', Some c) \<and>
      tp_decrypt (Rfc5077Ticketer_TicketProducer K) p' c = Some m"
    if "rfc5077_able K p rng m" for p rng m
    using Rfc5077Ticketer_encrypt_decrypt [OF that] by (simp add: Rfc5077Ticketer_TicketProducer_def)
next
  fix p c m rng m'
  obtain n where n: "n \<ge> rt_maximum_ciphertext_len p"
    "fst (Rfc5077Ticketer_encrypt K p rng m') = p\<lparr>rt_maximum_ciphertext_len := n\<rparr>"
    using Rfc5077Ticketer_encrypt_state by metis
  show "tp_decrypt (Rfc5077Ticketer_TicketProducer K)
      (fst (tp_encrypt (Rfc5077Ticketer_TicketProducer K) p rng m')) c = Some m"
    if "tp_decrypt (Rfc5077Ticketer_TicketProducer K) p c = Some m"
    using that n
    by (simp add: Rfc5077Ticketer_TicketProducer_def Rfc5077Ticketer_decrypt_def
          cong: if_cong split: if_splits)
  show "rfc5077_foreign K (fst (tp_encrypt (Rfc5077Ticketer_TicketProducer K) p rng m')) c"
    if "rfc5077_foreign K p c"
    using that n by (simp add: Rfc5077Ticketer_TicketProducer_def rfc5077_foreign_def)
next
  show "tp_decrypt (Rfc5077Ticketer_TicketProducer K) p c = None" if "rfc5077_foreign K p c" for p c
    using that
    by (simp add: Rfc5077Ticketer_TicketProducer_def rfc5077_foreign_def Rfc5077Ticketer_decrypt_def
          cong: if_cong)
qed

subsection \<open>How long a ticket is good for\<close>

text \<open>
  The steps other threads take between the encryption of a ticket and its decryption: each is one
  section under the lock.  \<open>Roll\<close> is \<open>maybe_roll\<close>'s write section, with the time that thread read.
\<close>

datatype 'p rotator_event =
    Roll nat "Error + 'p"
  | Encrypt nat "bytes option" bytes

fun rotator_after ::
  "'p TicketProducer \<Rightarrow> nat \<Rightarrow> 'p rotator_event list \<Rightarrow> 'p TicketRotatorState \<Rightarrow> 'p TicketRotatorState" where
  "rotator_after T lifetime [] st = st"
| "rotator_after T lifetime (Roll now generated # evs) st =
     rotator_after T lifetime evs (roll_locked lifetime generated now st)"
| "rotator_after T lifetime (Encrypt now rng msg # evs) st =
     rotator_after T lifetime evs (fst (encrypt_in T lifetime now rng msg st))"

fun roll_times :: "'p rotator_event list \<Rightarrow> nat list" where
  "roll_times [] = []"
| "roll_times (Roll now _ # evs) = now # roll_times evs"
| "roll_times (_ # evs) = roll_times evs"

fun generated_producers :: "'p rotator_event list \<Rightarrow> 'p list" where
  "generated_producers [] = []"
| "generated_producers (Roll _ (Inr p) # evs) = p # generated_producers evs"
| "generated_producers (_ # evs) = generated_producers evs"

context ticket_producer begin

text \<open>
  A ticket that expires at \<open>e\<close> plus the lifetime stays acceptable until then: its generation is the
  current one, or the previous one with a foreign current one that lasts as long or none at all.
\<close>

definition holds :: "nat \<Rightarrow> nat \<Rightarrow> nat \<Rightarrow> bytes \<Rightarrow> bytes \<Rightarrow> 'p TicketRotatorState \<Rightarrow> bool" where
  "holds L e past c m st \<longleftrightarrow>
     (\<exists>g. expires_at g = e \<and> tp_decrypt T (producer g) c = Some m \<and>
        (current st = Some g \<or>
         previous st = Some g \<and>
           (case current st of None \<Rightarrow> e < past
            | Some h \<Rightarrow> foreign (producer h) c \<and> e + L < expires_at h)))"

lemma holds_roll:
  assumes "holds L e past c m st" "past \<le> now" "now \<le> e + L"
    "\<And>p. generated = Inr p \<Longrightarrow> foreign p c"
  shows "holds L e now c m (roll_locked L generated now st)"
proof (cases "roll_not_needed now st")
  case True
  with assms(1,2) show ?thesis
    by (auto simp: holds_def roll_locked_def roll_not_needed_def split: option.splits)
next
  case False
  with assms show ?thesis
    by (cases generated; cases "current st")
       (auto simp: holds_def roll_locked_def roll_not_needed_def)
qed

lemma holds_encrypt:
  assumes "holds L e past c m st"
  shows "holds L e past c m (fst (encrypt_in T L now rng m' st))"
proof -
  obtain g where g: "expires_at g = e" "tp_decrypt T (producer g) c = Some m"
    and w: "current st = Some g \<or> previous st = Some g \<and>
           (case current st of None \<Rightarrow> e < past
            | Some h \<Rightarrow> foreign (producer h) c \<and> e + L < expires_at h)"
    using assms by (auto simp: holds_def)
  note kept = decrypt_kept [OF g(2), of rng m']
  show ?thesis
  proof (cases "current st")
    case None
    with w have "previous st = Some g" "e < past" by auto
    with None g kept show ?thesis
      by (auto simp: holds_def encrypt_in_def split_beta)
  next
    case (Some h)
    show ?thesis
    proof (cases "h = g")
      case True
      with Some g kept show ?thesis by (auto simp: holds_def encrypt_in_def split_beta)
    next
      case False
      with w Some have "previous st = Some g" "foreign (producer h) c" "e + L < expires_at h" by auto
      with Some g show ?thesis
        by (auto simp: holds_def encrypt_in_def split_beta foreign_kept)
    qed
  qed
qed

lemma holds_after:
  assumes "holds L e past c m st" "sorted (past # roll_times evs)"
    "\<forall>r \<in> set (roll_times evs). r \<le> e + L" "\<forall>p \<in> set (generated_producers evs). foreign p c"
  shows "\<exists>past'. holds L e past' c m (rotator_after T L evs st)"
  using assms
proof (induction evs arbitrary: st past)
  case Nil
  then show ?case by auto
next
  case (Cons ev evs)
  show ?case
  proof (cases ev)
    case (Roll now generated)
    have "holds L e now c m (roll_locked L generated now st)"
      using Cons.prems Roll by (intro holds_roll [OF Cons.prems(1)]) auto
    then show ?thesis
      using Cons.prems Roll by (cases generated) (auto intro!: Cons.IH)
  next
    case (Encrypt now rng m')
    have "holds L e past c m (fst (encrypt_in T L now rng m' st))"
      by (rule holds_encrypt [OF Cons.prems(1)])
    then show ?thesis
      using Cons.prems Encrypt by (auto intro!: Cons.IH)
  qed
qed

lemma holds_decrypts:
  assumes "holds L e past c m st" "now \<le> e + L"
  shows "decrypt_in T L now c st = Some m"
  using assms
  by (auto simp: holds_def decrypt_in_def decrypt_previous_def in_grace_period_def foreign_rejects
      split: option.splits)

text \<open>Encrypted by an unexpired ticketer, a ticket is accepted for a full lifetime.\<close>

lemma usable_for_lifetime:
  assumes cur: "current st = Some g" "t \<le> expires_at g" and able: "able (producer g) rng m"
    and evs: "sorted (t # roll_times evs)" "\<forall>r \<in> set (roll_times evs). r \<le> t + L"
      "\<And>c. snd (encrypt_in T L t rng m st) = Some c \<Longrightarrow>
         \<forall>p \<in> set (generated_producers evs). foreign p c"
    and now: "now \<le> t + L"
  shows "\<exists>st' c. encrypt_in T L t rng m st = (st', Some c) \<and>
           decrypt_in T L now c (rotator_after T L evs st') = Some m"
proof -
  obtain p c where e: "tp_encrypt T (producer g) rng m = (p, Some c)" "tp_decrypt T p c = Some m"
    using encrypt_able [OF able] by blast
  let ?st = "st\<lparr>current := Some (g\<lparr>producer := p\<rparr>)\<rparr>"
  have enc: "encrypt_in T L t rng m st = (?st, Some c)"
    by (simp add: encrypt_in_def cur e)
  have "holds L (expires_at g) t c m ?st" using e by (auto simp: holds_def)
  moreover have "\<forall>r \<in> set (roll_times evs). r \<le> expires_at g + L" using evs(2) cur(2) by fastforce
  ultimately obtain past where "holds L (expires_at g) past c m (rotator_after T L evs ?st)"
    using holds_after evs enc by (metis snd_conv)
  then have "decrypt_in T L now c (rotator_after T L evs ?st) = Some m"
    by (rule holds_decrypts) (use now cur(2) in simp)
  with enc show ?thesis by blast
qed

text \<open>A ticket is never accepted later than one lifetime after its generation's expiry.\<close>

lemma refused_after_expiry:
  assumes "\<And>g. current st = Some g \<or> previous st = Some g \<Longrightarrow>
      foreign (producer g) c \<or> expires_at g + L < now"
    and "\<And>p. generated = Inr p \<Longrightarrow> foreign p c"
  shows "snd (decrypt_at T L generated now c st) = None"
proof -
  have prev: "decrypt_previous T L now c st = None"
    using assms(1) foreign_rejects
    by (fastforce simp: decrypt_previous_def in_grace_period_def split: option.split)
  show ?thesis
  proof (cases "current st")
    case None
    with prev assms(2) foreign_rejects show ?thesis
      by (cases generated)
         (auto simp: decrypt_at_def maybe_roll_def roll_locked_def roll_not_needed_def decrypt_in_def
            decrypt_previous_def split: option.split)
  next
    case (Some g)
    from assms(1) [of g] Some have g: "foreign (producer g) c \<or> expires_at g + L < now" by simp
    from prev Some assms(2) foreign_rejects show ?thesis
      using g
      by (cases "now \<le> expires_at g"; cases generated)
         (auto simp: decrypt_at_def maybe_roll_def roll_locked_def roll_not_needed_def decrypt_in_def
            decrypt_previous_def in_grace_period_def)
  qed
qed

end

text \<open>
  When no new ticketer could be generated, tickets are made by the previous one, and those are
  refused before they are a lifetime old: the generation ends first.
\<close>

lemma fallback_ticket_expires_early:
  assumes st: "current st = None" "previous st = Some g" and t: "expires_at g < t" "t \<le> expires_at g + L"
    and gen: "\<And>p. generated = Inr p \<Longrightarrow> tp_decrypt T p c = None"
    and enc: "encrypt_at T L (Inl err) t rng m st = (st', Some c)"
  shows "snd (tp_encrypt T (producer g) rng m) = Some c \<and>
         (\<exists>now. t \<le> now \<and> now \<le> t + L \<and> snd (decrypt_at T L generated now c st') = None)"
proof -
  obtain p where p: "tp_encrypt T (producer g) rng m = (p, Some c)" "st' = st\<lparr>previous := Some (g\<lparr>producer := p\<rparr>)\<rparr>"
    using enc st t(2)
    by (auto simp: encrypt_at_def maybe_roll_def roll_locked_def roll_not_needed_def encrypt_in_def
          in_grace_period_def split_beta prod_eq_iff)
  have "snd (decrypt_at T L generated (expires_at g + L + 1) c st') = None"
    using gen st p(2)
    by (cases generated)
       (auto simp: decrypt_at_def maybe_roll_def roll_locked_def roll_not_needed_def decrypt_in_def
          decrypt_previous_def in_grace_period_def split: option.split)
  moreover have "t \<le> expires_at g + L + 1" "expires_at g + L + 1 \<le> t + L" using t by simp_all
  ultimately show ?thesis using p(1) by auto
qed

end
