(* ===== verification/Sessions.thy ===== *)
theory Sessions
  imports Send_Path Tls12_Secrets Session_Store Ticketer
begin

text \<open>
  What a session is remembered by: peer identities (\<open>rustls/src/crypto/signer.rs\<close>), the client's
  session values (\<open>rustls/src/client/mod.rs\<close>) and the server's (\<open>rustls/src/server/mod.rs\<close>,
  \<open>server/tls12.rs\<close>, \<open>server/tls13.rs\<close>), each with its encoding, and the clock arithmetic of tickets.

  A \<open>UnixTime\<close> is only ever read in seconds and is a \<open>u64\<close> here.  Whether \<open>DnsName::try_from\<close> accepts a
  byte string (\<open>dns_ok\<close>) and when two names are equal (\<open>dns_eq\<close>) are parameters: they belong to another crate.
\<close>

subsection \<open>Peer identities\<close>

record CertificateIdentity =
  ci_end_entity :: bytes
  ci_intermediates :: "bytes list"

datatype Identity = Identity_X509 CertificateIdentity | Identity_RawPublicKey bytes

definition Identity_from_cert_chain :: "bytes list \<Rightarrow> ApiMisuse + Identity" where
  "Identity_from_cert_chain cert_chain = (case cert_chain of
     [] \<Rightarrow> Inl EmptyCertificateChain
   | first # rest \<Rightarrow> Inr (Identity_X509 \<lparr>ci_end_entity = first, ci_intermediates = rest\<rparr>))"

definition Identity_from_peer :: "bytes list \<Rightarrow> CertificateType \<Rightarrow> Error + Identity option" where
  "Identity_from_peer cert_chain expected = (case cert_chain of
     [] \<Rightarrow> Inr None
   | first # rest \<Rightarrow>
       if expected = CertificateType_X509
       then Inr (Some (Identity_X509 \<lparr>ci_end_entity = first, ci_intermediates = rest\<rparr>))
       else if expected = CertificateType_RawPublicKey
       then (if length rest = 0 then Inr (Some (Identity_RawPublicKey first))
             else Inl (Error_PeerIncompatible MultipleRawKeys))
       else Inl (Error_PeerIncompatible (UnknownCertificateType expected)))"

fun Identity_as_certificates :: "Identity \<Rightarrow> bytes list" where
  "Identity_as_certificates (Identity_X509 cert) = ci_end_entity cert # ci_intermediates cert"
| "Identity_as_certificates (Identity_RawPublicKey spki) = [spki]"

fun Identity_encode :: "Identity \<Rightarrow> bytes" where
  "Identity_encode (Identity_X509 certificates) =
     u8_encode 0 @ CertificateDer_encode (ci_end_entity certificates) @
     Vec_encode CertificateDer_SIZE_LEN CertificateDer_encode (ci_intermediates certificates)"
| "Identity_encode (Identity_RawPublicKey spki) = u8_encode 1 @ SubjectPublicKeyInfoDer_encode spki"

definition Identity_read :: "Identity decoder" where
  "Identity_read r =
     bindR (u8_read r) (\<lambda>(tag, r).
       if tag = 0 then
         bindR (CertificateDer_read r) (\<lambda>(ee, r).
         bindR (Vec_read CertificateDer_SIZE_LEN CertificateDer_read r) (\<lambda>(ints, r).
           Inr (Identity_X509 \<lparr>ci_end_entity = ee, ci_intermediates = ints\<rparr>, r)))
       else if tag = 1 then
         bindR (SubjectPublicKeyInfoDer_read r) (\<lambda>(spki, r). Inr (Identity_RawPublicKey spki, r))
       else Inl (UnexpectedMessage ''invalid PeerIdentity discriminant''))"

fun Identity_wf :: "Identity \<Rightarrow> bool" where
  "Identity_wf (Identity_X509 c) \<longleftrightarrow> CertificateDer_wf (ci_end_entity c) \<and>
     Vec_wf CertificateDer_SIZE_LEN CertificateDer_encode CertificateDer_wf (ci_intermediates c)"
| "Identity_wf (Identity_RawPublicKey spki) \<longleftrightarrow> length spki \<le> 0x10000"

interpretation idc: canonical_codec Identity_encode Identity_read Identity_wf
proof unfold_locales
  show "Identity_read (Identity_encode x @ rest) = Inr (x, rest)" if "Identity_wf x" for x rest
    using that by (cases x) (simp_all add: Identity_read_def wire_simps)
  show "Identity_wf x \<and> r = Identity_encode x @ rest" if "Identity_read r = Inr (x, rest)" for r x rest
    using that by (auto simp: Identity_read_def split: if_splits dest!: wire_dest)
qed

text \<open>The certificates of a chain, and back.\<close>

lemma from_cert_chain_certificates:
  "Identity_from_cert_chain chain = Inr identity \<longleftrightarrow>
     (\<exists>c. identity = Identity_X509 c) \<and> Identity_as_certificates identity = chain"
  by (cases chain; cases identity) (auto simp: Identity_from_cert_chain_def)

subsection \<open>Arithmetic of seconds and milliseconds\<close>

definition saturating_sub64 :: "u64 \<Rightarrow> u64 \<Rightarrow> u64" where
  "saturating_sub64 a b = (if b \<le> a then a - b else 0)"

definition saturating_mul32 :: "u32 \<Rightarrow> u32 \<Rightarrow> u32" where
  "saturating_mul32 a b = (if unat a * unat b < 2 ^ 32 then a * b else 0xffffffff)"

definition u32_try_from :: "u64 \<Rightarrow> u32 option" where
  "u32_try_from v = (if unat v < 2 ^ 32 then Some (ucast v) else None)"

definition abs_diff32 :: "u32 \<Rightarrow> u32 \<Rightarrow> u32" where
  "abs_diff32 a b = (if b \<le> a then a - b else b - a)"

lemma unat_saturating_sub64: "unat (saturating_sub64 a b) = unat a - unat b"
  by (simp add: saturating_sub64_def unat_sub word_le_nat_alt)

lemma unat_saturating_mul32: "unat (saturating_mul32 a b) = min (unat a * unat b) (2 ^ 32 - 1)"
  by (simp add: saturating_mul32_def unat_word_ariths)

lemma unat_abs_diff32: "unat (abs_diff32 a b) = (unat a - unat b) + (unat b - unat a)"
  by (simp add: abs_diff32_def unat_sub word_le_nat_alt)

subsection \<open>The client's sessions\<close>

definition MAX_TICKET_LIFETIME :: Duration where
  "MAX_TICKET_LIFETIME = Duration_from_secs (7 * 24 * 60 * 60)"

record ClientSessionCommon =
  cc_ticket :: bytes
  cc_epoch :: u64
  cc_lifetime :: Duration
  cc_peer_identity :: Identity

definition ClientSessionCommon_new :: "bytes \<Rightarrow> u64 \<Rightarrow> Duration \<Rightarrow> Identity \<Rightarrow> ClientSessionCommon" where
  "ClientSessionCommon_new ticket time_now lifetime peer_identity =
     \<lparr>cc_ticket = ticket, cc_epoch = time_now, cc_lifetime = min lifetime MAX_TICKET_LIFETIME,
      cc_peer_identity = peer_identity\<rparr>"

definition ClientSessionCommon_encode :: "ClientSessionCommon \<Rightarrow> bytes" where
  "ClientSessionCommon_encode c =
     SizedPayload_encode Size_u16 MaybeEmpty (cc_ticket c) @ u64_encode (cc_epoch c) @
     u64_encode (word_of_nat (Duration_as_secs (cc_lifetime c))) @ Identity_encode (cc_peer_identity c)"

definition ClientSessionCommon_read :: "ClientSessionCommon decoder" where
  "ClientSessionCommon_read r =
     bindR (SizedPayload_read Size_u16 MaybeEmpty r) (\<lambda>(t, r).
     bindR (u64_read r) (\<lambda>(epoch, r).
     bindR (u64_read r) (\<lambda>(secs, r).
     bindR (Identity_read r) (\<lambda>(identity, r).
       Inr (\<lparr>cc_ticket = t, cc_epoch = epoch, cc_lifetime = Duration_from_secs (unat secs),
             cc_peer_identity = identity\<rparr>, r)))))"

definition ClientSessionCommon_wf :: "ClientSessionCommon \<Rightarrow> bool" where
  "ClientSessionCommon_wf c \<longleftrightarrow> SizedPayload_wf Size_u16 MaybeEmpty (cc_ticket c) \<and>
     cc_lifetime c mod 1000000000 = 0 \<and> Duration_as_secs (cc_lifetime c) < 2 ^ 64 \<and>
     Identity_wf (cc_peer_identity c)"

lemma unat_u64_less: "unat (w :: u64) < 2 ^ 64"
  using unsigned_less [of w] by simp

lemma whole_u64_secs:
  assumes "d mod 1000000000 = 0" "Duration_as_secs d < 2 ^ 64"
  shows "Duration_from_secs (unat (word_of_nat (Duration_as_secs d) :: u64)) = d"
proof -
  have "unat (word_of_nat (Duration_as_secs d) :: u64) = Duration_as_secs d"
    using assms(2) by (simp add: unat_of_nat take_bit_nat_eq_self)
  with assms(1) show ?thesis
    by (auto simp: Duration_from_secs_def Duration_as_secs_def mult.commute)
qed

interpretation csc12: canonical_codec ClientSessionCommon_encode ClientSessionCommon_read ClientSessionCommon_wf
proof unfold_locales
  show "ClientSessionCommon_read (ClientSessionCommon_encode x @ rest) = Inr (x, rest)"
    if "ClientSessionCommon_wf x" for x rest
    using that whole_u64_secs [of "cc_lifetime x"]
    by (simp add: ClientSessionCommon_read_def ClientSessionCommon_encode_def ClientSessionCommon_wf_def wire_simps)
  show "ClientSessionCommon_wf x \<and> r = ClientSessionCommon_encode x @ rest"
    if "ClientSessionCommon_read r = Inr (x, rest)" for r x rest
    using that unat_u64_less
    by (auto simp: ClientSessionCommon_read_def ClientSessionCommon_encode_def ClientSessionCommon_wf_def
        Duration_from_secs_def Duration_as_secs_def dest!: wire_dest)
qed

record 'v Retrieved =
  ret_value :: 'v
  ret_retrieved_at :: u64

definition Retrieved_map :: "('v \<Rightarrow> 'm option) \<Rightarrow> 'v Retrieved \<Rightarrow> 'm Retrieved option" where
  "Retrieved_map f s = map_option (\<lambda>m. \<lparr>ret_value = m, ret_retrieved_at = ret_retrieved_at s\<rparr>) (f (ret_value s))"

definition has_expired :: "ClientSessionCommon Retrieved \<Rightarrow> bool" where
  "has_expired s =
     (let common = ret_value s in
      cc_lifetime common \<noteq> 0 \<and>
      saturating_add64 (cc_epoch common) (word_of_nat (Duration_as_secs (cc_lifetime common))) < ret_retrieved_at s)"

record ('x, 'e, 'd, 'c, 'q) Tls13ClientSessionInput =
  tci_suite :: "('x, 'e, 'd, 'c, 'q) Tls13ProtocolSuite"
  tci_peer_identity :: Identity
  tci_quic_params :: "bytes option"

record ('x, 'e, 'd, 'c, 'q) Tls13Session =
  s13_suite :: "('x, 'e, 'd, 'c, 'q) Tls13ProtocolSuite"
  s13_secret :: bytes
  s13_age_add :: u32
  s13_max_early_data_size :: u32
  s13_common :: ClientSessionCommon
  s13_quic_params :: bytes

definition Tls13Session_new ::
  "NewSessionTicketPayloadTls13 \<Rightarrow> ('x, 'e, 'd, 'c, 'q) Tls13ClientSessionInput \<Rightarrow> bytes \<Rightarrow> u64 \<Rightarrow>
   ('x, 'e, 'd, 'c, 'q) Tls13Session" where
  "Tls13Session_new t input secret time_now =
     \<lparr>s13_suite = tci_suite input, s13_secret = secret, s13_age_add = nst13_age_add t,
      s13_max_early_data_size = (case nste_max_early_data_size (nst13_extensions t) of Some v \<Rightarrow> v | None \<Rightarrow> 0),
      s13_common = ClientSessionCommon_new (nst13_ticket t) time_now (nst13_lifetime t) (tci_peer_identity input),
      s13_quic_params = (case tci_quic_params input of Some p \<Rightarrow> p | None \<Rightarrow> [])\<rparr>"

definition obfuscated_ticket_age :: "('x, 'e, 'd, 'c, 'q) Tls13Session Retrieved \<Rightarrow> u32" where
  "obfuscated_ticket_age s =
     (let age_secs = saturating_sub64 (ret_retrieved_at s) (cc_epoch (s13_common (ret_value s)));
          age_millis = saturating_mul32 (case u32_try_from age_secs of Some v \<Rightarrow> v | None \<Rightarrow> 0xffffffff) 1000
      in age_millis + s13_age_add (ret_value s))"

definition Tls13Session_encode :: "('x, 'e, 'd, 'c, 'q) Tls13Session \<Rightarrow> bytes" where
  "Tls13Session_encode s =
     u16_encode (csc_suite (cs_common (suite (s13_suite s)))) @
     SizedPayload_encode Size_u8 MaybeEmpty (s13_secret s) @ u32_encode (s13_age_add s) @
     u32_encode (s13_max_early_data_size s) @ ClientSessionCommon_encode (s13_common s) @
     SizedPayload_encode Size_u16 MaybeEmpty (s13_quic_params s)"

text \<open>\<open>Reader::all\<close> where the closure has errors of its own.\<close>

definition Reader_all_Error :: "string \<Rightarrow> (bytes \<Rightarrow> Error + 'a \<times> bytes) \<Rightarrow> bytes \<Rightarrow> Error + 'a" where
  "Reader_all_Error type_name f r =
     bindR (f r) (\<lambda>(v, r). if Reader_any_left r then Inl (Error_InvalidMessage (TrailingData type_name)) else Inr v)"

definition Tls13Session_from_slice ::
  "('x, 'e, 'd, 'c, 'q) Tls13CipherSuite list \<Rightarrow> bytes \<Rightarrow> Error + ('x, 'e, 'd, 'c, 'q) Tls13Session" where
  "Tls13Session_from_slice tls13_cipher_suites bs =
     Reader_all_Error ''Tls13Session'' (\<lambda>r.
       bindR (map_err Error_InvalidMessage (enum_read ''CipherSuite'' u16_read r)) (\<lambda>(cs, r).
       bindR (ok_or (Error_ApiMisuse (ResumingFromUnknownCipherSuite cs))
                (List.find (\<lambda>s. csc_suite (cs_common s) = cs) tls13_cipher_suites)) (\<lambda>cs.
         map_err Error_InvalidMessage (
           bindR (SizedPayload_read Size_u8 MaybeEmpty r) (\<lambda>(secret, r).
           bindR (u32_read r) (\<lambda>(age_add, r).
           bindR (u32_read r) (\<lambda>(max_early_data_size, r).
           bindR (ClientSessionCommon_read r) (\<lambda>(common, r).
           bindR (SizedPayload_read Size_u16 MaybeEmpty r) (\<lambda>(quic_params, r).
             Inr (\<lparr>s13_suite = Tcp_Suite cs, s13_secret = secret, s13_age_add = age_add,
                   s13_max_early_data_size = max_early_data_size, s13_common = common,
                   s13_quic_params = quic_params\<rparr>, r)))))))))) bs"

record ('p, 'e, 'd, 'c) Tls12Session =
  s12_suite :: "('p, 'e, 'd, 'c) Tls12CipherSuite"
  s12_session_id :: SessionId
  s12_master_secret :: bytes
  s12_extended_ms :: bool
  s12_common :: ClientSessionCommon

definition Tls12Session_new ::
  "('p, 'e, 'd, 'c) Tls12CipherSuite \<Rightarrow> SessionId \<Rightarrow> bytes \<Rightarrow> bytes \<Rightarrow> Identity \<Rightarrow> u64 \<Rightarrow> Duration \<Rightarrow> bool \<Rightarrow>
   ('p, 'e, 'd, 'c) Tls12Session" where
  "Tls12Session_new cs session_id t master_secret peer_identity time_now lifetime extended_ms =
     \<lparr>s12_suite = cs, s12_session_id = session_id, s12_master_secret = master_secret,
      s12_extended_ms = extended_ms, s12_common = ClientSessionCommon_new t time_now lifetime peer_identity\<rparr>"

definition bool_as_u8 :: "bool \<Rightarrow> u8" where
  "bool_as_u8 b = (if b then 1 else 0)"

definition Tls12Session_encode :: "('p, 'e, 'd, 'c) Tls12Session \<Rightarrow> bytes" where
  "Tls12Session_encode s =
     u16_encode (csc_suite (t12_common (s12_suite s))) @ SessionId_encode (s12_session_id s) @
     s12_master_secret s @ [bool_as_u8 (s12_extended_ms s)] @ ClientSessionCommon_encode (s12_common s)"

definition Tls12Session_from_slice ::
  "('p, 'e, 'd, 'c) Tls12CipherSuite list \<Rightarrow> bytes \<Rightarrow> Error + ('p, 'e, 'd, 'c) Tls12Session" where
  "Tls12Session_from_slice tls12_cipher_suites bs =
     Reader_all_Error ''Tls12Session'' (\<lambda>r.
       bindR (map_err Error_InvalidMessage (enum_read ''CipherSuite'' u16_read r)) (\<lambda>(cs, r).
       bindR (ok_or (Error_ApiMisuse (ResumingFromUnknownCipherSuite cs))
                (List.find (\<lambda>s. csc_suite (t12_common s) = cs) tls12_cipher_suites)) (\<lambda>cs.
         map_err Error_InvalidMessage (
           bindR (SessionId_read r) (\<lambda>(session_id, r).
           bindR (Reader_take_array 48 ''MasterSecret'' r) (\<lambda>(master_secret, r).
           bindR (u8_read r) (\<lambda>(ems, r).
           bindR (ClientSessionCommon_read r) (\<lambda>(common, r).
             Inr (\<lparr>s12_suite = cs, s12_session_id = session_id, s12_master_secret = master_secret,
                   s12_extended_ms = (ems = 1), s12_common = common\<rparr>, r))))))))) bs"


text \<open>Both client sessions are read back from their encodings.\<close>

lemma Tls12Session_roundtrip:
  assumes "List.find (\<lambda>c. csc_suite (t12_common c) = csc_suite (t12_common (s12_suite s))) cipher_suites = Some (s12_suite s)"
    "SessionId_wf (s12_session_id s)" "length (s12_master_secret s) = 48" "ClientSessionCommon_wf (s12_common s)"
  shows "Tls12Session_from_slice cipher_suites (Tls12Session_encode s) = Inr s"
proof -
  have "[bool_as_u8 (s12_extended_ms s)] = u8_encode (bool_as_u8 (s12_extended_ms s))" by (simp add: u8_encode_def)
  with assms show ?thesis
    by (simp add: Tls12Session_from_slice_def Tls12Session_encode_def Reader_all_Error_def Reader_any_left_def
        bool_as_u8_def wire_simps del: append_Cons)
qed

lemma Tls13Session_roundtrip:
  assumes "s13_suite s = Tcp_Suite cs"
    "List.find (\<lambda>c. csc_suite (cs_common c) = csc_suite (cs_common cs)) cipher_suites = Some cs"
    "length (s13_secret s) \<le> 0xff" "length (s13_quic_params s) \<le> 0xffff" "ClientSessionCommon_wf (s13_common s)"
  shows "Tls13Session_from_slice cipher_suites (Tls13Session_encode s) = Inr s"
  using assms
  by (simp add: Tls13Session_from_slice_def Tls13Session_encode_def Reader_all_Error_def Reader_any_left_def
      wire_simps SizedPayload_wf_def)

subsection \<open>The server's sessions\<close>

text \<open>An optional field: a byte that says whether it is there.\<close>

fun flagged_encode :: "('a \<Rightarrow> bytes) \<Rightarrow> 'a option \<Rightarrow> bytes" where
  "flagged_encode enc None = u8_encode 0"
| "flagged_encode enc (Some x) = u8_encode 1 @ enc x"

definition flagged_read :: "'a decoder \<Rightarrow> 'a option decoder" where
  "flagged_read dec r =
     bindR (u8_read r) (\<lambda>(tag, r).
       if tag = 1 then bindR (dec r) (\<lambda>(x, r). Inr (Some x, r)) else Inr (None, r))"

context wire_codec begin

lemma flagged_codec: "wire_codec (flagged_encode encode) (flagged_read read) (pred_option wf)"
proof unfold_locales
  show "flagged_read read (flagged_encode encode x @ rest) = Inr (x, rest)" if "pred_option wf x" for x rest
    using that by (cases x) (simp_all add: flagged_read_def wire_simps)
qed

end

record CommonServerSessionValue =
  sv_creation_time_sec :: u64
  sv_sni :: "bytes option"
  sv_cipher_suite :: CipherSuite
  sv_peer_identity :: "Identity option"
  sv_alpn :: "ApplicationProtocol option"
  sv_application_data :: bytes

definition CommonServerSessionValue_new ::
  "bytes option \<Rightarrow> CipherSuite \<Rightarrow> Identity option \<Rightarrow> ApplicationProtocol option \<Rightarrow> bytes \<Rightarrow> u64 \<Rightarrow>
   CommonServerSessionValue" where
  "CommonServerSessionValue_new sni cipher_suite peer_identity alpn application_data creation_time =
     \<lparr>sv_creation_time_sec = creation_time, sv_sni = sni, sv_cipher_suite = cipher_suite,
      sv_peer_identity = peer_identity, sv_alpn = alpn, sv_application_data = application_data\<rparr>"

definition can_resume ::
  "(bytes \<Rightarrow> bytes \<Rightarrow> bool) \<Rightarrow> CommonServerSessionValue \<Rightarrow> CipherSuite \<Rightarrow> bytes option \<Rightarrow> bool" where
  "can_resume dns_eq v cs sni \<longleftrightarrow> sv_cipher_suite v = cs \<and> rel_option dns_eq (sv_sni v) sni"

definition CommonServerSessionValue_encode :: "CommonServerSessionValue \<Rightarrow> bytes" where
  "CommonServerSessionValue_encode v =
     u64_encode (sv_creation_time_sec v) @
     flagged_encode (SizedPayload_encode Size_u8 MaybeEmpty) (sv_sni v) @
     u16_encode (sv_cipher_suite v) @
     flagged_encode Identity_encode (sv_peer_identity v) @
     flagged_encode ApplicationProtocol_encode (sv_alpn v) @
     SizedPayload_encode Size_u16 MaybeEmpty (sv_application_data v)"

definition sni_read :: "(bytes \<Rightarrow> bool) \<Rightarrow> bytes decoder" where
  "sni_read dns_ok r =
     bindR (SizedPayload_read Size_u8 MaybeEmpty r) (\<lambda>(dns_name, r).
       if dns_ok dns_name then Inr (dns_name, r) else Inl InvalidServerName)"

definition CommonServerSessionValue_read :: "(bytes \<Rightarrow> bool) \<Rightarrow> CommonServerSessionValue decoder" where
  "CommonServerSessionValue_read dns_ok r =
     bindR (u64_read r) (\<lambda>(creation_time_sec, r).
     bindR (flagged_read (sni_read dns_ok) r) (\<lambda>(sni, r).
     bindR (enum_read ''CipherSuite'' u16_read r) (\<lambda>(cipher_suite, r).
     bindR (flagged_read Identity_read r) (\<lambda>(peer_identity, r).
     bindR (flagged_read ApplicationProtocol_read r) (\<lambda>(alpn, r).
     bindR (SizedPayload_read Size_u16 MaybeEmpty r) (\<lambda>(application_data, r).
       Inr (\<lparr>sv_creation_time_sec = creation_time_sec, sv_sni = sni, sv_cipher_suite = cipher_suite,
             sv_peer_identity = peer_identity, sv_alpn = alpn, sv_application_data = application_data\<rparr>, r)))))))"

definition CommonServerSessionValue_wf :: "(bytes \<Rightarrow> bool) \<Rightarrow> CommonServerSessionValue \<Rightarrow> bool" where
  "CommonServerSessionValue_wf dns_ok v \<longleftrightarrow>
     pred_option (\<lambda>n. dns_ok n \<and> length n \<le> 0xff) (sv_sni v) \<and>
     pred_option Identity_wf (sv_peer_identity v) \<and>
     pred_option ApplicationProtocol_wf (sv_alpn v) \<and> length (sv_application_data v) \<le> 0xffff"

interpretation snic: wire_codec
  "SizedPayload_encode Size_u8 MaybeEmpty" "sni_read dns_ok" "\<lambda>n. dns_ok n \<and> length n \<le> 0xff" for dns_ok
  by unfold_locales (simp add: sni_read_def wire_simps SizedPayload_wf_def)

interpretation flagged_sni: wire_codec
  "flagged_encode (SizedPayload_encode Size_u8 MaybeEmpty)" "flagged_read (sni_read dns_ok)"
  "pred_option (\<lambda>n. dns_ok n \<and> length n \<le> 0xff)" for dns_ok
  by (rule snic.flagged_codec)

interpretation flagged_identity: wire_codec
  "flagged_encode Identity_encode" "flagged_read Identity_read" "pred_option Identity_wf"
  by (rule idc.flagged_codec)

interpretation flagged_alpn: wire_codec
  "flagged_encode ApplicationProtocol_encode" "flagged_read ApplicationProtocol_read" "pred_option ApplicationProtocol_wf"
  by (rule alpn.flagged_codec)

interpretation csvc: wire_codec
  CommonServerSessionValue_encode "CommonServerSessionValue_read dns_ok" "CommonServerSessionValue_wf dns_ok" for dns_ok
  by unfold_locales
    (simp add: CommonServerSessionValue_encode_def CommonServerSessionValue_read_def CommonServerSessionValue_wf_def
      wire_simps SizedPayload_wf_def)

record Tls12ServerSessionValue =
  v12_common :: CommonServerSessionValue
  v12_master_secret :: bytes
  v12_extended_ms :: bool

definition Tls12ServerSessionValue_encode :: "Tls12ServerSessionValue \<Rightarrow> bytes" where
  "Tls12ServerSessionValue_encode v =
     CommonServerSessionValue_encode (v12_common v) @ v12_master_secret v @ u8_encode (bool_as_u8 (v12_extended_ms v))"

definition Tls12ServerSessionValue_read :: "(bytes \<Rightarrow> bool) \<Rightarrow> Tls12ServerSessionValue decoder" where
  "Tls12ServerSessionValue_read dns_ok r =
     bindR (CommonServerSessionValue_read dns_ok r) (\<lambda>(common, r).
     bindR (Reader_take_array 48 ''MasterSecret'' r) (\<lambda>(master_secret, r).
     bindR (u8_read r) (\<lambda>(ems, r).
       Inr (\<lparr>v12_common = common, v12_master_secret = master_secret, v12_extended_ms = (ems = 1)\<rparr>, r))))"

record Tls13ServerSessionValue =
  v13_common :: CommonServerSessionValue
  v13_secret :: bytes
  v13_age_obfuscation_offset :: u32
  v13_freshness :: "bool option"

definition Tls13ServerSessionValue_new :: "CommonServerSessionValue \<Rightarrow> bytes \<Rightarrow> u32 \<Rightarrow> Tls13ServerSessionValue" where
  "Tls13ServerSessionValue_new common secret age_obfuscation_offset =
     \<lparr>v13_common = common, v13_secret = secret, v13_age_obfuscation_offset = age_obfuscation_offset,
      v13_freshness = None\<rparr>"

definition MAX_FRESHNESS_SKEW_MS :: u32 where
  "MAX_FRESHNESS_SKEW_MS = 60 * 1000"

definition set_freshness :: "u32 \<Rightarrow> u64 \<Rightarrow> Tls13ServerSessionValue \<Rightarrow> Tls13ServerSessionValue" where
  "set_freshness obfuscated_client_age_ms time_now v =
     (let client_age_ms = obfuscated_client_age_ms - v13_age_obfuscation_offset v;
          server_age_ms = saturating_mul32
            (ucast (saturating_sub64 time_now (sv_creation_time_sec (v13_common v)))) 1000;
          age_difference = abs_diff32 server_age_ms client_age_ms
      in v\<lparr>v13_freshness := Some (age_difference \<le> MAX_FRESHNESS_SKEW_MS)\<rparr>)"

definition is_fresh :: "Tls13ServerSessionValue \<Rightarrow> bool" where
  "is_fresh v = (case v13_freshness v of Some b \<Rightarrow> b | None \<Rightarrow> False)"

definition Tls13ServerSessionValue_encode :: "Tls13ServerSessionValue \<Rightarrow> bytes" where
  "Tls13ServerSessionValue_encode v =
     CommonServerSessionValue_encode (v13_common v) @ SizedPayload_encode Size_u8 MaybeEmpty (v13_secret v) @
     u32_encode (v13_age_obfuscation_offset v)"

definition Tls13ServerSessionValue_read :: "(bytes \<Rightarrow> bool) \<Rightarrow> Tls13ServerSessionValue decoder" where
  "Tls13ServerSessionValue_read dns_ok r =
     bindR (CommonServerSessionValue_read dns_ok r) (\<lambda>(common, r).
     bindR (SizedPayload_read Size_u8 MaybeEmpty r) (\<lambda>(secret, r).
     bindR (u32_read r) (\<lambda>(offset, r).
       Inr (\<lparr>v13_common = common, v13_secret = secret, v13_age_obfuscation_offset = offset,
             v13_freshness = None\<rparr>, r))))"

datatype ServerSessionValue =
    SSV_Tls12 Tls12ServerSessionValue
  | SSV_Tls13 Tls13ServerSessionValue

fun ServerSessionValue_encode :: "ServerSessionValue \<Rightarrow> bytes" where
  "ServerSessionValue_encode (SSV_Tls12 v) = u16_encode ProtocolVersion_TLSv1_2 @ Tls12ServerSessionValue_encode v"
| "ServerSessionValue_encode (SSV_Tls13 v) = u16_encode ProtocolVersion_TLSv1_3 @ Tls13ServerSessionValue_encode v"

definition ServerSessionValue_read :: "(bytes \<Rightarrow> bool) \<Rightarrow> ServerSessionValue decoder" where
  "ServerSessionValue_read dns_ok r =
     bindR (enum_read ''ProtocolVersion'' u16_read r) (\<lambda>(version, r).
       if version = ProtocolVersion_TLSv1_2
       then bindR (Tls12ServerSessionValue_read dns_ok r) (\<lambda>(v, r). Inr (SSV_Tls12 v, r))
       else if version = ProtocolVersion_TLSv1_3
       then bindR (Tls13ServerSessionValue_read dns_ok r) (\<lambda>(v, r). Inr (SSV_Tls13 v, r))
       else Inl UnknownProtocolVersion)"

fun ServerSessionValue_wf :: "(bytes \<Rightarrow> bool) \<Rightarrow> ServerSessionValue \<Rightarrow> bool" where
  "ServerSessionValue_wf dns_ok (SSV_Tls12 v) \<longleftrightarrow>
     CommonServerSessionValue_wf dns_ok (v12_common v) \<and> length (v12_master_secret v) = 48"
| "ServerSessionValue_wf dns_ok (SSV_Tls13 v) \<longleftrightarrow>
     CommonServerSessionValue_wf dns_ok (v13_common v) \<and> length (v13_secret v) \<le> 0xff \<and> v13_freshness v = None"

interpretation ssvc: wire_codec
  ServerSessionValue_encode "ServerSessionValue_read dns_ok" "ServerSessionValue_wf dns_ok" for dns_ok
proof unfold_locales
  show "ServerSessionValue_read dns_ok (ServerSessionValue_encode x @ rest) = Inr (x, rest)"
    if "ServerSessionValue_wf dns_ok x" for x rest
    using that by (cases x) (simp_all add: ServerSessionValue_read_def Tls12ServerSessionValue_encode_def
        Tls12ServerSessionValue_read_def Tls13ServerSessionValue_encode_def Tls13ServerSessionValue_read_def
        bool_as_u8_def wire_simps SizedPayload_wf_def)
qed

text \<open>
  A ticket or session identifier is looked up: with a ticketer it is decrypted, without one it is taken
  out of the storage.
\<close>

definition Tls13ServerSessionValue_from_ticket ::
  "(bytes \<Rightarrow> bool) \<Rightarrow> 'p TicketProducer \<Rightarrow> 's StoresServerSessions \<Rightarrow> bytes \<Rightarrow> 'p option \<Rightarrow> 's \<Rightarrow>
   Tls13ServerSessionValue option \<times> 's" where
  "Tls13ServerSessionValue_from_ticket dns_ok T S identity ticketer storage =
     (let (plain, storage) = (case ticketer of
            Some p \<Rightarrow> (tp_decrypt T p identity, storage)
          | None \<Rightarrow> let (storage, r) = ss_take S storage identity in (r, storage))
      in (Option.bind plain (\<lambda>plain. case read_bytes (ServerSessionValue_read dns_ok) plain of
            Inr (SSV_Tls13 v) \<Rightarrow> Some v
          | _ \<Rightarrow> None), storage))"

subsection \<open>The age of a ticket\<close>

text \<open>A session that has a lifetime expires, at the latest a week after it was made.\<close>

lemma expires_within_a_week:
  assumes "lifetime \<noteq> 0" "unat t + 7 * 24 * 60 * 60 < unat t'"
  shows "has_expired \<lparr>ret_value = ClientSessionCommon_new ticket t lifetime identity, ret_retrieved_at = t'\<rparr>"
proof -
  let ?l = "min lifetime MAX_TICKET_LIFETIME"
  have "Duration_as_secs ?l \<le> Duration_as_secs MAX_TICKET_LIFETIME"
    by (simp add: Duration_as_secs_def div_le_mono)
  then have l: "Duration_as_secs ?l \<le> 604800"
    by (simp add: MAX_TICKET_LIFETIME_def Duration_as_secs_def Duration_from_secs_def)
  then have u: "unat (word_of_nat (Duration_as_secs ?l) :: u64) = Duration_as_secs ?l"
    by (simp add: unat_of_nat take_bit_nat_eq_self)
  have b: "unat t + Duration_as_secs ?l < unat t'" "unat t' < 2 ^ 64"
    using l assms(2) unat_u64_less [of t'] by simp_all
  note less_trans [OF b]
  then have "unat (t + word_of_nat (Duration_as_secs ?l)) = unat t + Duration_as_secs ?l"
    using u by (simp add: unat_word_ariths)
  with b u \<open>unat t + Duration_as_secs ?l < 2 ^ 64\<close> have "saturating_add64 t (word_of_nat (Duration_as_secs ?l)) < t'"
    by (simp add: saturating_add64_def word_less_nat_alt)
  moreover have "?l \<noteq> 0" using assms(1) by (simp add: MAX_TICKET_LIFETIME_def Duration_from_secs_def)
  ultimately show ?thesis by (simp add: has_expired_def ClientSessionCommon_new_def)
qed

text \<open>One that has none never does.\<close>

lemma zero_lifetime_never_expires:
  "\<not> has_expired \<lparr>ret_value = ClientSessionCommon_new ticket t 0 identity, ret_retrieved_at = t'\<rparr>"
  by (simp add: has_expired_def ClientSessionCommon_new_def)

text \<open>
  What the client says of the age of a ticket, hidden by the number the server chose, is taken by the
  server for what it is: the ticket is fresh exactly when the two ages differ by at most a minute.
\<close>

lemma fresh_iff:
  assumes "s13_age_add (ret_value s) = v13_age_obfuscation_offset v"
    "(unat (ret_retrieved_at s) - unat (cc_epoch (s13_common (ret_value s)))) * 1000 < 2 ^ 32"
    "(unat now - unat (sv_creation_time_sec (v13_common v))) * 1000 < 2 ^ 32"
  shows "is_fresh (set_freshness (obfuscated_ticket_age s) now v) \<longleftrightarrow>
    \<bar>(int (unat (ret_retrieved_at s) - unat (cc_epoch (s13_common (ret_value s))))) -
     int (unat now - unat (sv_creation_time_sec (v13_common v)))\<bar> \<le> 60"
proof -
  let ?c = "saturating_sub64 (ret_retrieved_at s) (cc_epoch (s13_common (ret_value s)))"
  let ?s = "saturating_sub64 now (sv_creation_time_sec (v13_common v))"
  define c where "c = unat (ret_retrieved_at s) - unat (cc_epoch (s13_common (ret_value s)))"
  define d where "d = unat now - unat (sv_creation_time_sec (v13_common v))"
  have uc: "unat (ucast ?c :: u32) = c" "unat ?c < 2 ^ 32" and us: "unat (ucast ?s :: u32) = d"
    using assms(2,3) by (simp_all add: unsigned_ucast_eq unat_saturating_sub64 c_def d_def take_bit_nat_eq_self)
  have mc: "unat (saturating_mul32 (ucast ?c) 1000) = c * 1000" "unat (saturating_mul32 (ucast ?s) 1000) = d * 1000"
    using assms(2,3) by (simp_all add: unat_saturating_mul32 uc us flip: c_def d_def)
  have "obfuscated_ticket_age s - v13_age_obfuscation_offset v = saturating_mul32 (ucast ?c) 1000"
    using uc(2) assms(1) by (simp add: obfuscated_ticket_age_def u32_try_from_def Let_def)
  then have "is_fresh (set_freshness (obfuscated_ticket_age s) now v) \<longleftrightarrow>
      (d * 1000 - c * 1000) + (c * 1000 - d * 1000) \<le> 60000"
    by (simp add: is_fresh_def set_freshness_def Let_def word_le_nat_alt unat_abs_diff32 mc MAX_FRESHNESS_SKEW_MS_def)
  also have "\<dots> \<longleftrightarrow> \<bar>int c - int d\<bar> \<le> 60" by linarith
  finally show ?thesis by (simp add: c_def d_def)
qed

end
