(* ===== verification/Traffic.thy ===== *)
theory Traffic
  imports Connection_Loop Sessions
begin

text \<open>
  The states of an established TLS 1.3 connection: \<open>ExpectTraffic\<close> and \<open>ExpectQuicTraffic\<close> of
  \<open>rustls/src/client/tls13.rs\<close> and \<open>rustls/src/server/tls13.rs\<close>, with the checks of \<open>rustls/src/check.rs\<close>,
  the tickets a server issues and a client keeps, and the hand-over to the kernel (\<open>rustls/src/conn/kernel.rs\<close>).

  What a client state reaches through its configuration, the clock and the session store, is the
  part of the context that lies outside of the connection.
\<close>

subsection \<open>Checking what was received\<close>

definition inappropriate_message :: "MessagePayload \<Rightarrow> ContentType list \<Rightarrow> Error" where
  "inappropriate_message payload content_types =
     Error_InappropriateMessage content_types (MessagePayload_content_type payload)"

definition inappropriate_handshake_message :: "MessagePayload \<Rightarrow> ContentType list \<Rightarrow> HandshakeType list \<Rightarrow> Error" where
  "inappropriate_handshake_message payload content_types handshake_types = (case payload of
     MP_Handshake parsed _ \<Rightarrow> Error_InappropriateHandshakeMessage handshake_types (HandshakePayload_handshake_type parsed)
   | _ \<Rightarrow> inappropriate_message payload content_types)"

text \<open>The macro \<open>require_handshake_msg!\<close>; \<open>pick\<close> is the pattern of the payload it asks for.\<close>

definition require_handshake_msg ::
  "Message \<Rightarrow> HandshakeType \<Rightarrow> (HandshakePayload \<Rightarrow> 'h option) \<Rightarrow> Error + 'h" where
  "require_handshake_msg m handshake_type pick =
     (let fails = Inl (inappropriate_handshake_message (msg_payload m) [ContentType_Handshake] [handshake_type]) in
      case msg_payload m of
        MP_Handshake parsed _ \<Rightarrow> (case pick parsed of Some hm \<Rightarrow> Inr hm | None \<Rightarrow> fails)
      | _ \<Rightarrow> fails)"

fun pick_NewSessionTicketTls13 :: "HandshakePayload \<Rightarrow> NewSessionTicketPayloadTls13 option" where
  "pick_NewSessionTicketTls13 (HP_NewSessionTicketTls13 nst) = Some nst"
| "pick_NewSessionTicketTls13 _ = None"

subsection \<open>Key updates\<close>

text \<open>
  \<open>handle_key_update\<close>, the same on both sides: the answer is noted or queued first, then the
  receiving keys are replaced.
\<close>

definition handle_key_update ::
  "(bytes \<Rightarrow> ServerNameKind) \<Rightarrow> (bytes \<Rightarrow> bool) \<Rightarrow> 'e RecordEncrypter \<Rightarrow> Input \<Rightarrow> KeyUpdateRequest \<Rightarrow>
   ('x, 'e, 'd, 'c, 'q) KeyScheduleTrafficReceive \<Rightarrow> ('x, 'e, 'd, 'c, 'q, 'o) CaptureAppData \<Rightarrow>
   ((Error + ('x, 'e, 'd, 'c, 'q) KeyScheduleTrafficReceive) \<times> ('x, 'e, 'd, 'c, 'q, 'o) CaptureAppData) option" where
  "handle_key_update classify dns_ok E input key_update_request ks w =
     (if is_quic (kss_state (kstr_ks ks))
      then Some (Inl (Error_PeerMisbehaved KeyUpdateReceivedInQuicConnection), w)
      else case check_aligned_handshake input of
        Inl e \<Rightarrow> Some (Inl e, w)
      | Inr _ \<Rightarrow>
          (case (if key_update_request = KeyUpdateRequest_UpdateNotRequested
                 then Some (Inr (), w\<lparr>cx_send := note_key_update_response (cx_send w)\<rparr>)
                 else if key_update_request = KeyUpdateRequest_UpdateRequested
                 then map_option (\<lambda>(r, sp). (r, w\<lparr>cx_send := sp\<rparr>))
                   (queue_requested_key_update classify dns_ok E (cx_send w))
                 else Some (Inl (Error_InvalidMessage InvalidKeyUpdate), w)) of
             None \<Rightarrow> None
           | Some (Inl e, w) \<Rightarrow> Some (Inl e, w)
           | Some (Inr _, w) \<Rightarrow>
               (case KeyScheduleTrafficReceive_update_decrypter ks (rp_decrypt_state (cx_recv w)) of
                  None \<Rightarrow> None
                | Some (ks, ds) \<Rightarrow> Some (Inr ks, w\<lparr>cx_recv := (cx_recv w)\<lparr>rp_decrypt_state := ds\<rparr>\<rparr>))))"

subsection \<open>The client\<close>

record 's client_env =
  ce_current_time :: "u64 option"
  ce_store :: 's

record ('x, 'e, 'd, 'c, 'q, 'k) client_ExpectTraffic =
  ct_enable_secret_extraction :: bool
  ct_session_key :: 'k
  ct_session_input :: "('x, 'e, 'd, 'c, 'q) Tls13ClientSessionInput"
  ct_key_schedule_recv :: "('x, 'e, 'd, 'c, 'q) KeyScheduleTrafficReceive"
  ct_resumption :: "('x, 'e, 'd, 'c, 'q) KeyScheduleResumption"
  ct_counters :: TrafficTemperCounters

definition client_current_time :: "'s client_env \<Rightarrow> Error + u64" where
  "client_current_time env = ok_or Error_FailedToGetCurrentTime (ce_current_time env)"

definition handle_new_ticket_impl ::
  "('s, 'k, 'a, ('x, 'e, 'd, 'c, 'q) Tls13Session) ClientSessionStore \<Rightarrow> ('x, 'e, 'd, 'c, 'q, 'k) client_ExpectTraffic \<Rightarrow>
   NewSessionTicketPayloadTls13 \<Rightarrow> 's client_env \<Rightarrow> ((Error + unit) \<times> 's client_env) option" where
  "handle_new_ticket_impl S st nst env =
     (case KeyScheduleResumption_derive_ticket_psk (ct_resumption st) (nst13_nonce nst) of
        None \<Rightarrow> None
      | Some secret \<Rightarrow>
          (case client_current_time env of
             Inl e \<Rightarrow> Some (Inl e, env)
           | Inr now \<Rightarrow>
               let v = Tls13Session_new nst (ct_session_input st) (OkmBlock_as_ref secret) now in
               if is_quic (kss_state (kstr_ks (ct_key_schedule_recv st))) \<and>
                  (case nste_max_early_data_size (nst13_extensions nst) of
                     Some sz \<Rightarrow> sz \<noteq> 0 \<and> sz \<noteq> 0xffffffff | None \<Rightarrow> False)
               then Some (Inl (Error_PeerMisbehaved InvalidMaxEarlyDataSize), env)
               else Some (Inr (), env\<lparr>ce_store := cs_insert_tls13_ticket S (ce_store env) (ct_session_key st) v\<rparr>)))"

definition saturating_add32 :: "u32 \<Rightarrow> u32 \<Rightarrow> u32" where
  "saturating_add32 a b = (if unat a + unat b < 2 ^ 32 then a + b else 0xffffffff)"

definition handle_new_ticket_tls13 ::
  "('s, 'k, 'a, ('x, 'e, 'd, 'c, 'q) Tls13Session) ClientSessionStore \<Rightarrow> ('x, 'e, 'd, 'c, 'q, 'k) client_ExpectTraffic \<Rightarrow>
   NewSessionTicketPayloadTls13 \<Rightarrow> ('x, 'e, 'd, 'c, 'q, 's client_env) CaptureAppData \<Rightarrow>
   ((Error + unit) \<times> ('x, 'e, 'd, 'c, 'q, 's client_env) CaptureAppData) option" where
  "handle_new_ticket_tls13 S st nst w =
     (let w = w\<lparr>cx_recv := (cx_recv w)\<lparr>rp_tls13_tickets_received :=
            saturating_add32 (rp_tls13_tickets_received (cx_recv w)) 1\<rparr>\<rparr> in
      map_option (\<lambda>(r, env). (r, w\<lparr>cx_other := env\<rparr>)) (handle_new_ticket_impl S st nst (cx_other w)))"

definition client_ExpectTraffic_handle ::
  "(bytes \<Rightarrow> ServerNameKind) \<Rightarrow> (bytes \<Rightarrow> bool) \<Rightarrow> 'e RecordEncrypter \<Rightarrow>
   ('s, 'k, 'a, ('x, 'e, 'd, 'c, 'q) Tls13Session) ClientSessionStore \<Rightarrow> ('x, 'e, 'd, 'c, 'q, 'k) client_ExpectTraffic \<Rightarrow>
   Input \<Rightarrow> ('x, 'e, 'd, 'c, 'q, 's client_env) CaptureAppData \<Rightarrow>
   ((Error + ('x, 'e, 'd, 'c, 'q, 'k) client_ExpectTraffic) \<times> ('x, 'e, 'd, 'c, 'q, 's client_env) CaptureAppData) option" where
  "client_ExpectTraffic_handle classify dns_ok E S st input w = (case msg_payload (in_message input) of
     MP_ApplicationData payload \<Rightarrow>
       Some (Inr (st\<lparr>ct_counters := received_app_data (ct_counters st)\<rparr>), received_plaintext (Traffic payload) w)
   | MP_Handshake (HP_NewSessionTicketTls13 new_ticket) _ \<Rightarrow>
       (case received_handshake_message (ct_counters st) of
          Inl e \<Rightarrow> Some (Inl e, w)
        | Inr counters \<Rightarrow>
            let st = st\<lparr>ct_counters := counters\<rparr> in
            map_option (\<lambda>(r, w). (map_sum id (\<lambda>_. st) r, w)) (handle_new_ticket_tls13 S st new_ticket w))
   | MP_Handshake (HP_KeyUpdate key_update) _ \<Rightarrow>
       (case received_handshake_message (ct_counters st) of
          Inl e \<Rightarrow> Some (Inl e, w)
        | Inr counters \<Rightarrow>
            let st = st\<lparr>ct_counters := counters\<rparr> in
            map_option (\<lambda>(r, w). (map_sum id (\<lambda>ks. st\<lparr>ct_key_schedule_recv := ks\<rparr>) r, w))
              (handle_key_update classify dns_ok E input key_update (ct_key_schedule_recv st) w))
   | payload \<Rightarrow> Some (Inl (inappropriate_handshake_message payload
         [ContentType_ApplicationData, ContentType_Handshake]
         [HandshakeType_NewSessionTicket, HandshakeType_KeyUpdate]), w))"

definition client_ExpectQuicTraffic_handle ::
  "('s, 'k, 'a, ('x, 'e, 'd, 'c, 'q) Tls13Session) ClientSessionStore \<Rightarrow> ('x, 'e, 'd, 'c, 'q, 'k) client_ExpectTraffic \<Rightarrow>
   Input \<Rightarrow> ('x, 'e, 'd, 'c, 'q, 's client_env) CaptureAppData \<Rightarrow>
   ((Error + ('x, 'e, 'd, 'c, 'q, 'k) client_ExpectTraffic) \<times> ('x, 'e, 'd, 'c, 'q, 's client_env) CaptureAppData) option" where
  "client_ExpectQuicTraffic_handle S st input w =
     (case require_handshake_msg (in_message input) HandshakeType_NewSessionTicket pick_NewSessionTicketTls13 of
        Inl e \<Rightarrow> Some (Inl e, w)
      | Inr nst \<Rightarrow> map_option (\<lambda>(r, w). (map_sum id (\<lambda>_. st) r, w)) (handle_new_ticket_tls13 S st nst w))"

datatype ('x, 'e, 'd, 'c, 'q, 'k) ClientTrafficState =
    Client_Traffic "('x, 'e, 'd, 'c, 'q, 'k) client_ExpectTraffic"
  | Client_QuicTraffic "('x, 'e, 'd, 'c, 'q, 'k) client_ExpectTraffic"

text \<open>
  \<open>StateMachine for ClientState\<close> where the state is one of these two: both want input, both are
  traffic states, and neither minds a decryption error.
\<close>

definition client_traffic_machine ::
  "(bytes \<Rightarrow> ServerNameKind) \<Rightarrow> (bytes \<Rightarrow> bool) \<Rightarrow> 'e RecordEncrypter \<Rightarrow>
   ('s, 'k, 'a, ('x, 'e, 'd, 'c, 'q) Tls13Session) ClientSessionStore \<Rightarrow>
   (('x, 'e, 'd, 'c, 'q, 'k) ClientTrafficState, ('x, 'e, 'd, 'c, 'q, 's client_env) CaptureAppData, 's client_env) StateMachine" where
  "client_traffic_machine classify dns_ok E S =
     \<lparr>sm_handle = (\<lambda>st input w. case st of
          Client_Traffic st \<Rightarrow>
            map_option (\<lambda>(r, w). (map_sum id Client_Traffic r, w)) (client_ExpectTraffic_handle classify dns_ok E S st input w)
        | Client_QuicTraffic st \<Rightarrow>
            map_option (\<lambda>(r, w). (map_sum id Client_QuicTraffic r, w)) (client_ExpectQuicTraffic_handle S st input w)),
      sm_wants_input = (\<lambda>_. True),
      sm_handle_without_input = (\<lambda>st w. Some (Inr st, w)),
      sm_is_traffic = (\<lambda>_. True),
      sm_handle_decrypt_error = (\<lambda>_ env. env)\<rparr>"

subsection \<open>The server\<close>

record ('x, 'e, 'd, 'c, 'q) server_ExpectTraffic =
  st_enable_secret_extraction :: bool
  st_key_schedule_recv :: "('x, 'e, 'd, 'c, 'q) KeyScheduleTrafficReceive"
  st_counters :: TrafficTemperCounters

definition server_ExpectTraffic_handle ::
  "(bytes \<Rightarrow> ServerNameKind) \<Rightarrow> (bytes \<Rightarrow> bool) \<Rightarrow> 'e RecordEncrypter \<Rightarrow> ('x, 'e, 'd, 'c, 'q) server_ExpectTraffic \<Rightarrow>
   Input \<Rightarrow> ('x, 'e, 'd, 'c, 'q, 'o) CaptureAppData \<Rightarrow>
   ((Error + ('x, 'e, 'd, 'c, 'q) server_ExpectTraffic) \<times> ('x, 'e, 'd, 'c, 'q, 'o) CaptureAppData) option" where
  "server_ExpectTraffic_handle classify dns_ok E st input w = (case msg_payload (in_message input) of
     MP_ApplicationData payload \<Rightarrow>
       Some (Inr (st\<lparr>st_counters := received_app_data (st_counters st)\<rparr>), received_plaintext (Traffic payload) w)
   | MP_Handshake (HP_KeyUpdate key_update) _ \<Rightarrow>
       (case received_handshake_message (st_counters st) of
          Inl e \<Rightarrow> Some (Inl e, w)
        | Inr counters \<Rightarrow>
            let st = st\<lparr>st_counters := counters\<rparr> in
            map_option (\<lambda>(r, w). (map_sum id (\<lambda>ks. st\<lparr>st_key_schedule_recv := ks\<rparr>) r, w))
              (handle_key_update classify dns_ok E input key_update (st_key_schedule_recv st) w))
   | payload \<Rightarrow> Some (Inl (inappropriate_handshake_message payload
         [ContentType_ApplicationData, ContentType_Handshake] [HandshakeType_KeyUpdate]), w))"

definition server_ExpectQuicTraffic_handle ::
  "Input \<Rightarrow> ('x, 'e, 'd, 'c, 'q, 'o) CaptureAppData \<Rightarrow> ((Error + unit) \<times> ('x, 'e, 'd, 'c, 'q, 'o) CaptureAppData) option" where
  "server_ExpectQuicTraffic_handle input w = Some (Inl (inappropriate_message (msg_payload (in_message input)) []), w)"

datatype ('x, 'e, 'd, 'c, 'q) ServerTrafficState =
    Server_Traffic "('x, 'e, 'd, 'c, 'q) server_ExpectTraffic"
  | Server_QuicTraffic

definition server_traffic_machine ::
  "(bytes \<Rightarrow> ServerNameKind) \<Rightarrow> (bytes \<Rightarrow> bool) \<Rightarrow> 'e RecordEncrypter \<Rightarrow>
   (('x, 'e, 'd, 'c, 'q) ServerTrafficState, ('x, 'e, 'd, 'c, 'q, 'o) CaptureAppData, 'o) StateMachine" where
  "server_traffic_machine classify dns_ok E =
     \<lparr>sm_handle = (\<lambda>st input w. case st of
          Server_Traffic st \<Rightarrow>
            map_option (\<lambda>(r, w). (map_sum id Server_Traffic r, w)) (server_ExpectTraffic_handle classify dns_ok E st input w)
        | Server_QuicTraffic \<Rightarrow>
            map_option (\<lambda>(r, w). (map_sum id (\<lambda>_. Server_QuicTraffic) r, w)) (server_ExpectQuicTraffic_handle input w)),
      sm_wants_input = (\<lambda>_. True),
      sm_handle_without_input = (\<lambda>st w. Some (Inr st, w)),
      sm_is_traffic = (\<lambda>_. True),
      sm_handle_decrypt_error = (\<lambda>_ env. env)\<rparr>"


subsection \<open>The tickets of a server\<close>

text \<open>A computation that may panic, or fail with an error, over a state.\<close>

type_synonym ('s, 'r) fallible = "'s \<Rightarrow> ((Error + 'r) \<times> 's) option"

definition returnF :: "'r \<Rightarrow> ('s, 'r) fallible" where
  "returnF r s = Some (Inr r, s)"

definition failF :: "Error \<Rightarrow> ('s, 'r) fallible" where
  "failF e s = Some (Inl e, s)"

definition bindF :: "('s, 'a) fallible \<Rightarrow> ('a \<Rightarrow> ('s, 'b) fallible) \<Rightarrow> ('s, 'b) fallible" where
  "bindF m f s = (case m s of
     None \<Rightarrow> None
   | Some (Inl e, s) \<Rightarrow> Some (Inl e, s)
   | Some (Inr r, s) \<Rightarrow> f r s)"

definition liftF :: "Error + 'r \<Rightarrow> ('s, 'r) fallible" where
  "liftF r s = Some (r, s)"

definition panicsF :: "'r option \<Rightarrow> ('s, 'r) fallible" where
  "panicsF r s = map_option (\<lambda>r. (Inr r, s)) r"

record 'g SecureRandom =
  sr_fill :: "'g \<Rightarrow> usize \<Rightarrow> bytes option \<times> 'g"

text \<open>
  What a server configuration gives to the issuing of tickets.  The ticketer draws its own random
  bytes, from \<open>tc_ticketer_random\<close>.
\<close>

record ('p, 's, 'g) ticket_config =
  tc_ticketer :: "'p option"
  tc_ticketer_random :: "bytes option list"
  tc_storage :: 's
  tc_random :: 'g
  tc_max_early_data_size :: u32
  tc_current_time :: "u64 option"

definition random_array :: "'g SecureRandom \<Rightarrow> usize \<Rightarrow> (('p, 's, 'g) ticket_config, bytes) fallible" where
  "random_array R n cfg =
     (let (r, g) = sr_fill R (tc_random cfg) n
      in Some (ok_or Error_FailedToGetRandomBytes r, cfg\<lparr>tc_random := g\<rparr>))"

definition random_u32 :: "'g SecureRandom \<Rightarrow> (('p, 's, 'g) ticket_config, u32) fallible" where
  "random_u32 R = bindF (random_array R 4) (\<lambda>bs. returnF (word_of_nat (be_nat bs)))"

definition server_current_time :: "(('p, 's, 'g) ticket_config, u64) fallible" where
  "server_current_time cfg = Some (ok_or Error_FailedToGetCurrentTime (tc_current_time cfg), cfg)"

text \<open>The ticket and its lifetime; \<open>None\<close> where no ticket can be issued.\<close>

definition stateless_ticket ::
  "'p TicketProducer \<Rightarrow> bytes \<Rightarrow> 'p \<Rightarrow> (('p, 's, 'g) ticket_config, (bytes \<times> Duration) option) fallible" where
  "stateless_ticket T plain p cfg =
     (let (p', t) = tp_encrypt T p (case tc_ticketer_random cfg of [] \<Rightarrow> None | r # _ \<Rightarrow> r) plain
      in Some (Inr (map_option (\<lambda>t. (t, tp_lifetime T p')) t),
               cfg\<lparr>tc_ticketer := Some p', tc_ticketer_random := tl (tc_ticketer_random cfg)\<rparr>))"

definition stateful_ticket ::
  "'s StoresServerSessions \<Rightarrow> 'g SecureRandom \<Rightarrow> bytes \<Rightarrow> (('p, 's, 'g) ticket_config, (bytes \<times> Duration) option) fallible" where
  "stateful_ticket S R plain =
     bindF (random_array R 32) (\<lambda>id cfg.
       let (storage, stored) = ss_put S (tc_storage cfg) id plain
       in Some (Inr (if stored then Some (id, Duration_from_secs (24 * 60 * 60)) else None),
                cfg\<lparr>tc_storage := storage\<rparr>))"

definition issue_ticket ::
  "'p TicketProducer \<Rightarrow> 's StoresServerSessions \<Rightarrow> 'g SecureRandom \<Rightarrow> bytes \<Rightarrow>
   (('p, 's, 'g) ticket_config, (bytes \<times> Duration) option) fallible" where
  "issue_ticket T S R plain cfg = (case tc_ticketer cfg of
     Some p \<Rightarrow> stateless_ticket T plain p cfg
   | None \<Rightarrow> stateful_ticket S R plain cfg)"

text \<open>What is remembered of the session.\<close>

definition ticket_plain ::
  "('x, 'e, 'd, 'c, 'q) Tls13CipherSuite \<Rightarrow> Identity option \<Rightarrow> ApplicationProtocol option \<Rightarrow> bytes option \<Rightarrow>
   bytes \<Rightarrow> u64 \<Rightarrow> OkmBlock \<Rightarrow> u32 \<Rightarrow> ServerSessionValue" where
  "ticket_plain cs peer_identity chosen_alpn_protocol sni resumption_data now secret age_add =
     SSV_Tls13 (Tls13ServerSessionValue_new
       (CommonServerSessionValue_new sni (csc_suite (cs_common cs)) peer_identity chosen_alpn_protocol resumption_data now)
       (OkmBlock_as_ref secret) age_add)"

text \<open>Early data is only offered with stateful tickets, which are used once.\<close>

definition ticket_message ::
  "('p, 's, 'g) ticket_config \<Rightarrow> Duration \<Rightarrow> u32 \<Rightarrow> bytes \<Rightarrow> bytes \<Rightarrow> NewSessionTicketPayloadTls13" where
  "ticket_message cfg lifetime age_add nonce t =
     (let payload = NewSessionTicketPayloadTls13_new lifetime age_add nonce t in
      if tc_max_early_data_size cfg > 0 \<and> Option.is_none (tc_ticketer cfg)
      then payload\<lparr>nst13_extensions := (nst13_extensions payload)\<lparr>nste_max_early_data_size :=
        Some (tc_max_early_data_size cfg)\<rparr>\<rparr>
      else payload)"

definition emit_ticket ::
  "(bytes \<Rightarrow> ServerNameKind) \<Rightarrow> (bytes \<Rightarrow> bool) \<Rightarrow> 'p TicketProducer \<Rightarrow> 's StoresServerSessions \<Rightarrow> 'g SecureRandom \<Rightarrow>
   ('x, 'e, 'd, 'c, 'q) Tls13CipherSuite \<Rightarrow> Identity option \<Rightarrow> ApplicationProtocol option \<Rightarrow> bytes option \<Rightarrow> bytes \<Rightarrow>
   ('x, 'e, 'd, 'c, 'q) KeyScheduleResumption \<Rightarrow> 'c HandshakeFlight \<Rightarrow>
   (('p, 's, 'g) ticket_config, 'c HandshakeFlight) fallible" where
  "emit_ticket classify dns_ok T S R cs peer_identity chosen_alpn_protocol sni resumption_data resumption flight =
     bindF (random_array R 32) (\<lambda>nonce.
     bindF (random_u32 R) (\<lambda>age_add.
     bindF server_current_time (\<lambda>now.
     bindF (panicsF (KeyScheduleResumption_derive_ticket_psk resumption nonce)) (\<lambda>secret.
     bindF (issue_ticket T S R (ServerSessionValue_encode
       (ticket_plain cs peer_identity chosen_alpn_protocol sni resumption_data now secret age_add))) (\<lambda>issued cfg.
     case issued of
       None \<Rightarrow> Some (Inr flight, cfg)
     | Some (t, lifetime) \<Rightarrow>
         Some (Inr (HandshakeFlight_add classify dns_ok
           (HP_NewSessionTicketTls13 (ticket_message cfg lifetime age_add nonce t)) flight), cfg))))))"

subsection \<open>The end of the server's handshake\<close>

record ('x, 'e, 'd, 'c, 'q) server_HandshakeState =
  sh_enable_secret_extraction :: bool
  sh_transcript :: "'c HandshakeHash"
  sh_suite :: "('x, 'e, 'd, 'c, 'q) Tls13CipherSuite"
  sh_alpn_protocol :: "ApplicationProtocol option"
  sh_sni :: "bytes option"
  sh_resumption_data :: bytes
  sh_send_tickets :: usize

record ('x, 'e, 'd, 'c, 'q) server_ExpectFinished =
  sf_hs :: "('x, 'e, 'd, 'c, 'q) server_HandshakeState"
  sf_key_schedule :: "('x, 'e, 'd, 'c, 'q) KeyScheduleTrafficWithClientFinishedPending"
  sf_peer_identity :: "Identity option"

text \<open>
  Outside of the connection proper: the tickets, what the connection reports, and where messages go
  that QUIC carries (\<open>None\<close>: they are sent in records).
\<close>

record ('p, 's, 'g, 'su, 'kx, 'ex) server_env =
  se_tickets :: "('p, 's, 'g) ticket_config"
  se_outputs :: "('su, 'kx, Identity, 'ex) ConnectionOutputs"
  se_quic :: "(Message \<times> bool) list option"

definition Output_output ::
  "('su, 'kx, Identity, 'ex) OutputEvent \<Rightarrow>
   (('x, 'e, 'd, 'c, 'q, ('p, 's, 'g, 'su, 'kx, 'ex) server_env) CaptureAppData, unit) fallible" where
  "Output_output ev w =
     map_option (\<lambda>out. (Inr (), w\<lparr>cx_other := (cx_other w)\<lparr>se_outputs := out\<rparr>\<rparr>))
       (ConnectionOutputs_handle ev (se_outputs (cx_other w)))"

definition Output_send_msg ::
  "(bytes \<Rightarrow> ServerNameKind) \<Rightarrow> (bytes \<Rightarrow> bool) \<Rightarrow> 'e RecordEncrypter \<Rightarrow> Message \<Rightarrow> bool \<Rightarrow>
   (('x, 'e, 'd, 'c, 'q, ('p, 's, 'g, 'su, 'kx, 'ex) server_env) CaptureAppData, unit) fallible" where
  "Output_send_msg classify dns_ok E m must_encrypt w = (case se_quic (cx_other w) of
     Some ms \<Rightarrow> Some (Inr (), w\<lparr>cx_other := (cx_other w)\<lparr>se_quic := Some (ms @ [(m, must_encrypt)])\<rparr>\<rparr>)
   | None \<Rightarrow> on_send (send_msg classify dns_ok E m must_encrypt) w)"

definition on_tickets ::
  "(('p, 's, 'g) ticket_config, 'r) fallible \<Rightarrow>
   (('x, 'e, 'd, 'c, 'q, ('p, 's, 'g, 'su, 'kx, 'ex) server_env) CaptureAppData, 'r) fallible" where
  "on_tickets m w =
     map_option (\<lambda>(r, cfg). (r, w\<lparr>cx_other := (cx_other w)\<lparr>se_tickets := cfg\<rparr>\<rparr>)) (m (se_tickets (cx_other w)))"

fun emit_tickets ::
  "nat \<Rightarrow> ('c HandshakeFlight \<Rightarrow> ('t, 'c HandshakeFlight) fallible) \<Rightarrow> 'c HandshakeFlight \<Rightarrow>
   ('t, 'c HandshakeFlight) fallible" where
  "emit_tickets 0 emit flight = returnF flight"
| "emit_tickets (Suc n) emit flight = bindF (emit flight) (\<lambda>flight. emit_tickets n emit flight)"

fun pick_Finished :: "HandshakePayload \<Rightarrow> bytes option" where
  "pick_Finished (HP_Finished verify_data) = Some verify_data"
| "pick_Finished _ = None"

definition server_ExpectFinished_handle ::
  "(bytes \<Rightarrow> ServerNameKind) \<Rightarrow> (bytes \<Rightarrow> bool) \<Rightarrow> 'e RecordEncrypter \<Rightarrow> 'p TicketProducer \<Rightarrow> 's StoresServerSessions \<Rightarrow>
   'g SecureRandom \<Rightarrow> ('x, 'e, 'd, 'c, 'q) server_ExpectFinished \<Rightarrow> Input \<Rightarrow>
   (('x, 'e, 'd, 'c, 'q, ('p, 's, 'g, 'su, 'kx, ('x, 'e, 'd, 'c, 'q) KeyScheduleExporter) server_env) CaptureAppData,
    ('x, 'e, 'd, 'c, 'q) ServerTrafficState) fallible" where
  "server_ExpectFinished_handle classify dns_ok E T S R st input =
     bindF (liftF (require_handshake_msg (in_message input) HandshakeType_Finished pick_Finished)) (\<lambda>finished.
     let hs = sf_hs st;
         handshake_hash = HandshakeHash_current_hash (sh_transcript hs) in
     bindF (liftF (check_aligned_handshake input)) (\<lambda>_.
     bindF (\<lambda>w. map_option (\<lambda>(b, t, ds). (Inr (b, t), w\<lparr>cx_recv := (cx_recv w)\<lparr>rp_decrypt_state := ds\<rparr>\<rparr>))
         (sign_client_finish (sf_key_schedule st) handshake_hash (rp_decrypt_state (cx_recv w))))
       (\<lambda>(key_schedule_before_finished, expect_verify_data).
     if Tag_as_ref expect_verify_data \<noteq> finished then failF (Error_PeerMisbehaved IncorrectFinished)
     else
     let transcript = HandshakeHash_add_message (in_message input) (sh_transcript hs) in
     bindF (panicsF (KeyScheduleBeforeFinished_into_traffic key_schedule_before_finished
         (HandshakeHash_current_hash transcript))) (\<lambda>(key_schedule_traffic, exporter, resumption).
     bindF (on_tickets (emit_tickets (sh_send_tickets hs)
         (emit_ticket classify dns_ok T S R (sh_suite hs) (sf_peer_identity st) (sh_alpn_protocol hs) (sh_sni hs)
           (sh_resumption_data hs) resumption)
         (HandshakeFlight_new transcript))) (\<lambda>flight.
     bindF (Output_send_msg classify dns_ok E (HandshakeFlight_finish True flight) True) (\<lambda>_.
     let (key_schedule_send, key_schedule_recv) = KeyScheduleTraffic_split key_schedule_traffic in
     bindF (case sf_peer_identity st of
         Some identity \<Rightarrow> Output_output (OE_PeerIdentity identity)
       | None \<Rightarrow> returnF ()) (\<lambda>_.
     bindF (Output_output (OE_Exporter exporter)) (\<lambda>_ w.
     let w = w\<lparr>cx_send := update_key_schedule key_schedule_send (cx_send w)\<rparr>;
         w = Output_start_traffic w
     in Some (Inr (if is_quic (kss_state (kstr_ks key_schedule_recv)) then Server_QuicTraffic
          else Server_Traffic \<lparr>st_enable_secret_extraction = sh_enable_secret_extraction hs,
            st_key_schedule_recv = key_schedule_recv, st_counters = TrafficTemperCounters_default\<rparr>), w)))))))))"


subsection \<open>Handing a connection to the kernel\<close>

record ('st, 'o) KernelState =
  kn_update_rx_secret :: "('st, ConnectionTrafficSecrets) fallible"
  kn_handle_new_session_ticket :: "'st \<Rightarrow> NewSessionTicketPayloadTls13 \<Rightarrow> ('o, unit) fallible"

record ('x, 'e, 'd, 'c, 'q, 'su, 'st) KernelConnection =
  kc_state :: 'st
  kc_negotiated_version :: ProtocolVersion
  kc_tls13_key_schedule :: "('x, 'e, 'd, 'c, 'q) KeyScheduleTrafficSend option"
  kc_suite :: 'su

definition KernelConnection_new ::
  "'st \<Rightarrow> ('su, 'kx, 'id, 'ex) ConnectionOutputs \<Rightarrow> ('x, 'e, 'd, 'c, 'q) KeyScheduleTrafficSend option \<Rightarrow>
   Error + ('x, 'e, 'd, 'c, 'q, 'su, 'st) KernelConnection" where
  "KernelConnection_new state outputs tls13_key_schedule =
     bindR (ok_or Error_HandshakeNotComplete (into_kernel_parts outputs)) (\<lambda>(negotiated_version, cs).
       Inr \<lparr>kc_state = state, kc_negotiated_version = negotiated_version,
            kc_tls13_key_schedule = tls13_key_schedule, kc_suite = cs\<rparr>)"

definition update_tx_secret ::
  "(('x, 'e, 'd, 'c, 'q, 'su, 'st) KernelConnection, u64 \<times> ConnectionTrafficSecrets) fallible" where
  "update_tx_secret c = (case kc_tls13_key_schedule c of
     Some ks \<Rightarrow> map_option (\<lambda>(r, ks). (map_sum id (\<lambda>secret. (0, secret)) r, c\<lparr>kc_tls13_key_schedule := Some ks\<rparr>))
       (KeyScheduleTrafficSend_refresh_traffic_secret ks)
   | None \<Rightarrow> Some (Inl (Error_ApiMisuse KeyUpdateNotAvailableForTls12), c))"

definition update_rx_secret ::
  "('st, 'o) KernelState \<Rightarrow> (('x, 'e, 'd, 'c, 'q, 'su, 'st) KernelConnection, u64 \<times> ConnectionTrafficSecrets) fallible" where
  "update_rx_secret K c =
     map_option (\<lambda>(r, st). (map_sum id (\<lambda>secret. (0, secret)) r, c\<lparr>kc_state := st\<rparr>))
       (kn_update_rx_secret K (kc_state c))"

definition KernelConnection_handle_new_session_ticket ::
  "('st, 'o) KernelState \<Rightarrow> ('x, 'e, 'd, 'c, 'q, 'su, 'st) KernelConnection \<Rightarrow> bytes \<Rightarrow> ('o, unit) fallible" where
  "KernelConnection_handle_new_session_ticket K c payload =
     (if kc_negotiated_version c \<noteq> ProtocolVersion_TLSv1_3
      then failF (Error_ApiMisuse KernelSessionTicketHandlingNotAvailableForTls12)
      else bindF (liftF (map_err Error_InvalidMessage (read_bytes NewSessionTicketPayloadTls13_read payload)))
        (\<lambda>nst. kn_handle_new_session_ticket K (kc_state c) nst))"

text \<open>The kernel states of TLS 1.3; the server's panics when it is given a ticket.\<close>

definition client_KernelState ::
  "('s, 'k, 'a, ('x, 'e, 'd, 'c, 'q) Tls13Session) ClientSessionStore \<Rightarrow>
   (('x, 'e, 'd, 'c, 'q, 'k) ClientTrafficState, 's client_env) KernelState" where
  "client_KernelState S =
     \<lparr>kn_update_rx_secret = (\<lambda>st. case st of
          Client_Traffic t \<Rightarrow> map_option (\<lambda>(r, ks). (r, Client_Traffic (t\<lparr>ct_key_schedule_recv := ks\<rparr>)))
            (KeyScheduleTrafficReceive_refresh_traffic_secret (ct_key_schedule_recv t))
        | Client_QuicTraffic _ \<Rightarrow>
            Some (Inl (Error_Unreachable ''KeyUpdate is not supported for QUIC connections''), st)),
      kn_handle_new_session_ticket = (\<lambda>st nst. case st of
          Client_Traffic t \<Rightarrow> handle_new_ticket_impl S t nst
        | Client_QuicTraffic t \<Rightarrow> handle_new_ticket_impl S t nst)\<rparr>"

definition server_KernelState :: "(('x, 'e, 'd, 'c, 'q) ServerTrafficState, 'o) KernelState" where
  "server_KernelState =
     \<lparr>kn_update_rx_secret = (\<lambda>st. case st of
          Server_Traffic t \<Rightarrow> map_option (\<lambda>(r, ks). (r, Server_Traffic (t\<lparr>st_key_schedule_recv := ks\<rparr>)))
            (KeyScheduleTrafficReceive_refresh_traffic_secret (st_key_schedule_recv t))
        | Server_QuicTraffic \<Rightarrow>
            Some (Inl (Error_Unreachable ''QUIC connections do not support key updates''), st)),
      kn_handle_new_session_ticket = (\<lambda>_ _ _. None)\<rparr>"

text \<open>The secrets of both directions, extracted from a traffic state and the sending keys.\<close>

definition extract_both ::
  "bool \<Rightarrow> ('x, 'e, 'd, 'c, 'q) KeyScheduleTrafficReceive \<Rightarrow> ('x, 'e, 'd, 'c, 'q) KeyScheduleTrafficSend option \<Rightarrow>
   (Error + PartiallyExtractedSecrets) option" where
  "extract_both enable_secret_extraction recv send_keys =
     (if \<not> enable_secret_extraction then Some (Inl (Error_ApiMisuse SecretExtractionRequiresPriorOptIn))
      else case send_keys of
        None \<Rightarrow> Some (Inl (Error_Unreachable ''send_keys required for TLS1.3 into_external_state''))
      | Some send_keys \<Rightarrow> (case KeyScheduleTrafficSend_extract send_keys of
          None \<Rightarrow> None
        | Some (Inl e) \<Rightarrow> Some (Inl e)
        | Some (Inr tx) \<Rightarrow>
            map_option (\<lambda>r. bindR r (\<lambda>rx. Inr \<lparr>pes_tx = tx, pes_rx = rx\<rparr>)) (KeyScheduleTrafficReceive_extract recv)))"

fun client_into_external_state ::
  "('x, 'e, 'd, 'c, 'q, 'k) ClientTrafficState \<Rightarrow> ('x, 'e, 'd, 'c, 'q) KeyScheduleTrafficSend option \<Rightarrow>
   (Error + PartiallyExtractedSecrets) option" where
  "client_into_external_state (Client_Traffic t) send_keys =
     extract_both (ct_enable_secret_extraction t) (ct_key_schedule_recv t) send_keys"
| "client_into_external_state (Client_QuicTraffic t) send_keys =
     extract_both (ct_enable_secret_extraction t) (ct_key_schedule_recv t) send_keys"

fun server_into_external_state ::
  "('x, 'e, 'd, 'c, 'q) ServerTrafficState \<Rightarrow> ('x, 'e, 'd, 'c, 'q) KeyScheduleTrafficSend option \<Rightarrow>
   (Error + PartiallyExtractedSecrets) option" where
  "server_into_external_state (Server_Traffic t) send_keys =
     extract_both (st_enable_secret_extraction t) (st_key_schedule_recv t) send_keys"
| "server_into_external_state Server_QuicTraffic send_keys = Some (Inl Error_HandshakeNotComplete)"

record ExtractedSecrets =
  es_tx :: "u64 \<times> ConnectionTrafficSecrets"
  es_rx :: "u64 \<times> ConnectionTrafficSecrets"

definition from_parts_into_kernel_connection ::
  "('st \<Rightarrow> ('x, 'e, 'd, 'c, 'q) KeyScheduleTrafficSend option \<Rightarrow> (Error + PartiallyExtractedSecrets) option) \<Rightarrow>
   ('x, 'e, 'd, 'c, 'q) SendPath \<Rightarrow> 'd ReceivePath \<Rightarrow> ('su, 'kx, 'id, 'ex) ConnectionOutputs \<Rightarrow> 'st \<Rightarrow>
   (Error + ExtractedSecrets \<times> ('x, 'e, 'd, 'c, 'q, 'su, 'st) KernelConnection) option" where
  "from_parts_into_kernel_connection into_external_state sp recv outputs state =
     (if has_queued_key_update sp then Some (Inl (Error_ApiMisuse KernelConnectionWithPendingSendData))
      else let read_seq = ds_read_seq (rp_decrypt_state recv) in
      case SendPath_export sp of
        Inl e \<Rightarrow> Some (Inl e)
      | Inr (write_seq, tls13_key_schedule) \<Rightarrow>
          map_option (\<lambda>r. bindR r (\<lambda>secrets.
            bindR (KernelConnection_new state outputs tls13_key_schedule) (\<lambda>ext.
              Inr (\<lparr>es_tx = (write_seq, pes_tx secrets), es_rx = (read_seq, pes_rx secrets)\<rparr>, ext))))
            (into_external_state state tls13_key_schedule))"

definition dangerous_into_kernel_connection ::
  "('st \<Rightarrow> ('x, 'e, 'd, 'c, 'q) KeyScheduleTrafficSend option \<Rightarrow> (Error + PartiallyExtractedSecrets) option) \<Rightarrow>
   ('x, 'e, 'd, 'c, 'q, 'o) CaptureAppData \<Rightarrow> ('su, 'kx, 'id, 'ex) ConnectionOutputs \<Rightarrow> Error + 'st \<Rightarrow>
   (Error + ExtractedSecrets \<times> ('x, 'e, 'd, 'c, 'q, 'su, 'st) KernelConnection) option" where
  "dangerous_into_kernel_connection into_external_state w outputs state =
     (if is_handshaking w then Some (Inl Error_HandshakeNotComplete)
      else case state of
        Inl e \<Rightarrow> Some (Inl e)
      | Inr st \<Rightarrow> from_parts_into_kernel_connection into_external_state (cx_send w) (cx_recv w) outputs st)"


subsection \<open>The traffic states leave the deframer alone\<close>

lemma handle_key_update_deframer:
  assumes "handle_key_update classify dns_ok E input req ks w = Some (r, w')"
  shows "rp_deframer (cx_recv w') = rp_deframer (cx_recv w)"
  using assms by (auto simp: handle_key_update_def split: if_splits option.splits sum.splits)

lemma handle_new_ticket_deframer:
  assumes "handle_new_ticket_tls13 S st nst w = Some (r, w')"
  shows "rp_deframer (cx_recv w') = rp_deframer (cx_recv w)"
  using assms by (auto simp: handle_new_ticket_tls13_def Let_def)

lemma client_machine_keeps_deframer: "machine_keeps_deframer (client_traffic_machine classify dns_ok E S)"
proof -
  have "rp_deframer (cx_recv w') = rp_deframer (cx_recv w)"
    if "client_ExpectTraffic_handle classify dns_ok E S st input w = Some (r, w')" for st input w r w'
    using that handle_key_update_deframer handle_new_ticket_deframer
    by (auto simp: client_ExpectTraffic_handle_def received_plaintext_def Let_def
        split: MessagePayload.splits HandshakePayload.splits sum.splits)
  moreover have "rp_deframer (cx_recv w') = rp_deframer (cx_recv w)"
    if "client_ExpectQuicTraffic_handle S st input w = Some (r, w')" for st input w r w'
    using that handle_new_ticket_deframer by (auto simp: client_ExpectQuicTraffic_handle_def split: sum.splits)
  ultimately show ?thesis
    by (auto simp: machine_keeps_deframer_def client_traffic_machine_def split: ClientTrafficState.splits)
qed

lemma server_machine_keeps_deframer: "machine_keeps_deframer (server_traffic_machine classify dns_ok E)"
proof -
  have "rp_deframer (cx_recv w') = rp_deframer (cx_recv w)"
    if "server_ExpectTraffic_handle classify dns_ok E st input w = Some (r, w')" for st input w r w'
    using that handle_key_update_deframer
    by (auto simp: server_ExpectTraffic_handle_def received_plaintext_def Let_def
        split: MessagePayload.splits HandshakePayload.splits sum.splits)
  then show ?thesis
    by (auto simp: machine_keeps_deframer_def server_traffic_machine_def server_ExpectQuicTraffic_handle_def
        split: ServerTrafficState.splits)
qed

subsection \<open>Tickets resume the session they were issued in\<close>

lemma bindF_Some_Inr:
  "bindF m f s = Some (Inr r, s') \<longleftrightarrow> (\<exists>a s1. m s = Some (Inr a, s1) \<and> f a s1 = Some (Inr r, s'))"
  by (auto simp: bindF_def split: option.splits sum.splits)

lemmas fallible_simps = bindF_Some_Inr returnF_def failF_def liftF_def panicsF_def

text \<open>
  What \<open>emit_ticket\<close> does when it succeeds: nothing, or a ticket that stands for the values of the
  session, with the secret derived from its nonce.
\<close>

lemma emit_ticket_cases:
  assumes "emit_ticket classify dns_ok T S R cs identity alpn sni data resumption flight cfg = Some (Inr flight', cfg')"
  obtains (none) "flight' = flight"
  | (issued) nst secret now plain cfg1 where
      "KeyScheduleResumption_derive_ticket_psk resumption (nst13_nonce nst) = Some secret"
      "plain = ticket_plain cs identity alpn sni data now secret (nst13_age_add nst)"
      "issue_ticket T S R (ServerSessionValue_encode plain) cfg1 = Some (Inr (Some (nst13_ticket nst, nst13_lifetime nst)), cfg')"
      "tc_ticketer cfg1 = tc_ticketer cfg" "tc_storage cfg1 = tc_storage cfg" "tc_current_time cfg = Some now"
      "tc_ticketer_random cfg1 = tc_ticketer_random cfg"
      "flight' = HandshakeFlight_add classify dns_ok (HP_NewSessionTicketTls13 nst) flight"
      "nste_max_early_data_size (nst13_extensions nst) \<noteq> None \<longrightarrow> tc_ticketer cfg' = None"
proof -
  from assms obtain nonce cfg1 age cfg2 now secret iss where
    c1: "random_array R 32 cfg = Some (Inr nonce, cfg1)" and c2: "random_u32 R cfg1 = Some (Inr age, cfg2)" and
    c3: "tc_current_time cfg2 = Some now" and c4: "KeyScheduleResumption_derive_ticket_psk resumption nonce = Some secret" and
    c5: "issue_ticket T S R (ServerSessionValue_encode (ticket_plain cs identity alpn sni data now secret age)) cfg2 = Some (Inr iss, cfg')" and
    c6: "flight' = (case iss of None \<Rightarrow> flight
     | Some (t, lifetime) \<Rightarrow> HandshakeFlight_add classify dns_ok
         (HP_NewSessionTicketTls13 (ticket_message cfg' lifetime age nonce t)) flight)"
    by (auto simp: emit_ticket_def fallible_simps server_current_time_def split: option.splits)
  have k: "tc_ticketer cfg2 = tc_ticketer cfg" "tc_storage cfg2 = tc_storage cfg" "tc_current_time cfg2 = tc_current_time cfg"
    "tc_ticketer_random cfg2 = tc_ticketer_random cfg"
    using c1 c2 by (auto simp: random_u32_def random_array_def fallible_simps Let_def split: prod.splits)
  show thesis
  proof (cases iss)
    case None
    with c6 none show thesis by simp
  next
    case (Some tl)
    obtain t lifetime where tl: "tl = (t, lifetime)" by force
    let ?p = "ticket_message cfg' lifetime age nonce t"
    have f: "nst13_nonce ?p = nonce" "nst13_age_add ?p = age" "nst13_ticket ?p = t" "nst13_lifetime ?p = lifetime"
      "nste_max_early_data_size (nst13_extensions ?p) \<noteq> None \<longrightarrow> tc_ticketer cfg' = None"
      by (auto simp: ticket_message_def NewSessionTicketPayloadTls13_new_def NewSessionTicketExtensions_default_def Option.is_none_def Let_def)
    show thesis
      by (rule issued [of ?p secret _ now cfg2]) (use c3 c4 c5 c6 k f Some tl in simp_all)
  qed
qed

text \<open>A value that was issued as a ticket is found again by it.\<close>

lemma from_ticket_found:
  assumes "ServerSessionValue_wf dns_ok (SSV_Tls13 v)"
    "case ticketer of Some p \<Rightarrow> tp_decrypt T p t = Some (ServerSessionValue_encode (SSV_Tls13 v))
     | None \<Rightarrow> snd (ss_take S storage t) = Some (ServerSessionValue_encode (SSV_Tls13 v))"
  shows "fst (Tls13ServerSessionValue_from_ticket dns_ok T S t ticketer storage) = Some v"
  using assms(2) ssvc.read_bytes_encode [OF assms(1)]
  by (auto simp: Tls13ServerSessionValue_from_ticket_def split: option.splits prod.splits)

context ticket_producer begin

lemma stateless_issued:
  assumes "issue_ticket T S R plain cfg = Some (Inr (Some (t, lifetime)), cfg')" "tc_ticketer cfg = Some p"
    "able p (case tc_ticketer_random cfg of [] \<Rightarrow> None | r # _ \<Rightarrow> r) plain"
  shows "\<exists>p'. tc_ticketer cfg' = Some p' \<and> tp_decrypt T p' t = Some plain"
  using encrypt_able [OF assms(3)] assms(1,2)
  by (auto simp: issue_ticket_def stateless_ticket_def Let_def split: prod.splits option.splits)

end

end
