(* ===== verification/Resumption.thy ===== *)
theory Resumption
  imports Traffic
begin

text \<open>
  Resumption end to end: the tickets of \<open>rustls/src/server/tls13.rs\<close> in the stores of
  \<open>rustls/src/client/handy.rs\<close> and \<open>rustls/src/server/handy.rs\<close> and under the rotation of
  \<open>rustls/src/ticketer.rs\<close>, and the secrets of TLS 1.2.  The properties of the session components.
\<close>

subsection \<open>A stored session is found again\<close>

lemma memory_put_take:
  assumes "LimitedCache_inv s" "0 < lc_max s"
  shows "snd (ss_put ServerSessionMemoryCache s k v)"
    "snd (ss_take ServerSessionMemoryCache (fst (ss_put ServerSessionMemoryCache s k v)) k) = Some v"
  using cache_upsert_kept [OF assms]
  by (simp_all add: ServerSessionMemoryCache_def ServerSessionMemoryCache_put_def ServerSessionMemoryCache_take_def
      insert_is_upsert cache_remove_lookup)


lemma stateful_issued:
  assumes "issue_ticket T ServerSessionMemoryCache R plain cfg = Some (Inr (Some (t, lifetime)), cfg')"
    "tc_ticketer cfg = None" "LimitedCache_inv (tc_storage cfg)" "0 < lc_max (tc_storage cfg)"
  shows "tc_ticketer cfg' = None \<and> snd (ss_take ServerSessionMemoryCache (tc_storage cfg') t) = Some plain"
  using assms memory_put_take [OF assms(3,4)]
  by (auto simp: issue_ticket_def stateful_ticket_def random_array_def bindF_Some_Inr Let_def ok_or_Inr_iff
      split_beta split: if_splits)

context hkdf_provider begin

lemma ticket_psk_total:
  assumes "cs_hkdf_provider (suite (kss_state (ksr_ks r))) = H"
  shows "\<exists>okm. KeyScheduleResumption_derive_ticket_psk r nonce = Some okm \<and>
    length (OkmBlock_as_ref okm) \<le> OkmBlock_MAX_LEN"
proof -
  obtain x where x: "expander_for_okm H (ksr_resumption_master_secret r) = Some x" "valid x"
    using okm_valid by blast
  let ?info = "hkdf_label_info (ascii ''resumption'') nonce (expander_hash_len H x)"
  obtain okm where "expand_block H x ?info = Some okm" using block_slice [OF x(2)] by blast
  with block_length [OF x(2) this] hash_len [OF x(2)] x(1) show ?thesis
    by (auto simp: KeyScheduleResumption_derive_ticket_psk_def derive_ticket_psk_def assms Let_def
        hkdf_expand_label_block_def hkdf_expand_label_inner_def)
qed

end

text \<open>Whatever holds the ticket, the server finds the session it stands for.\<close>

lemma issued_found:
  assumes T: "ticket_producer T able foreign"
    and i: "issue_ticket T ServerSessionMemoryCache R (ServerSessionValue_encode (SSV_Tls13 v)) cfg =
      Some (Inr (Some (t, lifetime)), cfg')"
    and k: "case tc_ticketer cfg of
        Some p \<Rightarrow> able p (case tc_ticketer_random cfg of [] \<Rightarrow> None | r # _ \<Rightarrow> r) (ServerSessionValue_encode (SSV_Tls13 v))
      | None \<Rightarrow> LimitedCache_inv (tc_storage cfg) \<and> 0 < lc_max (tc_storage cfg)"
    and wf: "ServerSessionValue_wf dns_ok (SSV_Tls13 v)"
  shows "fst (Tls13ServerSessionValue_from_ticket dns_ok T ServerSessionMemoryCache t (tc_ticketer cfg') (tc_storage cfg')) = Some v"
proof (rule from_ticket_found [OF wf])
  show "case tc_ticketer cfg' of Some p \<Rightarrow> tp_decrypt T p t = Some (ServerSessionValue_encode (SSV_Tls13 v))
     | None \<Rightarrow> snd (ss_take ServerSessionMemoryCache (tc_storage cfg') t) = Some (ServerSessionValue_encode (SSV_Tls13 v))"
  proof (cases "tc_ticketer cfg")
    case None
    with stateful_issued [OF i None] k show ?thesis by simp
  next
    case (Some p)
    with ticket_producer.stateless_issued [OF T i Some] k show ?thesis by auto
  qed
qed

text \<open>The client keeps a ticket with the secret and the times that go with it.\<close>

lemma ticket_kept:
  assumes "KeyScheduleResumption_derive_ticket_psk (ct_resumption st) (nst13_nonce nst) = Some secret"
    "ce_current_time env = Some now" "\<not> is_quic (kss_state (kstr_ks (ct_key_schedule_recv st)))"
    "memory_store_inv n (ce_store env)" "0 < n"
  shows "\<exists>env'. handle_new_ticket_impl ClientSessionMemoryCache st nst env = Some (Inr (), env') \<and>
    snd (cs_take_tls13_ticket ClientSessionMemoryCache (ce_store env') (ct_session_key st)) =
      Some (Tls13Session_new nst (ct_session_input st) (OkmBlock_as_ref secret) now)"
  using assms memory_take_newest [OF assms(4,5)]
  by (simp add: handle_new_ticket_impl_def client_current_time_def Let_def)

subsection \<open>An example cipher\<close>

text \<open>An AEAD without secrecy: the text is kept, the tag is a constant.\<close>

definition plain_aead :: "unit Aead" where
  "plain_aead = \<lparr>aead_new_key = (\<lambda>_. Some ()), aead_key_len = 32, aead_tag_len = 16,
     aead_seal = (\<lambda>_ _ _ p. (p, Some (replicate 16 9))),
     aead_open_within = (\<lambda>_ _ _ buf start. let n = length buf - start - 16 in
       (take n (drop start buf) @ drop n buf, Some n))\<rparr>"

lemma plain_aead_lawful: "Aead_lawful plain_aead"
  by (auto simp: Aead_lawful_def plain_aead_def Let_def)

subsection \<open>Properties\<close>

text \<open>
  Claim C5. A ticket the server issues at the end of the handshake resumes the session. The client
  stores it and finds it next for that server; given back to the server it yields the values of the
  session it was issued in (server name, suite, peer identity, protocol, application data, time) and
  the same secret the client has; and the client's statement of its age is accepted as fresh exactly
  when the two ends' views of the age differ by at most a minute. For tickets under any lawful
  ticketer and for the session storage.
\<close>

theorem ticket_resumes:
  assumes T: "ticket_producer T able foreign"
    and emit: "emit_ticket classify dns_ok T ServerSessionMemoryCache R cs identity alpn sni data resumption flight cfg =
      Some (Inr flight', cfg')" "flight' \<noteq> flight"
    and time: "tc_current_time cfg = Some now"
    and kept: "case tc_ticketer cfg of
        Some p \<Rightarrow> \<forall>secret age. able p (case tc_ticketer_random cfg of [] \<Rightarrow> None | r # _ \<Rightarrow> r)
          (ServerSessionValue_encode (ticket_plain cs identity alpn sni data now secret age))
      | None \<Rightarrow> LimitedCache_inv (tc_storage cfg) \<and> 0 < lc_max (tc_storage cfg)"
    and common: "common = CommonServerSessionValue_new sni (csc_suite (cs_common cs)) identity alpn data now"
      "CommonServerSessionValue_wf dns_ok common"
    and hkdf: "hkdf_provider (cs_hkdf_provider (suite (kss_state (ksr_ks resumption)))) valid"
    and agreed: "KeyScheduleResumption_derive_ticket_psk (ct_resumption st) = KeyScheduleResumption_derive_ticket_psk resumption"
    and client: "ce_current_time env = Some now'" "\<not> is_quic (kss_state (kstr_ks (ct_key_schedule_recv st)))"
      "memory_store_inv n (ce_store env)" "0 < n"
  shows "\<exists>nst env' s v.
    flight' = HandshakeFlight_add classify dns_ok (HP_NewSessionTicketTls13 nst) flight \<and>
    handle_new_ticket_impl ClientSessionMemoryCache st nst env = Some (Inr (), env') \<and>
    snd (cs_take_tls13_ticket ClientSessionMemoryCache (ce_store env') (ct_session_key st)) = Some s \<and>
    fst (Tls13ServerSessionValue_from_ticket dns_ok T ServerSessionMemoryCache (cc_ticket (s13_common s))
      (tc_ticketer cfg') (tc_storage cfg')) = Some v \<and>
    v13_common v = common \<and> v13_secret v = s13_secret s \<and>
    (\<forall>t t'. (unat t - unat now') * 1000 < 2 ^ 32 \<longrightarrow> (unat t' - unat now) * 1000 < 2 ^ 32 \<longrightarrow>
      is_fresh (set_freshness (obfuscated_ticket_age \<lparr>ret_value = s, ret_retrieved_at = t\<rparr>) t' v) =
        (\<bar>int (unat t - unat now') - int (unat t' - unat now)\<bar> \<le> 60))"
  using emit(1)
proof (cases rule: emit_ticket_cases)
  case none
  with emit(2) show ?thesis by simp
next
  case (issued nst secret now1 plain cfg1)
  let ?v = "Tls13ServerSessionValue_new common (OkmBlock_as_ref secret) (nst13_age_add nst)"
  let ?s = "Tls13Session_new nst (ct_session_input st) (OkmBlock_as_ref secret) now'"
  have l: "length (OkmBlock_as_ref secret) \<le> OkmBlock_MAX_LEN"
    using hkdf_provider.ticket_psk_total [OF hkdf refl, of "nst13_nonce nst"] issued(1) by auto
  have n: "now1 = now" using issued(6) time by simp
  have plain: "plain = SSV_Tls13 ?v" using issued(2) by (simp add: n ticket_plain_def common(1))
  have "ServerSessionValue_wf dns_ok (SSV_Tls13 ?v)"
    using common(2) l by (simp add: Tls13ServerSessionValue_new_def OkmBlock_MAX_LEN_def)
  moreover have "case tc_ticketer cfg1 of
        Some p \<Rightarrow> able p (case tc_ticketer_random cfg1 of [] \<Rightarrow> None | r # _ \<Rightarrow> r) (ServerSessionValue_encode (SSV_Tls13 ?v))
      | None \<Rightarrow> LimitedCache_inv (tc_storage cfg1) \<and> 0 < lc_max (tc_storage cfg1)"
    using kept issued(2,4,5,7) plain n by (auto split: option.splits)
  ultimately have found: "fst (Tls13ServerSessionValue_from_ticket dns_ok T ServerSessionMemoryCache (nst13_ticket nst)
      (tc_ticketer cfg') (tc_storage cfg')) = Some ?v"
    using issued_found [OF T issued(3) [unfolded plain]] by simp
  have fresh: "is_fresh (set_freshness (obfuscated_ticket_age \<lparr>ret_value = ?s, ret_retrieved_at = t\<rparr>) t' ?v) =
      (\<bar>int (unat t - unat now') - int (unat t' - unat now)\<bar> \<le> 60)"
    if "(unat t - unat now') * 1000 < 2 ^ 32" "(unat t' - unat now) * 1000 < 2 ^ 32" for t t'
    using fresh_iff [of "\<lparr>ret_value = ?s, ret_retrieved_at = t\<rparr>" ?v t'] that
    by (simp add: Tls13Session_new_def Tls13ServerSessionValue_new_def ClientSessionCommon_new_def common(1)
        CommonServerSessionValue_new_def)
  obtain env' where "handle_new_ticket_impl ClientSessionMemoryCache st nst env = Some (Inr (), env')"
    "snd (cs_take_tls13_ticket ClientSessionMemoryCache (ce_store env') (ct_session_key st)) = Some ?s"
    using ticket_kept [OF issued(1) [folded agreed] client] by blast
  then show ?thesis
    using found fresh issued(8)
    by (intro exI [of _ nst] exI [of _ env'] exI [of _ ?s] exI [of _ ?v])
       (auto simp: Tls13Session_new_def Tls13ServerSessionValue_new_def ClientSessionCommon_new_def)
qed


text \<open>An example: a server that has the fuzzing provider's ticketer and random bytes that are all sevens.\<close>

definition example_resumption :: "(HkdfExpanderUsingHmac, unit, unit, unit, unit) KeyScheduleResumption" where
  "example_resumption = \<lparr>ksr_ks = \<lparr>kss_side = Side_Server, kss_state = Tcp_Suite TLS13_FUZZING_SUITE\<rparr>,
     ksr_resumption_master_secret = \<lparr>okm_buf = replicate 64 1, okm_used = 32\<rparr>\<rparr>"

definition example_tickets :: "(unit, ServerSessionMemoryCache, unit) ticket_config" where
  "example_tickets = \<lparr>tc_ticketer = Some (), tc_ticketer_random = [], tc_storage = ServerSessionMemoryCache_new 4,
     tc_random = (), tc_max_early_data_size = 0, tc_current_time = Some 1000\<rparr>"

definition example_random :: "unit SecureRandom" where
  "example_random = \<lparr>sr_fill = (\<lambda>_ n. (Some (replicate n 7), ()))\<rparr>"

definition example_traffic :: "(HkdfExpanderUsingHmac, unit, unit, unit, unit, bytes) client_ExpectTraffic" where
  "example_traffic = \<lparr>ct_enable_secret_extraction = False, ct_session_key = [1],
     ct_session_input = \<lparr>tci_suite = Tcp_Suite TLS13_FUZZING_SUITE, tci_peer_identity = Identity_RawPublicKey [],
       tci_quic_params = None\<rparr>,
     ct_key_schedule_recv = \<lparr>kstr_ks = \<lparr>kss_side = Side_Client, kss_state = Tcp_Suite TLS13_FUZZING_SUITE\<rparr>,
       kstr_current = \<lparr>okm_buf = replicate 64 1, okm_used = 32\<rparr>\<rparr>,
     ct_resumption = example_resumption\<lparr>ksr_ks := \<lparr>kss_side = Side_Client, kss_state = Tcp_Suite TLS13_FUZZING_SUITE\<rparr>\<rparr>,
     ct_counters = TrafficTemperCounters_default\<rparr>"

definition example_flight :: "unit HandshakeFlight" where
  "example_flight = HandshakeFlight_new (HandshakeHashBuffer_start_hash fuzz_Hash HandshakeHashBuffer_new)"

lemma HandshakeFlight_add_longer: "HandshakeFlight_add classify dns_ok m f \<noteq> f"
proof -
  have "hf_body (HandshakeFlight_add classify dns_ok m f) \<noteq> hf_body f"
    by (simp add: HandshakeFlight_add_def Let_def HandshakeMessagePayload_get_encoding_def
        HandshakeMessagePayload_payload_encode_def u8_encode_def)
  then show ?thesis by metis
qed

lemma example_resumption_hkdf:
  "hkdf_provider (cs_hkdf_provider (suite (kss_state (ksr_ks example_resumption)))) (\<lambda>x. xp_hmac x = fuzz_Hmac)"
  using fuzz_hkdf.hkdf_provider_axioms by (simp add: example_resumption_def TLS13_FUZZING_SUITE_def)

lemma example_emits:
  "\<exists>m cfg'. emit_ticket classify dns_ok fuzz_Ticketer ServerSessionMemoryCache example_random TLS13_FUZZING_SUITE
     identity alpn sni data example_resumption flight example_tickets =
   Some (Inr (HandshakeFlight_add classify dns_ok m flight), cfg')"
proof -
  obtain okm where "KeyScheduleResumption_derive_ticket_psk example_resumption (replicate 32 7) = Some okm"
    using hkdf_provider.ticket_psk_total [OF example_resumption_hkdf refl, of "replicate 32 7"] by blast
  then show ?thesis
    by (simp add: emit_ticket_def example_random_def example_tickets_def random_array_def random_u32_def bindF_def
        returnF_def server_current_time_def panicsF_def issue_ticket_def stateless_ticket_def fuzz_Ticketer_def Let_def
        split_beta del: replicate.simps) blast
qed

theorem ticket_resumes_witness:
  "\<exists>flight' cfg' nst env' s v.
    emit_ticket (\<lambda>_. ServerName_DnsName) (\<lambda>_. True) fuzz_Ticketer ServerSessionMemoryCache example_random
      TLS13_FUZZING_SUITE None None None [9] example_resumption example_flight example_tickets = Some (Inr flight', cfg') \<and>
    handle_new_ticket_impl ClientSessionMemoryCache example_traffic nst
      \<lparr>ce_current_time = Some 1001, ce_store = ClientSessionMemoryCache_new 8 :: (bytes, unit, _) ClientSessionMemoryCache\<rparr> =
      Some (Inr (), env') \<and>
    snd (cs_take_tls13_ticket ClientSessionMemoryCache (ce_store env') (ct_session_key example_traffic)) = Some s \<and>
    fst (Tls13ServerSessionValue_from_ticket (\<lambda>_. True) fuzz_Ticketer ServerSessionMemoryCache (cc_ticket (s13_common s))
      (tc_ticketer cfg') (tc_storage cfg')) = Some v \<and>
    sv_application_data (v13_common v) = [9] \<and> v13_secret v = s13_secret s"
proof -
  let ?env = "\<lparr>ce_current_time = Some 1001, ce_store = ClientSessionMemoryCache_new 8 :: (bytes, unit, _) ClientSessionMemoryCache\<rparr>"
  let ?common = "CommonServerSessionValue_new None (csc_suite (cs_common TLS13_FUZZING_SUITE)) None None [9] 1000"
  obtain m cfg' where e: "emit_ticket (\<lambda>_. ServerName_DnsName) (\<lambda>_. True) fuzz_Ticketer ServerSessionMemoryCache example_random
      TLS13_FUZZING_SUITE None None None [9] example_resumption example_flight example_tickets =
      Some (Inr (HandshakeFlight_add (\<lambda>_. ServerName_DnsName) (\<lambda>_. True) m example_flight), cfg')"
    using example_emits by blast
  have inv: "memory_store_inv 1 (ce_store ?env)"
    using memory_new_inv [of 8] by (simp add: ClientSessionMemoryCache_new_def LimitedCache_new_def saturating_add_def
        usize_MAX_def MAX_TLS13_TICKETS_PER_SERVER_def)
  have "\<exists>nst env' s v.
    HandshakeFlight_add (\<lambda>_. ServerName_DnsName) (\<lambda>_. True) m example_flight =
      HandshakeFlight_add (\<lambda>_. ServerName_DnsName) (\<lambda>_. True) (HP_NewSessionTicketTls13 nst) example_flight \<and>
    handle_new_ticket_impl ClientSessionMemoryCache example_traffic nst ?env = Some (Inr (), env') \<and>
    snd (cs_take_tls13_ticket ClientSessionMemoryCache (ce_store env') (ct_session_key example_traffic)) = Some s \<and>
    fst (Tls13ServerSessionValue_from_ticket (\<lambda>_. True) fuzz_Ticketer ServerSessionMemoryCache (cc_ticket (s13_common s))
      (tc_ticketer cfg') (tc_storage cfg')) = Some v \<and>
    v13_common v = ?common \<and> v13_secret v = s13_secret s \<and>
    (\<forall>t t'. (unat t - unat (1001 :: u64)) * 1000 < 2 ^ 32 \<longrightarrow> (unat t' - unat (1000 :: u64)) * 1000 < 2 ^ 32 \<longrightarrow>
      is_fresh (set_freshness (obfuscated_ticket_age \<lparr>ret_value = s, ret_retrieved_at = t\<rparr>) t' v) =
        (\<bar>int (unat t - unat (1001 :: u64)) - int (unat t' - unat (1000 :: u64))\<bar> \<le> 60))"
    by (rule ticket_resumes [OF fuzz_ticketer.ticket_producer_axioms e HandshakeFlight_add_longer, where n = 1])
       (use inv example_resumption_hkdf in \<open>simp_all add: example_tickets_def CommonServerSessionValue_wf_def CommonServerSessionValue_new_def
          example_traffic_def example_resumption_def KeyScheduleResumption_derive_ticket_psk_def derive_ticket_psk_def fun_eq_iff\<close>)
  then obtain nst env' s v where r: "handle_new_ticket_impl ClientSessionMemoryCache example_traffic nst ?env = Some (Inr (), env')"
    "snd (cs_take_tls13_ticket ClientSessionMemoryCache (ce_store env') (ct_session_key example_traffic)) = Some s"
    "fst (Tls13ServerSessionValue_from_ticket (\<lambda>_. True) fuzz_Ticketer ServerSessionMemoryCache (cc_ticket (s13_common s))
      (tc_ticketer cfg') (tc_storage cfg')) = Some v" "v13_common v = ?common" "v13_secret v = s13_secret s"
    by blast
  have "sv_application_data (v13_common v) = [9]" by (simp add: r(4) CommonServerSessionValue_new_def)
  with e r(1,2,3,5) show ?thesis by blast
qed


text \<open>
  Claim C22. Whatever is done with a client's session store, each TLS 1.3 ticket that was inserted for a
  server is handed out at most once and for that server only; a key exchange hint or a TLS 1.2 session
  found for a server is the one most recently set for it, and a session removed is gone.
\<close>

theorem tickets_used_once:
  fixes ops :: "('k, 'a, 't) client_store_op list"
  shows "case client_store_run ClientSessionMemoryCache (ClientSessionMemoryCache_new n) ops of (s, taken) \<Rightarrow>
    memory_tickets s k + tickets_of k taken \<subseteq># tickets_of k (inserted_tickets ops) \<and>
    cs_kx_hint ClientSessionMemoryCache s \<subseteq>\<^sub>m hint_spec Map.empty ops \<and>
    cs_tls12_session ClientSessionMemoryCache s \<subseteq>\<^sub>m tls12_spec Map.empty ops"
proof -
  define s0 :: "('k, 'a, 't) ClientSessionMemoryCache" where "s0 = ClientSessionMemoryCache_new n"
  have e: "memory_tickets s0 k = {#}" "cs_kx_hint ClientSessionMemoryCache s0 = Map.empty"
    "cs_tls12_session ClientSessionMemoryCache s0 = Map.empty"
    by (simp_all add: s0_def memory_tickets_def memory_client_store_defs ClientSessionMemoryCache_new_def LimitedCache_new_def
        LimitedCache_get_def fun_eq_iff)
  show ?thesis
    using memory_client_store.run_tickets [of s0 ops k] memory_client_store.run_hints [of s0 Map.empty ops]
      memory_client_store.run_tls12 [of s0 Map.empty ops]
    by (simp add: e split_beta flip: s0_def)
qed

text \<open>
  Claim C25. A client's session store keeps its representation invariant and its limits whatever is done
  with it: entries and their order of age agree, at most an eighth of the configured number of sessions
  (rounded up) servers are remembered, and at most eight tickets for each.
\<close>

theorem client_store_bounded:
  fixes ops :: "('k, 'a, 't) client_store_op list"
  shows "let s0 = ClientSessionMemoryCache_new n; s = fst (client_store_run ClientSessionMemoryCache s0 ops) in
    memory_store_inv (lc_max s0) s \<and> card (dom (lc_map s)) \<le> (n + 7) div 8 \<and> size (memory_tickets s k) \<le> 8"
proof -
  define s0 :: "('k, 'a, 't) ClientSessionMemoryCache" where "s0 = ClientSessionMemoryCache_new n"
  define s where "s = fst (client_store_run ClientSessionMemoryCache s0 ops)"
  have inv: "memory_store_inv (lc_max s0) s"
    unfolding s_def s0_def by (rule memory_run_inv [OF memory_new_inv])
  have "lc_max s0 \<le> (n + 7) div 8" unfolding s0_def by (rule max_servers_bound)
  with memory_store_sizes(1) [OF inv] memory_store_sizes(2) [OF inv, of k] inv show ?thesis by (simp add: Let_def flip: s0_def s_def)
qed




text \<open>
  Claim C24. No ticket outlives the ticketer that made it by more than a lifetime: when every ticketer
  held either did not make the ticket or expired more than a lifetime ago, and a freshly generated one
  did not make it either, the ticket is refused.
\<close>

theorem tickets_refused_after_expiry:
  assumes "ticket_producer T able foreign"
    and "\<And>g. current st = Some g \<or> previous st = Some g \<Longrightarrow> foreign (producer g) c \<or> expires_at g + lifetime < now"
    and "\<And>p. generated = Inr p \<Longrightarrow> foreign p c"
  shows "snd (decrypt_at T lifetime generated now c st) = None"
  by (rule ticket_producer.refused_after_expiry [OF assms])

theorem tickets_refused_after_expiry_witness:
  "snd (decrypt_at fuzz_Ticketer 10 (Inl Error_EncryptError) 100 [1]
     \<lparr>current = Some \<lparr>producer = (), expires_at = 50\<rparr>, previous = Some \<lparr>producer = (), expires_at = 40\<rparr>\<rparr>) = None"
  by (rule tickets_refused_after_expiry [OF fuzz_ticketer.ticket_producer_axioms]) auto

text \<open>
  Claim C19. The chunked PRF over an HMAC is P\_hash of RFC 5246 over the label and seed, for every output
  length.
\<close>

theorem prf_rfc5246:
  assumes "Hmac_lawful H"
  shows "tls12_prf H n secret label seed =
    Some (take n (concat (map (\<lambda>i. hmac_bytes H secret (prf_A H secret (label @ seed) i @ label @ seed)) [1..<1 + n])))"
  using tls12_prf_eq [OF assms, of n secret label seed] by (simp add: P_hash_def)

theorem prf_rfc5246_witness:
  "tls12_prf fuzz_Hmac 80 [1] [2] [3] =
    Some (take 80 (concat (map (\<lambda>i. hmac_bytes fuzz_Hmac [1] (prf_A fuzz_Hmac [1] ([2] @ [3]) i @ [2] @ [3])) [1..<1 + 80])))"
  by (rule prf_rfc5246 [OF fuzz_Hmac_lawful])

text \<open>
  Claim C9. In TLS 1.2 a key exchange that agreed on a secret gives both ends the master secret of
  RFC 5246 or, with a session hash, of RFC 7627, and from it cipher pairs that match in both
  directions, without a panic; a session resumed with that master secret gives matching pairs
  again. For the AES-GCM suites of the ring provider over any lawful AEAD and HMAC.
\<close>

theorem tls12_keys_agree:
  assumes "Hmac_lawful H" "Aead_lawful A" "aead_key_len A \<le> AeadKey_MAX_LEN"
    and "t12_prf_provider cs = PrfUsingHmac H" "t12_aead_alg cs = ring_GcmAlgorithm A"
  shows "\<exists>s r. ConnectionSecrets_from_key_exchange (Inr z) ems randoms cs = Some (Inr s) \<and>
    sec_master_secret s = P_hash H z (case ems of
        Some seed \<Rightarrow> ascii ''extended master secret'' @ seed
      | None \<Rightarrow> ascii ''master secret'' @ randoms_client randoms @ randoms_server randoms) 48 \<and>
    ConnectionSecrets_new_resume randoms' cs (sec_master_secret s) = Some r \<and>
    (\<forall>k \<in> {s, r}. \<exists>dc ec ds es. make_cipher_pair k Side_Client = Some (dc, ec) \<and>
      make_cipher_pair k Side_Server = Some (ds, es) \<and>
      gd_key ds = rc_key ec \<and> gd_salt ds = take 4 (Iv_as_ref (rc_iv ec)) \<and>
      gd_key dc = rc_key es \<and> gd_salt dc = take 4 (Iv_as_ref (rc_iv es)))"
proof -
  let ?paired = "\<lambda>e d. gd_key d = rc_key e \<and> iv12 (rc_iv e) \<and> gd_salt d = take 4 (Iv_as_ref (rc_iv e))"
  have k: "tls12_keys (PrfUsingHmac H) (\<lambda>_. True) (ring_GcmAlgorithm A) ?paired"
    unfolding tls12_keys_def
    using PrfUsingHmac_provider [OF assms(1)] ring_GcmAlgorithm_aead [OF assms(2,3)] by simp
  obtain s where s: "ConnectionSecrets_from_key_exchange (Inr z) ems randoms cs = Some (Inr s)" "sec_suite s = cs"
    "length (sec_master_secret s) = 48"
    using tls12_keys.exchange_total [OF k assms(4)] by blast
  obtain r where r: "ConnectionSecrets_new_resume randoms' cs (sec_master_secret s) = Some r" "sec_suite r = cs"
    using tls12_keys.resume_total [OF k assms(4) s(3)] by blast
  have ms: "sec_master_secret s = P_hash H z (case ems of
        Some seed \<Rightarrow> ascii ''extended master secret'' @ seed
      | None \<Rightarrow> ascii ''master secret'' @ randoms_client randoms @ randoms_server randoms) 48"
    using s(1) by (auto simp: ConnectionSecrets_from_key_exchange_def assms(4) PrfUsingHmac_def
        PrfUsingHmac_for_key_exchange_def tls12_prf_eq [OF assms(1)] join_randoms_def split: option.splits)
  show ?thesis
    using s r ms tls12_keys.ciphers_match [OF k, of s] tls12_keys.ciphers_match [OF k, of r] assms(4,5) by fastforce
qed

definition example_suite12 :: "(bytes, unit RingCipher, unit GcmDecrypter, unit) Tls12CipherSuite" where
  "example_suite12 = \<lparr>t12_common = \<lparr>csc_suite = 0xc02f, csc_hash_provider = fuzz_Hash, csc_confidentiality_limit = 1000\<rparr>,
     t12_prf_provider = PrfUsingHmac fuzz_Hmac, t12_kx = ECDHE, t12_sign = [],
     t12_aead_alg = ring_GcmAlgorithm plain_aead\<rparr>"

theorem tls12_keys_agree_witness:
  "\<exists>s dc ec ds es. ConnectionSecrets_from_key_exchange (Inr [7]) None \<lparr>randoms_client = [1], randoms_server = [2]\<rparr>
      example_suite12 = Some (Inr s) \<and>
    make_cipher_pair s Side_Client = Some (dc, ec) \<and> make_cipher_pair s Side_Server = Some (ds, es) \<and>
    gd_key ds = rc_key ec \<and> gd_key dc = rc_key es"
proof -
  have "aead_key_len plain_aead \<le> AeadKey_MAX_LEN" "t12_prf_provider example_suite12 = PrfUsingHmac fuzz_Hmac"
    "t12_aead_alg example_suite12 = ring_GcmAlgorithm plain_aead"
    by (simp_all add: plain_aead_def AeadKey_MAX_LEN_def example_suite12_def)
  from tls12_keys_agree [OF fuzz_Hmac_lawful plain_aead_lawful this, of "[7]" None "\<lparr>randoms_client = [1], randoms_server = [2]\<rparr>"]
  show ?thesis by blast
qed




end
