(* ===== verification/Delivery.thy ===== *)
theory Delivery
  imports Record_Path Traffic
begin

text \<open>
  Two connections against each other: what one end writes with \<open>Connection::write\<close> is what the other
  end's \<open>MessageHandler::handle_all\<close> returns, for every cipher that meets \<open>record_protection\<close>, every
  input buffer that meets \<open>tls_input_buffer\<close>, and the traffic states of client and server.
\<close>

subsection \<open>States that take application data\<close>

locale data_machine =
  fixes M :: "('s, ('x, 'e, 'd, 'c, 'q, 'o) CaptureAppData, 'o) StateMachine" and traffic :: "'s \<Rightarrow> bool"
  assumes wants_input: "traffic st \<Longrightarrow> sm_wants_input M st"
    and takes_data: "traffic st \<Longrightarrow> msg_payload (in_message input) = MP_ApplicationData p \<Longrightarrow>
      \<exists>st'. traffic st' \<and> sm_handle M st input w = Some (Inr st', received_plaintext (Traffic p) w)"

interpretation client_data: data_machine "client_traffic_machine classify dns_ok E S" "\<lambda>st. \<exists>t. st = Client_Traffic t"
  for classify dns_ok E S
  by unfold_locales (auto simp: client_traffic_machine_def client_ExpectTraffic_handle_def)

interpretation server_data: data_machine "server_traffic_machine classify dns_ok E" "\<lambda>st. \<exists>t. st = Server_Traffic t"
  for classify dns_ok E
  by unfold_locales (auto simp: server_traffic_machine_def server_ExpectTraffic_handle_def)

subsection \<open>One record\<close>

lemma handle_data_record:
  assumes M: "data_machine M traffic" "traffic st" and r: "rec_typ r = ContentType_ApplicationData"
  shows "\<exists>st'. traffic st' \<and> handle_record classify dns_ok E M Mode_All st r w =
    Some (Inr st', received_plaintext (Traffic (rec_payload r)) w)"
proof -
  let ?m = "\<lparr>msg_version = rec_version r, msg_payload = MP_ApplicationData (rec_payload r)\<rparr>"
  let ?input = "\<lparr>in_message = ?m, in_aligned_handshake = Deframer_aligned (rp_deframer (cx_recv w))\<rparr>"
  obtain st' where st': "traffic st'" "sm_handle M st ?input w = Some (Inr st', received_plaintext (Traffic (rec_payload r)) w)"
    using data_machine.takes_data [OF M, of ?input] by auto
  have "receive_record classify dns_ok E r (Deframer_aligned (rp_deframer (cx_recv w))) (cx_recv w) (cx_send w) (cx_tls w) =
      Some (Inr (Some ?input), cx_recv w, cx_send w, cx_tls w)"
    using r by (simp add: receive_record_def Message_try_from_def MessagePayload_new_def reject_renegotiation_request_def
        Message_handshake_type_def Let_def)
  with st' data_machine.wants_input [OF M(1) st'(1)] show ?thesis
    by (simp add: handle_record_def Let_def)
qed

text \<open>The next payload, whatever the input buffer is, once the record is out of it.\<close>

lemma next_delivers:
  assumes M: "data_machine M traffic" "traffic st"
    and dr: "rec_typ (dr_plaintext dr) = ContentType_ApplicationData" "\<not> dr_want_close_before_decrypt dr"
    and rp: "\<not> rp_has_received_close_notify rp" "cx_received_plaintext w = None"
  obtains st' where "traffic st'"
    "\<And>n I i buf. ReceivePath_deframe D (ib_slice I i) (cx_recv w) = Some (Inr (Some dr), rp, buf) \<Longrightarrow>
       MessageIter_next (Suc n) classify dns_ok E D I M Mode_All False (Inr st) i w =
       Some (Some (Some (Inr (rec_payload (dr_plaintext dr))), Inr st', ib_write I buf i, w\<lparr>cx_recv := rp\<rparr>))"
proof -
  obtain st' where st': "traffic st'" "handle_record classify dns_ok E M Mode_All st (dr_plaintext dr) (w\<lparr>cx_recv := rp\<rparr>) =
      Some (Inr st', received_plaintext (Traffic (rec_payload (dr_plaintext dr))) (w\<lparr>cx_recv := rp\<rparr>))"
    using handle_data_record [OF M dr(1)] by blast
  have w: "w\<lparr>cx_received_plaintext := None\<rparr> = w" "w\<lparr>cx_recv := rp, cx_received_plaintext := None\<rparr> = w\<lparr>cx_recv := rp\<rparr>"
    using rp(2) by simp_all
  have "MessageIter_next (Suc n) classify dns_ok E D I M Mode_All False (Inr st) i w =
       Some (Some (Some (Inr (rec_payload (dr_plaintext dr))), Inr st', ib_write I buf i, w\<lparr>cx_recv := rp\<rparr>))"
    if "ReceivePath_deframe D (ib_slice I i) (cx_recv w) = Some (Inr (Some dr), rp, buf)" for n I i buf
    using data_machine.wants_input [OF M] that dr st'(2) rp(1)
    by (simp add: MessageIter_next_def w next_turn_def end_turn_def received_plaintext_def Let_def)
  with st'(1) show thesis by (rule that)
qed

lemma deframe_end:
  assumes "deframer_at (length buf) (rp_deframer rp)"
  shows "ReceivePath_deframe D buf rp = Some (Inr None, rp, buf)"
proof -
  have "Deframer_deframe buf (rp_deframer rp) = (None, rp_deframer rp)"
    using assms by (simp add: Deframer_deframe_def deframer_at_def read_record_header_def wire_simps enum_read_def u8_read_def Reader_take_array_def)
  with assms show ?thesis
    by (simp add: ReceivePath_deframe_def deframe_loop.simps [of D False buf rp] deframe_next.simps [of D buf rp]
        deframe_decrypted_def deframer_at_def Deframer_complete_span_def)
qed

subsection \<open>Two ends in step\<close>

text \<open>What reading records changes of a receive path.\<close>

definition reading :: "'d ReceivePath \<Rightarrow> 'd ReceivePath \<Rightarrow> bool" where
  "reading rp rp' \<longleftrightarrow>
     (\<exists>df ds k. rp' = rp\<lparr>rp_deframer := df, rp_decrypt_state := ds, rp_seen_consecutive_empty_fragments := k\<rparr>)"

lemma reading_refl [simp]: "reading rp rp"
  unfolding reading_def
  by (intro exI [of _ "rp_deframer rp"] exI [of _ "rp_decrypt_state rp"] exI [of _ "rp_seen_consecutive_empty_fragments rp"]) simp

lemma reading_trans: "reading rp rp1 \<Longrightarrow> reading rp1 rp2 \<Longrightarrow> reading rp rp2"
  by (auto simp: reading_def) (metis ReceivePath.update_convs)

lemma reading_closed: "reading rp rp' \<Longrightarrow> rp_has_received_close_notify rp' = rp_has_received_close_notify rp"
  by (auto simp: reading_def)

text \<open>
  A connection is ready to read what the other end encrypts: the ends are in step, the first \<open>n\<close>
  bytes of its input are used up and may go, the peer has not closed, and no plaintext is pending.
\<close>

definition may_read ::
  "('e \<Rightarrow> 'd \<Rightarrow> bool) \<Rightarrow> ('x, 'e, 'd, 'c, 'q) Encrypting \<Rightarrow> ('y, 'f, 'd, 'g, 'h, 'o) CaptureAppData \<Rightarrow> usize \<Rightarrow> bool" where
  "may_read paired eg w n \<longleftrightarrow> in_step paired eg (cx_recv w) n \<and> df_discard (rp_deframer (cx_recv w)) = n \<and>
     \<not> rp_has_received_close_notify (cx_recv w) \<and> cx_received_plaintext w = None"

text \<open>A connection may write \<open>n\<close> more bytes of application data under its keys.\<close>

definition may_write :: "('x, 'e, 'd, 'c, 'q) Encrypting \<Rightarrow> ('x, 'e, 'd, 'c, 'q) SendPath \<Rightarrow> nat \<Rightarrow> bool" where
  "may_write eg sp n \<longleftrightarrow>
     sp_encrypt_state sp = ES_Encrypting eg \<and> sp_may_send_application_data sp \<and> \<not> sp_has_sent_close_notify sp \<and>
     eg_key_update_remote eg = KeyUpdateRemote_Idle \<and> Fragmenter_wf (sp_fragmenter sp) \<and>
     unat (eg_write_seq eg) + n < unat (eg_write_seq_max eg) \<and> eg_write_seq_max eg \<le> SEQ_SOFT_LIMIT"

lemma may_readI:
  assumes "in_step paired eg rp' n" "record_frame (cx_recv w) rp' n"
    and w: "\<not> rp_has_received_close_notify (cx_recv w)" "cx_received_plaintext w = None"
  shows "may_read paired eg (w\<lparr>cx_recv := rp'\<rparr>) n \<and> reading (cx_recv w) rp'"
  using assms reading_closed [of "cx_recv w" rp'] by (auto simp: may_read_def record_frame_def reading_def)

text \<open>Encrypting records changes the cipher and its sequence number, nothing else.\<close>

definition encrypted_since :: "('x, 'e, 'd, 'c, 'q) Encrypting \<Rightarrow> ('x, 'e, 'd, 'c, 'q) Encrypting \<Rightarrow> nat \<Rightarrow> bool" where
  "encrypted_since eg eg' n \<longleftrightarrow> unat (eg_write_seq eg') = unat (eg_write_seq eg) + n \<and>
     eg_write_seq_max eg' = eg_write_seq_max eg \<and> eg_key_update_remote eg' = eg_key_update_remote eg"

lemma may_write_since:
  assumes "may_write eg sp n" "encrypted_since eg eg' k" "k + m \<le> n"
  shows "may_write eg' (sp\<lparr>sp_encrypt_state := ES_Encrypting eg'\<rparr>) m"
  using assms by (simp add: may_write_def encrypted_since_def)

subsection \<open>A batch of records\<close>

text \<open>Everything an application writes, in as many calls as it likes.\<close>

primrec write_all ::
  "(bytes \<Rightarrow> ServerNameKind) \<Rightarrow> (bytes \<Rightarrow> bool) \<Rightarrow> 'e RecordEncrypter \<Rightarrow> Error + 's \<Rightarrow> OutboundPlain list \<Rightarrow>
   (('x, 'e, 'd, 'c, 'q) SendPath, unit) sending" where
  "write_all classify dns_ok E state [] = returnS ()"
| "write_all classify dns_ok E state (p # ps) =
     bindS (Connection_write classify dns_ok E state p) (\<lambda>_. write_all classify dns_ok E state ps)"

definition written :: "OutboundPlain list \<Rightarrow> bytes" where
  "written ps = concat (map OutboundPlain_to_vec ps)"

abbreviation write_len :: "OutboundPlain list \<Rightarrow> nat" where
  "write_len ps \<equiv> sum_list (map OutboundPlain_len ps)"

locale delivery = record_protection E D paired admits received_version + buffer: tls_input_buffer I valid
  for E :: "'e RecordEncrypter" and D :: "'d RecordDecrypter" and paired admits received_version
    and I :: "'i TlsInputBuffer" and valid
begin

lemma records_delivered:
  fixes M :: "('s, ('x, 'e, 'd, 'c, 'q, 'o) CaptureAppData, 'o) StateMachine"
  assumes M: "data_machine M traffic"
  shows "\<lbrakk>may_read paired eg w (length pre);
    \<forall>p \<in> set rs. plain_data admits p \<and> rec_typ p = ContentType_ApplicationData;
    unat (eg_write_seq eg) + length rs < unat (eg_write_seq_max eg); eg_write_seq_max eg \<le> SEQ_SOFT_LIMIT;
    traffic st\<rbrakk> \<Longrightarrow>
   \<exists>eg' wire rp' pre' st'. encrypt_record_loop classify dns_ok E rs eg tls = Some (Inr (), eg', tls @ wire) \<and>
    may_read paired eg' (w\<lparr>cx_recv := rp'\<rparr>) (length pre') \<and> reading (cx_recv w) rp' \<and>
    encrypted_since eg eg' (length rs) \<and> traffic st' \<and>
    (\<forall>rest n buf i. valid i \<longrightarrow> ib_slice I i = pre @ wire @ rest \<longrightarrow>
      (\<exists>i'. valid i' \<and> ib_slice I i' = pre' @ rest \<and>
        handle_all_loop (length rs + n) classify' dns_ok' E' D I M buf (Inr st) i w =
        handle_all_loop n classify' dns_ok' E' D I M (buf @ concat (map (\<lambda>r. OutboundPlain_to_vec (rec_payload r)) rs))
          (Inr st') i' (w\<lparr>cx_recv := rp'\<rparr>)))"
proof (induction rs arbitrary: eg w pre tls st)
  case Nil
  then show ?case
    by (intro exI [of _ eg] exI [of _ "[]"] exI [of _ "cx_recv w"] exI [of _ pre] exI [of _ st]) (auto simp: returnS_def encrypted_since_def)
next
  case (Cons p rs)
  have lt: "eg_write_seq eg < SEQ_HARD_LIMIT" "\<not> eg_write_seq_max eg \<le> eg_write_seq eg + 1" "eg_write_seq eg \<noteq> SEQ_SOFT_LIMIT"
    and inc: "unat (eg_write_seq eg + 1) = unat (eg_write_seq eg) + 1"
  proof -
    have u: "unat (eg_write_seq eg) + 1 < unat (eg_write_seq_max eg)" "unat (eg_write_seq_max eg) < 2 ^ 64"
      using Cons.prems(3) unsigned_less [of "eg_write_seq_max eg"] by simp_all
    then have "unat (eg_write_seq eg) + 1 < 2 ^ 64" by (rule less_trans)
    then show inc: "unat (eg_write_seq eg + 1) = unat (eg_write_seq eg) + 1" by (simp add: unat_word_ariths)
    have m: "eg_write_seq eg < SEQ_SOFT_LIMIT" "SEQ_SOFT_LIMIT < SEQ_HARD_LIMIT"
      using u(1) Cons.prems(4) by (simp_all add: word_less_nat_alt word_le_nat_alt SEQ_SOFT_LIMIT_def SEQ_HARD_LIMIT_def)
    then show "eg_write_seq eg < SEQ_HARD_LIMIT" "eg_write_seq eg \<noteq> SEQ_SOFT_LIMIT" by auto
    show "\<not> eg_write_seq_max eg \<le> eg_write_seq eg + 1" using u(1) inc by (simp add: word_le_nat_alt)
  qed
  have r: "in_step paired eg (cx_recv w) (length pre)" "\<not> rp_has_received_close_notify (cx_recv w)" "cx_received_plaintext w = None"
    using Cons.prems(1) by (simp_all add: may_read_def)
  from one_record_arrives [OF r(1) _ lt(1), of p tls] Cons.prems(2) obtain e' wire dr rp1 pre1 where
    one: "encrypt_outgoing E p eg tls = Some (Inr (), advance_write e' eg, tls @ wire)"
      "\<And>rest. ReceivePath_deframe D (pre @ wire @ rest) (cx_recv w) = Some (Inr (Some dr), rp1, pre1 @ rest)"
      "dr_plaintext dr = received_record received_version p" "in_step paired (advance_write e' eg) rp1 (length pre1)"
      "\<not> dr_want_close_before_decrypt dr" "record_frame (cx_recv w) rp1 (length pre1)"
      "length pre1 = length pre + length wire"
    using lt(3) by auto
  let ?w = "w\<lparr>cx_recv := rp1\<rparr>"
  have mr: "may_read paired (advance_write e' eg) ?w (length pre1)" "reading (cx_recv w) rp1"
    using may_readI [OF one(4,6) r(2,3)] by simp_all
  then have nc: "\<not> rp_has_received_close_notify rp1" by (simp add: may_read_def)
  have ty: "rec_typ (dr_plaintext dr) = ContentType_ApplicationData" "rec_payload (dr_plaintext dr) = OutboundPlain_to_vec (rec_payload p)"
    using one(3) Cons.prems(2) by (simp_all add: received_record_def)
  obtain st1 where st1: "traffic st1"
    "\<And>n i buf. ReceivePath_deframe D (ib_slice I i) (cx_recv w) = Some (Inr (Some dr), rp1, buf) \<Longrightarrow>
       MessageIter_next (Suc n) classify' dns_ok' E' D I M Mode_All False (Inr st) i w =
       Some (Some (Some (Inr (OutboundPlain_to_vec (rec_payload p))), Inr st1, ib_write I buf i, ?w))"
    using next_delivers [OF M Cons.prems(5) ty(1) one(5) nc r(3), of D classify' dns_ok' E'] unfolding ty(2) by metis
  have pre: "\<forall>p \<in> set rs. plain_data admits p \<and> rec_typ p = ContentType_ApplicationData"
    "unat (eg_write_seq (advance_write e' eg)) + length rs < unat (eg_write_seq_max (advance_write e' eg))"
    "eg_write_seq_max (advance_write e' eg) \<le> SEQ_SOFT_LIMIT"
    using Cons.prems(2-4) inc by (simp_all add: advance_write_def)
  note ih = Cons.IH [OF mr(1) pre st1(1), where tls = "tls @ wire"]
  obtain eg' wire' rp' pre' st' where
    more: "encrypt_record_loop classify dns_ok E rs (advance_write e' eg) (tls @ wire) = Some (Inr (), eg', (tls @ wire) @ wire')"
      "may_read paired eg' (?w\<lparr>cx_recv := rp'\<rparr>) (length pre')" "reading (cx_recv ?w) rp'"
      "encrypted_since (advance_write e' eg) eg' (length rs)" "traffic st'"
      "\<forall>rest n buf i. valid i \<longrightarrow> ib_slice I i = pre1 @ wire' @ rest \<longrightarrow>
        (\<exists>i'. valid i' \<and> ib_slice I i' = pre' @ rest \<and>
        handle_all_loop (length rs + n) classify' dns_ok' E' D I M buf (Inr st1) i ?w =
        handle_all_loop n classify' dns_ok' E' D I M (buf @ concat (map (\<lambda>r. OutboundPlain_to_vec (rec_payload r)) rs))
          (Inr st') i' (?w\<lparr>cx_recv := rp'\<rparr>))"
    using ih by blast
  have enc: "encrypt_record_loop classify dns_ok E (p # rs) eg tls = Some (Inr (), eg', tls @ wire @ wire')"
    using lt(2) one(1) more(1) by (simp add: bindS_def returnS_def)
  have fr: "reading (cx_recv w) rp'" "encrypted_since eg eg' (length (p # rs))" "may_read paired eg' (w\<lparr>cx_recv := rp'\<rparr>) (length pre')"
    using reading_trans [OF mr(2)] more(2-4) inc by (simp_all add: encrypted_since_def advance_write_def)
  have recv: "\<exists>i'. valid i' \<and> ib_slice I i' = pre' @ rest \<and>
        handle_all_loop (length (p # rs) + n) classify' dns_ok' E' D I M buf (Inr st) i w =
        handle_all_loop n classify' dns_ok' E' D I M (buf @ concat (map (\<lambda>r. OutboundPlain_to_vec (rec_payload r)) (p # rs)))
          (Inr st') i' (w\<lparr>cx_recv := rp'\<rparr>)"
    if i: "valid i" "ib_slice I i = pre @ (wire @ wire') @ rest" for rest n buf i
  proof -
    have d: "ReceivePath_deframe D (ib_slice I i) (cx_recv w) = Some (Inr (Some dr), rp1, pre1 @ wire' @ rest)"
      using one(2) [of "wire' @ rest"] i(2) by simp
    have "length (pre1 @ wire' @ rest) = length (ib_slice I i)" using one(7) i(2) by simp
    then have "valid (ib_write I (pre1 @ wire' @ rest) i)" "ib_slice I (ib_write I (pre1 @ wire' @ rest) i) = pre1 @ wire' @ rest"
      using buffer.slice_write [OF i(1)] by simp_all
    with more(6) [THEN spec, of rest] obtain i' where "valid i'" "ib_slice I i' = pre' @ rest"
      "handle_all_loop (length rs + n) classify' dns_ok' E' D I M (buf @ OutboundPlain_to_vec (rec_payload p)) (Inr st1)
         (ib_write I (pre1 @ wire' @ rest) i) ?w =
       handle_all_loop n classify' dns_ok' E' D I M ((buf @ OutboundPlain_to_vec (rec_payload p)) @
         concat (map (\<lambda>r. OutboundPlain_to_vec (rec_payload r)) rs)) (Inr st') i' (?w\<lparr>cx_recv := rp'\<rparr>)"
      by blast
    with st1(2) [OF d] show ?thesis by (intro exI [of _ i']) simp
  qed
  show ?case
    using enc more(5) fr recv
    by (intro exI [of _ eg'] exI [of _ "wire @ wire'"] exI [of _ rp'] exI [of _ pre'] exI [of _ st']) auto
qed

lemma write_delivered:
  fixes M :: "('s, ('y, 'e, 'd, 'g, 'h, 'o) CaptureAppData, 'o) StateMachine"
  assumes M: "data_machine M traffic" "traffic st" and adm: "admits ContentType_ApplicationData" and p: "OutboundPlain_wf p"
    and mw: "may_write eg sp n" "OutboundPlain_len p \<le> n" and mr: "may_read paired eg w (length pre)"
  shows "\<exists>eg' wire rp' pre' st' k. k \<le> OutboundPlain_len p \<and>
    Connection_write classify dns_ok E (Inr t) p sp tls = Some (Inr (), sp\<lparr>sp_encrypt_state := ES_Encrypting eg'\<rparr>, tls @ wire) \<and>
    may_write eg' (sp\<lparr>sp_encrypt_state := ES_Encrypting eg'\<rparr>) (n - OutboundPlain_len p) \<and>
    may_read paired eg' (w\<lparr>cx_recv := rp'\<rparr>) (length pre') \<and> reading (cx_recv w) rp' \<and> traffic st' \<and>
    (\<forall>rest m buf i. valid i \<longrightarrow> ib_slice I i = pre @ wire @ rest \<longrightarrow>
      (\<exists>i'. valid i' \<and> ib_slice I i' = pre' @ rest \<and>
        handle_all_loop (k + m) classify' dns_ok' E' D I M buf (Inr st) i w =
        handle_all_loop m classify' dns_ok' E' D I M (buf @ OutboundPlain_to_vec p) (Inr st') i' (w\<lparr>cx_recv := rp'\<rparr>)))"
proof (cases "OutboundPlain_is_empty p")
  case True
  then have "OutboundPlain_len p = 0" "OutboundPlain_to_vec p = []"
    using length_to_vec [OF p] by (simp_all add: OutboundPlain_is_empty_def)
  moreover have "sp\<lparr>sp_encrypt_state := ES_Encrypting eg\<rparr> = sp" using mw(1) by (simp add: may_write_def)
  moreover have "w\<lparr>cx_recv := cx_recv w\<rparr> = w" by simp
  ultimately show ?thesis using mw(1) mr M(2) True
    by (intro exI [of _ eg] exI [of _ "[]"] exI [of _ "cx_recv w"] exI [of _ pre] exI [of _ st] exI [of _ 0])
       (simp add: Connection_write_def returnS_def, blast)
next
  case False
  let ?rs = "Fragmenter_fragment (sp_fragmenter sp) ContentType_ApplicationData (Legacy ProtocolVersion_TLSv1_2) p
      (encrypted_len E eg 0)"
  have sp: "sp_encrypt_state sp = ES_Encrypting eg" "sp_may_send_application_data sp" "\<not> sp_has_sent_close_notify sp"
    "eg_key_update_remote eg = KeyUpdateRemote_Idle" "Fragmenter_wf (sp_fragmenter sp)" "eg_write_seq_max eg \<le> SEQ_SOFT_LIMIT"
    using mw(1) by (simp_all add: may_write_def)
  note fr = appdata_fragments [of p "sp_fragmenter sp" admits ?rs "Legacy ProtocolVersion_TLSv1_2" "encrypted_len E eg 0",
      OF p sp(5) adm refl]
  have lim: "unat (eg_write_seq eg) + length ?rs < unat (eg_write_seq_max eg)" "eg_write_seq_max eg \<le> SEQ_HARD_LIMIT"
    using mw fr(3) order_trans [OF sp(6), of SEQ_HARD_LIMIT] by (simp_all add: may_write_def SEQ_SOFT_LIMIT_def SEQ_HARD_LIMIT_def)
  obtain eg' wire rp' pre' st' where
    d: "encrypt_record_loop classify dns_ok E ?rs eg tls = Some (Inr (), eg', tls @ wire)"
      "may_read paired eg' (w\<lparr>cx_recv := rp'\<rparr>) (length pre')" "reading (cx_recv w) rp'"
      "encrypted_since eg eg' (length ?rs)" "traffic st'"
      "\<forall>rest n buf i. valid i \<longrightarrow> ib_slice I i = pre @ wire @ rest \<longrightarrow>
        (\<exists>i'. valid i' \<and> ib_slice I i' = pre' @ rest \<and>
        handle_all_loop (length ?rs + n) classify' dns_ok' E' D I M buf (Inr st) i w =
        handle_all_loop n classify' dns_ok' E' D I M (buf @ concat (map (\<lambda>r. OutboundPlain_to_vec (rec_payload r)) ?rs))
          (Inr st') i' (w\<lparr>cx_recv := rp'\<rparr>))"
    using records_delivered [OF M(1) mr fr(1) lim(1) sp(6) M(2), of classify dns_ok tls classify' dns_ok' E'] by blast
  have wq: "write_queued eg tls = Some (Inr (), eg, tls)"
    using sp(4) by (cases eg) (simp add: write_queued_def returnS_def)
  have "Connection_write classify dns_ok E (Inr t) p sp tls = Some (Inr (), sp\<lparr>sp_encrypt_state := ES_Encrypting eg'\<rparr>, tls @ wire)"
    using False sp(1-3) wq d(1) encrypt_records_below_limit [OF lim, of classify dns_ok E tls]
    by (simp add: Connection_write_def send_appdata_encrypt_def on_encrypting_def bindS_def close_on_limit_def returnS_def)
  moreover have "may_write eg' (sp\<lparr>sp_encrypt_state := ES_Encrypting eg'\<rparr>) (n - OutboundPlain_len p)"
    using may_write_since [OF mw(1) d(4)] fr(3) mw(2) by simp
  ultimately show ?thesis using d(2,3,5,6) fr(3) unfolding fr(2)
    by (intro exI [of _ eg'] exI [of _ wire] exI [of _ rp'] exI [of _ pre'] exI [of _ st'] exI [of _ "length ?rs"] conjI)
qed

lemma writes_delivered:
  fixes M :: "('s, ('y, 'e, 'd, 'g, 'h, 'o) CaptureAppData, 'o) StateMachine"
  assumes M: "data_machine M traffic" and adm: "admits ContentType_ApplicationData"
  shows "\<lbrakk>\<forall>p \<in> set ps. OutboundPlain_wf p; may_write eg sp n; write_len ps \<le> n; may_read paired eg w (length pre); traffic st\<rbrakk> \<Longrightarrow>
   \<exists>eg' sp' wire rp' pre' st' k. k \<le> write_len ps \<and>
    write_all classify dns_ok E (Inr t) ps sp tls = Some (Inr (), sp', tls @ wire) \<and>
    may_write eg' sp' (n - write_len ps) \<and>
    may_read paired eg' (w\<lparr>cx_recv := rp'\<rparr>) (length pre') \<and> reading (cx_recv w) rp' \<and> traffic st' \<and>
    (\<forall>rest m buf i. valid i \<longrightarrow> ib_slice I i = pre @ wire @ rest \<longrightarrow>
      (\<exists>i'. valid i' \<and> ib_slice I i' = pre' @ rest \<and>
        handle_all_loop (k + m) classify' dns_ok' E' D I M buf (Inr st) i w =
        handle_all_loop m classify' dns_ok' E' D I M (buf @ written ps) (Inr st') i' (w\<lparr>cx_recv := rp'\<rparr>)))"
proof (induction ps arbitrary: eg sp n w pre st tls)
  case Nil
  then show ?case
    by (intro exI [of _ eg] exI [of _ sp] exI [of _ "[]"] exI [of _ "cx_recv w"] exI [of _ pre] exI [of _ st] exI [of _ 0])
       (simp add: returnS_def written_def, blast)
next
  case (Cons p ps)
  have p: "OutboundPlain_wf p" "\<forall>p \<in> set ps. OutboundPlain_wf p" "OutboundPlain_len p \<le> n"
    "write_len ps \<le> n - OutboundPlain_len p"
    using Cons.prems(1,3) by simp_all
  obtain eg1 wire1 rp1 pre1 st1 k1 where
    one: "k1 \<le> OutboundPlain_len p"
      "Connection_write classify dns_ok E (Inr t) p sp tls = Some (Inr (), sp\<lparr>sp_encrypt_state := ES_Encrypting eg1\<rparr>, tls @ wire1)"
      "may_write eg1 (sp\<lparr>sp_encrypt_state := ES_Encrypting eg1\<rparr>) (n - OutboundPlain_len p)"
      "may_read paired eg1 (w\<lparr>cx_recv := rp1\<rparr>) (length pre1)" "reading (cx_recv w) rp1" "traffic st1"
      "\<forall>rest m buf i. valid i \<longrightarrow> ib_slice I i = pre @ wire1 @ rest \<longrightarrow>
      (\<exists>i'. valid i' \<and> ib_slice I i' = pre1 @ rest \<and>
        handle_all_loop (k1 + m) classify' dns_ok' E' D I M buf (Inr st) i w =
        handle_all_loop m classify' dns_ok' E' D I M (buf @ OutboundPlain_to_vec p) (Inr st1) i' (w\<lparr>cx_recv := rp1\<rparr>))"
    using write_delivered [OF M Cons.prems(5) adm p(1) Cons.prems(2) p(3) Cons.prems(4), of classify dns_ok t tls classify' dns_ok' E']
    by blast
  let ?w = "w\<lparr>cx_recv := rp1\<rparr>"
  obtain eg' sp' wire rp' pre' st' k where
    more: "k \<le> write_len ps"
      "write_all classify dns_ok E (Inr t) ps (sp\<lparr>sp_encrypt_state := ES_Encrypting eg1\<rparr>) (tls @ wire1) =
        Some (Inr (), sp', (tls @ wire1) @ wire)"
      "may_write eg' sp' (n - OutboundPlain_len p - write_len ps)"
      "may_read paired eg' (?w\<lparr>cx_recv := rp'\<rparr>) (length pre')" "reading (cx_recv ?w) rp'" "traffic st'"
      "\<forall>rest m buf i. valid i \<longrightarrow> ib_slice I i = pre1 @ wire @ rest \<longrightarrow>
      (\<exists>i'. valid i' \<and> ib_slice I i' = pre' @ rest \<and>
        handle_all_loop (k + m) classify' dns_ok' E' D I M buf (Inr st1) i ?w =
        handle_all_loop m classify' dns_ok' E' D I M (buf @ written ps) (Inr st') i' (?w\<lparr>cx_recv := rp'\<rparr>))"
    using Cons.IH [OF p(2) one(3) p(4) one(4,6), of "tls @ wire1"] by blast
  have "write_all classify dns_ok E (Inr t) (p # ps) sp tls = Some (Inr (), sp', tls @ wire1 @ wire)"
    using one(2) more(2) by (simp add: bindS_def)
  moreover have "k1 + k \<le> write_len (p # ps)" "may_write eg' sp' (n - write_len (p # ps))"
    using one(1) more(1,3) by simp_all
  moreover have "may_read paired eg' (w\<lparr>cx_recv := rp'\<rparr>) (length pre')" "reading (cx_recv w) rp'"
    using more(4,5) reading_trans [OF one(5)] by simp_all
  moreover have "\<forall>rest m buf i. valid i \<longrightarrow> ib_slice I i = pre @ (wire1 @ wire) @ rest \<longrightarrow>
      (\<exists>i'. valid i' \<and> ib_slice I i' = pre' @ rest \<and>
        handle_all_loop (k1 + k + m) classify' dns_ok' E' D I M buf (Inr st) i w =
        handle_all_loop m classify' dns_ok' E' D I M (buf @ written (p # ps)) (Inr st') i' (w\<lparr>cx_recv := rp'\<rparr>))"
  proof (intro allI impI)
    fix rest m buf i assume i: "valid i" "ib_slice I i = pre @ (wire1 @ wire) @ rest"
    obtain i1 where i1: "valid i1" "ib_slice I i1 = pre1 @ wire @ rest"
      "handle_all_loop (k1 + (k + m)) classify' dns_ok' E' D I M buf (Inr st) i w =
        handle_all_loop (k + m) classify' dns_ok' E' D I M (buf @ OutboundPlain_to_vec p) (Inr st1) i1 ?w"
      using one(7) [rule_format, of i "wire @ rest" "k + m" buf] i by auto
    obtain i' where "valid i'" "ib_slice I i' = pre' @ rest"
      "handle_all_loop (k + m) classify' dns_ok' E' D I M (buf @ OutboundPlain_to_vec p) (Inr st1) i1 ?w =
        handle_all_loop m classify' dns_ok' E' D I M ((buf @ OutboundPlain_to_vec p) @ written ps) (Inr st') i' (?w\<lparr>cx_recv := rp'\<rparr>)"
      using more(7) i1(1,2) by blast
    with i1(3) show "\<exists>i'. valid i' \<and> ib_slice I i' = pre' @ rest \<and>
        handle_all_loop (k1 + k + m) classify' dns_ok' E' D I M buf (Inr st) i w =
        handle_all_loop m classify' dns_ok' E' D I M (buf @ written (p # ps)) (Inr st') i' (w\<lparr>cx_recv := rp'\<rparr>)"
      by (intro exI [of _ i']) (simp add: written_def add.assoc)
  qed
  ultimately show ?case using more(6)
    by (intro exI [of _ eg'] exI [of _ sp'] exI [of _ "wire1 @ wire"] exI [of _ rp'] exI [of _ pre'] exI [of _ st'] exI [of _ "k1 + k"] conjI)
qed

text \<open>What one end writes, the other end's \<open>handle_all\<close> returns; its input is used up then.\<close>

lemma handle_all_delivers:
  fixes M :: "('s, ('y, 'e, 'd, 'g, 'h, 'o) CaptureAppData, 'o) StateMachine"
  assumes M: "data_machine M traffic" and adm: "admits ContentType_ApplicationData" and ps: "\<forall>p \<in> set ps. OutboundPlain_wf p"
    and mw: "may_write eg sp n" "write_len ps \<le> n" and mr: "may_read paired eg w 0" and st: "traffic st"
  shows "\<exists>eg' sp' wire rp' st'. write_all classify dns_ok E (Inr t) ps sp tls = Some (Inr (), sp', tls @ wire) \<and>
    may_write eg' sp' (n - write_len ps) \<and> may_read paired eg' (w\<lparr>cx_recv := rp'\<rparr>) 0 \<and> reading (cx_recv w) rp' \<and> traffic st' \<and>
    (\<forall>fuel buf i. valid i \<longrightarrow> ib_slice I i = wire \<longrightarrow> write_len ps < fuel \<longrightarrow>
      (\<exists>i'. valid i' \<and> ib_slice I i' = [] \<and> handle_all fuel classify' dns_ok' E' D I M buf (Inr st) i w =
        Some (Some (Inr (), buf @ written ps, Inr st', i', w\<lparr>cx_recv := rp'\<rparr>))))"
proof -
  obtain eg' sp' wire rp' pre' st' k where
    d: "k \<le> write_len ps" "write_all classify dns_ok E (Inr t) ps sp tls = Some (Inr (), sp', tls @ wire)"
      "may_write eg' sp' (n - write_len ps)"
      "may_read paired eg' (w\<lparr>cx_recv := rp'\<rparr>) (length pre')" "reading (cx_recv w) rp'" "traffic st'"
      "\<forall>rest m buf i. valid i \<longrightarrow> ib_slice I i = [] @ wire @ rest \<longrightarrow>
      (\<exists>i'. valid i' \<and> ib_slice I i' = pre' @ rest \<and>
        handle_all_loop (k + m) classify' dns_ok' E' D I M buf (Inr st) i w =
        handle_all_loop m classify' dns_ok' E' D I M (buf @ written ps) (Inr st') i' (w\<lparr>cx_recv := rp'\<rparr>))"
    using writes_delivered [OF M adm ps mw, of w "[]" st classify dns_ok t tls classify' dns_ok' E'] mr st by auto
  let ?d = "snd (Deframer_take_discard (rp_deframer rp'))"
  let ?rp = "rp'\<lparr>rp_deframer := ?d\<rparr>"
  have mr': "in_step paired eg' rp' (length pre')" "df_discard (rp_deframer rp') = length pre'"
    "deframer_at (length pre') (rp_deframer rp')" "cx_received_plaintext w = None"
    using d(4) mr by (simp_all add: may_read_def in_step_def)
  have "may_read paired eg' (w\<lparr>cx_recv := ?rp\<rparr>) 0"
    using d(4) by (simp add: may_read_def in_step_def deframer_at_def Deframer_take_discard_def Let_def)
  moreover have "reading (cx_recv w) ?rp"
    by (rule reading_trans [OF d(5)], unfold reading_def)
       (rule exI [of _ ?d], rule exI [of _ "rp_decrypt_state rp'"], rule exI [of _ "rp_seen_consecutive_empty_fragments rp'"], simp)
  moreover have "\<forall>fuel buf i. valid i \<longrightarrow> ib_slice I i = wire \<longrightarrow> write_len ps < fuel \<longrightarrow>
      (\<exists>i'. valid i' \<and> ib_slice I i' = [] \<and> handle_all fuel classify' dns_ok' E' D I M buf (Inr st) i w =
        Some (Some (Inr (), buf @ written ps, Inr st', i', w\<lparr>cx_recv := ?rp\<rparr>)))"
  proof (intro allI impI)
    fix fuel buf i assume i: "valid i" "ib_slice I i = wire" and f: "write_len ps < fuel"
    obtain m where m: "fuel = k + Suc m" using f d(1) by (metis add_Suc_right le_less_trans less_imp_Suc_add)
    obtain i' where i': "valid i'" "ib_slice I i' = pre'"
      "handle_all_loop fuel classify' dns_ok' E' D I M buf (Inr st) i w =
        handle_all_loop (Suc m) classify' dns_ok' E' D I M (buf @ written ps) (Inr st') i' (w\<lparr>cx_recv := rp'\<rparr>)"
      using d(7) [rule_format, of i "[]" "Suc m" buf] i unfolding m by (auto simp del: handle_all_loop.simps)
    have w: "w\<lparr>cx_recv := rp', cx_received_plaintext := None\<rparr> = w\<lparr>cx_recv := rp'\<rparr>" using mr'(4) by simp
    have wr: "ib_write I pre' i' = i' \<or> valid (ib_write I pre' i') \<and> ib_slice I (ib_write I pre' i') = pre'"
      using buffer.slice_write [OF i'(1), of pre'] i'(2) by simp
    have "handle_all_loop fuel classify' dns_ok' E' D I M buf (Inr st) i w =
        Some (Some (Inr (), buf @ written ps, Inr st', ib_write I pre' i', w\<lparr>cx_recv := rp'\<rparr>))"
      unfolding i'(3) using data_machine.wants_input [OF M d(6)] deframe_end [of pre' rp' D] mr'(3) i'(2)
      by (simp add: MessageIter_next_def w next_turn_def Let_def)
    moreover have "valid (ib_discard I (length pre') (ib_write I pre' i'))" "ib_slice I (ib_discard I (length pre') (ib_write I pre' i')) = []"
      using wr i' buffer.slice_discard [of "ib_write I pre' i'" "length pre'"] by auto
    ultimately show "\<exists>i'. valid i' \<and> ib_slice I i' = [] \<and> handle_all fuel classify' dns_ok' E' D I M buf (Inr st) i w =
        Some (Some (Inr (), buf @ written ps, Inr st', i', w\<lparr>cx_recv := ?rp\<rparr>))"
      using mr'(2)
      by (intro exI [of _ "ib_discard I (length pre') (ib_write I pre' i')"])
         (simp add: handle_all_def discard_input_def Let_def Deframer_take_discard_def)
  qed
  ultimately show ?thesis using d(2,3,6)
    by (intro exI [of _ eg'] exI [of _ sp'] exI [of _ wire] exI [of _ ?rp] exI [of _ st'] conjI)
qed

end

interpretation fuzz_slice: delivery fuzz_Tls13_encrypter fuzz_Tls13_decrypter "\<lambda>_ _. True"
  "\<lambda>t. t \<noteq> 0 \<and> t \<noteq> ContentType_ChangeCipherSpec" "\<lambda>_. Legacy ProtocolVersion_TLSv1_3" SliceInput_buffer SliceInput_ok
  ..

interpretation fuzz_vec: delivery fuzz_Tls12_encrypter fuzz_Tls12_decrypter "\<lambda>_ _. True"
  "\<lambda>t. t \<in> set ContentType_known \<and> t \<noteq> ContentType_ChangeCipherSpec" "\<lambda>v. Legacy (EncodableVersion_encode v)"
  VecInput_buffer VecInput_ok
  ..

subsection \<open>A conversation\<close>

text \<open>
  One end speaks: it writes, what it has put out is taken and given to the other end as a slice,
  and the other end's \<open>handle_all\<close> makes bytes of it.
\<close>

definition speak ::
  "nat \<Rightarrow> (bytes \<Rightarrow> ServerNameKind) \<Rightarrow> (bytes \<Rightarrow> bool) \<Rightarrow> 'e RecordEncrypter \<Rightarrow> 'd RecordDecrypter \<Rightarrow>
   ('t, ('y, 'e, 'd, 'g, 'h, 'p) CaptureAppData, 'p) StateMachine \<Rightarrow> OutboundPlain list \<Rightarrow>
   (Error + 's) \<times> ('x, 'e, 'd, 'c, 'q, 'o) CaptureAppData \<Rightarrow> (Error + 't) \<times> ('y, 'e, 'd, 'g, 'h, 'p) CaptureAppData \<Rightarrow>
   (bytes \<times> ((Error + 's) \<times> ('x, 'e, 'd, 'c, 'q, 'o) CaptureAppData) \<times> ((Error + 't) \<times> ('y, 'e, 'd, 'g, 'h, 'p) CaptureAppData)) option" where
  "speak fuel classify dns_ok E D M ps speaker listener =
     (case on_send (write_all classify dns_ok E (fst speaker) ps) (snd speaker) of
        Some (Inr _, w) \<Rightarrow>
          (case handle_all fuel classify dns_ok E D SliceInput_buffer M [] (fst listener) (SliceInput_new (cx_tls w)) (snd listener) of
             Some (Some (Inr _, heard, state, _, w')) \<Rightarrow> Some (heard, (fst speaker, w\<lparr>cx_tls := []\<rparr>), (state, w'))
           | _ \<Rightarrow> None)
      | _ \<Rightarrow> None)"

datatype utterance = Client_Says "OutboundPlain list" | Server_Says "OutboundPlain list"

fun says :: "utterance \<Rightarrow> OutboundPlain list" where
  "says (Client_Says ps) = ps"
| "says (Server_Says ps) = ps"

fun converse ::
  "nat \<Rightarrow> (bytes \<Rightarrow> ServerNameKind) \<Rightarrow> (bytes \<Rightarrow> bool) \<Rightarrow> 'e RecordEncrypter \<Rightarrow> 'd RecordDecrypter \<Rightarrow>
   ('s, 'k, 'a, ('x, 'e, 'd, 'c, 'q) Tls13Session) ClientSessionStore \<Rightarrow> utterance list \<Rightarrow>
   (Error + ('x, 'e, 'd, 'c, 'q, 'k) ClientTrafficState) \<times> ('x, 'e, 'd, 'c, 'q, 's client_env) CaptureAppData \<Rightarrow>
   (Error + ('y, 'e, 'd, 'g, 'h) ServerTrafficState) \<times> ('y, 'e, 'd, 'g, 'h, 'o) CaptureAppData \<Rightarrow> bytes list option" where
  "converse fuel classify dns_ok E D S [] client server = Some []"
| "converse fuel classify dns_ok E D S (Client_Says ps # us) client server =
     (case speak fuel classify dns_ok E D (server_traffic_machine classify dns_ok E) ps client server of
        None \<Rightarrow> None
      | Some (heard, client, server) \<Rightarrow>
          map_option ((#) heard) (converse fuel classify dns_ok E D S us client server))"
| "converse fuel classify dns_ok E D S (Server_Says ps # us) client server =
     (case speak fuel classify dns_ok E D (client_traffic_machine classify dns_ok E S) ps server client of
        None \<Rightarrow> None
      | Some (heard, server, client) \<Rightarrow>
          map_option ((#) heard) (converse fuel classify dns_ok E D S us client server))"

text \<open>The speaker may write \<open>n\<close> more bytes, the listener reads them, and no output is pending.\<close>

definition may_speak ::
  "('e \<Rightarrow> 'd \<Rightarrow> bool) \<Rightarrow> ('x, 'e, 'd, 'c, 'q, 'o) CaptureAppData \<Rightarrow> ('y, 'e, 'd, 'g, 'h, 'p) CaptureAppData \<Rightarrow> nat \<Rightarrow> bool" where
  "may_speak paired w w' n \<longleftrightarrow> (\<exists>eg. may_write eg (cx_send w) n \<and> may_read paired eg w' 0) \<and> cx_tls w = []"

lemma speak_heard:
  fixes listener :: "('y, 'e, 'd, 'g, 'h, 'p) CaptureAppData" and speaker :: "('x, 'e, 'd, 'c, 'q, 'o) CaptureAppData"
  assumes rp: "record_protection E D paired admits received_version" and M: "data_machine M traffic"
    and adm: "admits ContentType_ApplicationData" and ps: "\<forall>p \<in> set ps. OutboundPlain_wf p" "write_len ps \<le> n" "write_len ps < fuel"
    and ends: "may_speak paired speaker listener n" "may_speak paired listener speaker m" and st: "traffic st"
  shows "\<exists>speaker' st' listener'. speak fuel classify dns_ok E D M ps (Inr t, speaker) (Inr st, listener) =
      Some (written ps, (Inr t, speaker'), (Inr st', listener')) \<and>
    traffic st' \<and> may_speak paired speaker' listener' (n - write_len ps) \<and> may_speak paired listener' speaker' m"
proof -
  have d: "delivery E D paired admits received_version SliceInput_buffer SliceInput_ok"
    by (intro delivery.intro rp slice_input.tls_input_buffer_axioms)
  from ends(1) obtain eg where eg: "may_write eg (cx_send speaker) n" "may_read paired eg listener 0" "cx_tls speaker = []"
    by (auto simp: may_speak_def)
  obtain eg' sp' wire rp' st' where
    o: "write_all classify dns_ok E (Inr t) ps (cx_send speaker) [] = Some (Inr (), sp', [] @ wire)"
      "may_write eg' sp' (n - write_len ps)" "may_read paired eg' (listener\<lparr>cx_recv := rp'\<rparr>) 0" "traffic st'" and
    h: "\<forall>fuel buf i. SliceInput_ok i \<longrightarrow> ib_slice SliceInput_buffer i = wire \<longrightarrow> write_len ps < fuel \<longrightarrow>
      (\<exists>i'. SliceInput_ok i' \<and> ib_slice SliceInput_buffer i' = [] \<and>
        handle_all fuel classify dns_ok E D SliceInput_buffer M buf (Inr st) i listener =
        Some (Some (Inr (), buf @ written ps, Inr st', i', listener\<lparr>cx_recv := rp'\<rparr>)))"
    using delivery.handle_all_delivers [OF d M adm ps(1) eg(1) ps(2) eg(2) st, of classify dns_ok t "[]" classify dns_ok E] by blast
  have "SliceInput_ok (SliceInput_new wire)" "ib_slice SliceInput_buffer (SliceInput_new wire) = wire"
    by (simp_all add: SliceInput_ok_def SliceInput_new_def SliceInput_buffer_def)
  then obtain i' where i': "handle_all fuel classify dns_ok E D SliceInput_buffer M [] (Inr st) (SliceInput_new wire) listener =
      Some (Some (Inr (), written ps, Inr st', i', listener\<lparr>cx_recv := rp'\<rparr>))"
    using h [rule_format, of "SliceInput_new wire" fuel "[]"] ps(3) by auto
  let ?s = "speaker\<lparr>cx_send := sp', cx_tls := []\<rparr>" and ?l = "listener\<lparr>cx_recv := rp'\<rparr>"
  have "speak fuel classify dns_ok E D M ps (Inr t, speaker) (Inr st, listener) = Some (written ps, (Inr t, ?s), (Inr st', ?l))"
    using o(1) i' eg(3) by (simp add: speak_def on_send_def)
  moreover have "may_speak paired ?s ?l (n - write_len ps)" using o(2,3) by (auto simp: may_speak_def)
  moreover have "may_speak paired ?l ?s m" using ends(2) by (auto simp: may_speak_def may_read_def)
  ultimately show ?thesis using o(4) by blast
qed

lemma may_speak_less: "may_speak paired w w' n \<Longrightarrow> may_speak paired w w' (n - k)"
  by (force simp: may_speak_def may_write_def)

lemma conversation_heard:
  assumes rp: "record_protection E D paired admits received_version" and adm: "admits ContentType_ApplicationData"
  shows "\<lbrakk>\<forall>u \<in> set us. \<forall>p \<in> set (says u). OutboundPlain_wf p; (\<Sum>u \<leftarrow> us. write_len (says u)) \<le> n; n < fuel;
    may_speak paired c s n; may_speak paired s c n\<rbrakk> \<Longrightarrow>
   converse fuel classify dns_ok E D S us (Inr (Client_Traffic ct), c) (Inr (Server_Traffic st), s) =
     Some (map (\<lambda>u. written (says u)) us)"
proof (induction us arbitrary: n c s ct st)
  case (Cons u us)
  have us: "\<forall>u \<in> set us. \<forall>p \<in> set (says u). OutboundPlain_wf p" "\<forall>p \<in> set (says u). OutboundPlain_wf p"
    "write_len (says u) \<le> n" "write_len (says u) < fuel" "(\<Sum>u \<leftarrow> us. write_len (says u)) \<le> n - write_len (says u)"
    "n - write_len (says u) < fuel"
    using Cons.prems(1-3) by simp_all
  show ?case
  proof (cases u)
    case (Client_Says ps)
    obtain c' st' s' where "speak fuel classify dns_ok E D (server_traffic_machine classify dns_ok E) (says u)
        (Inr (Client_Traffic ct), c) (Inr (Server_Traffic st), s) =
        Some (written (says u), (Inr (Client_Traffic ct), c'), (Inr (Server_Traffic st'), s'))"
      "may_speak paired c' s' (n - write_len (says u))" "may_speak paired s' c' n"
      using speak_heard [OF rp server_data.data_machine_axioms [of classify dns_ok E] adm us(2-4) Cons.prems(4,5),
          of "Server_Traffic st" classify dns_ok "Client_Traffic ct"] by auto
    with Client_Says Cons.IH [OF us(1,5,6), of c' s'] may_speak_less [of paired s' c' n] show ?thesis by simp
  next
    case (Server_Says ps)
    obtain s' ct' c' where "speak fuel classify dns_ok E D (client_traffic_machine classify dns_ok E S) (says u)
        (Inr (Server_Traffic st), s) (Inr (Client_Traffic ct), c) =
        Some (written (says u), (Inr (Server_Traffic st), s'), (Inr (Client_Traffic ct'), c'))"
      "may_speak paired s' c' (n - write_len (says u))" "may_speak paired c' s' n"
      using speak_heard [OF rp client_data.data_machine_axioms [of classify dns_ok E S] adm us(2-4) Cons.prems(5,4),
          of "Client_Traffic ct" classify dns_ok "Server_Traffic st"] by auto
    with Server_Says Cons.IH [OF us(1,5,6), of c' s'] may_speak_less [of paired c' s' n] show ?thesis by simp
  qed
qed simp

end
