(* ===== verification/Robustness.thy ===== *)
theory Robustness
  imports Delivery Resumption
begin

text \<open>
  A connection in traffic does not panic and does not hang: whatever bytes are in its input buffer,
  \<open>process\<close> and \<open>handle_all\<close> return a result or an error. This takes ciphers that work within the
  slices they are given, an HKDF that meets its contract, and sequence numbers that are not about
  to run out; the number of records sent is bounded by the number of bytes received.
\<close>

subsection \<open>Sending\<close>

definition encrypter_total :: "('e \<Rightarrow> bool) \<Rightarrow> 'e RecordEncrypter \<Rightarrow> bool" where
  "encrypter_total usable E \<longleftrightarrow> (\<forall>e p seq out. usable e \<longrightarrow> rec_typ p \<in> {ContentType_Alert, ContentType_Handshake} \<longrightarrow>
     OutboundPlain_wf (rec_payload p) \<longrightarrow> OutboundPlain_len (rec_payload p) \<le> MAX_FRAGMENT_LEN \<longrightarrow>
     re_encrypted_payload_len E e (OutboundPlain_len (rec_payload p)) \<le> length out \<longrightarrow>
     (\<exists>r e' body. re_encrypt E e p seq out = Some (r, e', body) \<and> usable e'))"

text \<open>Ciphers that protect records meet this, as long as they are paired with one of the peer's.\<close>

lemma record_protection_total:
  assumes "record_protection E D paired admits received_version" "admits ContentType_Alert" "admits ContentType_Handshake"
  shows "encrypter_total (\<lambda>e. \<exists>d. paired e d) E"
  unfolding encrypter_total_def
proof (intro allI impI)
  fix e seq and out :: bytes and p :: "OutboundPlain Record"
  assume u: "\<exists>d. paired e d" and p: "rec_typ p \<in> {ContentType_Alert, ContentType_Handshake}" "OutboundPlain_wf (rec_payload p)"
    "OutboundPlain_len (rec_payload p) \<le> MAX_FRAGMENT_LEN"
    "re_encrypted_payload_len E e (OutboundPlain_len (rec_payload p)) \<le> length out"
  from u obtain d where "paired e d" ..
  moreover have "admits (rec_typ p)" using p(1) assms(2,3) by auto
  ultimately show "\<exists>r e' body. re_encrypt E e p seq out = Some (r, e', body) \<and> (\<exists>d. paired e' d)"
    using record_protection.protects [OF assms(1) _ p(2) _ p(3,4), of d seq] by blast
qed

text \<open>A suite whose key derivations do not fail, and give usable encrypters.\<close>

definition suite_total :: "('e \<Rightarrow> bool) \<Rightarrow> ('x, 'e, 'd, 'c, 'q) KeyScheduleSuite \<Rightarrow> bool" where
  "suite_total usable k \<longleftrightarrow> (\<exists>valid. hkdf_provider (cs_hkdf_provider (suite (kss_state k))) valid) \<and>
     aead_fits (cs_aead_alg (suite (kss_state k))) \<and>
     (\<forall>secret enc. derive_encrypter k secret = Some enc \<longrightarrow> usable (en_encrypter enc))"

text \<open>At least \<open>n\<close> more records can be sent, and the keys can be updated.\<close>

definition encrypting_spare :: "('e \<Rightarrow> bool) \<Rightarrow> nat \<Rightarrow> ('x, 'e, 'd, 'c, 'q) Encrypting \<Rightarrow> bool" where
  "encrypting_spare usable n eg \<longleftrightarrow> usable (eg_encrypter eg) \<and> unat (eg_write_seq eg) + n \<le> unat SEQ_HARD_LIMIT \<and>
     (\<forall>ks. eg_tls13_key_schedule eg = Some ks \<longrightarrow> suite_total usable (ksts_ks ks))"

definition send_spare :: "('e \<Rightarrow> bool) \<Rightarrow> nat \<Rightarrow> ('x, 'e, 'd, 'c, 'q) SendPath \<Rightarrow> bool" where
  "send_spare usable n sp \<longleftrightarrow> (\<forall>eg. sp_encrypt_state sp = ES_Encrypting eg \<longrightarrow> encrypting_spare usable n eg)"

lemma send_spare_less: "send_spare usable n sp \<Longrightarrow> m \<le> n \<Longrightarrow> send_spare usable m sp"
  by (auto simp: send_spare_def encrypting_spare_def)

lemma encrypt_outgoing_total:
  assumes E: "encrypter_total usable E" and p: "rec_typ p \<in> {ContentType_Alert, ContentType_Handshake}" "OutboundPlain_wf (rec_payload p)"
      "OutboundPlain_len (rec_payload p) \<le> MAX_FRAGMENT_LEN"
    and s: "encrypting_spare usable (Suc n) eg"
  shows "\<exists>r eg' tls'. encrypt_outgoing E p eg tls = Some (r, eg', tls') \<and> encrypting_spare usable n eg'"
proof -
  let ?out = "replicate (HEADER_SIZE + encrypted_len E eg (OutboundPlain_len (rec_payload p))) (0 :: u8)"
  let ?eg = "eg\<lparr>eg_write_seq := eg_write_seq eg + 1\<rparr>"
  have lt: "eg_write_seq eg < SEQ_HARD_LIMIT" using s by (simp add: encrypting_spare_def word_less_nat_alt)
  have u: "unat (eg_write_seq eg + 1) = unat (eg_write_seq eg) + 1"
  proof -
    have "unat (eg_write_seq eg) + 1 \<le> unat SEQ_HARD_LIMIT" "unat SEQ_HARD_LIMIT < 2 ^ 64"
      using s by (simp_all add: encrypting_spare_def SEQ_HARD_LIMIT_def)
    then have "unat (eg_write_seq eg) + 1 < 2 ^ 64" by (rule le_less_trans)
    then show ?thesis by (simp add: unat_word_ariths)
  qed
  obtain r e' body where re: "re_encrypt E (eg_encrypter ?eg) p (eg_write_seq eg) (drop HEADER_SIZE ?out) = Some (r, e', body)" "usable e'"
    using E [unfolded encrypter_total_def, rule_format, of "eg_encrypter ?eg" p "drop HEADER_SIZE ?out" "eg_write_seq eg"] p s
    by (auto simp: encrypted_len_def encrypting_spare_def)
  have "encrypting_spare usable n (?eg\<lparr>eg_encrypter := e'\<rparr>)" using s u re(2) by (simp add: encrypting_spare_def)
  then show ?thesis using lt re(1)
    by (cases r) (simp_all add: encrypt_outgoing_def encrypt_outgoing_into_def Let_def del: replicate_add)
qed

lemma write_queued_eq: "write_queued eg tls = Some (Inr (), eg\<lparr>eg_key_update_remote := KeyUpdateRemote_Idle\<rparr>,
    snd (KeyUpdateRemote_write (eg_key_update_remote eg) tls))"
  by (cases "eg_key_update_remote eg") (simp_all add: write_queued_def returnS_def)

text \<open>What is sent on the way is short: an alert, or the answer to a key update.\<close>

definition short_message :: "Message \<Rightarrow> bool" where
  "short_message m \<longleftrightarrow> rec_typ (Record_from_Message m) \<in> {ContentType_Alert, ContentType_Handshake} \<and>
     length (rec_payload (Record_from_Message m)) \<le> MAX_FRAGMENT_LEN"

lemma short_messages:
  "short_message (Message_build_alert level desc)"
  "short_message (Message_build_key_update_notify classify dns_ok)"
  by (simp_all add: short_message_def Message_build_alert_def Message_build_key_update_notify_def Record_from_Message_def
      MAX_FRAGMENT_LEN_def wire_simps MessagePayload_handshake_def AlertMessagePayload_encode_def
      HandshakeMessagePayload_get_encoding_def HandshakeMessagePayload_payload_encode_def length_prefixed_eq U24_encode_alt)

lemma send_short_total:
  assumes E: "encrypter_total usable E" and m: "short_message m" and s: "encrypting_spare usable (Suc n) eg"
  shows "\<exists>r eg' tls'. send_short E m eg tls = Some (r, eg', tls') \<and> encrypting_spare usable n eg'"
proof -
  have "encrypting_spare usable (Suc n) (eg\<lparr>eg_key_update_remote := KeyUpdateRemote_Idle\<rparr>)"
    using s by (simp add: encrypting_spare_def)
  from encrypt_outgoing_total [OF E _ _ _ this, of "borrow_outbound (Record_from_Message m)"] m show ?thesis
    by (simp add: send_short_def bindS_def write_queued_eq short_message_def borrow_outbound_def)
qed

lemma send_alert_total:
  assumes E: "encrypter_total usable E" and s: "send_spare usable (Suc n) sp"
  shows "\<exists>r sp' tls'. send_alert E level desc sp tls = Some (r, sp', tls') \<and> send_spare usable n sp'"
proof (cases "sp_encrypt_state sp")
  case (ES_Encrypting eg)
  with send_short_total [OF E short_messages(1), of n eg level desc tls] s
  obtain r eg' tls' where "send_short E (Message_build_alert level desc) eg tls = Some (r, eg', tls')" "encrypting_spare usable n eg'"
    by (auto simp: send_spare_def)
  with ES_Encrypting show ?thesis by (auto simp: send_alert_def on_encrypting_def send_spare_def Let_def)
qed (use s in \<open>auto simp: send_alert_def returnS_def send_spare_def Let_def\<close>)

lemma maybe_send_total:
  assumes E: "encrypter_total usable E" and s: "send_spare usable 1 sp"
  shows "maybe_send_fatal_alert E e sp tls \<noteq> None"
  using send_alert_total [OF E, of 0 sp _ _ tls] s
  by (fastforce simp: maybe_send_fatal_alert_def returnS_def split: sum.splits)

subsection \<open>Key updates\<close>

lemma next_keys_total:
  assumes "suite_total usable k"
  shows "\<exists>secret. derive_next k base = Some secret" "\<exists>e. derive_encrypter k secret = Some e" "\<exists>d. derive_decrypter k secret = Some d"
proof -
  from assms obtain valid where h: "hkdf_provider (cs_hkdf_provider (suite (kss_state k))) valid"
    and a: "aead_fits (cs_aead_alg (suite (kss_state k)))" by (auto simp: suite_total_def)
  show "\<exists>secret. derive_next k base = Some secret"
    using hkdf_provider.okm_block_total [OF h, of base "ascii ''traffic upd''" "[]"] by (auto simp: derive_next_def Let_def)
  show "\<exists>e. derive_encrypter k secret = Some e" "\<exists>d. derive_decrypter k secret = Some d"
    using hkdf_provider.derive_key_iv_total [OF h a, of secret] by (auto simp: derive_encrypter_def derive_decrypter_def Let_def)
qed

lemma update_encrypter_total:
  assumes "suite_total usable (ksts_ks ks)"
  shows "\<exists>enc ks'. update_encrypter_for_key_update ks = Some (enc, ks') \<and> ksts_ks ks' = ksts_ks ks \<and>
    usable (en_encrypter enc)"
proof -
  obtain secret where s: "derive_next (ksts_ks ks) (ksts_current ks) = Some secret" using next_keys_total(1) [OF assms] by blast
  obtain e where "derive_encrypter (ksts_ks ks) secret = Some e" using next_keys_total(2) [OF assms] by blast
  with s assms show ?thesis by (auto simp: update_encrypter_for_key_update_def suite_total_def)
qed

lemma update_decrypter_total:
  assumes "suite_total usable (kstr_ks ks)"
  shows "\<exists>ks' ds'. KeyScheduleTrafficReceive_update_decrypter ks ds = Some (ks', ds') \<and> kstr_ks ks' = kstr_ks ks"
proof -
  obtain secret where s: "derive_next (kstr_ks ks) (kstr_current ks) = Some secret" using next_keys_total(1) [OF assms] by blast
  obtain d where "derive_decrypter (kstr_ks ks) secret = Some d" using next_keys_total(3) [OF assms] by blast
  with s show ?thesis by (simp add: KeyScheduleTrafficReceive_update_decrypter_def set_decrypter_def)
qed

lemma queue_key_update_total:
  assumes E: "encrypter_total usable E" and s: "send_spare usable (Suc n) sp"
  shows "\<exists>r sp'. queue_requested_key_update classify dns_ok E sp = Some (r, sp') \<and> send_spare usable n sp'"
proof (cases "sp_encrypt_state sp")
  case (ES_Encrypting eg)
  have eg: "encrypting_spare usable (Suc n) eg" using s ES_Encrypting by (simp add: send_spare_def)
  show ?thesis
  proof (cases "eg_key_update_remote eg")
    case (KeyUpdateRemote_Queued q)
    with ES_Encrypting send_spare_less [OF s] show ?thesis by (simp add: queue_requested_key_update_def)
  next
    case KeyUpdateRemote_Idle
    obtain r eg' q where m: "send_short E (Message_build_key_update_notify classify dns_ok) eg [] = Some (r, eg', q)"
      "encrypting_spare usable n eg'"
      using send_short_total [OF E short_messages(2) eg] by blast
    show ?thesis
    proof (cases "isl r \<or> eg_tls13_key_schedule eg' = None")
      case True
      with m ES_Encrypting KeyUpdateRemote_Idle show ?thesis
        by (cases r) (auto simp: queue_requested_key_update_def send_spare_def encrypting_spare_def)
    next
      case False
      then obtain u ks where r: "r = Inr u" "eg_tls13_key_schedule eg' = Some ks" by (cases r) auto
      have "suite_total usable (ksts_ks ks)" using m(2) r(2) by (simp add: encrypting_spare_def)
      note st = this
      from update_encrypter_total [OF st] st obtain enc ks' where
        u: "update_encrypter_for_key_update ks = Some (enc, ks')" "suite_total usable (ksts_ks ks')"
        "usable (en_encrypter enc)" by auto
      have "encrypting_spare usable n (install_encrypter enc (eg'\<lparr>eg_key_update_remote := KeyUpdateRemote_Queued q, eg_tls13_key_schedule := Some ks'\<rparr>))"
        using m(2) u(2,3) by (simp add: encrypting_spare_def install_encrypter_def)
      with m(1) r u(1) ES_Encrypting KeyUpdateRemote_Idle show ?thesis
        by (simp add: queue_requested_key_update_def EncryptionState_set_encrypter_def send_spare_def Let_def)
    qed
  qed
qed (auto simp: queue_requested_key_update_def send_spare_def)

lemma note_response_spare: "send_spare usable n sp \<Longrightarrow> send_spare usable n (note_key_update_response sp)"
  by (auto simp: send_spare_def note_key_update_response_def encrypting_spare_def split: EncryptionState.splits)

lemma handle_key_update_total:
  assumes E: "encrypter_total usable E" and s: "send_spare usable (Suc n) (cx_send w)" and ks: "suite_total usable (kstr_ks ks)"
  shows "\<exists>r w'. handle_key_update classify dns_ok E input req ks w = Some (r, w') \<and> send_spare usable n (cx_send w') \<and>
    (\<forall>ks'. r = Inr ks' \<longrightarrow> suite_total usable (kstr_ks ks'))"
proof -
  have less: "send_spare usable n (cx_send w)" by (rule send_spare_less [OF s]) simp
  have upd: "\<exists>ks' ds'. KeyScheduleTrafficReceive_update_decrypter ks ds = Some (ks', ds') \<and> suite_total usable (kstr_ks ks')" for ds
    using update_decrypter_total [OF ks, of ds] ks by auto
  obtain rq sp where q: "queue_requested_key_update classify dns_ok E (cx_send w) = Some (rq, sp)" "send_spare usable n sp"
    using queue_key_update_total [OF E s] by blast
  show ?thesis
    using less upd [of "rp_decrypt_state (cx_recv w)"] q note_response_spare [OF less]
    by (cases rq; cases "check_aligned_handshake input") (auto simp: handle_key_update_def)
qed

subsection \<open>State machines that stay calm\<close>

text \<open>
  A machine that answers every input, sends at most one record for it, and wants more input.
\<close>

locale calm_machine =
  fixes M :: "('s, ('x, 'e, 'd, 'c, 'q, 'o) CaptureAppData, 'o) StateMachine" and ok :: "'s \<Rightarrow> bool" and usable :: "'e \<Rightarrow> bool"
  assumes handles: "ok st \<Longrightarrow> send_spare usable (Suc n) (cx_send w) \<Longrightarrow>
      \<exists>r w'. sm_handle M st input w = Some (r, w') \<and> send_spare usable n (cx_send w') \<and> (\<forall>st'. r = Inr st' \<longrightarrow> ok st')"
    and wants_more: "ok st \<Longrightarrow> sm_wants_input M st"
    and keeps_deframer: "machine_keeps_deframer M"

definition client_ok :: "('e \<Rightarrow> bool) \<Rightarrow> ('x, 'e, 'd, 'c, 'q, 'k) ClientTrafficState \<Rightarrow> bool" where
  "client_ok usable st = (case st of
     Client_Traffic t \<Rightarrow> suite_total usable (kstr_ks (ct_key_schedule_recv t)) \<and> suite_total usable (ksr_ks (ct_resumption t))
   | Client_QuicTraffic t \<Rightarrow> suite_total usable (ksr_ks (ct_resumption t)))"

definition server_ok :: "('e \<Rightarrow> bool) \<Rightarrow> ('x, 'e, 'd, 'c, 'q) ServerTrafficState \<Rightarrow> bool" where
  "server_ok usable st = (case st of Server_Traffic t \<Rightarrow> suite_total usable (kstr_ks (st_key_schedule_recv t)) | Server_QuicTraffic \<Rightarrow> True)"

lemma handle_new_ticket_total:
  assumes "suite_total usable (ksr_ks (ct_resumption t))"
  shows "\<exists>r w'. handle_new_ticket_tls13 S t nst w = Some (r, w') \<and> cx_send w' = cx_send w"
proof -
  obtain psk where "KeyScheduleResumption_derive_ticket_psk (ct_resumption t) (nst13_nonce nst) = Some psk"
    using assms hkdf_provider.ticket_psk_total [OF _ refl, of "ct_resumption t"] by (fastforce simp: suite_total_def)
  then show ?thesis
    by (auto simp: handle_new_ticket_tls13_def handle_new_ticket_impl_def Let_def split: sum.splits)
qed

lemma client_traffic_total:
  assumes E: "encrypter_total usable E" and s: "send_spare usable (Suc n) (cx_send w)"
    and t: "suite_total usable (kstr_ks (ct_key_schedule_recv t))" "suite_total usable (ksr_ks (ct_resumption t))"
  shows "\<exists>r w'. client_ExpectTraffic_handle classify dns_ok E S t input w = Some (r, w') \<and> send_spare usable n (cx_send w') \<and>
    (\<forall>t'. r = Inr t' \<longrightarrow> suite_total usable (kstr_ks (ct_key_schedule_recv t')) \<and> suite_total usable (ksr_ks (ct_resumption t')))"
proof -
  have less: "send_spare usable n (cx_send w)" by (rule send_spare_less [OF s]) simp
  have nst: "\<exists>r w'. handle_new_ticket_tls13 S (t\<lparr>ct_counters := k\<rparr>) nst w = Some (r, w') \<and> send_spare usable n (cx_send w')" for k nst
    using handle_new_ticket_total [of usable "t\<lparr>ct_counters := k\<rparr>" S nst w] t(2) less by auto
  have ku: "\<exists>r w'. handle_key_update classify dns_ok E input req (ct_key_schedule_recv t) w = Some (r, w') \<and>
      send_spare usable n (cx_send w') \<and> (\<forall>ks'. r = Inr ks' \<longrightarrow> suite_total usable (kstr_ks ks'))" for req
    by (rule handle_key_update_total [OF E s t(1)])
  consider (data) p where "msg_payload (in_message input) = MP_ApplicationData p"
    | (ticket) nst b where "msg_payload (in_message input) = MP_Handshake (HP_NewSessionTicketTls13 nst) b"
    | (update) req b where "msg_payload (in_message input) = MP_Handshake (HP_KeyUpdate req) b"
    | (other) "\<exists>e. client_ExpectTraffic_handle classify dns_ok E S t input w = Some (Inl e, w)"
  proof (cases "msg_payload (in_message input)")
    case (MP_Handshake h b)
    then show thesis using ticket update other by (cases h) (simp_all add: client_ExpectTraffic_handle_def)
  qed (use data other in \<open>simp_all add: client_ExpectTraffic_handle_def\<close>)
  then show ?thesis
  proof cases
    case data
    then show ?thesis using less t by (simp add: client_ExpectTraffic_handle_def received_plaintext_def)
  next
    case ticket
    show ?thesis
    proof (cases "received_handshake_message (ct_counters t)")
      case (Inr k)
      obtain r w' where "handle_new_ticket_tls13 S (t\<lparr>ct_counters := k\<rparr>) nst w = Some (r, w')" "send_spare usable n (cx_send w')"
        using nst by blast
      with ticket Inr t show ?thesis by (cases r) (simp_all add: client_ExpectTraffic_handle_def Let_def)
    qed (use ticket less in \<open>simp add: client_ExpectTraffic_handle_def\<close>)
  next
    case update
    show ?thesis
    proof (cases "received_handshake_message (ct_counters t)")
      case (Inr k)
      obtain r w' where "handle_key_update classify dns_ok E input req (ct_key_schedule_recv t) w = Some (r, w')"
        "send_spare usable n (cx_send w')" "\<forall>ks'. r = Inr ks' \<longrightarrow> suite_total usable (kstr_ks ks')"
        using ku [of req] by blast
      with update Inr t show ?thesis by (cases r) (simp_all add: client_ExpectTraffic_handle_def Let_def)
    qed (use update less in \<open>simp add: client_ExpectTraffic_handle_def\<close>)
  next
    case other
    with less show ?thesis by auto
  qed
qed

lemma server_traffic_total:
  assumes E: "encrypter_total usable E" and s: "send_spare usable (Suc n) (cx_send w)"
    and t: "suite_total usable (kstr_ks (st_key_schedule_recv t))"
  shows "\<exists>r w'. server_ExpectTraffic_handle classify dns_ok E t input w = Some (r, w') \<and> send_spare usable n (cx_send w') \<and>
    (\<forall>t'. r = Inr t' \<longrightarrow> suite_total usable (kstr_ks (st_key_schedule_recv t')))"
proof -
  have less: "send_spare usable n (cx_send w)" by (rule send_spare_less [OF s]) simp
  have ku: "\<exists>r w'. handle_key_update classify dns_ok E input req (st_key_schedule_recv t) w = Some (r, w') \<and>
      send_spare usable n (cx_send w') \<and> (\<forall>ks'. r = Inr ks' \<longrightarrow> suite_total usable (kstr_ks ks'))" for req
    by (rule handle_key_update_total [OF E s t])
  consider (data) p where "msg_payload (in_message input) = MP_ApplicationData p"
    | (update) req b where "msg_payload (in_message input) = MP_Handshake (HP_KeyUpdate req) b"
    | (other) "\<exists>e. server_ExpectTraffic_handle classify dns_ok E t input w = Some (Inl e, w)"
  proof (cases "msg_payload (in_message input)")
    case (MP_Handshake h b)
    then show thesis using update other by (cases h) (simp_all add: server_ExpectTraffic_handle_def)
  qed (use data other in \<open>simp_all add: server_ExpectTraffic_handle_def\<close>)
  then show ?thesis
  proof cases
    case data
    then show ?thesis using less t by (simp add: server_ExpectTraffic_handle_def received_plaintext_def)
  next
    case update
    show ?thesis
    proof (cases "received_handshake_message (st_counters t)")
      case (Inr k)
      obtain r w' where "handle_key_update classify dns_ok E input req (st_key_schedule_recv t) w = Some (r, w')"
        "send_spare usable n (cx_send w')" "\<forall>ks'. r = Inr ks' \<longrightarrow> suite_total usable (kstr_ks ks')"
        using ku [of req] by blast
      with update Inr t show ?thesis by (cases r) (simp_all add: server_ExpectTraffic_handle_def Let_def)
    qed (use update less in \<open>simp add: server_ExpectTraffic_handle_def\<close>)
  next
    case other
    with less show ?thesis by auto
  qed
qed

lemma client_calm:
  assumes E: "encrypter_total usable E"
  shows "calm_machine (client_traffic_machine classify dns_ok E S) (client_ok usable) usable"
proof (unfold_locales, goal_cases)
  case (1 st n w input)
  have less: "send_spare usable n (cx_send w)" by (rule send_spare_less [OF 1(2)]) simp
  show ?case
  proof (cases st)
    case (Client_Traffic t)
    obtain r w' where "client_ExpectTraffic_handle classify dns_ok E S t input w = Some (r, w')" "send_spare usable n (cx_send w')"
      "\<forall>t'. r = Inr t' \<longrightarrow> suite_total usable (kstr_ks (ct_key_schedule_recv t')) \<and> suite_total usable (ksr_ks (ct_resumption t'))"
      using client_traffic_total [OF E 1(2), of t classify dns_ok S input] 1(1) Client_Traffic by (auto simp: client_ok_def)
    with Client_Traffic show ?thesis by (cases r) (simp_all add: client_traffic_machine_def client_ok_def)
  next
    case (Client_QuicTraffic t)
    show ?thesis
    proof (cases "require_handshake_msg (in_message input) HandshakeType_NewSessionTicket pick_NewSessionTicketTls13")
      case (Inr nst)
      obtain r w' where "handle_new_ticket_tls13 S t nst w = Some (r, w')" "cx_send w' = cx_send w"
        using handle_new_ticket_total [of usable t S nst w] 1(1) Client_QuicTraffic by (auto simp: client_ok_def)
      with Client_QuicTraffic Inr less 1(1) show ?thesis
        by (cases r) (simp_all add: client_traffic_machine_def client_ExpectQuicTraffic_handle_def)
    qed (use Client_QuicTraffic less in \<open>simp add: client_traffic_machine_def client_ExpectQuicTraffic_handle_def\<close>)
  qed
qed (simp_all add: client_traffic_machine_def client_machine_keeps_deframer [unfolded client_traffic_machine_def])

lemma server_calm:
  assumes E: "encrypter_total usable E"
  shows "calm_machine (server_traffic_machine classify dns_ok E) (server_ok usable) usable"
proof (unfold_locales, goal_cases)
  case (1 st n w input)
  have less: "send_spare usable n (cx_send w)" by (rule send_spare_less [OF 1(2)]) simp
  show ?case
  proof (cases st)
    case (Server_Traffic t)
    obtain r w' where "server_ExpectTraffic_handle classify dns_ok E t input w = Some (r, w')" "send_spare usable n (cx_send w')"
      "\<forall>t'. r = Inr t' \<longrightarrow> suite_total usable (kstr_ks (st_key_schedule_recv t'))"
      using server_traffic_total [OF E 1(2), of t classify dns_ok input] 1(1) Server_Traffic by (auto simp: server_ok_def)
    with Server_Traffic show ?thesis by (cases r) (simp_all add: server_traffic_machine_def server_ok_def)
  next
    case Server_QuicTraffic
    with less show ?thesis by (simp add: server_traffic_machine_def server_ExpectQuicTraffic_handle_def)
  qed
qed (simp_all add: server_traffic_machine_def server_machine_keeps_deframer [unfolded server_traffic_machine_def])

subsection \<open>A record\<close>

lemma reject_renegotiation_total:
  assumes E: "encrypter_total usable E" and s: "send_spare usable (Suc n) sp"
  shows "\<exists>r rp' sp' tls'. reject_renegotiation_request E msg rp sp tls = Some (r, rp', sp', tls') \<and> send_spare usable n sp'"
proof -
  have less: "send_spare usable n sp" by (rule send_spare_less [OF s]) simp
  obtain r sp' tls' where "send_alert E AlertLevel_Warning AlertDescription_NoRenegotiation sp tls = Some (r, sp', tls')" "send_spare usable n sp'"
    using send_alert_total [OF E s] by blast
  with less show ?thesis
    by (cases r; cases "received_renegotiation_request (rp_temper_counters rp)")
       (simp_all add: reject_renegotiation_request_def Let_def)
qed

lemma receive_record_total:
  assumes E: "encrypter_total usable E" and s: "send_spare usable (Suc n) sp"
  shows "\<exists>r rp' sp' tls'. receive_record classify dns_ok E rec aligned rp sp tls = Some (r, rp', sp', tls') \<and> send_spare usable n sp'"
proof -
  have less: "send_spare usable n sp" by (rule send_spare_less [OF s]) simp
  obtain dropped rp1 where d: "(if rec_typ rec = ContentType_ChangeCipherSpec then drop_tls13_ccs rec rp else (Inr False, rp)) = (dropped, rp1)"
    by force
  show ?thesis
  proof (cases "dropped = Inr False")
    case True
    show ?thesis
    proof (cases "Message_try_from classify dns_ok rec")
      case (Inr m)
      obtain r rp' sp' tls' where "reject_renegotiation_request E m rp1 sp tls = Some (r, rp', sp', tls')" "send_spare usable n sp'"
        using reject_renegotiation_total [OF E s] by blast
      with less True Inr d show ?thesis
        by (cases "msg_payload m"; cases r; cases "projr r") (simp_all add: receive_record_def Let_def split_beta)
    qed (use less True d in \<open>simp add: receive_record_def Let_def\<close>)
  next
    case False
    with less d show ?thesis by (cases dropped; cases "projr dropped") (simp_all add: receive_record_def Let_def)
  qed
qed

context calm_machine begin

lemma handle_record_total:
  assumes E: "encrypter_total usable E" and s: "send_spare usable (Suc (Suc n)) (cx_send w)" and st: "ok st"
  shows "\<exists>r w'. handle_record classify dns_ok E M mode st rec w = Some (r, w') \<and> send_spare usable n (cx_send w') \<and>
    (\<forall>st'. r = Inr st' \<longrightarrow> ok st')"
proof -
  let ?a = "Deframer_aligned (rp_deframer (cx_recv w))"
  obtain r rp' sp' tls' where r: "receive_record classify dns_ok E rec ?a (cx_recv w) (cx_send w) (cx_tls w) = Some (r, rp', sp', tls')"
    "send_spare usable (Suc n) sp'"
    using receive_record_total [OF E s] by blast
  let ?w = "w\<lparr>cx_recv := rp', cx_send := sp', cx_tls := tls'\<rparr>"
  have less: "send_spare usable n sp'" by (rule send_spare_less [OF r(2)]) simp
  show ?thesis
  proof (cases r rule: sum_option_cases)
    case (Something input)
    obtain r2 w2 where h: "sm_handle M st input ?w = Some (r2, w2)" "send_spare usable n (cx_send w2)" "\<forall>st'. r2 = Inr st' \<longrightarrow> ok st'"
      using handles [OF st, of n ?w input] r(2) by auto
    then show ?thesis using r(1) Something wants_more by (cases r2) (simp_all add: handle_record_def Let_def)
  qed (use r(1) less st wants_more in \<open>simp_all add: handle_record_def Let_def\<close>)
qed

end

subsection \<open>A turn of the loop\<close>

text \<open>
  What is left to do, as one number: every byte that is not processed may complete as many messages
  as there are bytes.
\<close>

definition work :: "'i TlsInputBuffer \<Rightarrow> 'i \<Rightarrow> ('x, 'e, 'd, 'c, 'q, 'o) CaptureAppData \<Rightarrow> nat" where
  "work I i w = (length (ib_slice I i) + 1) * fst (left_to_do I i w) + snd (left_to_do I i w)"

text \<open>The connection is sound, and the records that the rest of the input may make it send can be sent.\<close>

definition connection_ok :: "('e \<Rightarrow> bool) \<Rightarrow> 'i TlsInputBuffer \<Rightarrow> 'i \<Rightarrow> ('x, 'e, 'd, 'c, 'q, 'o) CaptureAppData \<Rightarrow> bool" where
  "connection_ok usable I i w \<longleftrightarrow> deframer_ok (ib_slice I i) (rp_deframer (cx_recv w)) \<and> send_spare usable (3 * work I i w + 4) (cx_send w)"

lemma split_messages_length: "length (split_messages bs) \<le> length bs"
proof (induction bs rule: split_messages.induct)
  case (1 bs)
  show ?case
  proof (cases "\<exists>n. bs \<noteq> [] \<and> declared_size bs = Some n \<and> n + HANDSHAKE_HEADER_LEN \<le> length bs")
    case True
    then obtain n where n: "bs \<noteq> []" "declared_size bs = Some n" "n + HANDSHAKE_HEADER_LEN \<le> length bs" by blast
    have "length (split_messages (drop (n + HANDSHAKE_HEADER_LEN) bs)) \<le> length bs - (n + HANDSHAKE_HEADER_LEN)"
      using "1.IH" [OF n] by simp
    then show ?thesis using n by (simp add: split_messages.simps [of bs] HANDSHAKE_HEADER_LEN_def)
  next
    case False
    then show ?thesis by (subst split_messages.simps) (auto simp: Suc_le_eq split: option.splits)
  qed
qed

lemma stream_length:
  assumes "spans_between lo ss hi" "hi \<le> length buf"
  shows "length (concat (map (span_bytes buf) ss)) \<le> hi - lo"
  using assms
proof (induction ss arbitrary: lo)
  case (Cons s ss)
  then have "length (concat (map (span_bytes buf) ss)) \<le> hi - fs_end s" "lo \<le> fs_start s" "fs_start s \<le> fs_end s" "fs_end s \<le> hi"
    using spans_between_le [of "fs_end s" ss hi] by simp_all
  moreover have "length (span_bytes buf s) \<le> fs_end s - fs_start s" by (simp add: span_bytes_def slice_def)
  ultimately show ?case by simp
qed simp

lemma spans_bound:
  assumes "deframer_ok buf d"
  shows "length (df_spans d) \<le> length buf"
proof -
  have d: "df_processed d \<le> length buf" "spans_between 0 (df_spans d) (df_processed d)"
    "map (span_bytes buf) (df_spans d) = split_messages (handshake_stream buf d)"
    using assms by (simp_all add: deframer_ok_def Deframer_settled_def)
  have "length (df_spans d) = length (split_messages (handshake_stream buf d))" using d(3) by (metis length_map)
  also have "\<dots> \<le> length (handshake_stream buf d)" by (rule split_messages_length)
  also have "\<dots> \<le> df_processed d" using stream_length [OF d(2,1)] by (simp add: handshake_stream_def)
  finally show ?thesis using d(1) by simp
qed

lemma work_less:
  assumes "(left_to_do I i' w', left_to_do I i w) \<in> smaller" "length (ib_slice I i') = length (ib_slice I i)"
    and ok: "deframer_ok (ib_slice I i') (rp_deframer (cx_recv w'))"
  shows "work I i' w' < work I i w"
proof -
  let ?L = "length (ib_slice I i)"
  obtain a b a' b' where l: "left_to_do I i w = (a, b)" "left_to_do I i' w' = (a', b')" by force
  have b': "b' \<le> ?L" using spans_bound [OF ok] assms(2) l(2) by (simp add: left_to_do_def)
  show ?thesis
  proof (cases "a' < a")
    case True
    then have "(?L + 1) * (a' + 1) \<le> (?L + 1) * a" by (intro mult_le_mono2) simp
    then show ?thesis using b' l assms(2) by (simp add: work_def)
  next
    case False
    then show ?thesis using assms(1,2) l by (simp add: work_def)
  qed
qed

locale calm_connection = calm_machine M ok usable + buffer: tls_input_buffer I valid
  for M :: "('s, ('x, 'e, 'd, 'c, 'q, 'o) CaptureAppData, 'o) StateMachine" and ok and usable and I :: "'i TlsInputBuffer" and valid +
  fixes E :: "'e RecordEncrypter" and D :: "'d RecordDecrypter"
  assumes encrypts: "encrypter_total usable E" and decrypts: "decrypter_total D"
begin

definition goes_on_well :: "'i \<Rightarrow> ('x, 'e, 'd, 'c, 'q, 'o) CaptureAppData \<Rightarrow> nat \<Rightarrow> bool" where
  "goes_on_well i w n \<longleftrightarrow> valid i \<and> connection_ok usable I i w \<and> work I i w < n"

definition ends_well :: "Error + 's \<Rightarrow> 'i \<Rightarrow> ('x, 'e, 'd, 'c, 'q, 'o) CaptureAppData \<Rightarrow> bool" where
  "ends_well state i w \<longleftrightarrow> valid i \<and> (\<forall>st. state = Inr st \<longrightarrow> ok st \<and>
     (\<not> rp_has_received_close_notify (cx_recv w) \<longrightarrow> deframer_ok (ib_slice I i) (rp_deframer (cx_recv w))))"

definition turn_well :: "('s, 'i, ('x, 'e, 'd, 'c, 'q, 'o) CaptureAppData) turn \<Rightarrow> nat \<Rightarrow> bool" where
  "turn_well t n = (case t of
     Again st i w \<Rightarrow> ok st \<and> goes_on_well i w n
   | Done (Some (Inr _)) state i w \<Rightarrow> (\<exists>st. state = Inr st \<and> ok st) \<and> goes_on_well i w n
   | Done _ state i w \<Rightarrow> ends_well state i w)"

lemma fail_with_total:
  assumes "send_spare usable 1 (cx_send w)" "valid i"
  shows "\<exists>t. fail_with E e told i w = Some t \<and> turn_well t n"
proof -
  obtain r sp tls where "maybe_send_fatal_alert E e (cx_send w) (cx_tls w) = Some (r, sp, tls)"
    using maybe_send_total [OF encrypts assms(1), of e "cx_tls w"] by auto
  then show ?thesis using assms(2) by (simp add: fail_with_def on_send_def turn_well_def ends_well_def)
qed

lemma end_turn_well:
  assumes i: "valid i" and d: "deframer_ok (ib_slice I i) (rp_deframer (cx_recv w))" and st: "ok st"
    and on: "\<And>i' w'. turn_goes_on (end_turn I M mode early_only st i w) = Some (i', w') \<Longrightarrow> goes_on_well i' w' n"
  shows "turn_well (end_turn I M mode early_only st i w) n"
proof (cases "rp_has_received_close_notify (cx_recv w)")
  case True
  have "df_discard (rp_deframer (cx_recv w)) \<le> length (ib_slice I i)"
    using d by (simp add: deframer_ok_def Deframer_settled_def)
  then have "valid (ib_received_close_notify I (ib_discard I (df_discard (rp_deframer (cx_recv w))) i))"
    using buffer.slice_discard [OF i] buffer.slice_close by blast
  with True st show ?thesis
    by (simp add: end_turn_def Deframer_take_discard_def Let_def turn_well_def ends_well_def)
next
  case False
  with on i d st show ?thesis
    by (auto simp: end_turn_def Let_def turn_well_def ends_well_def split: option.splits DataKind.splits if_splits)
qed

lemma turn_total:
  assumes i: "valid i" and c: "connection_ok usable I i w" and st: "ok st"
  shows "\<exists>t. next_turn classify dns_ok E D I M mode early_only st i w = Some t \<and> turn_well t (work I i w)"
proof -
  let ?W = "work I i w"
  have c: "deframer_ok (ib_slice I i) (rp_deframer (cx_recv w))" "send_spare usable (3 * ?W + 4) (cx_send w)"
    using c by (simp_all add: connection_ok_def)
  obtain res rp1 buf1 where df: "ReceivePath_deframe D (ib_slice I i) (cx_recv w) = Some (res, rp1, buf1)"
    "deframe_ok (ib_slice I i) res rp1 buf1"
    using deframe_loop_total [OF decrypts c(1)] unfolding ReceivePath_deframe_def by blast
  let ?w = "w\<lparr>cx_recv := rp1\<rparr>" and ?i = "ib_write I buf1 i"
  have "length buf1 = length (ib_slice I i)" using df(2) by (simp add: deframe_ok_def)
  then have i1: "valid ?i" "ib_slice I ?i = buf1" "length buf1 = length (ib_slice I i)" using buffer.slice_write [OF i] by simp_all
  have spare: "send_spare usable n (cx_send ?w)" if "n \<le> 3 * ?W + 4" for n using send_spare_less [OF c(2) that] by simp
  note turn = next_turn_def [of classify dns_ok E D I M mode early_only st i w] df(1) wants_more [OF st]
  show ?thesis
  proof (cases res rule: sum_option_cases)
    case (Err e)
    with fail_with_total [OF spare i1(1)] turn show ?thesis by simp
  next
    case Nothing
    with df(2) turn i1 st show ?thesis by (simp add: turn_well_def ends_well_def deframe_ok_def)
  next
    case (Something dr)
    have ok1: "deframer_ok buf1 (rp_deframer rp1)" using df(2) Something by (simp add: deframe_ok_def)
    obtain ra wa where a: "on_send (send_alert E AlertLevel_Fatal AlertDescription_UnexpectedMessage) ?w = Some (ra, wa)"
      using send_alert_total [OF encrypts spare [of "Suc 0"], of AlertLevel_Fatal AlertDescription_UnexpectedMessage "cx_tls ?w"]
      by (auto simp: on_send_def)
    have "\<exists>rb wb. (if dr_want_close_before_decrypt dr then on_send (send_alert E AlertLevel_Warning AlertDescription_CloseNotify) ?w
        else Some (Inr (), ?w)) = Some (rb, wb) \<and> cx_recv wb = rp1 \<and> send_spare usable (Suc (Suc (3 * ?W + 1))) (cx_send wb)"
      using send_alert_total [OF encrypts spare [of "Suc (Suc (Suc (3 * ?W + 1)))"], of AlertLevel_Warning AlertDescription_CloseNotify "cx_tls ?w"]
        spare [of "Suc (Suc (3 * ?W + 1))"] by (auto simp: on_send_def)
    then obtain rb wb where b: "(if dr_want_close_before_decrypt dr then on_send (send_alert E AlertLevel_Warning AlertDescription_CloseNotify) ?w
        else Some (Inr (), ?w)) = Some (rb, wb)" "cx_recv wb = rp1" "send_spare usable (Suc (Suc (3 * ?W + 1))) (cx_send wb)" by blast
    obtain r w2 where h: "handle_record classify dns_ok E M mode st (dr_plaintext dr) wb = Some (r, w2)"
      "send_spare usable (3 * ?W + 1) (cx_send w2)" "\<forall>st'. r = Inr st' \<longrightarrow> ok st'"
      using handle_record_total [OF encrypts b(3) st] by blast
    show ?thesis
    proof (cases "\<not> dr_want_close_before_decrypt dr \<and> rec_payload (dr_plaintext dr) = [] \<and>
        rec_typ (dr_plaintext dr) \<in> {ContentType_Handshake, ContentType_Alert}")
      case True
      with turn Something a i1(1) show ?thesis by (simp add: Let_def turn_well_def ends_well_def)
    next
      case False
      show ?thesis
      proof (cases r)
        case (Inl e)
        with fail_with_total [OF send_spare_less [OF h(2)] i1(1)] turn Something False b(1) h(1) show ?thesis
          by (simp only: Let_def option.case prod.case sum.case if_False if_True not_True_eq_False not_False_eq_True)
      next
        case (Inr st2)
        let ?t = "end_turn I M mode early_only st2 ?i w2"
        have t: "next_turn classify dns_ok E D I M mode early_only st i w = Some ?t"
          using turn Something False b(1) h(1) Inr
          by (simp only: Let_def option.case prod.case sum.case if_False if_True not_True_eq_False not_False_eq_True)
        have d2: "rp_deframer (cx_recv w2) = rp_deframer rp1"
          using handle_record_deframer [OF keeps_deframer] h(1) Inr b(2) by metis
        have "goes_on_well i' w' ?W" if g: "turn_goes_on ?t = Some (i', w')" for i' w'
        proof -
          note e = end_turn_goes_on [OF g]
          have ok': "deframer_ok (ib_slice I i') (rp_deframer (cx_recv w'))" using e d2 ok1 i1(2) by simp
          have lt: "work I i' w' < ?W"
            using work_less [OF _ _ ok', of i w] buffer.turn_progress [OF keeps_deframer i t g] e i1(2,3) by simp
          have "cx_send w' = cx_send w2" using g
            by (auto simp: end_turn_def Let_def split: if_splits prod.splits option.splits DataKind.splits)
          then have "send_spare usable (3 * work I i' w' + 4) (cx_send w')" using send_spare_less [OF h(2)] lt by simp
          with ok' lt e i1(1) show ?thesis by (simp add: goes_on_well_def connection_ok_def)
        qed
        with end_turn_well [of ?i w2 st2] i1(1,2) d2 ok1 h(3) Inr t show ?thesis by simp
      qed
    qed
  qed
qed

text \<open>The loops, with fuel for the work there is.\<close>

lemma next_loop_total:
  "\<lbrakk>valid i; connection_ok usable I i w; ok st; work I i w < n\<rbrakk> \<Longrightarrow>
   \<exists>r state i' w'. next_loop n classify dns_ok E D I M mode early_only st i w = Some (Some (r, state, i', w')) \<and>
     turn_well (Done r state i' w') (work I i w)"
proof (induction n arbitrary: st i w)
  case (Suc n)
  obtain t where t: "next_turn classify dns_ok E D I M mode early_only st i w = Some t" "turn_well t (work I i w)"
    using turn_total [OF Suc.prems(1-3)] by blast
  show ?case
  proof (cases t)
    case (Again st' i' w')
    then have g: "ok st'" "valid i'" "connection_ok usable I i' w'" "work I i' w' < work I i w"
      using t(2) by (simp_all add: turn_well_def goes_on_well_def)
    with Suc.IH [of i' w' st'] Suc.prems(4) obtain r state i2 w2 where
      l: "next_loop n classify dns_ok E D I M mode early_only st' i' w' = Some (Some (r, state, i2, w2))"
      "turn_well (Done r state i2 w2) (work I i' w')" by auto
    have "turn_well (Done r state i2 w2) (work I i w)"
      using l(2) g(4) by (auto simp: turn_well_def goes_on_well_def split: option.splits sum.splits)
    with l(1) t(1) Again show ?thesis by simp
  qed (use t in simp)
qed simp

lemma drain_total:
  "\<lbrakk>valid i; \<forall>st. state = Inr st \<longrightarrow> ok st \<and> connection_ok usable I i w; work I i w < n\<rbrakk> \<Longrightarrow>
   \<exists>r buf' state' i' w'. drain mode n classify dns_ok E D I M buf state i w = Some (Some (r, buf', state', i', w')) \<and>
     ends_well state' i' w'"
proof (induction n arbitrary: buf state i w)
  case (Suc n)
  show ?case
  proof (cases state)
    case (Inl e)
    with Suc.prems(1) show ?thesis by (simp add: MessageIter_next_def ends_well_def)
  next
    case (Inr st)
    let ?w = "w\<lparr>cx_received_plaintext := None\<rparr>"
    have w: "ok st" "connection_ok usable I i ?w" "work I i ?w = work I i w"
      using Suc.prems(2) Inr by (simp_all add: connection_ok_def work_def)
    with next_loop_total [OF Suc.prems(1) w(2,1), of "Suc n" classify dns_ok mode False] Suc.prems(3)
    obtain r state' i' w' where
      l: "next_loop (Suc n) classify dns_ok E D I M mode False st i ?w = Some (Some (r, state', i', w'))"
      "turn_well (Done r state' i' w') (work I i w)" by auto
    have m: "MessageIter_next (Suc n) classify dns_ok E D I M mode False state i w = Some (Some (r, state', i', w'))"
      using l(1) Inr by (simp add: MessageIter_next_def del: next_loop.simps)
    consider (none) "r = None" | (err) e where "r = Some (Inl e)" | (payload) p where "r = Some (Inr p)"
      by (metis option.exhaust old.sum.exhaust)
    then show ?thesis
    proof cases
      case (payload p)
      then have "valid i'" "\<forall>st. state' = Inr st \<longrightarrow> ok st \<and> connection_ok usable I i' w'" "work I i' w' < n"
        using l(2) Suc.prems(3) by (auto simp: turn_well_def goes_on_well_def)
      from Suc.IH [OF this, of "buf @ p"] m payload show ?thesis by simp
    qed (use m l(2) in \<open>simp_all add: turn_well_def\<close>)
  qed
qed simp

lemma discard_input_well:
  assumes "ends_well state i w" "discard_input I i w = (i', w')" "state = Inr st" "\<not> rp_has_received_close_notify (cx_recv w)"
  shows "ends_well state i' w' \<and> \<not> rp_has_received_close_notify (cx_recv w')"
proof -
  let ?d = "rp_deframer (cx_recv w)"
  have d: "valid i" "ok st" "deframer_ok (ib_slice I i) ?d" using assms by (auto simp: ends_well_def)
  have "df_discard ?d \<le> length (ib_slice I i)" using d(3) by (simp add: deframer_ok_def Deframer_settled_def)
  with buffer.slice_discard [OF d(1)] have "valid i'" "ib_slice I i' = drop (df_discard ?d) (ib_slice I i)"
    using assms(2) by (auto simp: discard_input_def Deframer_take_discard_def Let_def)
  moreover have "deframer_ok (drop (df_discard ?d) (ib_slice I i)) (snd (Deframer_take_discard ?d))"
    using take_discard_settled [of "ib_slice I i" ?d] d(3)
    by (auto simp: deframer_ok_def Deframer_take_discard_def Let_def)
  ultimately show ?thesis using assms(2,3,4) d(2) by (auto simp: ends_well_def discard_input_def Let_def split_beta)
qed

lemma handle_all_total:
  assumes "valid i" "connection_ok usable I i w" "ok st" "work I i w < fuel"
  shows "\<exists>r buf' state' i' w'. handle_all fuel classify dns_ok E D I M buf (Inr st) i w = Some (Some (r, buf', state', i', w')) \<and>
    (\<forall>st'. state' = Inr st' \<and> \<not> rp_has_received_close_notify (cx_recv w') \<longrightarrow>
       ok st' \<and> valid i' \<and> deframer_ok (ib_slice I i') (rp_deframer (cx_recv w')))"
proof -
  obtain r buf' state' i1 w1 where
    d: "drain Mode_All fuel classify dns_ok E D I M buf (Inr st) i w = Some (Some (r, buf', state', i1, w1))" "ends_well state' i1 w1"
    using drain_total [OF assms(1) _ assms(4), of "Inr st"] assms(2,3) by blast
  obtain i' w' where di: "discard_input I i1 w1 = (i', w')" by force
  have c: "rp_has_received_close_notify (cx_recv w') = rp_has_received_close_notify (cx_recv w1)"
    using di by (auto simp: discard_input_def Let_def split_beta)
  have "handle_all fuel classify dns_ok E D I M buf (Inr st) i w = Some (Some (r, buf', state', i', w'))"
    using d(1) di by (simp add: handle_all_def handle_all_loop_drain)
  moreover have "ok st' \<and> valid i' \<and> deframer_ok (ib_slice I i') (rp_deframer (cx_recv w'))"
    if "state' = Inr st'" "\<not> rp_has_received_close_notify (cx_recv w')" for st'
    using discard_input_well [OF d(2) di that(1)] that c by (simp add: ends_well_def)
  ultimately show ?thesis by blast
qed

end

text \<open>The conditions on a connection and its input buffer, with what they add up to.\<close>

definition can_take ::
  "('e \<Rightarrow> bool) \<Rightarrow> 'i TlsInputBuffer \<Rightarrow> 'i \<Rightarrow> ('x, 'e, 'd, 'c, 'q, 'o) CaptureAppData \<Rightarrow> nat \<Rightarrow> bool" where
  "can_take usable I i w fuel \<longleftrightarrow> (let n = length (ib_slice I i) in
     deframer_ok (ib_slice I i) (rp_deframer (cx_recv w)) \<and> send_spare usable (3 * (n + 1) ^ 2 + 4) (cx_send w) \<and> (n + 1) ^ 2 < fuel)"

lemma can_take_ok:
  assumes "can_take usable I i w fuel"
  shows "connection_ok usable I i w" "work I i w < fuel"
proof -
  let ?n = "length (ib_slice I i)"
  have d: "deframer_ok (ib_slice I i) (rp_deframer (cx_recv w))" using assms by (simp add: can_take_def Let_def)
  have "work I i w \<le> (?n + 1) * ?n + ?n"
    using spans_bound [OF d] unfolding work_def by (intro add_mono mult_le_mono2) (simp_all add: left_to_do_def)
  also have "\<dots> \<le> (?n + 1) ^ 2" by (simp add: power2_eq_square)
  finally have "work I i w \<le> (?n + 1) ^ 2" .
  then show "connection_ok usable I i w" "work I i w < fuel"
    using assms send_spare_less [of usable "3 * (?n + 1) ^ 2 + 4" "cx_send w" "3 * work I i w + 4"]
    by (simp_all add: can_take_def connection_ok_def Let_def)
qed

text \<open>The fuzzing provider's ciphers meet the conditions.\<close>

lemma fuzz_encrypter_total: "encrypter_total (\<lambda>_. True) fuzz_Tls13_encrypter"
  using record_protection_total [OF fuzz13.record_protection_axioms] by simp

lemma fuzz_Tls13_decrypter_total: "decrypter_total fuzz_Tls13_decrypter"
proof -
  have "length (snd (fuzz_Tls13Cipher_decrypt rec seq)) = length (rec_payload rec) \<and>
      (\<forall>l. fst (fuzz_Tls13Cipher_decrypt rec seq) = Inr l \<longrightarrow> lo_start l + lo_len l \<le> length (rec_payload rec))" for rec seq
  proof (cases "into_tls13_unpadded_record (rec\<lparr>rec_payload := apply_mask (InboundOpaque_truncate
      (length (rec_payload rec) - AEAD_OVERHEAD) (rec_payload rec))\<rparr>)")
    case (Inl e)
    thus ?thesis by (auto simp: fuzz_Tls13Cipher_decrypt_def Let_def InboundOpaque_truncate_def)
  next
    case (Inr r)
    hence "length (rec_payload r) \<le> length (rec_payload rec)"
      by (auto simp: into_tls13_unpadded_record_iff InboundOpaque_truncate_def split: if_splits dest!: arg_cong [of _ _ length])
    with Inr show ?thesis by (auto simp: fuzz_Tls13Cipher_decrypt_def Let_def InboundOpaque_truncate_def located_front_def)
  qed
  thus ?thesis by (fastforce simp: decrypter_total_def fuzz_Tls13_decrypter_def Let_def split_def)
qed

interpretation fuzz_client: calm_connection "client_traffic_machine classify dns_ok fuzz_Tls13_encrypter S" "client_ok (\<lambda>_. True)" "\<lambda>_. True"
    VecInput_buffer VecInput_ok fuzz_Tls13_encrypter fuzz_Tls13_decrypter
  for classify dns_ok S
  by (intro calm_connection.intro calm_connection_axioms.intro client_calm fuzz_encrypter_total fuzz_Tls13_decrypter_total
      vec_input.tls_input_buffer_axioms)

interpretation fuzz_server: calm_connection "server_traffic_machine classify dns_ok fuzz_Tls13_encrypter" "server_ok (\<lambda>_. True)" "\<lambda>_. True"
    VecInput_buffer VecInput_ok fuzz_Tls13_encrypter fuzz_Tls13_decrypter
  for classify dns_ok
  by (intro calm_connection.intro calm_connection_axioms.intro server_calm fuzz_encrypter_total fuzz_Tls13_decrypter_total
      vec_input.tls_input_buffer_axioms)

subsection \<open>Errors\<close>

text \<open>After an error the connection repeats it.\<close>

lemma drain_error:
  "drain mode n classify dns_ok E D I M buf (Inr st) i w = Some (Some (Inl e, buf', state, i', w')) \<Longrightarrow>
     state = Inl e \<and> (\<forall>a. AlertDescription_try_from e = Inr a \<longrightarrow> sp_encrypt_state (cx_send w') = ES_Retired)"
proof (induction n arbitrary: buf st i w)
  case (Suc n)
  then obtain r where n: "next_loop (Suc n) classify dns_ok E D I M mode False st i (w\<lparr>cx_received_plaintext := None\<rparr>) = Some (Some r)"
    by (auto simp: MessageIter_next_def simp del: next_loop.simps split: option.splits)
  obtain res state1 i1 w1 where r: "r = (res, state1, i1, w1)" by (cases r)
  consider (none) "res = None" | (err) e1 where "res = Some (Inl e1)" | (payload) pl where "res = Some (Inr pl)"
    by (metis option.exhaust old.sum.exhaust)
  then show ?case
  proof cases
    case (payload pl)
    obtain st1 where "state1 = Inr st1" using loop_payload_open [OF n [unfolded r payload]] by blast
    with Suc n r payload show ?thesis by (simp add: MessageIter_next_def del: next_loop.simps)
  next
    case (err e1)
    with loop_error [OF n [unfolded r err]] n r Suc.prems show ?thesis by (auto simp: MessageIter_next_def simp del: next_loop.simps)
  qed (use Suc.prems n r in \<open>simp add: MessageIter_next_def del: next_loop.simps\<close>)
qed simp

subsection \<open>Two ends of a connection\<close>

definition any_name :: "bytes \<Rightarrow> ServerNameKind" where
  "any_name = (\<lambda>_. ServerName_DnsName)"

definition any_dns :: "bytes \<Rightarrow> bool" where
  "any_dns = (\<lambda>_. True)"

definition example_encrypting :: "(HkdfExpanderUsingHmac, unit, unit, unit, unit) Encrypting" where
  "example_encrypting = \<lparr>eg_encrypter = (), eg_write_seq_max = 1000, eg_write_seq = 0,
     eg_key_update_local = KeyUpdateLocal_Idle, eg_key_update_remote = KeyUpdateRemote_Idle,
     eg_tls13_key_schedule = None\<rparr>"

definition example_send :: "(HkdfExpanderUsingHmac, unit, unit, unit, unit) SendPath" where
  "example_send = SendPath_default\<lparr>sp_encrypt_state := ES_Encrypting example_encrypting,
     sp_may_send_application_data := True\<rparr>"

definition example_receive :: "unit ReceivePath" where
  "example_receive = (ReceivePath_new Side_Server)\<lparr>rp_decrypt_state := set_record_decrypter () DecryptionState_new\<rparr>"

definition example_end :: "'o \<Rightarrow> (HkdfExpanderUsingHmac, unit, unit, unit, unit, 'o) CaptureAppData" where
  "example_end other = \<lparr>cx_recv = example_receive, cx_send = example_send, cx_tls = [], cx_received_plaintext = None,
     cx_other = other\<rparr>"

definition example_env ::
  "(bytes, unit, (HkdfExpanderUsingHmac, unit, unit, unit, unit) Tls13Session) ClientSessionMemoryCache client_env" where
  "example_env = \<lparr>ce_current_time = Some 1000, ce_store = ClientSessionMemoryCache_new 8\<rparr>"

definition example_server_traffic :: "(HkdfExpanderUsingHmac, unit, unit, unit, unit) server_ExpectTraffic" where
  "example_server_traffic = \<lparr>st_enable_secret_extraction = False, st_key_schedule_recv = ct_key_schedule_recv example_traffic,
     st_counters = TrafficTemperCounters_default\<rparr>"

text \<open>
  Claim C1. A client and a server talk: whatever the two applications write, in as many calls and
  turns as they like, is what the other one reads, with nothing lost, added or reordered. The bytes
  one end puts out are given to the other end's \<open>handle_all\<close>. This holds for every cipher that
  protects records, as long as the keys last; more fuel than there are bytes is enough.
\<close>

theorem conversation_delivered:
  assumes "record_protection E D paired admits received_version" "admits ContentType_ApplicationData"
    and "\<forall>u \<in> set us. \<forall>p \<in> set (says u). OutboundPlain_wf p" "(\<Sum>u \<leftarrow> us. write_len (says u)) \<le> n" "n < fuel"
    and "may_speak paired client server n" "may_speak paired server client n"
  shows "converse fuel classify dns_ok E D S us (Inr (Client_Traffic ct), client) (Inr (Server_Traffic st), server) =
    Some (map (\<lambda>u. written (says u)) us)"
  by (rule conversation_heard [OF assms])

lemma example_may_speak: "n \<le> 900 \<Longrightarrow> may_speak (\<lambda>_ _. True) (example_end a) (example_end b) n"
  unfolding may_speak_def
  by (rule conjI, rule exI [of _ example_encrypting])
     (simp_all add: example_end_def example_send_def example_receive_def example_encrypting_def may_write_def may_read_def
      in_step_def set_record_decrypter_def ReceivePath_new_def deframer_at_def Deframer_default_def SendPath_default_def
      Fragmenter_default_def Fragmenter_wf_def MAX_FRAGMENT_LEN_def SEQ_SOFT_LIMIT_def)

theorem conversation_delivered_witness:
  "converse 10 any_name any_dns fuzz_Tls13_encrypter fuzz_Tls13_decrypter ClientSessionMemoryCache
     [Client_Says [OP_Single [1, 2], OP_Single [3]], Server_Says [OP_Single [4]]]
     (Inr (Client_Traffic example_traffic), example_end example_env)
     (Inr (Server_Traffic example_server_traffic), example_end ()) = Some [[1, 2, 3], [4]]"
proof -
  let ?us = "[Client_Says [OP_Single [1, 2], OP_Single [3]], Server_Says [OP_Single [4]]]"
  have w: "\<forall>u \<in> set ?us. \<forall>p \<in> set (says u). OutboundPlain_wf p" "(\<Sum>u \<leftarrow> ?us. write_len (says u)) \<le> 4" "4 < (10 :: nat)" by simp_all
  have a: "ContentType_ApplicationData \<noteq> 0 \<and> ContentType_ApplicationData \<noteq> ContentType_ChangeCipherSpec" by simp
  have v: "written [OP_Single [1, 2], OP_Single [3]] = [1, 2, 3]" "written [OP_Single [4]] = [4]"
    by (simp_all add: written_def OutboundPlain_to_vec_def OutboundPlain_copy_to_vec_def)
  have m: "may_speak (\<lambda>_ _. True) (example_end example_env) (example_end ()) 4"
    "may_speak (\<lambda>_ _. True) (example_end ()) (example_end example_env) 4"
    by (simp_all add: example_may_speak)
  show ?thesis
    using conversation_delivered [OF fuzz13.record_protection_axioms a w m, of any_name any_dns
        ClientSessionMemoryCache example_traffic example_server_traffic] v by simp
qed

text \<open>
  Claim C2. Whatever bytes a peer sends, a client and a server in traffic take them without a panic
  and come to an end: \<open>handle_all\<close> returns, with a result or an error. Unless it reports an error
  or the peer has closed, the connection is sound for the next call. The conditions are a cipher
  that protects records and decrypts within its slice, key derivations that do not fail, and
  sequence numbers that last for the records that so many bytes can make the connection send.
\<close>

theorem connection_never_panics:
  assumes "record_protection E D paired admits received_version" "admits ContentType_Alert" "admits ContentType_Handshake"
    and "decrypter_total D"
    and "VecInput_ok v" "can_take (\<lambda>e. \<exists>d. paired e d) VecInput_buffer v w fuel" "client_ok (\<lambda>e. \<exists>d. paired e d) ct"
    and "VecInput_ok v'" "can_take (\<lambda>e. \<exists>d. paired e d) VecInput_buffer v' w' fuel" "server_ok (\<lambda>e. \<exists>d. paired e d) st"
  shows "(\<exists>r buf1 state v1 w1.
      handle_all fuel classify dns_ok E D VecInput_buffer (client_traffic_machine classify dns_ok E S) buf (Inr ct) v w =
        Some (Some (r, buf1, state, v1, w1)) \<and>
      (\<forall>ct1. state = Inr ct1 \<and> \<not> rp_has_received_close_notify (cx_recv w1) \<longrightarrow>
        client_ok (\<lambda>e. \<exists>d. paired e d) ct1 \<and> VecInput_ok v1 \<and>
        deframer_ok (ib_slice VecInput_buffer v1) (rp_deframer (cx_recv w1)))) \<and>
    (\<exists>r buf1 state v1 w1.
      handle_all fuel classify dns_ok E D VecInput_buffer (server_traffic_machine classify dns_ok E) buf (Inr st) v' w' =
        Some (Some (r, buf1, state, v1, w1)) \<and>
      (\<forall>st1. state = Inr st1 \<and> \<not> rp_has_received_close_notify (cx_recv w1) \<longrightarrow>
        server_ok (\<lambda>e. \<exists>d. paired e d) st1 \<and> VecInput_ok v1 \<and>
        deframer_ok (ib_slice VecInput_buffer v1) (rp_deframer (cx_recv w1))))"
proof -
  note E = record_protection_total [OF assms(1-3)]
  have "calm_connection (client_traffic_machine classify dns_ok E S) (client_ok (\<lambda>e. \<exists>d. paired e d)) (\<lambda>e. \<exists>d. paired e d)
      VecInput_buffer VecInput_ok E D"
    by (intro calm_connection.intro calm_connection_axioms.intro client_calm E assms(4) vec_input.tls_input_buffer_axioms)
  note client = calm_connection.handle_all_total [OF this assms(5) can_take_ok(1) [OF assms(6)] assms(7) can_take_ok(2) [OF assms(6)]]
  have "calm_connection (server_traffic_machine classify dns_ok E) (server_ok (\<lambda>e. \<exists>d. paired e d)) (\<lambda>e. \<exists>d. paired e d)
      VecInput_buffer VecInput_ok E D"
    by (intro calm_connection.intro calm_connection_axioms.intro server_calm E assms(4) vec_input.tls_input_buffer_axioms)
  note server = calm_connection.handle_all_total [OF this assms(8) can_take_ok(1) [OF assms(9)] assms(10) can_take_ok(2) [OF assms(9)]]
  show ?thesis using client server by blast
qed

definition example_input :: VecInput where
  "example_input = VecInput_default\<lparr>vi_buf := [23, 3, 3, 0, 2, 9, 9, 22], vi_used := 8\<rparr>"

lemma example_input_ok: "VecInput_ok example_input"
  by (simp add: VecInput_ok_def example_input_def VecInput_default_def MAX_INPUT_SIZE_def)

lemma example_suite_total: "suite_total (\<lambda>_. True) \<lparr>kss_side = side, kss_state = Tcp_Suite TLS13_FUZZING_SUITE\<rparr>"
  using fuzz_hkdf.hkdf_provider_axioms fuzz_Aead_fits by (auto simp: suite_total_def TLS13_FUZZING_SUITE_def)

lemma example_can_take: "can_take (\<lambda>_. True) VecInput_buffer example_input (example_end a) 100"
  by (simp add: can_take_def example_input_def VecInput_default_def VecInput_buffer_def VecInput_filled_def example_end_def
      example_receive_def ReceivePath_new_def Deframer_default_def deframer_ok_def Deframer_settled_def handshake_stream_def
      send_spare_def encrypting_spare_def example_send_def example_encrypting_def SEQ_HARD_LIMIT_def Let_def power2_eq_square)

theorem connection_never_panics_witness:
  "\<exists>r buf state v w. handle_all 100 any_name any_dns fuzz_Tls13_encrypter fuzz_Tls13_decrypter VecInput_buffer
     (server_traffic_machine any_name any_dns fuzz_Tls13_encrypter) [] (Inr (Server_Traffic example_server_traffic))
     example_input (example_end ()) = Some (Some (r, buf, state, v, w))"
proof -
  have ok: "client_ok (\<lambda>_. True) (Client_Traffic example_traffic)" "server_ok (\<lambda>_. True) (Server_Traffic example_server_traffic)"
    using example_suite_total
    by (simp_all add: client_ok_def server_ok_def example_traffic_def example_server_traffic_def example_resumption_def)
  have adm: "ContentType_Alert \<noteq> 0 \<and> ContentType_Alert \<noteq> ContentType_ChangeCipherSpec"
    "ContentType_Handshake \<noteq> 0 \<and> ContentType_Handshake \<noteq> ContentType_ChangeCipherSpec" by simp_all
  note p = connection_never_panics [OF fuzz13.record_protection_axioms adm fuzz_Tls13_decrypter_total, unfolded simp_thms,
      OF example_input_ok example_can_take ok(1) example_input_ok example_can_take ok(2), of any_name any_dns ClientSessionMemoryCache "[]"]
  show ?thesis using p [of example_env "()"] by blast
qed



text \<open>
  Claim C10. An error is final: it becomes the state of the connection, the send path is retired
  where the error has an alert, and from then on reading and writing report that error again
  and change nothing else.
\<close>

theorem errors_are_final:
  "case handle_all fuel classify dns_ok E D I M buf (Inr st) i w of
     Some (Some (Inl e, _, state, _, w')) \<Rightarrow>
       state = Inl e \<and>
       (case AlertDescription_try_from e of Inr _ \<Rightarrow> sp_encrypt_state (cx_send w') = ES_Retired | Inl _ \<Rightarrow> True) \<and>
       handle_all_loop (Suc n) classify dns_ok E D I M buf2 state i2 w2 = Some (Some (Inl e, buf2, Inl e, i2, w2)) \<and>
       process_loop (Suc n) classify dns_ok E D I M state i2 w2 = Some (Some (Inl e, Inl e, i2, w2)) \<and>
       Connection_write classify dns_ok E state plaintext sp tls = Some (Inl e, sp, tls)
   | _ \<Rightarrow> True"
proof (cases "\<exists>e b state i1 w1. handle_all fuel classify dns_ok E D I M buf (Inr st) i w = Some (Some (Inl e, b, state, i1, w1))")
  case True
  then obtain e b state i1 w1 where h: "handle_all fuel classify dns_ok E D I M buf (Inr st) i w = Some (Some (Inl e, b, state, i1, w1))"
    by blast
  then obtain i' w' where "drain Mode_All fuel classify dns_ok E D I M buf (Inr st) i w = Some (Some (Inl e, b, state, i', w'))"
    "discard_input I i' w' = (i1, w1)"
    by (auto simp: handle_all_def handle_all_loop_drain split: prod.splits)
  moreover have "cx_send w1 = cx_send w'" if "discard_input I i' w' = (i1, w1)" for i' w'
    using that by (auto simp: discard_input_def Let_def split_beta)
  ultimately have "state = Inl e \<and> (\<forall>a. AlertDescription_try_from e = Inr a \<longrightarrow> sp_encrypt_state (cx_send w1) = ES_Retired)"
    using drain_error by metis
  then show ?thesis using h by (auto simp: MessageIter_next_def Connection_write_def failS_def split: sum.splits)
next
  case False
  then show ?thesis by (auto split: option.splits sum.splits)
qed

end
