(* ===== verification/Quic_Keys.thy ===== *)
theory Quic_Keys
  imports Resumption
begin

unbundle bit_operations_syntax

text \<open>
  QUIC (\<open>rustls/src/quic.rs\<close>, and the packet protection of \<open>rustls-ring/src/quic.rs\<close>, which the aws-lc-rs
  provider repeats): versions and their labels, keys built from secrets, key updates, the
  transport that collects messages and key changes, header protection, and packet keys. The
  algorithm of a suite is a record of functions. \<open>None\<close> is a panic.
\<close>

subsection \<open>Versions\<close>

fun initial_salt :: "quic_Version \<Rightarrow> bytes" where
  "initial_salt QuicV1 = [0x38, 0x76, 0x2c, 0xf7, 0xf5, 0x59, 0x34, 0xb3, 0x4d, 0x17, 0x9a, 0xe6, 0xa4, 0xc8,
     0x0c, 0xad, 0xcc, 0xbb, 0x7f, 0x0a]"
| "initial_salt QuicV2 = [0x0d, 0xed, 0xe3, 0xde, 0xf7, 0x00, 0xa6, 0xdb, 0x81, 0x93, 0x81, 0xbe, 0x6e, 0x26,
     0x9d, 0xcb, 0xf9, 0xbd, 0x2e, 0xd9]"

fun packet_key_label :: "quic_Version \<Rightarrow> bytes" where
  "packet_key_label QuicV1 = ascii ''quic key''"
| "packet_key_label QuicV2 = ascii ''quicv2 key''"

fun packet_iv_label :: "quic_Version \<Rightarrow> bytes" where
  "packet_iv_label QuicV1 = ascii ''quic iv''"
| "packet_iv_label QuicV2 = ascii ''quicv2 iv''"

fun header_key_label :: "quic_Version \<Rightarrow> bytes" where
  "header_key_label QuicV1 = ascii ''quic hp''"
| "header_key_label QuicV2 = ascii ''quicv2 hp''"

fun key_update_label :: "quic_Version \<Rightarrow> bytes" where
  "key_update_label QuicV1 = ascii ''quic ku''"
| "key_update_label QuicV2 = ascii ''quicv2 ku''"

subsection \<open>Keys\<close>

record ('p, 'h) QuicAlgorithm =
  qa_packet_key :: "AeadKey \<Rightarrow> Iv \<Rightarrow> 'p option"
  qa_header_protection_key :: "AeadKey \<Rightarrow> 'h option"
  qa_aead_key_len :: usize

record ('x, 'p, 'h) quic_KeyBuilder =
  kb_hkdf :: "'x Hkdf"
  kb_expander :: 'x
  kb_version :: quic_Version
  kb_alg :: "('p, 'h) QuicAlgorithm"

definition KeyBuilder_new ::
  "OkmBlock \<Rightarrow> quic_Version \<Rightarrow> ('p, 'h) QuicAlgorithm \<Rightarrow> 'x Hkdf \<Rightarrow> ('x, 'p, 'h) quic_KeyBuilder option" where
  "KeyBuilder_new secret version alg hkdf = do {
     expander \<leftarrow> expander_for_okm hkdf secret;
     Some \<lparr>kb_hkdf = hkdf, kb_expander = expander, kb_version = version, kb_alg = alg\<rparr> }"

definition KeyBuilder_packet_key :: "('x, 'p, 'h) quic_KeyBuilder \<Rightarrow> 'p option" where
  "KeyBuilder_packet_key b = do {
     let aead_key_len = qa_aead_key_len (kb_alg b);
     packet_key \<leftarrow> hkdf_expand_label_aead_key (kb_hkdf b) (kb_expander b) aead_key_len (packet_key_label (kb_version b)) [];
     iv \<leftarrow> hkdf_expand_label (kb_hkdf b) NONCE_LEN (kb_expander b) (packet_iv_label (kb_version b)) [];
     packet_iv \<leftarrow> (case Iv_new iv of Inr iv \<Rightarrow> Some iv | Inl _ \<Rightarrow> None);
     qa_packet_key (kb_alg b) packet_key packet_iv }"

definition KeyBuilder_header_protection_key :: "('x, 'p, 'h) quic_KeyBuilder \<Rightarrow> 'h option" where
  "KeyBuilder_header_protection_key b = do {
     header_key \<leftarrow> hkdf_expand_label_aead_key (kb_hkdf b) (kb_expander b) (qa_aead_key_len (kb_alg b))
       (header_key_label (kb_version b)) [];
     qa_header_protection_key (kb_alg b) header_key }"

type_synonym ('x, 'e, 'd, 'c, 'p, 'h) suite_for_quic = "('x, 'e, 'd, 'c, ('p, 'h) QuicAlgorithm) quic_Suite"

record ('x, 'e, 'd, 'c, 'p, 'h) quic_Secrets =
  qsec_client :: OkmBlock
  qsec_server :: OkmBlock
  qsec_suite :: "('x, 'e, 'd, 'c, 'p, 'h) suite_for_quic"
  qsec_side :: Side
  qsec_version :: quic_Version

definition Secrets_new ::
  "('x, 'e, 'd, 'c, ('p, 'h) QuicAlgorithm) SecretUpdate \<Rightarrow> quic_Version \<Rightarrow> ('x, 'e, 'd, 'c, 'p, 'h) quic_Secrets" where
  "Secrets_new update version =
     \<lparr>qsec_client = su_client update, qsec_server = su_server update, qsec_suite = su_suite update,
      qsec_side = su_side update, qsec_version = version\<rparr>"

definition local_remote :: "('x, 'e, 'd, 'c, 'p, 'h) quic_Secrets \<Rightarrow> OkmBlock \<times> OkmBlock" where
  "local_remote s = (case qsec_side s of
     Side_Client \<Rightarrow> (qsec_client s, qsec_server s)
   | Side_Server \<Rightarrow> (qsec_server s, qsec_client s))"

definition Secrets_update ::
  "('x, 'e, 'd, 'c, 'p, 'h) quic_Secrets \<Rightarrow> ('x, 'e, 'd, 'c, 'p, 'h) quic_Secrets option" where
  "Secrets_update s = do {
     let H = cs_hkdf_provider (qs_inner (qsec_suite s));
     expander \<leftarrow> expander_for_okm H (qsec_client s);
     client \<leftarrow> hkdf_expand_label_block H expander (key_update_label (qsec_version s)) [];
     expander \<leftarrow> expander_for_okm H (qsec_server s);
     server \<leftarrow> hkdf_expand_label_block H expander (key_update_label (qsec_version s)) [];
     Some (s\<lparr>qsec_client := client, qsec_server := server\<rparr>) }"

record 'p PacketKeySet =
  pks_local :: 'p
  pks_remote :: 'p

definition PacketKeySet_new :: "('x, 'e, 'd, 'c, 'p, 'h) quic_Secrets \<Rightarrow> 'p PacketKeySet option" where
  "PacketKeySet_new secrets = do {
     let (l, r) = local_remote secrets;
     let (version, alg, hkdf) = (qsec_version secrets, qs_quic (qsec_suite secrets), cs_hkdf_provider (qs_inner (qsec_suite secrets)));
     lb \<leftarrow> KeyBuilder_new l version alg hkdf;
     lk \<leftarrow> KeyBuilder_packet_key lb;
     rb \<leftarrow> KeyBuilder_new r version alg hkdf;
     rk \<leftarrow> KeyBuilder_packet_key rb;
     Some \<lparr>pks_local = lk, pks_remote = rk\<rparr> }"

definition next_packet_keys ::
  "('x, 'e, 'd, 'c, 'p, 'h) quic_Secrets \<Rightarrow> ('p PacketKeySet \<times> ('x, 'e, 'd, 'c, 'p, 'h) quic_Secrets) option" where
  "next_packet_keys s = do {
     keys \<leftarrow> PacketKeySet_new s;
     s \<leftarrow> Secrets_update s;
     Some (keys, s) }"

record ('p, 'h) DirectionalKeys =
  dk_header :: 'h
  dk_packet :: 'p

definition DirectionalKeys_new ::
  "('x, 'e, 'd, 'c, 'p, 'h) suite_for_quic \<Rightarrow> OkmBlock \<Rightarrow> quic_Version \<Rightarrow> ('p, 'h) DirectionalKeys option" where
  "DirectionalKeys_new su secret version = do {
     builder \<leftarrow> KeyBuilder_new secret version (qs_quic su) (cs_hkdf_provider (qs_inner su));
     header \<leftarrow> KeyBuilder_header_protection_key builder;
     packet \<leftarrow> KeyBuilder_packet_key builder;
     Some \<lparr>dk_header = header, dk_packet = packet\<rparr> }"

record ('p, 'h) quic_Keys =
  qk_local :: "('p, 'h) DirectionalKeys"
  qk_remote :: "('p, 'h) DirectionalKeys"

definition Keys_new :: "('x, 'e, 'd, 'c, 'p, 'h) quic_Secrets \<Rightarrow> ('p, 'h) quic_Keys option" where
  "Keys_new secrets = do {
     let (l, r) = local_remote secrets;
     lk \<leftarrow> DirectionalKeys_new (qsec_suite secrets) l (qsec_version secrets);
     rk \<leftarrow> DirectionalKeys_new (qsec_suite secrets) r (qsec_version secrets);
     Some \<lparr>qk_local = lk, qk_remote = rk\<rparr> }"

definition Keys_initial ::
  "quic_Version \<Rightarrow> ('x, 'e, 'd, 'c, 'p, 'h) suite_for_quic \<Rightarrow> bytes \<Rightarrow> Side \<Rightarrow> ('p, 'h) quic_Keys option" where
  "Keys_initial version su client_dst_connection_id side = do {
     let H = cs_hkdf_provider (qs_inner su);
     hs_secret \<leftarrow> extract_from_secret H (Some (initial_salt version)) client_dst_connection_id;
     client \<leftarrow> hkdf_expand_label_block H hs_secret (ascii ''client in'') [];
     server \<leftarrow> hkdf_expand_label_block H hs_secret (ascii ''server in'') [];
     Keys_new \<lparr>qsec_client = client, qsec_server = server, qsec_suite = su, qsec_side = side, qsec_version = version\<rparr> }"

definition Suite_keys ::
  "('x, 'e, 'd, 'c, 'p, 'h) suite_for_quic \<Rightarrow> bytes \<Rightarrow> Side \<Rightarrow> quic_Version \<Rightarrow> ('p, 'h) quic_Keys option" where
  "Suite_keys su client_dst_connection_id side version = Keys_initial version su client_dst_connection_id side"

definition Suite_try_from ::
  "('x, 'e, 'd, 'c, ('p, 'h) QuicAlgorithm) Tls13CipherSuite \<Rightarrow> ApiMisuse + ('x, 'e, 'd, 'c, 'p, 'h) suite_for_quic" where
  "Suite_try_from su = (case cs_quic su of
     None \<Rightarrow> Inl NoQuicCompatibleCipherSuites
   | Some q \<Rightarrow> Inr \<lparr>qs_inner = su, qs_quic = q\<rparr>)"

subsection \<open>The transport\<close>

datatype ('x, 'e, 'd, 'c, 'p, 'h) KeyChange =
    KC_Handshake "('p, 'h) quic_Keys"
  | KC_OneRtt "('p, 'h) quic_Keys" "('x, 'e, 'd, 'c, 'p, 'h) quic_Secrets"

datatype ('x, 'e, 'd, 'c, 'p, 'h) QuicEvent =
    QE_Message bytes
  | QE_KeyChange "('x, 'e, 'd, 'c, 'p, 'h) KeyChange"

record ('x, 'e, 'd, 'c, 'p, 'h) Quic =
  q_version :: quic_Version
  q_params :: "bytes option"
  q_events :: "('x, 'e, 'd, 'c, 'p, 'h) QuicEvent list"
  q_early_secret :: "OkmBlock option"

definition Quic_default :: "('x, 'e, 'd, 'c, 'p, 'h) Quic" where
  "Quic_default = \<lparr>q_version = QuicV1, q_params = None, q_events = [], q_early_secret = None\<rparr>"

definition Quic_send_msg ::
  "Message \<Rightarrow> bool \<Rightarrow> ('x, 'e, 'd, 'c, 'p, 'h) Quic \<Rightarrow> ('x, 'e, 'd, 'c, 'p, 'h) Quic" where
  "Quic_send_msg m must_encrypt q = (case msg_payload m of
     MP_Alert _ \<Rightarrow> q
   | payload \<Rightarrow> q\<lparr>q_events := q_events q @ [QE_Message (MessagePayload_encode payload)]\<rparr>)"

definition Quic_events ::
  "('x, 'e, 'd, 'c, 'p, 'h) Quic \<Rightarrow> ('x, 'e, 'd, 'c, 'p, 'h) QuicEvent list \<times> ('x, 'e, 'd, 'c, 'p, 'h) Quic" where
  "Quic_events q = (q_events q, q\<lparr>q_events := []\<rparr>)"

definition Quic_transport_parameters ::
  "bytes \<Rightarrow> ('x, 'e, 'd, 'c, 'p, 'h) Quic \<Rightarrow> ('x, 'e, 'd, 'c, 'p, 'h) Quic" where
  "Quic_transport_parameters params q = q\<lparr>q_params := Some params\<rparr>"

definition Quic_early_secret ::
  "OkmBlock option \<Rightarrow> ('x, 'e, 'd, 'c, 'p, 'h) Quic \<Rightarrow> ('x, 'e, 'd, 'c, 'p, 'h) Quic" where
  "Quic_early_secret secret q = q\<lparr>q_early_secret := secret\<rparr>"

definition Quic_handshake_secrets ::
  "('x, 'e, 'd, 'c, ('p, 'h) QuicAlgorithm) SecretUpdate \<Rightarrow> ('x, 'e, 'd, 'c, 'p, 'h) Quic \<Rightarrow>
   ('x, 'e, 'd, 'c, 'p, 'h) Quic option" where
  "Quic_handshake_secrets secrets q = do {
     keys \<leftarrow> Keys_new (Secrets_new secrets (q_version q));
     Some (q\<lparr>q_events := q_events q @ [QE_KeyChange (KC_Handshake keys)]\<rparr>) }"

definition Quic_traffic_secrets ::
  "('x, 'e, 'd, 'c, ('p, 'h) QuicAlgorithm) SecretUpdate \<Rightarrow> ('x, 'e, 'd, 'c, 'p, 'h) Quic \<Rightarrow>
   ('x, 'e, 'd, 'c, 'p, 'h) Quic option" where
  "Quic_traffic_secrets secrets q = do {
     let secrets = Secrets_new secrets (q_version q);
     keys \<leftarrow> Keys_new secrets;
     secrets \<leftarrow> Secrets_update secrets;
     Some (q\<lparr>q_events := q_events q @ [QE_KeyChange (KC_OneRtt keys secrets)]\<rparr>) }"

text \<open>The suite is the negotiated one where that is of TLS 1.3.\<close>

definition zero_rtt_keys ::
  "('x, 'e, 'd, 'c, ('p, 'h) QuicAlgorithm) Tls13CipherSuite option \<Rightarrow> ('x, 'e, 'd, 'c, 'p, 'h) Quic \<Rightarrow>
   ('p, 'h) DirectionalKeys option option" where
  "zero_rtt_keys negotiated q =
     (case negotiated of
        None \<Rightarrow> Some None
      | Some su \<Rightarrow> (case cs_quic su of
          None \<Rightarrow> Some None
        | Some alg \<Rightarrow> (case q_early_secret q of
            None \<Rightarrow> Some None
          | Some secret \<Rightarrow>
              map_option Some (DirectionalKeys_new \<lparr>qs_inner = su, qs_quic = alg\<rparr> secret (q_version q)))))"

definition check_server_config ::
  "('x, 'e, 'd, 'c, ('p, 'h) QuicAlgorithm) Tls13CipherSuite list \<Rightarrow> u32 \<Rightarrow> Error + unit" where
  "check_server_config suites max_early_data_size =
     (if suites = [] then Inl (Error_ApiMisuse QuicRequiresTls13Support)
      else if \<not> list_ex (\<lambda>scs. cs_quic scs \<noteq> None) suites then Inl (Error_ApiMisuse NoQuicCompatibleCipherSuites)
      else if max_early_data_size \<noteq> 0 \<and> max_early_data_size \<noteq> 0xffffffff
      then Inl (Error_ApiMisuse QuicRestrictsMaxEarlyDataSize)
      else Inr ())"

text \<open>
  \<open>read_hs\<close>: handshake data is taken as it is, without records, and the iterator runs once. What it
  writes as records goes to a buffer that is dropped.
\<close>

definition read_hs ::
  "nat \<Rightarrow> (bytes \<Rightarrow> ServerNameKind) \<Rightarrow> (bytes \<Rightarrow> bool) \<Rightarrow> 'e RecordEncrypter \<Rightarrow> 'd RecordDecrypter \<Rightarrow> 'i TlsInputBuffer \<Rightarrow>
   ('s, ('x, 'e, 'd, 'c, 'q, 'o) CaptureAppData, 'o) StateMachine \<Rightarrow> Error + 's \<Rightarrow> 'i \<Rightarrow>
   ('x, 'e, 'd, 'c, 'q, 'o) CaptureAppData \<Rightarrow>
   ((Error + unit) \<times> (Error + 's) \<times> 'i \<times> ('x, 'e, 'd, 'c, 'q, 'o) CaptureAppData) option option" where
  "read_hs fuel classify dns_ok E D I M state i w =
     (case Deframer_input_quic (ib_slice I i) (rp_deframer (cx_recv w)) of
        None \<Rightarrow> None
      | Some (r, d, buf) \<Rightarrow>
          let i = ib_write I buf i;
              w = w\<lparr>cx_recv := (cx_recv w)\<lparr>rp_deframer := d\<rparr>, cx_tls := []\<rparr> in
          (case r of
             Inl e \<Rightarrow> Some (Some (Inl (Error_InvalidMessage e), state, i, w))
           | Inr _ \<Rightarrow>
               map_option (map_option (\<lambda>(r, state, i, w).
                   let (i, w) = discard_input I i w
                   in (case r of Some (Inl e) \<Rightarrow> Inl e | _ \<Rightarrow> Inr (), state, i, w\<lparr>cx_tls := []\<rparr>)))
                 (MessageIter_next fuel classify dns_ok E D I M Mode_All False state i w)))"

text \<open>A failed connection stays failed, whatever it is given to read.\<close>

lemma read_hs_failed:
  assumes "read_hs fuel classify dns_ok E D I M (Inl e) i w = Some (Some (r, state, i', w'))"
  shows "state = Inl e \<and> r \<noteq> Inr ()"
  using assms by (auto simp: read_hs_def MessageIter_next_def Let_def split: option.splits prod.splits sum.splits)

subsection \<open>Packet protection of the ring provider\<close>

text \<open>
  Opening in place (\<open>open_in_place\<close>) is opening within the buffer from offset zero. The header protection of the \<^emph>\<open>ring\<close> crate (\<open>ring::aead::quic\<close>): a key for an algorithm, and the
  mask it makes of a sample.
\<close>

record 'k HeaderAlgorithm =
  hp_new :: "bytes \<Rightarrow> 'k option"
  hp_new_mask :: "'k \<Rightarrow> bytes \<Rightarrow> bytes option"
  hp_sample_len :: usize

definition HeaderAlgorithm_lawful :: "usize \<Rightarrow> 'k HeaderAlgorithm \<Rightarrow> bool" where
  "HeaderAlgorithm_lawful key_len P \<longleftrightarrow>
     (\<forall>key. length key = key_len \<longrightarrow> hp_new P key \<noteq> None) \<and>
     (\<forall>k sample. if length sample = hp_sample_len P then \<exists>mask. hp_new_mask P k sample = Some mask \<and> length mask = 5
        else hp_new_mask P k sample = None)"

definition LONG_HEADER_FORM :: u8 where
  "LONG_HEADER_FORM = 0x80"

definition xor_in_place ::
  "'k HeaderAlgorithm \<Rightarrow> 'k \<Rightarrow> bytes \<Rightarrow> u8 \<Rightarrow> bytes \<Rightarrow> bool \<Rightarrow> ((Error + unit) \<times> u8 \<times> bytes) option" where
  "xor_in_place P k sample first packet_number masked =
     (case hp_new_mask P k sample of
        None \<Rightarrow> Some (Inl (Error_ApiMisuse InvalidQuicHeaderProtectionSampleLength), first, packet_number)
      | Some [] \<Rightarrow> None
      | Some (first_mask # pn_mask) \<Rightarrow>
          if length packet_number > length pn_mask
          then Some (Inl (Error_ApiMisuse InvalidQuicHeaderProtectionPacketNumberLength), first, packet_number)
          else
            let bits = (if first AND LONG_HEADER_FORM = LONG_HEADER_FORM then 0x0f else 0x1f);
                first_plain = (if masked then first XOR (first_mask AND bits) else first);
                pn_len = unat (first_plain AND 0x03) + 1
            in Some (Inr (), first XOR (first_mask AND bits),
                 map2 (XOR) (take pn_len packet_number) (take pn_len pn_mask) @ drop pn_len packet_number))"

definition header_encrypt_in_place ::
  "'k HeaderAlgorithm \<Rightarrow> 'k \<Rightarrow> bytes \<Rightarrow> u8 \<Rightarrow> bytes \<Rightarrow> ((Error + unit) \<times> u8 \<times> bytes) option" where
  "header_encrypt_in_place P k sample first packet_number = xor_in_place P k sample first packet_number False"

definition header_decrypt_in_place ::
  "'k HeaderAlgorithm \<Rightarrow> 'k \<Rightarrow> bytes \<Rightarrow> u8 \<Rightarrow> bytes \<Rightarrow> ((Error + unit) \<times> u8 \<times> bytes) option" where
  "header_decrypt_in_place P k sample first packet_number = xor_in_place P k sample first packet_number True"

record 'k quic_PacketKey =
  pk_key :: 'k
  pk_iv :: Iv
  pk_confidentiality_limit :: u64
  pk_integrity_limit :: u64

definition PacketKey_new :: "AeadKey \<Rightarrow> Iv \<Rightarrow> u64 \<Rightarrow> u64 \<Rightarrow> 'k Aead \<Rightarrow> 'k quic_PacketKey option" where
  "PacketKey_new key iv confidentiality_limit integrity_limit A = do {
     k \<leftarrow> aead_new_key A (AeadKey_as_ref key);
     Some \<lparr>pk_key = k, pk_iv = iv, pk_confidentiality_limit = confidentiality_limit, pk_integrity_limit = integrity_limit\<rparr> }"

definition quic_TAG_LEN :: usize where
  "quic_TAG_LEN = 16"

definition quic_Tag_from :: "bytes \<Rightarrow> bytes option" where
  "quic_Tag_from v = (if length v = quic_TAG_LEN then Some v else None)"

definition packet_encrypt_in_place ::
  "'k Aead \<Rightarrow> 'k quic_PacketKey \<Rightarrow> u64 \<Rightarrow> bytes \<Rightarrow> bytes \<Rightarrow> u32 option \<Rightarrow> ((Error + bytes) \<times> bytes) option" where
  "packet_encrypt_in_place A k packet_number header payload path_id =
     (case Nonce_to_array NONCE_LEN (Nonce_quic path_id (pk_iv k) packet_number) of
        Inl e \<Rightarrow> Some (Inl e, payload)
      | Inr nonce \<Rightarrow> (case aead_seal A (pk_key k) nonce header payload of
          (payload, None) \<Rightarrow> Some (Inl Error_EncryptError, payload)
        | (payload, Some tag) \<Rightarrow> do { tag \<leftarrow> quic_Tag_from tag; Some (Inr tag, payload) }))"

definition packet_decrypt_in_place ::
  "'k Aead \<Rightarrow> 'k quic_PacketKey \<Rightarrow> u64 \<Rightarrow> bytes \<Rightarrow> bytes \<Rightarrow> u32 option \<Rightarrow> ((Error + bytes) \<times> bytes) option" where
  "packet_decrypt_in_place A k packet_number header payload path_id =
     (case Nonce_to_array NONCE_LEN (Nonce_quic path_id (pk_iv k) packet_number) of
        Inl e \<Rightarrow> Some (Inl e, payload)
      | Inr nonce \<Rightarrow> (case aead_open_within A (pk_key k) nonce header payload 0 of
          (buf, None) \<Rightarrow> Some (Inl Error_DecryptError, buf)
        | (buf, Some _) \<Rightarrow>
            if length payload < aead_tag_len A then None
            else let plain_len = length payload - aead_tag_len A in Some (Inr (take plain_len buf), buf)))"

record ('k, 'h) ring_KeyBuilder =
  rkb_packet_alg :: "'k Aead"
  rkb_header_alg :: "'h HeaderAlgorithm"
  rkb_confidentiality_limit :: u64
  rkb_integrity_limit :: u64

definition ring_quic_Algorithm :: "('k, 'h) ring_KeyBuilder \<Rightarrow> ('k quic_PacketKey, 'h) QuicAlgorithm" where
  "ring_quic_Algorithm b =
     \<lparr>qa_packet_key = (\<lambda>key iv. PacketKey_new key iv (rkb_confidentiality_limit b) (rkb_integrity_limit b) (rkb_packet_alg b)),
      qa_header_protection_key = (\<lambda>key. hp_new (rkb_header_alg b) (AeadKey_as_ref key)),
      qa_aead_key_len = aead_key_len (rkb_packet_alg b)\<rparr>"

subsection \<open>Key sets\<close>

text \<open>The packet keys of the n-th generation, counted from the secrets at hand.\<close>

fun packet_keys_after :: "nat \<Rightarrow> ('x, 'e, 'd, 'c, 'p, 'h) quic_Secrets \<Rightarrow> 'p PacketKeySet option" where
  "packet_keys_after 0 s = map_option fst (next_packet_keys s)"
| "packet_keys_after (Suc n) s = do { (_, s) \<leftarrow> next_packet_keys s; packet_keys_after n s }"

fun other_side :: "Side \<Rightarrow> Side" where
  "other_side Side_Client = Side_Server"
| "other_side Side_Server = Side_Client"

definition on_side :: "Side \<Rightarrow> ('x, 'e, 'd, 'c, 'p, 'h) quic_Secrets \<Rightarrow> ('x, 'e, 'd, 'c, 'p, 'h) quic_Secrets" where
  "on_side side s = s\<lparr>qsec_side := side\<rparr>"

lemma on_side_sel [simp]:
  "qsec_client (on_side side s) = qsec_client s" "qsec_server (on_side side s) = qsec_server s"
  "qsec_suite (on_side side s) = qsec_suite s" "qsec_version (on_side side s) = qsec_version s"
  "qsec_side (on_side side s) = side"
  by (simp_all add: on_side_def)

lemma local_remote_other: "local_remote (on_side (other_side side) s) = prod.swap (local_remote (on_side side s))"
  by (cases side) (simp_all add: local_remote_def)

text \<open>What the keys rely on: an HKDF, and an algorithm that takes keys of the length it asks for.\<close>

locale quic_provider = hkdf_provider H valid
  for H :: "'x Hkdf" and valid :: "'x \<Rightarrow> bool" +
  fixes Q :: "('p, 'h) QuicAlgorithm" and good :: "'p \<Rightarrow> bool"
  assumes key_len: "qa_aead_key_len Q \<le> AeadKey_MAX_LEN"
    and packet_key: "length (AeadKey_as_ref key) = qa_aead_key_len Q \<Longrightarrow> Iv_wf iv \<Longrightarrow> Iv_len iv = NONCE_LEN \<Longrightarrow>
      \<exists>p. qa_packet_key Q key iv = Some p \<and> good p"
    and header_key: "length (AeadKey_as_ref key) = qa_aead_key_len Q \<Longrightarrow>
      \<exists>h. qa_header_protection_key Q key = Some h"
begin

lemma aead_key_total:
  assumes "valid x" "n \<le> AeadKey_MAX_LEN"
  shows "\<exists>k. hkdf_expand_label_aead_key H x n label context = Some k \<and> length (AeadKey_as_ref k) = n"
proof -
  have "AeadKey_MAX_LEN \<le> 255 * expander_hash_len H x" using blocks [OF assms(1)] by (simp add: AeadKey_MAX_LEN_def)
  from expand_total [OF assms(1) this] obtain out where
    "expand H AeadKey_MAX_LEN x (hkdf_label_info label context n) = Some out" "length out = AeadKey_MAX_LEN" by blast
  thus ?thesis using assms(2)
    by (simp add: hkdf_expand_label_aead_key_def hkdf_expand_label_inner_def AeadKey_with_length_def AeadKey_as_ref_def
        write_at_def)
qed

lemma packet_key_total:
  assumes "KeyBuilder_new secret version Q H = Some b"
  shows "\<exists>p. KeyBuilder_packet_key b = Some p \<and> good p"
proof -
  from okm_valid obtain x where x: "expander_for_okm H secret = Some x" "valid x" by blast
  have b: "b = \<lparr>kb_hkdf = H, kb_expander = x, kb_version = version, kb_alg = Q\<rparr>"
    using assms x(1) by (simp add: KeyBuilder_new_def)
  from aead_key_total [OF x(2) key_len] obtain k where
    k: "hkdf_expand_label_aead_key H x (qa_aead_key_len Q) (packet_key_label version) [] = Some k"
      "length (AeadKey_as_ref k) = qa_aead_key_len Q" by blast
  have "NONCE_LEN \<le> 255 * expander_hash_len H x" using blocks [OF x(2)] by (simp add: NONCE_LEN_def)
  from expand_total [OF x(2) this] obtain out where
    out: "hkdf_expand_label H NONCE_LEN x (packet_iv_label version) [] = Some out" "length out = NONCE_LEN"
    by (auto simp: hkdf_expand_label_def hkdf_expand_label_inner_def)
  obtain iv where iv: "Iv_new out = Inr iv" using out(2) by (simp add: Iv_new_def NONCE_LEN_def Iv_MAX_LEN_def)
  from packet_key [OF k(2), of iv] Iv_new_Inr [OF iv] out(2) show ?thesis
    using k(1) out(1) iv by (auto simp: KeyBuilder_packet_key_def b)
qed

lemma header_key_total:
  assumes "KeyBuilder_new secret version Q H = Some b"
  shows "\<exists>h. KeyBuilder_header_protection_key b = Some h"
proof -
  from okm_valid obtain x where x: "expander_for_okm H secret = Some x" "valid x" by blast
  from aead_key_total [OF x(2) key_len] obtain k where
    "hkdf_expand_label_aead_key H x (qa_aead_key_len Q) (header_key_label version) [] = Some k"
    "length (AeadKey_as_ref k) = qa_aead_key_len Q" by blast
  with header_key [of k] assms x(1) show ?thesis
    by (auto simp: KeyBuilder_header_protection_key_def KeyBuilder_new_def)
qed

lemma builder_total: "\<exists>b. KeyBuilder_new secret version Q H = Some b"
  using okm_valid [of secret] by (auto simp: KeyBuilder_new_def)

lemma directional_total:
  assumes "qs_quic su = Q" "cs_hkdf_provider (qs_inner su) = H"
  shows "\<exists>k. DirectionalKeys_new su secret version = Some k \<and> good (dk_packet k)"
proof -
  from builder_total obtain b where b: "KeyBuilder_new secret version Q H = Some b" by blast
  from packet_key_total [OF b] header_key_total [OF b] b show ?thesis
    by (auto simp: DirectionalKeys_new_def assms)
qed

text \<open>What one side sends with is what the other reads with.\<close>

lemma keys_match:
  assumes "qs_quic (qsec_suite s) = Q" "cs_hkdf_provider (qs_inner (qsec_suite s)) = H"
  shows "\<exists>a b. Keys_new (on_side side s) = Some a \<and> Keys_new (on_side (other_side side) s) = Some b \<and>
    qk_local a = qk_remote b \<and> qk_remote a = qk_local b \<and> good (dk_packet (qk_local a))"
proof -
  obtain l r where lr: "local_remote (on_side side s) = (l, r)" by force
  from directional_total [OF assms] obtain kl kr where
    "DirectionalKeys_new (qsec_suite s) l (qsec_version s) = Some kl" "good (dk_packet kl)"
    "DirectionalKeys_new (qsec_suite s) r (qsec_version s) = Some kr" by blast
  thus ?thesis by (simp add: Keys_new_def local_remote_other lr)
qed

lemma packet_keys_match:
  assumes "qs_quic (qsec_suite s) = Q" "cs_hkdf_provider (qs_inner (qsec_suite s)) = H"
  shows "\<exists>a b. PacketKeySet_new (on_side side s) = Some a \<and> PacketKeySet_new (on_side (other_side side) s) = Some b \<and>
    pks_local a = pks_remote b \<and> pks_remote a = pks_local b \<and> good (pks_local a)"
proof -
  obtain l r where lr: "local_remote (on_side side s) = (l, r)" by force
  from builder_total obtain bl br where b: "KeyBuilder_new l (qsec_version s) Q H = Some bl"
    "KeyBuilder_new r (qsec_version s) Q H = Some br" by blast
  from packet_key_total [OF b(1)] packet_key_total [OF b(2)] b show ?thesis
    by (auto simp: PacketKeySet_new_def local_remote_other lr assms)
qed

lemma update_match:
  assumes "cs_hkdf_provider (qs_inner (qsec_suite s)) = H"
  shows "\<exists>s'. qsec_suite s' = qsec_suite s \<and> (\<forall>side. Secrets_update (on_side side s) = Some (on_side side s'))"
proof -
  let ?label = "key_update_label (qsec_version s)"
  from okm_block_total [of "qsec_client s" ?label "[]"] obtain x c where
    c: "expander_for_okm H (qsec_client s) = Some x" "hkdf_expand_label_block H x ?label [] = Some c" by blast
  from okm_block_total [of "qsec_server s" ?label "[]"] obtain y v where
    v: "expander_for_okm H (qsec_server s) = Some y" "hkdf_expand_label_block H y ?label [] = Some v" by blast
  show ?thesis
    by (rule exI [of _ "s\<lparr>qsec_client := c, qsec_server := v\<rparr>"])
      (simp add: Secrets_update_def on_side_def assms c v)
qed

lemma generations_match:
  assumes "qs_quic (qsec_suite s) = Q" "cs_hkdf_provider (qs_inner (qsec_suite s)) = H"
  shows "\<exists>a b. packet_keys_after n (on_side side s) = Some a \<and> packet_keys_after n (on_side (other_side side) s) = Some b \<and>
    pks_local a = pks_remote b \<and> pks_remote a = pks_local b \<and> good (pks_local a)"
  using assms
proof (induction n arbitrary: s)
  case 0
  from packet_keys_match [OF 0, of side] update_match [OF 0(2)] show ?case by (auto simp: next_packet_keys_def)
next
  case (Suc n)
  from update_match [OF Suc.prems(2)] obtain s' where
    s': "qsec_suite s' = qsec_suite s" "\<And>side. Secrets_update (on_side side s) = Some (on_side side s')" by blast
  from packet_keys_match [OF Suc.prems] obtain a b where
    "PacketKeySet_new (on_side side s) = Some a" "PacketKeySet_new (on_side (other_side side) s) = Some b" by blast
  with s' Suc.IH [of s'] Suc.prems show ?case by (simp add: next_packet_keys_def)
qed

lemma initial_match:
  assumes "qs_quic su = Q" "cs_hkdf_provider (qs_inner su) = H"
  shows "\<exists>a b. Keys_initial version su cid side = Some a \<and> Keys_initial version su cid (other_side side) = Some b \<and>
    qk_local a = qk_remote b \<and> qk_remote a = qk_local b \<and> good (dk_packet (qk_local a))"
proof -
  from secret_valid obtain x where x: "extract_from_secret H (Some (initial_salt version)) cid = Some x" "valid x" by blast
  from label_block_total [OF x(2)] obtain c v where cv: "hkdf_expand_label_block H x (ascii ''client in'') [] = Some c"
    "hkdf_expand_label_block H x (ascii ''server in'') [] = Some v" by meson
  let ?s = "\<lparr>qsec_client = c, qsec_server = v, qsec_suite = su, qsec_side = side, qsec_version = version\<rparr>"
  have "Keys_initial version su cid t = Keys_new (on_side t ?s)" for t
    by (simp add: Keys_initial_def assms(2) x(1) cv on_side_def)
  with keys_match [of ?s side] assms show ?thesis by simp
qed

end

text \<open>The ring provider is such a provider, with a lawful HMAC, AEAD and header protection.\<close>

definition packet_key_ok :: "'k quic_PacketKey \<Rightarrow> bool" where
  "packet_key_ok k \<longleftrightarrow> Iv_wf (pk_iv k) \<and> Iv_len (pk_iv k) = NONCE_LEN"

definition ring_quic_lawful :: "('k, 'h) ring_KeyBuilder \<Rightarrow> bool" where
  "ring_quic_lawful b \<longleftrightarrow> Aead_lawful (rkb_packet_alg b) \<and> aead_key_len (rkb_packet_alg b) \<le> AeadKey_MAX_LEN \<and>
     HeaderAlgorithm_lawful (aead_key_len (rkb_packet_alg b)) (rkb_header_alg b)"

lemma ring_quic_provider:
  assumes "Hmac_lawful H" "ring_quic_lawful b"
  shows "quic_provider (HkdfUsingHmac H) (\<lambda>x. xp_hmac x = H) (ring_quic_Algorithm b) packet_key_ok"
proof -
  have law: "Aead_lawful (rkb_packet_alg b)" "aead_key_len (rkb_packet_alg b) \<le> AeadKey_MAX_LEN"
    "HeaderAlgorithm_lawful (aead_key_len (rkb_packet_alg b)) (rkb_header_alg b)"
    using assms(2) by (simp_all add: ring_quic_lawful_def)
  have "\<exists>p. PacketKey_new key iv c i (rkb_packet_alg b) = Some p \<and> packet_key_ok p"
    if "length (AeadKey_as_ref key) = aead_key_len (rkb_packet_alg b)" "Iv_wf iv" "Iv_len iv = NONCE_LEN" for key iv c i
  proof -
    have "aead_new_key (rkb_packet_alg b) (AeadKey_as_ref key) \<noteq> None"
      using law(1) that(1) by (simp add: Aead_lawful_def)
    thus ?thesis using that by (auto simp: PacketKey_new_def packet_key_ok_def)
  qed
  moreover have "\<exists>h. hp_new (rkb_header_alg b) (AeadKey_as_ref key) = Some h"
    if "length (AeadKey_as_ref key) = aead_key_len (rkb_packet_alg b)" for key
    using law(3) that by (auto simp: HeaderAlgorithm_lawful_def)
  ultimately show ?thesis
    using law(2) HkdfUsingHmac_provider [OF assms(1)]
    by (simp add: quic_provider_def quic_provider_axioms_def ring_quic_Algorithm_def)
qed

subsection \<open>Header protection\<close>

lemma map2_xor_twice: "length xs \<le> length ms \<Longrightarrow> map2 (XOR) (map2 (XOR) xs ms) ms = (xs :: bytes)"
proof (induction xs arbitrary: ms)
  case (Cons x xs)
  then obtain m ms' where "ms = m # ms'" by (cases ms) auto
  with Cons show ?case by (simp add: xor.assoc)
qed simp

lemma mask_keeps_form:
  "(first XOR (m AND 0x0f)) AND LONG_HEADER_FORM = first AND LONG_HEADER_FORM"
  "(first XOR (m AND 0x1f)) AND LONG_HEADER_FORM = first AND LONG_HEADER_FORM"
  by (simp_all add: LONG_HEADER_FORM_def bit.conj_xor_distrib2 and.assoc)

lemma new_mask:
  assumes "HeaderAlgorithm_lawful n P" "length sample = hp_sample_len P"
  shows "\<exists>m ms. hp_new_mask P k sample = Some (m # ms) \<and> length ms = 4"
proof -
  have "\<exists>mask. hp_new_mask P k sample = Some mask \<and> length mask = 5"
    using assms unfolding HeaderAlgorithm_lawful_def by meson
  then obtain mask where "hp_new_mask P k sample = Some mask" "length mask = 5" by blast
  thus ?thesis by (cases mask) auto
qed

lemma header_protection:
  assumes "HeaderAlgorithm_lawful n P" "length sample = hp_sample_len P" "length field \<le> 4"
  shows "\<exists>first' field'. header_encrypt_in_place P k sample first field = Some (Inr (), first', field') \<and>
    length field' = length field \<and> drop (unat (first AND 3) + 1) field' = drop (unat (first AND 3) + 1) field \<and>
    header_decrypt_in_place P k sample first' field' = Some (Inr (), first, field)"
proof -
  from new_mask [OF assms(1,2)] obtain m ms where m: "hp_new_mask P k sample = Some (m # ms)" "length ms = 4" by blast
  define bits :: u8 where "bits = (if first AND LONG_HEADER_FORM = LONG_HEADER_FORM then 0x0f else 0x1f)"
  define pl where "pl = unat (first AND 3) + 1"
  let ?f = "first XOR (m AND bits)"
  let ?mid = "map2 (XOR) (take pl field) (take pl ms)"
  let ?field = "?mid @ drop pl field"
  have form: "?f AND LONG_HEADER_FORM = first AND LONG_HEADER_FORM"
    by (simp add: bits_def mask_keeps_form)
  have unmask: "?f XOR (m AND bits) = first" by (simp add: xor.assoc)
  have lm: "length ?mid = min pl (length field)" using assms(3) m(2) by simp
  have len: "length ?field = length field" using lm by simp
  have tk: "take pl ?field = ?mid" and dr: "drop pl ?field = drop pl field"
    using lm by (auto simp: min_def split: if_splits)
  have tw: "map2 (XOR) ?mid (take pl ms) = take pl field"
    using assms(3) m(2) by (intro map2_xor_twice) simp
  have e: "header_encrypt_in_place P k sample first field = Some (Inr (), ?f, ?field)"
    using assms(3) m by (simp add: header_encrypt_in_place_def xor_in_place_def Let_def bits_def pl_def)
  have "header_decrypt_in_place P k sample ?f ?field =
      Some (Inr (), first, map2 (XOR) (take pl ?field) (take pl ms) @ drop pl ?field)"
    using assms(3) m(2) len unfolding header_decrypt_in_place_def xor_in_place_def m(1) form Let_def
    by (simp only: option.case list.case bits_def [symmetric] unmask pl_def [symmetric] if_True simp_thms) simp
  hence "header_decrypt_in_place P k sample ?f ?field = Some (Inr (), first, field)"
    by (simp only: tk dr tw append_take_drop_id)
  with e len dr show ?thesis unfolding pl_def [symmetric] by blast
qed

subsection \<open>Packets\<close>

lemma packet_round_trip:
  assumes "Aead_lawful A" "packet_key_ok k" "length payload \<le> MAX_FRAGMENT_LEN + 1"
  shows "\<exists>c tag. packet_encrypt_in_place A k pn header payload path_id = Some (Inr tag, c) \<and>
    length c = length payload \<and> length tag = quic_TAG_LEN \<and>
    (\<exists>buf. packet_decrypt_in_place A k pn header (c @ tag) path_id = Some (Inr payload, buf))"
proof -
  let ?n = "Nonce_quic path_id (pk_iv k) pn"
  have wf: "Iv_wf (pk_iv k)" "Iv_len (pk_iv k) = NONCE_LEN" using assms(2) by (simp_all add: packet_key_ok_def)
  have nl: "nonce_len ?n = NONCE_LEN"
    using wf(2) by (simp add: Nonce_quic_def Nonce_new_inner_def Let_def)
  have "length (Nonce_as_bytes ?n) = NONCE_LEN"
    using wf Nonce_as_bytes_eq [OF wf(1), of path_id pn] by (simp add: Nonce_quic_def xor_bytes_def Iv_wf_def Iv_len_def Iv_as_ref_def)
  then obtain nonce where n: "Nonce_to_array NONCE_LEN ?n = Inr nonce" "length nonce = NONCE_LEN"
    using nl by (simp add: Nonce_to_array_def Nonce_as_bytes_def)
  have t: "aead_tag_len A = 16" using assms(1) by (simp add: Aead_lawful_def)
  from Aead_lawfulE [OF assms(1) n(2) assms(3), of "pk_key k" header] obtain c tag where
    c: "aead_seal A (pk_key k) nonce header payload = (c, Some tag)" "length c = length payload" "length tag = 16"
    and op: "\<And>pre. \<exists>buf. aead_open_within A (pk_key k) nonce header (pre @ c @ tag) (length pre) = (buf, Some (length payload)) \<and>
      length buf = length pre + length payload + 16 \<and> take (length payload) buf = payload" by blast
  from op [of "[]"] obtain buf where
    "aead_open_within A (pk_key k) nonce header (c @ tag) 0 = (buf, Some (length payload))" "take (length payload) buf = payload"
    by auto
  with c n(1) t show ?thesis
    by (simp add: packet_encrypt_in_place_def packet_decrypt_in_place_def quic_Tag_from_def quic_TAG_LEN_def Let_def)
qed

text \<open>
  A packet as the caller of these keys makes it: the payload is sealed under the header, and then the
  header is protected by a sample that starts four bytes after the start of the packet number. The
  reader does not know how long the packet number is until it has removed the protection.
\<close>

definition protect_packet ::
  "('k, 'h) ring_KeyBuilder \<Rightarrow> 'k quic_PacketKey \<Rightarrow> 'h \<Rightarrow> u64 \<Rightarrow> u32 option \<Rightarrow> u8 \<Rightarrow> bytes \<Rightarrow> bytes \<Rightarrow> bytes \<Rightarrow>
   (Error + bytes) option" where
  "protect_packet b pk hk pn path_id first mid field payload = do {
     (r, payload) \<leftarrow> packet_encrypt_in_place (rkb_packet_alg b) pk pn (first # mid @ field) payload path_id;
     (case r of
        Inl e \<Rightarrow> Some (Inl e)
      | Inr tag \<Rightarrow>
          let rest = field @ payload @ tag in do {
            (r, first, field) \<leftarrow> header_encrypt_in_place (rkb_header_alg b) hk
              (take (hp_sample_len (rkb_header_alg b)) (drop 4 rest)) first (take 4 rest);
            Some (case r of Inl e \<Rightarrow> Inl e | Inr _ \<Rightarrow> Inr (first # mid @ field @ drop 4 rest)) }) }"

definition open_packet ::
  "('k, 'h) ring_KeyBuilder \<Rightarrow> 'k quic_PacketKey \<Rightarrow> 'h \<Rightarrow> u64 \<Rightarrow> u32 option \<Rightarrow> usize \<Rightarrow> bytes \<Rightarrow>
   (Error + u8 \<times> bytes \<times> bytes) option" where
  "open_packet b pk hk pn path_id mid_len packet = (case packet of
     [] \<Rightarrow> None
   | first # rest \<Rightarrow>
       let mid = take mid_len rest; rest = drop mid_len rest in do {
         (r, first, field) \<leftarrow> header_decrypt_in_place (rkb_header_alg b) hk
           (take (hp_sample_len (rkb_header_alg b)) (drop 4 rest)) first (take 4 rest);
         (case r of
            Inl e \<Rightarrow> Some (Inl e)
          | Inr _ \<Rightarrow>
              let rest = field @ drop 4 rest; pn_len = unat (first AND 3) + 1; field = take pn_len rest in do {
                (r, _) \<leftarrow> packet_decrypt_in_place (rkb_packet_alg b) pk pn (first # mid @ field) (drop pn_len rest) path_id;
                Some (case r of Inl e \<Rightarrow> Inl e | Inr payload \<Rightarrow> Inr (first, field, payload)) }) })"

lemma protected_packet_opens:
  assumes law: "ring_quic_lawful b" and key: "packet_key_ok pk"
    and field: "length field = unat (first AND 3) + 1" and payload: "length payload \<le> MAX_FRAGMENT_LEN + 1"
    and sample: "4 + hp_sample_len (rkb_header_alg b) \<le> length field + length payload + quic_TAG_LEN"
  shows "\<exists>packet. protect_packet b pk hk pn path_id first mid field payload = Some (Inr packet) \<and>
    open_packet b pk hk pn path_id (length mid) packet = Some (Inr (first, field, payload))"
proof -
  have A: "Aead_lawful (rkb_packet_alg b)" and P: "HeaderAlgorithm_lawful (aead_key_len (rkb_packet_alg b)) (rkb_header_alg b)"
    using law by (simp_all add: ring_quic_lawful_def)
  from packet_round_trip [OF A key payload, of pn "first # mid @ field" path_id] obtain c tag buf where
    c: "packet_encrypt_in_place (rkb_packet_alg b) pk pn (first # mid @ field) payload path_id = Some (Inr tag, c)"
      "length c = length payload" "length tag = quic_TAG_LEN"
      "packet_decrypt_in_place (rkb_packet_alg b) pk pn (first # mid @ field) (c @ tag) path_id = Some (Inr payload, buf)"
    by blast
  define rest where "rest = field @ c @ tag"
  let ?sample = "take (hp_sample_len (rkb_header_alg b)) (drop 4 rest)"
  have lr: "length rest = length field + length payload + quic_TAG_LEN" using c(2,3) by (simp add: rest_def)
  hence ls: "length ?sample = hp_sample_len (rkb_header_alg b)" "length (take 4 rest) = 4" using sample by simp_all
  then obtain first' field' where h:
    "header_encrypt_in_place (rkb_header_alg b) hk ?sample first (take 4 rest) = Some (Inr (), first', field')"
    "length field' = 4"
    "header_decrypt_in_place (rkb_header_alg b) hk ?sample first' field' = Some (Inr (), first, take 4 rest)"
    using header_protection [OF P ls(1), of "take 4 rest" hk first] by auto
  have "take (unat (first AND 3) + 1) rest = field" "drop (unat (first AND 3) + 1) rest = c @ tag"
    unfolding field [symmetric] by (simp_all add: rest_def)
  moreover have parts: "take (length mid) (mid @ ys) = mid" "drop (length mid) (mid @ ys) = ys"
    "take 4 (field' @ ys) = field'" "drop 4 (field' @ ys) = ys" for ys using h(2) by simp_all
  ultimately have "open_packet b pk hk pn path_id (length mid) (first' # mid @ field' @ drop 4 rest) = Some (Inr (first, field, payload))"
    using h(3) c(4) parts by (simp add: open_packet_def Let_def del: take_append drop_append drop_drop)
  moreover have "protect_packet b pk hk pn path_id first mid field payload = Some (Inr (first' # mid @ field' @ drop 4 rest))"
    using c(1) h(1) by (simp add: protect_packet_def Let_def rest_def [symmetric] del: take_append drop_append)
  ultimately show ?thesis by blast
qed

subsection \<open>An example provider\<close>

text \<open>Header protection that masks with the first bytes of the sample.\<close>

definition example_header_alg :: "unit HeaderAlgorithm" where
  "example_header_alg = \<lparr>hp_new = (\<lambda>_. Some ()),
     hp_new_mask = (\<lambda>_ sample. if length sample = 16 then Some (take 5 sample) else None), hp_sample_len = 16\<rparr>"

definition example_ring :: "(unit, unit) ring_KeyBuilder" where
  "example_ring = \<lparr>rkb_packet_alg = plain_aead, rkb_header_alg = example_header_alg, rkb_confidentiality_limit = 0x800000,
     rkb_integrity_limit = 0x10000000000000\<rparr>"

lemma example_header_lawful: "HeaderAlgorithm_lawful n example_header_alg"
  by (simp add: HeaderAlgorithm_lawful_def example_header_alg_def)

lemma example_ring_lawful: "ring_quic_lawful example_ring"
  using plain_aead_lawful example_header_lawful
  by (simp add: ring_quic_lawful_def example_ring_def plain_aead_def AeadKey_MAX_LEN_def)

interpretation fuzz_quic: quic_provider "HkdfUsingHmac fuzz_Hmac" "\<lambda>x. xp_hmac x = fuzz_Hmac"
  "ring_quic_Algorithm example_ring" packet_key_ok
  by (rule ring_quic_provider [OF fuzz_Hmac_lawful example_ring_lawful])

definition example_quic_suite :: "(HkdfExpanderUsingHmac, unit, unit, unit, unit quic_PacketKey, unit) suite_for_quic" where
  "example_quic_suite =
     \<lparr>qs_inner = \<lparr>cs_common = cs_common TLS13_FUZZING_SUITE, cs_hkdf_provider = HkdfUsingHmac fuzz_Hmac,
        cs_aead_alg = fuzz_Aead, cs_quic = Some (ring_quic_Algorithm example_ring)\<rparr>,
      qs_quic = ring_quic_Algorithm example_ring\<rparr>"

definition example_quic_secrets :: "(HkdfExpanderUsingHmac, unit, unit, unit, unit quic_PacketKey, unit) quic_Secrets" where
  "example_quic_secrets =
     \<lparr>qsec_client = \<lparr>okm_buf = replicate 64 1, okm_used = 32\<rparr>, qsec_server = \<lparr>okm_buf = replicate 64 2, okm_used = 32\<rparr>,
      qsec_suite = example_quic_suite, qsec_side = Side_Client, qsec_version = QuicV1\<rparr>"

lemmas example_quic_simps = example_quic_secrets_def example_quic_suite_def example_ring_def example_header_alg_def
  MAX_FRAGMENT_LEN_def quic_TAG_LEN_def

subsection \<open>Properties\<close>

text \<open>
  Claim C11. QUIC packets arrive across key updates: with secrets both sides hold, after any number of
  key updates, what either side protects with its packet and header keys the other side opens with
  its own, to the same first byte, packet number and payload; no key derivation panics.
\<close>

theorem quic_packets_arrive:
  assumes "Hmac_lawful H" "ring_quic_lawful b"
    and "cs_hkdf_provider (qs_inner (qsec_suite s)) = HkdfUsingHmac H" "qs_quic (qsec_suite s) = ring_quic_Algorithm b"
    and "length field = unat (first AND 3) + 1" "length payload \<le> MAX_FRAGMENT_LEN + 1"
    and "4 + hp_sample_len (rkb_header_alg b) \<le> length field + length payload + quic_TAG_LEN"
  shows "\<exists>ka kb pa pb packet.
    Keys_new (on_side side s) = Some ka \<and> Keys_new (on_side (other_side side) s) = Some kb \<and>
    packet_keys_after n (on_side side s) = Some pa \<and> packet_keys_after n (on_side (other_side side) s) = Some pb \<and>
    protect_packet b (pks_local pa) (dk_header (qk_local ka)) pn path_id first mid field payload = Some (Inr packet) \<and>
    open_packet b (pks_remote pb) (dk_header (qk_remote kb)) pn path_id (length mid) packet = Some (Inr (first, field, payload))"
proof -
  note q = ring_quic_provider [OF assms(1,2)]
  from quic_provider.keys_match [OF q assms(4,3), of side] obtain ka kb where
    k: "Keys_new (on_side side s) = Some ka" "Keys_new (on_side (other_side side) s) = Some kb" "qk_local ka = qk_remote kb"
    by blast
  from quic_provider.generations_match [OF q assms(4,3), of n side] obtain pa pb where
    p: "packet_keys_after n (on_side side s) = Some pa" "packet_keys_after n (on_side (other_side side) s) = Some pb"
      "pks_local pa = pks_remote pb" "packet_key_ok (pks_local pa)" by blast
  from protected_packet_opens [OF assms(2) p(4) assms(5-7), of "dk_header (qk_local ka)" pn path_id mid] k p
  show ?thesis by auto
qed

theorem quic_packets_arrive_witness:
  "\<exists>ka kb pa pb packet.
    Keys_new (on_side Side_Client example_quic_secrets) = Some ka \<and> Keys_new (on_side Side_Server example_quic_secrets) = Some kb \<and>
    packet_keys_after 2 (on_side Side_Client example_quic_secrets) = Some pa \<and>
    packet_keys_after 2 (on_side Side_Server example_quic_secrets) = Some pb \<and>
    protect_packet example_ring (pks_local pa) (dk_header (qk_local ka)) 654360564 None 0x42 [] [0, 0xbf, 0xf4] [1] =
      Some (Inr packet) \<and>
    open_packet example_ring (pks_remote pb) (dk_header (qk_remote kb)) 654360564 None 0 packet =
      Some (Inr (0x42, [0, 0xbf, 0xf4], [1]))"
  using quic_packets_arrive [OF fuzz_Hmac_lawful example_ring_lawful, of example_quic_secrets "[0, 0xbf, 0xf4]" "0x42" "[1]"
    Side_Client 2 654360564 None "[]"]
  by (simp add: example_quic_simps)

text \<open>
  Claim C12. Initial keys match: either side derives its initial keys from the client's destination
  connection id without a panic, and what it protects with them the other side opens with its own.
\<close>

theorem quic_initial_packets_arrive:
  assumes "Hmac_lawful H" "ring_quic_lawful b"
    and "cs_hkdf_provider (qs_inner su) = HkdfUsingHmac H" "qs_quic su = ring_quic_Algorithm b"
    and "length field = unat (first AND 3) + 1" "length payload \<le> MAX_FRAGMENT_LEN + 1"
    and "4 + hp_sample_len (rkb_header_alg b) \<le> length field + length payload + quic_TAG_LEN"
  shows "\<exists>ka kb packet. Suite_keys su cid side version = Some ka \<and> Suite_keys su cid (other_side side) version = Some kb \<and>
    protect_packet b (dk_packet (qk_local ka)) (dk_header (qk_local ka)) pn path_id first mid field payload = Some (Inr packet) \<and>
    open_packet b (dk_packet (qk_remote kb)) (dk_header (qk_remote kb)) pn path_id (length mid) packet =
      Some (Inr (first, field, payload))"
proof -
  from quic_provider.initial_match [OF ring_quic_provider [OF assms(1,2)] assms(4,3), of version cid side] obtain ka kb where
    k: "Keys_initial version su cid side = Some ka" "Keys_initial version su cid (other_side side) = Some kb"
      "qk_local ka = qk_remote kb" "packet_key_ok (dk_packet (qk_local ka))" by blast
  from protected_packet_opens [OF assms(2) k(4) assms(5-7), of "dk_header (qk_local ka)" pn path_id mid] k
  show ?thesis by (auto simp: Suite_keys_def)
qed

theorem quic_initial_packets_arrive_witness:
  "\<exists>ka kb packet. Suite_keys example_quic_suite [7, 8] Side_Server QuicV2 = Some ka \<and>
    Suite_keys example_quic_suite [7, 8] Side_Client QuicV2 = Some kb \<and>
    protect_packet example_ring (dk_packet (qk_local ka)) (dk_header (qk_local ka)) 5 (Some 3) 0xc1 [9] [0, 5] [1, 2, 3] =
      Some (Inr packet) \<and>
    open_packet example_ring (dk_packet (qk_remote kb)) (dk_header (qk_remote kb)) 5 (Some 3) 1 packet =
      Some (Inr (0xc1, [0, 5], [1, 2, 3]))"
  using quic_initial_packets_arrive [OF fuzz_Hmac_lawful example_ring_lawful, of example_quic_suite "[0, 5]" "0xc1" "[1, 2, 3]"
    "[7, 8]" Side_Server QuicV2 5 "Some 3" "[9]"]
  by (simp add: example_quic_simps)

text \<open>
  Claim C27. Header protection is all or nothing: applying or removing it fails exactly when the
  sample does not have the algorithm's length or the packet number field is longer than four bytes,
  with the error of that cause, and then the first byte and the field are as they were.
\<close>

theorem header_protection_all_or_nothing:
  assumes "HeaderAlgorithm_lawful n P"
  shows "\<exists>r first' field'. xor_in_place P k sample first field masked = Some (r, first', field') \<and>
    r = (if length sample \<noteq> hp_sample_len P then Inl (Error_ApiMisuse InvalidQuicHeaderProtectionSampleLength)
         else if 4 < length field then Inl (Error_ApiMisuse InvalidQuicHeaderProtectionPacketNumberLength)
         else Inr ()) \<and>
    length field' = length field \<and> (r \<noteq> Inr () \<longrightarrow> first' = first \<and> field' = field)"
proof (cases "length sample = hp_sample_len P")
  case True
  from new_mask [OF assms True] obtain m ms where "hp_new_mask P k sample = Some (m # ms)" "length ms = 4" by blast
  with True show ?thesis by (auto simp: xor_in_place_def Let_def min_def)
next
  case False
  hence "hp_new_mask P k sample = None" using assms unfolding HeaderAlgorithm_lawful_def by meson
  with False show ?thesis by (simp add: xor_in_place_def)
qed

theorem header_protection_all_or_nothing_witness:
  "\<exists>r first' field'. xor_in_place example_header_alg () [1, 2] 0x42 [0, 1, 2] False = Some (r, first', field') \<and>
    r = Inl (Error_ApiMisuse InvalidQuicHeaderProtectionSampleLength) \<and> first' = 0x42 \<and> field' = [0, 1, 2]"
  using header_protection_all_or_nothing [OF example_header_lawful, of "()" "[1, 2]" "0x42" "[0, 1, 2]" False]
  by (simp add: example_header_alg_def)

end
