(* ===== verification/Spec2Isabelle.thy ===== *)
theory Spec2Isabelle
  imports Wire_Messages Fragmenter Deframer Cipher_Nonce Record_Path Traffic Resumption Robustness Quic_Keys
begin

text \<open>
  A verification library for rustls, a TLS library (\<open>src/rustls/src\<close>) with cryptography providers
  (\<open>src/rustls-ring\<close>, \<open>src/rustls-aws-lc-rs\<close>, \<open>src/rustls-fuzzing-provider\<close>). This root theory imports the component theories
  and states the properties that are the library's result.

  \<^bold>\<open>The program.\<close> Bytes from the peer enter a receive buffer. The receive path (\<open>conn/receive.rs\<close>)
  cuts records out of it with the deframer (\<open>msgs/deframer\<close>), decrypts them in place with a cipher of
  the provider (\<open>crypto/cipher\<close>), lets the deframer reassemble handshake messages in place, and parses
  messages with the codecs (\<open>msgs\<close>). The handshake state machines exchange those messages, hash them
  into the transcript (\<open>hash_hs.rs\<close>) and derive keys from it (\<open>tls13/key_schedule.rs\<close>, over HKDF in
  \<open>crypto/tls13.rs\<close>), which they install in the send and the receive path. The send path
  (\<open>conn/send.rs\<close>) splits data into records with the fragmenter (\<open>msgs/fragmenter.rs\<close>), encrypts
  them, updates keys before their limits and retires after a fatal alert.

  \<^bold>\<open>Theories.\<close>
  \<^item> \<open>Tls_Prelude\<close>: words, byte strings, results, slices, big-endian numbers; the named collections.
  \<^item> \<open>Inline_Set\<close>: the duplicate check of \<open>msgs/handshake.rs\<close> against sets.
  \<^item> \<open>Wire_Codec\<close>, \<open>Wire_Enums\<close>: \<open>msgs/codec.rs\<close> and the enums; the locales of codecs that every
    message codec interprets (reading back what was encoded, and the converse for canonical ones).
  \<^item> \<open>Tls_Error\<close>: \<open>error/mod.rs\<close>, the error types and the alerts they turn into.
  \<^item> \<open>Wire_Handshake\<close>, \<open>Ext_Struct\<close>, \<open>Wire_ClientHello\<close>, \<open>Wire_ServerHello\<close>, \<open>Wire_Messages\<close>:
    \<open>msgs/handshake.rs\<close>, \<open>msgs/macros.rs\<close>, \<open>msgs/client_hello.rs\<close>, \<open>msgs/server_hello.rs\<close> and
    \<open>msgs/mod.rs\<close>; one definition per \<open>encode\<close> and \<open>read\<close>.
  \<^item> \<open>Record_Plain\<close>, \<open>Fragmenter\<close>, \<open>Deframer\<close>: \<open>crypto/cipher/messages.rs\<close>, \<open>msgs/fragmenter.rs\<close>,
    \<open>msgs/deframer\<close>. The deframer refines a stream of handshake bytes cut into messages.
  \<^item> \<open>Cipher_Nonce\<close>, \<open>Record_Cipher\<close>: \<open>crypto/cipher/mod.rs\<close> and the ciphers of the providers; the
    locale \<open>record_protection\<close> is what the record layer relies on.
  \<^item> \<open>Hkdf\<close>, \<open>Transcript\<close>, \<open>Key_Schedule\<close>, \<open>Key_Agreement\<close>: HMAC and HKDF, the transcript hash, the
    key schedule with a record per typestate, and the two ends of a handshake side by side; the
    locale \<open>hkdf_provider\<close> is what the key schedule relies on.
  \<^item> \<open>Decryption\<close>, \<open>Send_Path\<close>, \<open>Receive_Path\<close>, \<open>Record_Path\<close>: the record layers of \<open>conn/receive.rs\<close>
    and \<open>conn/send.rs\<close>, and both against each other. \<open>Send_Path\<close> also has the step relation of all
    operations of the send path.
  \<^item> \<open>Input_Buffer\<close>, \<open>Connection\<close>, \<open>Connection_Loop\<close>: the input buffers and the message iterator of
    \<open>conn/receive.rs\<close> with the handlers of \<open>conn/mod.rs\<close> and \<open>common_state.rs\<close> around it. The state
    machine of the handshake is a record of functions; the locale \<open>tls_input_buffer\<close> is what the
    iterator relies on, and the iterator is shown to terminate for any lawful machine.
  \<^item> \<open>Tls12_Secrets\<close>: \<open>tls12.rs\<close> and \<open>crypto/tls12.rs\<close>, the PRF against \<open>P_hash\<close> of RFC 5246, key block,
    ciphers and verify data of both ends (locales \<open>prf_provider\<close>, \<open>tls12_aead\<close>, \<open>tls12_keys\<close>).
  \<^item> \<open>Session_Store\<close>: \<open>limited_cache.rs\<close> against a bounded queue of entries, the stores of
    \<open>client/handy.rs\<close> and \<open>server/handy.rs\<close> against what was put in (locales \<open>server_session_store\<close>,
    \<open>client_session_store\<close>).
  \<^item> \<open>Ticketer\<close>: \<open>ticketer.rs\<close> and the ticketers of the three providers (locale \<open>ticket_producer\<close>); how
    long a ticket stays usable under rotation.
  \<^item> \<open>Sessions\<close>: the session values of \<open>client/mod.rs\<close>, \<open>server/mod.rs\<close>, \<open>server/tls13.rs\<close> and
    \<open>server/tls12.rs\<close>, their codecs, expiry and freshness.
  \<^item> \<open>Traffic\<close>: the traffic states of \<open>client/tls13.rs\<close> and \<open>server/tls13.rs\<close>, the server state that
    expects the Finished message and issues tickets, and \<open>conn/kernel.rs\<close>.
  \<^item> \<open>Resumption\<close>: what resumption adds up to, across ticket issuing, the client's store, ticket
    encryption and the server's session values; the properties of stores, ticketers and TLS 1.2 secrets.
  \<^item> \<open>Delivery\<close>: two connections against each other. The locale \<open>data_machine\<close> is what delivery relies
    on of a state machine (interpreted by both traffic machines), \<open>delivery\<close> puts it together with a
    cipher and an input buffer: everything written on one end is what \<open>handle_all\<close> returns on the other.
  \<^item> \<open>Robustness\<close>: no input makes a connection in traffic panic or hang (locales \<open>calm_machine\<close>,
    \<open>calm_connection\<close>). The bytes that are left bound the turns of the loop, and so the fuel it needs
    and the sequence numbers it can use up.
  \<^item> \<open>Quic_Keys\<close>: \<open>quic.rs\<close> and the provider's \<open>quic.rs\<close>: keys, key updates, events, header and packet
    protection. The locale \<open>quic_provider\<close> extends \<open>hkdf_provider\<close> by the algorithm of the suite; its
    lemmas show that the keys of the two ends match in every generation, and packets arrive.

  \<^bold>\<open>Conventions.\<close> Structs are records with a prefix per struct, enums are datatypes or, for the open
  wire enums, words. A fallible function returns a sum with the error on the left. \<open>None\<close> is a panic.
  A \<open>&mut\<close> argument is passed and returned; slices into a buffer are offsets. \<open>usize\<close> is \<open>nat\<close>: every
  length in question is bounded by a buffer in memory. Words keep their width where the source
  computes on them. \<open>debug_assert\<close> is not modelled, as in a release build. Loops are recursive
  functions with a termination proof. The one exception is the iterator over messages, whose loop runs
  a state machine that is a parameter: it has fuel, and \<open>Connection_Loop\<close> proves that enough fuel gives
  a result that more fuel does not change, for any state machine that leaves the deframer alone.

  \<^bold>\<open>Parameters.\<close> Code of other crates is a parameter: \<open>classify\<close> and \<open>dns_ok\<close> are the parsers of server
  names of the pki-types crate; \<open>Aead\<close>, \<open>Hmac\<close>, \<open>Hash\<close> stand for the primitives; the providers' traits
  are records of functions. What is relied on is stated as \<open>Aead_lawful\<close>, \<open>Hmac_lawful\<close>, \<open>Hash_lawful\<close>,
  \<open>record_protection\<close>, \<open>hkdf_provider\<close> and shown of the repository's own fuzzing provider.

  \<^bold>\<open>What is shown.\<close> What a client and a server write, in any number of calls and turns, is what the other
  end reads; no input makes a connection in traffic panic or hang; errors are final; no sequence number
  is used twice under a key; a fatal alert silences the sender; the two key schedules of TLS 1.3 agree
  through the handshake and any number of key updates, and so do the secrets of TLS 1.2; HKDF is that of
  RFC 5869 and the PRF that of RFC 5246; a ticket resumes the session it was issued in, is used at most
  once and only for its lifetime; the transcripts agree across a HelloRetryRequest; every message codec
  reads back what it wrote; extension blocks are checked as the protocol demands; fragmentation and
  reassembly lose nothing; errors become error alerts.

  \<^bold>\<open>Not modelled.\<close> The handshake states before the TLS 1.3 traffic states (but for the server's
  last one), which are driven by configuration objects and callbacks; certificate verification,
  signatures and key exchange, which are calls into other crates; the typed handshake states of QUIC; encrypted
  client hello beyond its wire format and secrets; test and benchmark programs; text output and
  logging; the zeroing of memory.
\<close>

subsection \<open>Example inputs\<close>

text \<open>Concrete values the witnesses below evaluate.\<close>

definition example_hello :: ClientHelloPayload where
  "example_hello = \<lparr>ch_client_version = ProtocolVersion_TLSv1_2, ch_random = replicate 32 7,
     ch_session_id = SessionId_empty, ch_cipher_suites = [0x1301], ch_compression_methods = [0],
     ch_extensions = ClientExtensions_default\<lparr>cx_named_groups := Some [0x001d],
       cx_extended_main_secret_request := Some (), cx_order_seed := 5\<rparr>\<rparr>"

lemmas example_hello_simps = example_hello_def ClientExtensions_default_def any_name_def

lemma example_hello_order:
  "ClientExtensions_used_in_encoding_order any_name (ch_extensions example_hello) \<in> {[10, 23], [23, 10]}"
  by (simp add: ClientExtensions_used_in_encoding_order_def ClientExtensions_order_insensitive_def
      collect_used_def ClientExtensions_items_def ext_slot_sel example_hello_simps)

lemma example_hello_length:
  "length (concat (map (encode_one (ClientExtensions_items any_name) (ch_extensions example_hello))
     (ClientExtensions_used_in_encoding_order any_name (ch_extensions example_hello)))) < 2 ^ 16"
  using example_hello_order
  by (auto simp: encode_one_def find_item_def ClientExtensions_items_def ext_slot_sel example_hello_simps
      NamedGroup_SIZE_LEN_def Vec_encode_def unit_encode_def)

lemma example_hello_wf: "ClientHelloPayload_wf any_name example_hello"
  using example_hello_length
  by (simp add: ClientHelloPayload_wf_def ClientExtensions_wf_def, simp add: example_hello_simps
      ClientExtensions_slots_wf_def Random_wf_def SessionId_wf_def SessionId_empty_def Vec_wf_def
      NamedGroup_SIZE_LEN_def CipherSuite_SIZE_LEN_def Compression_SIZE_LEN_def)

subsection \<open>Wire layer\<close>

text \<open>
  Claim C7. A handshake message that is well formed for the protocol version in use and
  shorter than 16 MB is read back from its encoding, whatever follows it in the buffer: every
  payload type, the ClientHello up to the two fields that only say how to encode it, and the
  key exchange parameters in their unparsed form.
\<close>

theorem handshake_message_round_trip:
  assumes "HandshakePayload_wf classify dns_ok vers p"
    and "length (HandshakePayload_encode classify dns_ok p) < 2 ^ 24"
  shows "HandshakeMessagePayload_read_version classify dns_ok vers
      (HandshakeMessagePayload_get_encoding classify dns_ok p @ rest) =
    Inr (HandshakePayload_wire p, rest)"
  using assms by (rule HandshakeMessagePayload_read_encode)

theorem handshake_message_round_trip_witness:
  "HandshakeMessagePayload_read_version any_name any_dns ProtocolVersion_TLSv1_3
      (HandshakeMessagePayload_get_encoding any_name any_dns (HP_KeyUpdate 1) @ [9]) =
    Inr (HP_KeyUpdate 1, [9])"
  using handshake_message_round_trip
    [of any_name any_dns ProtocolVersion_TLSv1_3 "HP_KeyUpdate 1" "[9]"] by simp



text \<open>
  Claim C14. The extensions of an accepted ClientHello are on the wire without repetition, with
  no \<open>ech_outer_extensions\<close> and no \<open>oid_filters\<close> among them, \<open>pre_shared_key\<close> last if at all, and
  the fields that are set are exactly the known types on the wire.
\<close>

theorem client_extensions_enforced:
  assumes "ClientExtensions_read classify r = Inr (x, rest)" "r \<noteq> []"
  shows "\<exists>xs. r = length_prefixed U16 (concat (map tlv xs)) @ rest \<and>
    distinct (map fst xs) \<and>
    ExtensionType_EncryptedClientHelloOuterExtensions \<notin> set (map fst xs) \<and>
    ExtensionType_OIDFilters \<notin> set (map fst xs) \<and>
    (\<forall>ys zs. map fst xs = ys @ ExtensionType_PreSharedKey # zs \<longrightarrow> zs = []) \<and>
    set (collect_used (ClientExtensions_items classify) x) =
      set (map fst xs) \<inter> set (ALL_EXTENSIONS (ClientExtensions_items classify))"
  using assms by (rule ClientExtensions_read_enforces)

lemma example_extensions_read:
  "ClientExtensions_read any_name (ClientExtensions_encode any_name (ch_extensions example_hello)) =
    Inr (ClientExtensions_wire (ch_extensions example_hello), [])"
  using ClientExtensions_read_encode [of any_name "ch_extensions example_hello"] example_hello_wf
  by (simp add: ClientHelloPayload_wf_def)

lemma example_extensions_nonempty: "ClientExtensions_encode any_name (ch_extensions example_hello) \<noteq> []"
  using example_hello_order by (auto simp: ClientExtensions_encode_def Let_def length_prefixed_nonempty)

theorem client_extensions_enforced_witness:
  "\<exists>xs. ClientExtensions_encode any_name (ch_extensions example_hello) =
      length_prefixed U16 (concat (map tlv xs)) \<and> distinct (map fst xs)"
  using client_extensions_enforced [OF example_extensions_read example_extensions_nonempty] by auto

text \<open>
  Claim C38. The types \<open>received_types\<close> reports for an EncryptedExtensions message are exactly
  those on the wire; none occurs twice, and a type this crate knows by name occurs only where
  it is one of the fields or listed as deliberately unprocessed.
\<close>

theorem encrypted_extensions_reported:
  assumes "EncryptedExtensions_read dns_ok r = Inr (x, rest)"
  shows "\<exists>xs. r = length_prefixed U16 (concat (map tlv xs)) @ rest \<and> distinct (map fst xs) \<and>
    EncryptedExtensions_received_types dns_ok x = set (map fst xs) \<and>
    (\<forall>t \<in> set (map fst xs). ExtensionType_is_recognized t \<longrightarrow>
       t \<in> set (ALL_EXTENSIONS (EncryptedExtensions_items dns_ok)) \<union>
         set EncryptedExtensions_UNPROCESSED)"
  using assms by (rule EncryptedExtensions_read_trace)

lemma example_encrypted_extensions_read:
  "EncryptedExtensions_read any_dns (EncryptedExtensions_encode any_dns
      (EncryptedExtensions_default\<lparr>ee_early_data_ack := Some ()\<rparr>)) =
    Inr (EncryptedExtensions_default\<lparr>ee_early_data_ack := Some ()\<rparr>, [])"
proof -
  have "EncryptedExtensions_wf any_dns (EncryptedExtensions_default\<lparr>ee_early_data_ack := Some ()\<rparr>)"
    by (simp add: EncryptedExtensions_wf_def EncryptedExtensions_slots_wf_def EncryptedExtensions_default_def
        extensions_fit_def encode_all_def ALL_EXTENSIONS_def encode_one_def find_item_def
        EncryptedExtensions_items_def ext_slot_sel unit_encode_def)
  from eextc.read_encode_nil [OF this] show ?thesis .
qed

theorem encrypted_extensions_reported_witness:
  "\<exists>xs. EncryptedExtensions_encode any_dns (EncryptedExtensions_default\<lparr>ee_early_data_ack := Some ()\<rparr>) =
      length_prefixed U16 (concat (map tlv xs)) \<and>
    EncryptedExtensions_received_types any_dns (EncryptedExtensions_default\<lparr>ee_early_data_ack := Some ()\<rparr>) =
      set (map fst xs)"
  using encrypted_extensions_reported [OF example_encrypted_extensions_read] by auto

text \<open>
  Claim C39. Re-encoding a HelloRetryRequest that was read reproduces the bytes it was read
  from, which the transcript hash after a retry depends on.
\<close>

theorem hello_retry_request_reencodes:
  assumes "HelloRetryRequest_read r = Inr (h, rest)"
  shows "HelloRetryRequest_payload_encode Standard (h\<lparr>hrr_legacy_version := v\<rparr>) @ rest =
    u16_encode v @ HELLO_RETRY_REQUEST_RANDOM @ r"
  using assms by (rule HelloRetryRequest_reencode)

definition example_hrr :: HelloRetryRequest where
  "example_hrr = \<lparr>hrr_legacy_version = 0, hrr_session_id = SessionId_empty, hrr_cipher_suite = 0x1301,
     hrr_extensions = HelloRetryRequestExtensions_default\<lparr>hrre_key_share := Some 0x001d,
       hrre_order := Some [ExtensionType_KeyShare]\<rparr>\<rparr>"

lemma example_hrr_wf: "HelloRetryRequest_wf example_hrr"
  by (simp add: HelloRetryRequest_wf_def example_hrr_def SessionId_wf_def SessionId_empty_def
      HelloRetryRequestExtensions_wf_def HelloRetryRequestExtensions_default_def
      HelloRetryRequestExtensions_slots_wf_def HelloRetryRequestExtensions_encoding_order_def
      collect_used_def HelloRetryRequestExtensions_items_def ext_slot_sel encode_one_def find_item_def)

theorem hello_retry_request_reencodes_witness:
  "HelloRetryRequest_payload_encode Standard (example_hrr\<lparr>hrr_legacy_version := 0x0303\<rparr>) =
    u16_encode 0x0303 @ HELLO_RETRY_REQUEST_RANDOM @
    drop 34 (HelloRetryRequest_payload_encode Standard example_hrr)"
proof -
  have "example_hrr\<lparr>hrr_legacy_version := 0\<rparr> = example_hrr" by (simp add: example_hrr_def)
  thus ?thesis
    using hello_retry_request_reencodes [OF HelloRetryRequest_read_encode [OF example_hrr_wf, of "[]"],
        where v = "0x0303"] by simp
qed

text \<open>
  Claim C15. The part of a ClientHello with a pre-shared key offer that its binders sign is
  everything up to the binders list, which is the end of the message.
\<close>

theorem binders_sign_the_rest:
  assumes "cx_preshared_key_offer (ch_extensions ch) = Some offer"
  shows "HandshakeMessagePayload_get_encoding classify dns_ok (HP_ClientHello ch) =
    HandshakeMessagePayload_encoding_for_binder_signing classify dns_ok (HP_ClientHello ch) @
    Vec_encode PresharedKeyBinder_SIZE_LEN PresharedKeyBinder_encode (psko_binders offer)"
  using assms by (rule binder_signing_split)

definition example_psk_hello :: ClientHelloPayload where
  "example_psk_hello = example_hello\<lparr>ch_extensions := (ch_extensions example_hello)
     \<lparr>cx_preshared_key_offer := Some (PresharedKeyOffer_new
       \<lparr>pski_identity = [1, 2], pski_obfuscated_ticket_age = 3\<rparr> (replicate 32 0))\<rparr>\<rparr>"

theorem binders_sign_the_rest_witness:
  "HandshakeMessagePayload_get_encoding any_name any_dns (HP_ClientHello example_psk_hello) =
    HandshakeMessagePayload_encoding_for_binder_signing any_name any_dns (HP_ClientHello example_psk_hello) @
    Vec_encode PresharedKeyBinder_SIZE_LEN PresharedKeyBinder_encode [replicate 32 0]"
  using binders_sign_the_rest [of example_psk_hello _ any_name any_dns]
  by (simp add: example_psk_hello_def PresharedKeyOffer_new_def)

subsection \<open>Records\<close>

text \<open>
  Claim C34. A decrypted TLS 1.3 record is accepted exactly when it was sent as application data,
  is at most 16385 bytes long, and is a content of at most 16384 bytes, a content type other
  than zero and \<open>change_cipher_spec\<close>, and zero padding; the result has that type and content.
\<close>

theorem tls13_unpadding:
  "into_tls13_unpadded_record rec = Inr out \<longleftrightarrow>
     rec_typ rec = ContentType_ApplicationData \<and> length (rec_payload rec) \<le> MAX_FRAGMENT_LEN + 1 \<and>
     (\<exists>ctyp content n. rec_payload rec = content @ [ctyp] @ replicate n 0 \<and>
        ctyp \<noteq> 0 \<and> ctyp \<noteq> ContentType_ChangeCipherSpec \<and> length content \<le> MAX_FRAGMENT_LEN \<and>
        out = \<lparr>rec_typ = ctyp, rec_version = Legacy ProtocolVersion_TLSv1_3, rec_payload = content\<rparr>)"
  by (rule into_tls13_unpadded_record_iff)

text \<open>
  Claim C35. The fragments of a payload are its bytes cut into pieces of the largest size the
  limit and the cipher overhead leave (at least one byte), in order and nothing else.
\<close>

theorem fragments_are_pieces:
  assumes "OutboundPlain_wf payload"
  shows "map (\<lambda>r. OutboundPlain_to_vec (rec_payload r)) (Fragmenter_fragment f ctyp version payload overhead) =
      pieces (max 1 (max_frag f - overhead)) (OutboundPlain_to_vec payload) \<and>
    concat (map (\<lambda>r. OutboundPlain_to_vec (rec_payload r)) (Fragmenter_fragment f ctyp version payload overhead)) =
      OutboundPlain_to_vec payload"
  using Fragmenter_fragment_pieces [OF assms, of f ctyp version overhead]
    concat_pieces [of "max 1 (max_frag f - overhead)" "OutboundPlain_to_vec payload"] by simp

theorem fragments_are_pieces_witness:
  "map (\<lambda>r. OutboundPlain_to_vec (rec_payload r))
      (Fragmenter_fragment \<lparr>max_frag = 30\<rparr> 23 (Legacy 0x0303) (OP_Single [1, 2, 3]) 28) =
    [[1, 2], [3]]"
  using fragments_are_pieces [of "OP_Single [1, 2, 3]" "\<lparr>max_frag = 30\<rparr>" 23 "Legacy 0x0303" 28]
  by (simp add: pieces.simps)



subsection \<open>Deframer\<close>

text \<open>
  Claim C6. Handshake data that arrives in fragments anywhere in the buffer is reassembled in
  place, without a panic and in finitely many steps: after each fragment has been delivered
  and coalesced, the spans are exactly the messages of the concatenated fragments, provided no
  message declares more than 64 KB.
\<close>

theorem deframer_reassembles:
  assumes "frags_between 0 frags (length buf)" "\<not> oversized (frag_bytes buf frags)"
  shows "\<exists>d' buf'. deliver_all version frags buf (Deframer_default\<lparr>df_processed := length buf\<rparr>) =
      Some (Inr (), d', buf') \<and>
    map (span_bytes buf') (df_spans d') = split_messages (frag_bytes buf frags)"
proof -
  let ?d = "Deframer_default\<lparr>df_processed := length buf\<rparr>"
  have "Deframer_settled buf ?d" "handshake_stream buf ?d = []"
    by (simp_all add: Deframer_settled_def Deframer_default_def handshake_stream_def)
  with deliver_all_stream [of buf ?d 0 frags version] assms show ?thesis
    by (auto simp: Deframer_default_def Deframer_settled_def)
qed

text \<open>The buffer of the unit test \<open>coalesce\<close> of the deframer.\<close>

definition example_buffer :: bytes where
  "example_buffer = [0, 0, 0, 0x21, 0, 0, 0, 0, 0x01, 0xff, 0x00, 0x01]"

lemma example_split: "split_messages [0x21, 0, 0, 1, 0xff] = [[0x21, 0, 0, 1, 0xff]]"
  by (simp add: split_messages.simps declared_size_def HANDSHAKE_HEADER_LEN_def)

theorem deframer_reassembles_witness:
  "\<exists>d' buf'. deliver_all ProtocolVersion_TLSv1_3 [(3, 4), (4, 6), (8, 10)] example_buffer
      (Deframer_default\<lparr>df_processed := length example_buffer\<rparr>) = Some (Inr (), d', buf') \<and>
    map (span_bytes buf') (df_spans d') = [[0x21, 0, 0, 1, 0xff]]"
proof -
  have fb: "frag_bytes example_buffer [(3, 4), (4, 6), (8, 10)] = [0x21, 0, 0, 1, 0xff]"
    by (simp add: frag_bytes_def example_buffer_def slice_def numeral_eq_Suc)
  have "\<not> oversized [0x21, 0, 0, 1, 0xff]"
    by (simp add: oversized_def example_split declared_size_def HANDSHAKE_HEADER_LEN_def MAX_HANDSHAKE_SIZE_def)
  moreover have "frags_between 0 [(3, 4), (4, 6), (8, 10)] (length example_buffer)"
    by (simp add: example_buffer_def)
  ultimately show ?thesis
    using deframer_reassembles [of "[(3, 4), (4, 6), (8, 10)]" example_buffer ProtocolVersion_TLSv1_3]
    unfolding fb example_split by blast
qed

text \<open>
  Claim C33. Delivering one more fragment to a settled deframer never panics, leaves the bytes
  behind the fragment alone, keeps the deframer settled, extends the stream by the fragment, and
  is refused exactly when a message of the extended stream declares more than 64 KB.
\<close>

theorem deframer_delivers_fragment:
  assumes "Deframer_settled buf d" "\<not> df_too_large d"
    and "spans_between 0 (df_spans d) start" "start \<le> fin" "fin \<le> df_processed d"
  shows "\<exists>res d' buf'. Deframer_coalesce buf (Deframer_input_message version start fin buf d) =
      Some (res, d', buf') \<and> Deframer_settled buf' d' \<and>
    handshake_stream buf' d' = handshake_stream buf d @ slice start fin buf \<and>
    length buf' = length buf \<and> drop fin buf' = drop fin buf \<and>
    res = (if oversized (handshake_stream buf' d') then Inl HandshakePayloadTooLarge else Inr ())"
  using input_coalesce_delivers [OF assms, of version] unfolding delivers_def by blast

theorem deframer_delivers_fragment_witness:
  "\<exists>res d' buf'. Deframer_coalesce [9, 1, 0, 0] (Deframer_input_message 0x0304 1 3 [9, 1, 0, 0]
      (Deframer_default\<lparr>df_processed := 3\<rparr>)) = Some (res, d', buf') \<and> drop 3 buf' = [0]"
proof -
  have "Deframer_settled [9, 1, 0, 0] (Deframer_default\<lparr>df_processed := 3\<rparr>)"
    by (simp add: Deframer_settled_def Deframer_default_def handshake_stream_def)
  from deframer_delivers_fragment [OF this, of 1 3 "0x0304"] show ?thesis
    by (fastforce simp: Deframer_default_def)
qed

subsection \<open>Record protection\<close>

text \<open>
  Claim C37. Under one IV of at least eight bytes no two sequence numbers share a nonce.
\<close>

theorem nonces_differ:
  assumes "Iv_wf iv" "8 \<le> Iv_len iv"
  shows "Nonce_as_bytes (Nonce_new iv seq) = Nonce_as_bytes (Nonce_new iv seq') \<longleftrightarrow> seq = seq'"
  using Nonce_inj [OF assms, of None seq None seq']
  by (simp add: Nonce_new_def nonce_number_def word_unat_eq_iff)

theorem nonces_differ_witness:
  "Nonce_as_bytes (Nonce_new \<lparr>iv_buf = replicate 16 3, iv_used = 12\<rparr> 1) \<noteq>
    Nonce_as_bytes (Nonce_new \<lparr>iv_buf = replicate 16 3, iv_used = 12\<rparr> 2)"
  using nonces_differ [of "\<lparr>iv_buf = replicate 16 3, iv_used = 12\<rparr>" 1 2]
  by (simp add: Iv_wf_def Iv_MAX_LEN_def Iv_len_def)

subsection \<open>Errors\<close>



subsection \<open>Ciphers and data paths\<close>

text \<open>
  Claim C8. Whatever bytes a peer puts into the receive buffer, taking the next record out of it
  returns and does not panic, for every decrypter that works within its slice. Unless it reports
  an error the deframer is sound again; a handshake record is one whole message, any other record
  comes with no partial handshake message pending, and nothing comes only if no whole message is
  buffered.
\<close>

theorem receive_never_panics:
  assumes "decrypter_total D" "deframer_ok buf (rp_deframer rp)"
  shows "\<exists>r rp' buf'. ReceivePath_deframe D buf rp = Some (r, rp', buf') \<and> length buf' = length buf \<and>
    (case r of
       Inl _ \<Rightarrow> True
     | Inr None \<Rightarrow> deframer_ok buf' (rp_deframer rp') \<and>
         (\<forall>m rest. handshake_stream buf' (rp_deframer rp') = m @ rest \<longrightarrow> \<not> complete_message m)
     | Inr (Some dr) \<Rightarrow> deframer_ok buf' (rp_deframer rp') \<and>
         (if rec_typ (dr_plaintext dr) = ContentType_Handshake then complete_message (rec_payload (dr_plaintext dr))
          else df_spans (rp_deframer rp') = []))"
  using deframe_loop_total [OF assms, of False] unfolding ReceivePath_deframe_def deframe_ok_def .

theorem receive_never_panics_witness:
  "\<exists>r rp' buf'. ReceivePath_deframe fuzz_Tls13_decrypter [23, 3, 3, 0, 2, 9, 9, 22] example_receive = Some (r, rp', buf')"
proof -
  have "deframer_ok [23, 3, 3, 0, 2, 9, 9, 22] (rp_deframer example_receive)"
    by (simp add: deframer_ok_def Deframer_settled_def example_receive_def ReceivePath_new_def Deframer_default_def handshake_stream_def)
  from receive_never_panics [OF fuzz_Tls13_decrypter_total this] show ?thesis by blast
qed

text \<open>
  Claim C3. No encrypter is ever given a sequence number twice, nor one at the hard limit: in
  every state the operations of the send path can reach from the start, the numbers the current
  encrypter has been called with are the numbers below the current one, each once.
\<close>

theorem sequence_numbers_unique:
  assumes "logs_seq used E"
    and "(send_step classify dns_ok E used)\<^sup>*\<^sup>* (SendPath_default, []) (sp, tls)"
    and "sp_encrypt_state sp = ES_Encrypting eg"
  shows "used (eg_encrypter eg) = map word_of_nat [0..<unat (eg_write_seq eg)] \<and> distinct (used (eg_encrypter eg)) \<and>
    (\<forall>seq \<in> set (used (eg_encrypter eg)). seq < SEQ_HARD_LIMIT)"
proof -
  have "sp_inv used sp"
    using send_steps_sound [OF assms(1,2)] by (simp add: sp_step_def sp_inv_def SendPath_default_def)
  hence i: "used (eg_encrypter eg) = map word_of_nat [0..<unat (eg_write_seq eg)]" "eg_write_seq eg \<le> SEQ_HARD_LIMIT"
    using assms(3) by (simp_all add: sp_inv_def seq_inv_def)
  have w: "unat (word_of_nat n :: u64) = n" if "n < unat (eg_write_seq eg)" for n
    using less_trans [OF that unsigned_less [of "eg_write_seq eg"]] by (simp add: unat_of_nat)
  have "inj_on (word_of_nat :: nat \<Rightarrow> u64) {0..<unat (eg_write_seq eg)}"
    by (rule inj_onI) (metis w atLeastLessThan_iff)
  hence "distinct (used (eg_encrypter eg))" unfolding i(1) by (simp add: distinct_map)
  moreover have "\<forall>seq \<in> set (used (eg_encrypter eg)). seq < SEQ_HARD_LIMIT"
    unfolding i(1) using i(2) w by (auto simp: word_less_nat_alt word_le_nat_alt)
  ultimately show ?thesis using i(1) by blast
qed

text \<open>The fuzzing provider's cipher with a record of its calls.\<close>

definition logging_encrypter :: "u64 list RecordEncrypter" where
  "logging_encrypter = \<lparr>
     re_encrypt = (\<lambda>e p seq out. map_option (\<lambda>(r, _, out). (r, e @ [seq], out)) (re_encrypt fuzz_Tls13_encrypter () p seq out)),
     re_encrypted_payload_len = (\<lambda>_ n. re_encrypted_payload_len fuzz_Tls13_encrypter () n)\<rparr>"

lemma logging_encrypter_logs: "logs_seq id logging_encrypter"
  by (auto simp: logs_seq_def logging_encrypter_def)

definition example_logging :: "(HkdfExpanderUsingHmac, u64 list, unit, unit, unit) SendPath" where
  "example_logging = SendOutput_set_encrypter \<lparr>en_encrypter = [], en_limit = 100\<rparr> SendPath_default"

theorem sequence_numbers_unique_witness:
  "\<exists>sp eg tls. send_alert logging_encrypter AlertLevel_Warning AlertDescription_UserCanceled example_logging [] = Some (Inr (), sp, tls) \<and>
    sp_encrypt_state sp = ES_Encrypting eg \<and> distinct (eg_encrypter eg)"
proof -
  let ?step = "send_step any_name any_dns logging_encrypter id"
  have a: "?step (SendPath_default, []) (example_logging, [])"
    unfolding example_logging_def by (rule send_step.encrypter) simp
  obtain sp eg tls where
    s: "send_alert logging_encrypter AlertLevel_Warning AlertDescription_UserCanceled example_logging [] = Some (Inr (), sp, tls)"
      "sp_encrypt_state sp = ES_Encrypting eg"
    by (simp add: send_alert_def example_logging_def SendOutput_set_encrypter_def EncryptionState_set_encrypter_def SendPath_default_def
        on_encrypting_def send_short_def bindS_def write_queued_def returnS_def encrypt_outgoing_def encrypt_outgoing_into_def
        encrypted_len_def logging_encrypter_def fuzz_Tls13_encrypter_def SEQ_HARD_LIMIT_def HEADER_SIZE_def Let_def
        fuzz_Tls13_encrypt_eq fuzz_Tls13Cipher_encrypted_payload_len_def AEAD_OVERHEAD_def Record_from_Message_def
        Message_build_alert_def borrow_outbound_def AlertMessagePayload_encode_def u8_encode_def)
  have "?step (example_logging, []) (sp, tls)" by (rule send_step.alert [OF s(1)])
  with a have "?step\<^sup>*\<^sup>* (SendPath_default, []) (sp, tls)" by (rule rtranclp_trans [OF r_into_rtranclp r_into_rtranclp])
  from sequence_numbers_unique [OF logging_encrypter_logs this s(2)] s show ?thesis by auto
qed



subsection \<open>Key schedule\<close>

text \<open>
  Claim C4. Client and server key schedules that are given the same suite, PSK, shared secret and
  transcript hashes both run to the end without a panic and agree: each side's encrypter is keyed
  like the other side's decrypter, for handshake and application traffic in both directions; the
  client's Finished is what the server expects; exporter, resumption and traffic secrets are equal,
  and both have logged the same secrets.
\<close>

theorem key_schedules_agree:
  assumes "hkdf_provider (cs_hkdf_provider (suite S)) valid" "aead_fits (cs_aead_alg (suite S))"
  shows "\<exists>c s. client_keys S psk_secret shared_secret h_sh h_sf h_fin h_cf client_random kl = Some c \<and>
    server_keys S psk_secret shared_secret h_sh h_sf h_fin h_cf client_random kl receive = Some s \<and>
    cr_log c = sr_log s \<and> cr_finished c = sr_finished s \<and>
    keyed (cs_aead_alg (suite S)) (en_encrypter (sr_handshake_encrypter s)) (cr_handshake_decrypter c) \<and>
    (\<exists>d. ds_record_decrypter (sr_handshake_receive s) = Some d \<and>
       keyed (cs_aead_alg (suite S)) (en_encrypter (cr_handshake_encrypter c)) d) \<and>
    keyed (cs_aead_alg (suite S)) (en_encrypter (sr_traffic_encrypter s)) (cts_decrypter (cr_traffic c)) \<and>
    (\<exists>d. ds_record_decrypter (sr_traffic_receive s) = Some d \<and>
       keyed (cs_aead_alg (suite S)) (en_encrypter (cts_encrypter (cr_traffic c))) d) \<and>
    kse_current_exporter_secret (cts_exporter (cr_traffic c)) = kse_current_exporter_secret (sr_exporter s) \<and>
    ksr_resumption_master_secret (cts_resumption (cr_traffic c)) = ksr_resumption_master_secret (sr_resumption s) \<and>
    kst_current_client_traffic_secret (cts_key_schedule (cr_traffic c)) = kst_current_client_traffic_secret (sr_traffic s) \<and>
    kst_current_server_traffic_secret (cts_key_schedule (cr_traffic c)) = kst_current_server_traffic_secret (sr_traffic s)"
  using hkdf_provider.handshake_agreement [OF assms(1) refl assms(2), of psk_secret shared_secret h_sh h_sf h_fin h_cf client_random kl receive]
  by blast

abbreviation fuzz_protocol :: "(HkdfExpanderUsingHmac, unit, unit, unit, unit) Tls13ProtocolSuite" where
  "fuzz_protocol \<equiv> Tcp_Suite TLS13_FUZZING_SUITE"

lemma fuzz_protocol_provider: "hkdf_provider (cs_hkdf_provider (suite fuzz_protocol)) (\<lambda>x. xp_hmac x = fuzz_Hmac)"
    "aead_fits (cs_aead_alg (suite fuzz_protocol))"
  using fuzz_hkdf.hkdf_provider_axioms fuzz_Aead_fits by (simp_all add: TLS13_FUZZING_SUITE_def)

theorem key_schedules_agree_witness:
  "\<exists>c s. client_keys fuzz_protocol None [7] [1] [2] [3] [4] [5] \<lparr>kl_will_log = (\<lambda>_. True), kl_entries = []\<rparr> = Some c \<and>
    server_keys fuzz_protocol None [7] [1] [2] [3] [4] [5] \<lparr>kl_will_log = (\<lambda>_. True), kl_entries = []\<rparr> DecryptionState_new = Some s \<and>
    cr_finished c = sr_finished s"
  using key_schedules_agree [OF fuzz_protocol_provider, of None "[7]" "[1]" "[2]" "[3]" "[4]" "[5]"
      "\<lparr>kl_will_log = (\<lambda>_. True), kl_entries = []\<rparr>" DecryptionState_new] by blast

text \<open>
  Claim C17. After any number of key updates a sender and a receiver that started from the same
  traffic secret still hold matching keys: every update succeeds, each new encrypter is keyed like
  the decrypter installed by the same update, and the secrets are equal again.
\<close>

theorem key_updates_agree:
  assumes "hkdf_provider (cs_hkdf_provider (suite S)) valid" "aead_fits (cs_aead_alg (suite S))"
    and "kss_state (ksts_ks s) = S" "kss_state (kstr_ks r) = S" "ksts_current s = kstr_current r"
  shows "\<exists>es s' ds r'. send_updates n s = Some (es, s') \<and> receive_updates n r receive = Some (ds, r') \<and>
    list_all2 (\<lambda>e d. \<exists>d'. d = Some d' \<and> keyed (cs_aead_alg (suite S)) (en_encrypter e) d') es ds \<and>
    length es = n \<and> ksts_current s' = kstr_current r'"
  by (rule hkdf_provider.updates_agree [OF assms(1) refl assms(2-5)])

theorem key_updates_agree_witness:
  "\<exists>es s' ds r'. send_updates 2 \<lparr>ksts_ks = \<lparr>kss_side = Side_Client, kss_state = fuzz_protocol\<rparr>, ksts_current = \<lparr>okm_buf = replicate 64 0, okm_used = 32\<rparr>\<rparr> = Some (es, s') \<and>
    receive_updates 2 \<lparr>kstr_ks = \<lparr>kss_side = Side_Server, kss_state = fuzz_protocol\<rparr>, kstr_current = \<lparr>okm_buf = replicate 64 0, okm_used = 32\<rparr>\<rparr>
      DecryptionState_new = Some (ds, r') \<and> length es = 2"
  using key_updates_agree [OF fuzz_protocol_provider,
      of "\<lparr>ksts_ks = \<lparr>kss_side = Side_Client, kss_state = fuzz_protocol\<rparr>, ksts_current = \<lparr>okm_buf = replicate 64 0, okm_used = 32\<rparr>\<rparr>"
        "\<lparr>kstr_ks = \<lparr>kss_side = Side_Server, kss_state = fuzz_protocol\<rparr>, kstr_current = \<lparr>okm_buf = replicate 64 0, okm_used = 32\<rparr>\<rparr>"
        2 DecryptionState_new] by auto

text \<open>
  Claim C18. The chunked loop of the HMAC-based expander computes HKDF-Expand of RFC 5869 for every
  output length, and refuses exactly those beyond 255 blocks; it does not panic.
\<close>

theorem hkdf_expand_rfc5869:
  assumes "Hmac_lawful H"
  shows "hmac_expand_slice \<lparr>xp_hmac = H, xp_key = prk\<rparr> info len =
    Some (if len > 255 * hmac_tag_len H then Inl () else Inr (hkdf_expand_spec H prk (concat info) len))"
  using assms by (rule hmac_expand_slice_eq)

theorem hkdf_expand_rfc5869_witness:
  "hmac_expand_slice \<lparr>xp_hmac = fuzz_Hmac, xp_key = [1]\<rparr> [[2]] 4 = Some (Inr (ascii ''Hmac'')) \<and>
   hmac_expand_slice \<lparr>xp_hmac = fuzz_Hmac, xp_key = [1]\<rparr> [[2]] 8161 = Some (Inl ())"
proof -
  have len: "hmac_tag_len fuzz_Hmac = 32" by (simp add: fuzz_Hmac_def HMAC_OUTPUT_def)
  have "hkdf_expand_spec fuzz_Hmac [1] [2] 4 = ascii ''Hmac''"
    by (simp add: hkdf_expand_spec_def hmac_bytes_def hmac_sign_def fuzz_Hmac_def HMAC_OUTPUT_def ascii_def Tag_new_def Tag_MAX_LEN_def
        Tag_as_ref_def write_at_def numeral_eq_Suc)
  thus ?thesis
    using hkdf_expand_rfc5869 [OF fuzz_Hmac_lawful, of "[1]" "[[2]]" 4] hkdf_expand_rfc5869 [OF fuzz_Hmac_lawful, of "[1]" "[[2]]" 8161]
    by (simp add: len)
qed

text \<open>
  Claim C28. The input to HKDF separates the secrets of a key schedule: two derivations use the
  same label structure only if they are for the same kind of secret, the same transcript hash and
  the same length.
\<close>

theorem secret_labels_separate:
  assumes "length context \<le> 255" "length context' \<le> 255" "n < 2 ^ 16" "n' < 2 ^ 16"
  shows "concat (hkdf_label_info (SecretKind_to_bytes kind) context n) = concat (hkdf_label_info (SecretKind_to_bytes kind') context' n') \<longleftrightarrow>
    kind = kind' \<and> context = context' \<and> n = n'"
  using hkdf_label_info_inj [OF SecretKind_to_bytes_length assms(1,3) SecretKind_to_bytes_length assms(2,4), of kind kind'] SecretKind_to_bytes_inj
  by blast

theorem secret_labels_separate_witness:
  "concat (hkdf_label_info (SecretKind_to_bytes ClientHandshakeTrafficSecret) [1] 32) \<noteq>
    concat (hkdf_label_info (SecretKind_to_bytes ServerHandshakeTrafficSecret) [1] 32)"
  using secret_labels_separate [of "[1]" "[1]" 32 32 ClientHandshakeTrafficSecret ServerHandshakeTrafficSecret] by simp

subsection \<open>Transcript\<close>

text \<open>
  Claim C29. A client that goes back to its buffer after a HelloRetryRequest and a server that
  rolls up its running hash have the same transcript hash after the same further messages, and it
  is the hash of the synthetic message followed by those messages.
\<close>

theorem retry_transcripts_agree:
  assumes "Hash_lawful h" "hashes h tr client" "hashes h tr server"
  shows "HandshakeHash_current_hash (add_messages ms (HandshakeHashBuffer_start_hash h
      (buffer_messages hrr (HandshakeHash_into_hrr_buffer classify dns_ok client)))) =
      hash_hash h (message_hash_message (hash_hash h tr) @ concat (map handshake_bytes (hrr @ ms))) \<and>
    HandshakeHash_current_hash (add_messages (hrr @ ms) (HandshakeHash_rollup_for_hrr classify dns_ok server)) =
      hash_hash h (message_hash_message (hash_hash h tr) @ concat (map handshake_bytes (hrr @ ms)))"
  using hrr_transcripts_agree [OF assms, of ms hrr classify dns_ok]
    hashes_current [OF assms(1) hashes_add_messages [OF hashes_rollup [OF assms(1,3)], of "hrr @ ms" classify dns_ok]] by simp

theorem retry_transcripts_agree_witness:
  "HandshakeHash_current_hash (add_messages [] (HandshakeHash_rollup_for_hrr any_name any_dns
     (HandshakeHashBuffer_start_hash fuzz_Hash HandshakeHashBuffer_new))) = HASH_OUTPUT"
  using retry_transcripts_agree [OF fuzz_Hash_lawful hashes_start [of fuzz_Hash HandshakeHashBuffer_new]
      hashes_start [of fuzz_Hash HandshakeHashBuffer_new], of "[]" "[]" any_name any_dns]
  by (simp add: fuzz_Hash_def)

text \<open>
  Claim C30. What is signed in a CertificateVerify is 64 spaces, the context string of the role with
  its terminating zero, and the transcript hash; a signature made as a client never verifies as one
  made as a server.
\<close>

theorem certificate_verify_content:
  assumes "length hash \<le> Output_MAX_LEN" "length hash' \<le> Output_MAX_LEN"
  shows "map_option VerifyMessage_as_ref (construct_client_verify_message hash) = Some (replicate 64 0x20 @ CLIENT_CONSTANT @ hash) \<and>
    map_option VerifyMessage_as_ref (construct_server_verify_message hash') = Some (replicate 64 0x20 @ SERVER_CONSTANT @ hash') \<and>
    replicate 64 0x20 @ CLIENT_CONSTANT @ hash \<noteq> replicate 64 0x20 @ SERVER_CONSTANT @ hash'"
  using VerifyMessage_new_as_ref [OF length_constants(2) assms(1)] VerifyMessage_new_as_ref [OF length_constants(1) assms(2)]
    verify_messages_differ [OF assms]
  unfolding construct_client_verify_message_def construct_server_verify_message_def by metis

theorem certificate_verify_content_witness:
  "map_option VerifyMessage_as_ref (construct_client_verify_message [1, 2]) = Some (replicate 64 0x20 @ CLIENT_CONSTANT @ [1, 2])"
  using certificate_verify_content [of "[1, 2]" "[1, 2]"] by (simp add: Output_MAX_LEN_def)

subsection \<open>Decryption\<close>

text \<open>
  Claim C31. Trial decryption drops undecryptable records only up to the length it was given: over
  any run of records the dropped lengths and what is left of the allowance add up to it, so never
  more is dropped, and without trial decryption nothing is.
\<close>

theorem trial_decryption_bounded:
  assumes "decrypt_run D rs (set_record_decrypter_with_trial_decryption d max_length s) = Some (dropped, s')"
  shows "sum_list dropped + trial_budget s' = max_length"
  using decrypt_run_budget [OF assms] by (simp add: trial_budget_def set_record_decrypter_with_trial_decryption_def)

theorem trial_decryption_bounded_witness:
  "\<exists>dropped s'. decrypt_run fuzz_Tls13_decrypter [\<lparr>rec_typ = 23, rec_version = Legacy 0x0303, rec_payload = [1, 2, 3]\<rparr>]
      (set_record_decrypter_with_trial_decryption () 10 DecryptionState_new) = Some (dropped, s') \<and>
    sum_list dropped + trial_budget s' = 10 \<and> dropped = [3]"
proof -
  obtain s' where "decrypt_run fuzz_Tls13_decrypter [\<lparr>rec_typ = 23, rec_version = Legacy 0x0303, rec_payload = [1, 2, 3]\<rparr>]
      (set_record_decrypter_with_trial_decryption () 10 DecryptionState_new) = Some ([3], s')"
    by (simp add: decrypt_incoming_def set_record_decrypter_with_trial_decryption_def DecryptionState_new_def fuzz_Tls13_decrypter_def
        fuzz_Tls13Cipher_decrypt_def AEAD_OVERHEAD_def doing_trial_decryption_def checked_sub_def Let_def)
  from this trial_decryption_bounded [OF this] show ?thesis by blast
qed

text \<open>
  Claim C32. With an AEAD that opens what it sealed, each of the ring provider's ciphers, the one of
  TLS 1.3 and the AES-GCM and ChaCha20-Poly1305 ones of TLS 1.2, meets the contract of record
  protection: a record within the size limit is sealed without a panic into a payload of the announced
  length, under the additional data and nonce the peer computes, and the peer gets the record back.
\<close>

theorem ring_ciphers_protect:
  assumes "Aead_lawful A"
  shows "record_protection (ring_Tls13_RecordEncrypter A) (ring_Tls13_RecordDecrypter A)
      (\<lambda>e d. e = d \<and> iv12 (rc_iv e)) (\<lambda>t. t \<noteq> 0 \<and> t \<noteq> ContentType_ChangeCipherSpec)
      (\<lambda>_. Legacy ProtocolVersion_TLSv1_3) \<and>
    record_protection (ring_Gcm_RecordEncrypter A) (ring_Gcm_RecordDecrypter A)
      (\<lambda>e d. gd_key d = rc_key e \<and> iv12 (rc_iv e) \<and> gd_salt d = take 4 (Iv_as_ref (rc_iv e)))
      (\<lambda>t. t \<in> set ContentType_known \<and> t \<noteq> ContentType_ChangeCipherSpec) (\<lambda>v. Legacy (EncodableVersion_encode v)) \<and>
    record_protection (ring_ChaCha_RecordEncrypter A) (ring_ChaCha_RecordDecrypter A)
      (\<lambda>e d. e = d \<and> iv12 (rc_iv e)) (\<lambda>t. t \<in> set ContentType_known \<and> t \<noteq> ContentType_ChangeCipherSpec)
      (\<lambda>v. Legacy (EncodableVersion_encode v))"
  by (intro conjI ring_Tls13_protects ring_Gcm_protects ring_ChaCha_protects assms)

theorem ring_ciphers_protect_witness:
  "record_protection (ring_Tls13_RecordEncrypter plain_aead) (ring_Tls13_RecordDecrypter plain_aead)
    (\<lambda>e d. e = d \<and> iv12 (rc_iv e)) (\<lambda>t. t \<noteq> 0 \<and> t \<noteq> ContentType_ChangeCipherSpec)
    (\<lambda>_. Legacy ProtocolVersion_TLSv1_3)"
  using ring_ciphers_protect [OF plain_aead_lawful] by blast

end
